(* ===== verification/Prelude.thy ===== *)
theory Prelude
  imports Main "HOL-Library.AList" "HOL-Library.Char_ord" "HOL-Library.List_Lexorder"
begin

section \<open>Shared notions: association lists, Go strings, decimal numerals\<close>

text \<open>
  Go's \<open>map[string]V\<close> is an association list with distinct keys; the order of the list stands
  for the iteration order the runtime happens to pick, so a statement that holds for every
  order of the list holds for every iteration order. Go strings are byte strings
  (\<open>char list\<close>), compared byte by byte. The functions of \<open>strings\<close> that the program
  calls are written out below; case folding, white space and letters are those of the bytes
  below 128 unless a definition says otherwise.
\<close>

named_theorems store_simps "equations of the operations of the state stores"
named_theorems run_simps "equations of the steps of a sync run"

subsection \<open>Association lists as Go maps\<close>

abbreviation alookup :: "('k \<times> 'v) list \<Rightarrow> 'k \<Rightarrow> 'v option" where
  "alookup m k \<equiv> map_of m k"

abbreviation aput :: "'k \<Rightarrow> 'v \<Rightarrow> ('k \<times> 'v) list \<Rightarrow> ('k \<times> 'v) list" where
  "aput k v m \<equiv> AList.update k v m"

abbreviation adel :: "'k \<Rightarrow> ('k \<times> 'v) list \<Rightarrow> ('k \<times> 'v) list" where
  "adel k m \<equiv> AList.delete k m"

definition has_key :: "('k \<times> 'v) list \<Rightarrow> 'k \<Rightarrow> bool" where
  "has_key m k \<longleftrightarrow> map_of m k \<noteq> None"

lemma has_key_iff [simp]: "has_key m k \<longleftrightarrow> k \<in> fst ` set m"
  by (simp add: has_key_def map_of_eq_None_iff)

definition go_map :: "('k \<times> 'v) list \<Rightarrow> bool" where
  "go_map m \<longleftrightarrow> distinct (map fst m)"

lemma go_map_Nil [simp]: "go_map []"
  by (simp add: go_map_def)

lemma go_map_aput [simp]: "go_map m \<Longrightarrow> go_map (aput k v m)"
  by (simp add: go_map_def distinct_update)

lemma go_map_adel [simp]: "go_map m \<Longrightarrow> go_map (adel k m)"
  by (simp add: go_map_def distinct_delete)

lemma go_map_filter [simp]: "go_map m \<Longrightarrow> go_map (filter P m)"
  by (simp add: go_map_def distinct_map_filter)

lemma go_map_map_value [simp]: "go_map (map (\<lambda>(k, v). (k, f k v)) m) = go_map m"
  by (simp add: go_map_def comp_def split_def)

lemma map_of_map_value:
  "map_of (map (\<lambda>(k, v). (k, f k v)) m) x = map_option (f x) (map_of m x)"
  by (induction m) auto

lemma map_of_filter_key:
  "map_of (filter (\<lambda>(k, v). P k) m) x = (if P x then map_of m x else None)"
  by (induction m) auto

lemma map_of_in_set: "map_of m k = Some v \<Longrightarrow> (k, v) \<in> set m"
  by (rule map_of_SomeD)

lemma go_map_in_set: "go_map m \<Longrightarrow> map_of m k = Some v \<longleftrightarrow> (k, v) \<in> set m"
  by (simp add: go_map_def)

lemma keys_aput: "fst ` set (aput k v m) = insert k (fst ` set m)"
  by (induction m) auto

lemma keys_adel: "fst ` set (adel k m) = fst ` set m - {k}"
  by (auto simp: AList.delete_eq)

text \<open>Two lists denote the same Go map when they agree on every key.\<close>

definition same_map :: "('k \<times> 'v) list \<Rightarrow> ('k \<times> 'v) list \<Rightarrow> bool" where
  "same_map m n \<longleftrightarrow> (map_of m = map_of n)"

lemma same_map_keys: "same_map m n \<Longrightarrow> fst ` set m = fst ` set n"
  by (metis dom_map_of_conv_image_fst same_map_def)

lemma sort_keys_same_map:
  fixes m n :: "('k::linorder \<times> 'v) list"
  assumes "same_map m n" "go_map m" "go_map n"
  shows "sort (map fst m) = sort (map fst n)"
proof (rule sorted_distinct_set_unique)
  show "set (sort (map fst m)) = set (sort (map fst n))"
    using same_map_keys [OF assms(1)] by simp
qed (use assms in \<open>simp_all add: go_map_def\<close>)

lemma same_map_perm:
  assumes "go_map m" "set m = set n" "go_map n"
  shows "same_map m n"
proof -
  have "map_of m k = Some v \<longleftrightarrow> map_of n k = Some v" for k v
    using assms by (simp add: go_map_in_set)
  then have "map_of m k = map_of n k" for k
    by (metis not_None_eq)
  then show ?thesis by (simp add: same_map_def fun_eq_iff)
qed

subsection \<open>The functions of package strings\<close>

definition is_space :: "char \<Rightarrow> bool" where
  "is_space c \<longleftrightarrow> c \<in> {CHR '' '', CHR 0x09, CHR 0x0A, CHR 0x0B, CHR 0x0C, CHR 0x0D}"

definition is_digit :: "char \<Rightarrow> bool" where
  "is_digit c \<longleftrightarrow> CHR ''0'' \<le> c \<and> c \<le> CHR ''9''"

definition trim_space :: "string \<Rightarrow> string" where
  "trim_space s = rev (dropWhile is_space (rev (dropWhile is_space s)))"

definition lower_char :: "char \<Rightarrow> char" where
  "lower_char c = (let n = (of_char c :: nat) in
     if 65 \<le> n \<and> n \<le> 90 then char_of (n + 32) else c)"

definition upper_char :: "char \<Rightarrow> char" where
  "upper_char c = (let n = (of_char c :: nat) in
     if 97 \<le> n \<and> n \<le> 122 then char_of (n - 32) else c)"

definition to_lower :: "string \<Rightarrow> string" where
  "to_lower s = map lower_char s"

definition to_upper :: "string \<Rightarrow> string" where
  "to_upper s = map upper_char s"

fun has_prefix :: "string \<Rightarrow> string \<Rightarrow> bool" where
  "has_prefix s [] = True"
| "has_prefix [] (p # ps) = False"
| "has_prefix (c # s) (p # ps) = (c = p \<and> has_prefix s ps)"

definition has_suffix :: "string \<Rightarrow> string \<Rightarrow> bool" where
  "has_suffix s p = has_prefix (rev s) (rev p)"

fun contains_str :: "string \<Rightarrow> string \<Rightarrow> bool" where
  "contains_str [] p = (p = [])"
| "contains_str (c # s) p = (has_prefix (c # s) p \<or> contains_str s p)"

text \<open>\<open>strings.Join\<close>, and \<open>strings.Split\<close> for a separator of one byte.\<close>

fun join :: "string \<Rightarrow> string list \<Rightarrow> string" where
  "join sep [] = []"
| "join sep [x] = x"
| "join sep (x # y # ys) = x @ sep @ join sep (y # ys)"

fun split_char :: "char \<Rightarrow> string \<Rightarrow> string list" where
  "split_char c [] = [[]]"
| "split_char c (x # xs) =
     (if x = c then [] # split_char c xs
      else case split_char c xs of [] \<Rightarrow> [[x]] | y # ys \<Rightarrow> (x # y) # ys)"

text \<open>\<open>strings.SplitN(s, sep, 2)\<close>: the parts before and after the first separator.\<close>

fun split_once :: "string \<Rightarrow> string \<Rightarrow> (string \<times> string) option" where
  "split_once sep [] = (if sep = [] then Some ([], []) else None)"
| "split_once sep (c # s) =
     (if has_prefix (c # s) sep then Some ([], drop (length sep) (c # s))
      else map_option (\<lambda>(a, b). (c # a, b)) (split_once sep s))"

definition replace_char :: "char \<Rightarrow> string \<Rightarrow> string \<Rightarrow> string" where
  "replace_char c r s = concat (map (\<lambda>x. if x = c then r else [x]) s)"

lemma has_prefix_iff: "has_prefix s p \<longleftrightarrow> (\<exists>t. s = p @ t)"
  by (induction s p rule: has_prefix.induct) auto

lemma split_char_nonempty [simp]: "split_char c s \<noteq> []"
  by (cases s) (auto split: list.splits)

lemma split_char_no_sep: "x \<in> set (split_char c s) \<Longrightarrow> c \<notin> set x"
proof (induction s arbitrary: x)
  case (Cons a s)
  then show ?case
    by (cases "split_char c s") (auto split: if_splits)
qed simp

lemma join_split_char: "join [c] (split_char c s) = s"
proof (induction s)
  case (Cons a s)
  then show ?case
    by (cases "split_char c s" rule: list.exhaust [case_names Nil Cons])
       (auto split: list.splits, (metis join.simps list.exhaust append_Cons append_Nil)+)
qed simp

lemma split_char_append_sep:
  "c \<notin> set a \<Longrightarrow> split_char c (a @ c # b) = a # split_char c b"
  by (induction a) auto

lemma split_char_no_occurrence: "c \<notin> set a \<Longrightarrow> split_char c a = [a]"
  by (induction a) auto

lemma split_char_join:
  assumes "xs \<noteq> []" "\<forall>x \<in> set xs. c \<notin> set x"
  shows "split_char c (join [c] xs) = xs"
  using assms
  by (induction "[c]" xs rule: join.induct)
     (auto simp: split_char_append_sep split_char_no_occurrence)

lemma length_trim_space: "length (trim_space s) \<le> length s"
proof -
  have "length (trim_space s) \<le> length (dropWhile is_space s)"
    unfolding trim_space_def by (metis length_dropWhile_le length_rev)
  also have "\<dots> \<le> length s" by (rule length_dropWhile_le)
  finally show ?thesis .
qed

subsection \<open>Decimal numerals\<close>

definition digit_char :: "int \<Rightarrow> char" where
  "digit_char n = char_of (48 + n)"

function dec_pos :: "int \<Rightarrow> string" where
  "dec_pos n = (if n < 10 then [digit_char n] else dec_pos (n div 10) @ [digit_char (n mod 10)])"
  by pat_completeness auto
termination
  by (relation "measure nat") auto

declare dec_pos.simps [simp del]

definition dec_int :: "int \<Rightarrow> string" where
  "dec_int i = (if i < 0 then ''-'' @ dec_pos (- i) else dec_pos i)"

definition dec_nat :: "nat \<Rightarrow> string" where
  "dec_nat n = dec_pos (int n)"

definition char_digit :: "char \<Rightarrow> int" where
  "char_digit c = of_char c - 48"

definition read_int :: "string \<Rightarrow> int" where
  "read_int s = foldl (\<lambda>n c. 10 * n + char_digit c) 0 s"

lemma of_char_digit_char: "0 \<le> n \<Longrightarrow> n < 10 \<Longrightarrow> of_char (digit_char n) = (48 + n :: int)"
  by (simp add: digit_char_def)

lemma char_digit_digit_char [simp]: "0 \<le> n \<Longrightarrow> n < 10 \<Longrightarrow> char_digit (digit_char n) = n"
  by (simp add: char_digit_def of_char_digit_char)

lemma is_digit_of_char: "is_digit c \<longleftrightarrow> 48 \<le> (of_char c :: int) \<and> (of_char c :: int) \<le> 57"
proof -
  have "is_digit c \<longleftrightarrow> 48 \<le> (of_char c :: nat) \<and> (of_char c :: nat) \<le> 57"
    by (simp add: is_digit_def less_eq_char_def)
  also have "\<dots> \<longleftrightarrow> 48 \<le> (of_char c :: int) \<and> (of_char c :: int) \<le> 57"
    using of_nat_of_char [of c, where 'a = int] by linarith
  finally show ?thesis .
qed

lemma is_digit_digit_char [simp]: "0 \<le> n \<Longrightarrow> n < 10 \<Longrightarrow> is_digit (digit_char n)"
  by (simp add: is_digit_of_char of_char_digit_char)

lemma read_int_snoc: "read_int (s @ [c]) = 10 * read_int s + char_digit c"
  by (simp add: read_int_def)

lemma read_dec_pos [simp]: "0 \<le> n \<Longrightarrow> read_int (dec_pos n) = n"
proof (induction n rule: dec_pos.induct)
  case (1 n)
  show ?case
  proof (cases "n < 10")
    case True
    with 1 show ?thesis by (simp add: dec_pos.simps [of n] read_int_def)
  next
    case False
    with 1 show ?thesis by (simp add: dec_pos.simps [of n] read_int_snoc)
  qed
qed

lemma dec_pos_inj: "0 \<le> m \<Longrightarrow> 0 \<le> n \<Longrightarrow> dec_pos m = dec_pos n \<longleftrightarrow> m = n"
  by (metis read_dec_pos)

lemma dec_nat_inj: "dec_nat m = dec_nat n \<longleftrightarrow> m = n"
  by (simp add: dec_nat_def dec_pos_inj)

lemma dec_pos_digits: "0 \<le> n \<Longrightarrow> c \<in> set (dec_pos n) \<Longrightarrow> is_digit c"
proof (induction n rule: dec_pos.induct)
  case (1 n)
  then show ?case
    by (cases "n < 10") (auto simp: dec_pos.simps [of n])
qed

lemma dec_pos_nonempty [simp]: "dec_pos n \<noteq> []"
  by (simp add: dec_pos.simps [of n])

lemma dec_int_inj: "dec_int i = dec_int j \<longleftrightarrow> i = j"
proof
  have minus: "dec_pos n \<noteq> CHR ''-'' # s" if "0 \<le> n" for n s
    using dec_pos_digits [OF that, of "CHR ''-''"] by (auto simp: is_digit_of_char)
  assume "dec_int i = dec_int j"
  then show "i = j"
    using minus [of i] minus [of j] minus [of i, symmetric] minus [of j, symmetric]
    by (auto simp: dec_int_def dec_pos_inj split: if_splits)
qed simp

text \<open>Padding with zeros to a width, as the date layouts do.\<close>

definition pad_int :: "nat \<Rightarrow> int \<Rightarrow> string" where
  "pad_int w n = (let s = dec_pos n in replicate (w - length s) (CHR ''0'') @ s)"

subsection \<open>Errors\<close>

text \<open>
  Go errors as values: the sentinels the code compares with \<open>errors.Is\<close>, a plain message
  (\<open>fmt.Errorf\<close> without \<open>%w\<close>), and a wrapped error (\<open>fmt.Errorf("prefix: %w", err)\<close>). A
  fallible function returns \<open>Inl\<close> the error or \<open>Inr\<close> the value.
\<close>

datatype go_error =
    ErrCanceled
  | ErrDeadline
  | ErrCircuitOpen
  | ErrMsg string
  | ErrWrap string go_error

type_synonym 'a res = "go_error + 'a"

primrec err_text :: "go_error \<Rightarrow> string" where
  "err_text ErrCanceled = ''context canceled''"
| "err_text ErrDeadline = ''context deadline exceeded''"
| "err_text ErrCircuitOpen = ''circuit breaker is open''"
| "err_text (ErrMsg s) = s"
| "err_text (ErrWrap p e) = p @ '': '' @ err_text e"

text \<open>\<open>errors.Is(err, target)\<close> follows the chain of wrapped errors.\<close>

fun error_is :: "go_error \<Rightarrow> go_error \<Rightarrow> bool" where
  "error_is (ErrWrap p e) t = (ErrWrap p e = t \<or> error_is e t)"
| "error_is e t = (e = t)"

lemma error_is_refl [simp]: "error_is e e"
  by (cases e) auto

definition em_dash :: string where
  "em_dash = [CHR 0xE2, CHR 0x80, CHR 0x94]"

text \<open>The verb \<open>%q\<close> (\<open>strconv.Quote\<close>); bytes above 127 belong to printable runes and are copied.\<close>

definition hex_digit :: "nat \<Rightarrow> char" where
  "hex_digit n = (if n < 10 then digit_char (int n) else char_of (87 + n))"

definition quote_char :: "char \<Rightarrow> string" where
  "quote_char c =
     (let n = (of_char c :: nat); b = CHR 0x5C in
      if n = 34 then [b, CHR 0x22] else if n = 92 then [b, b]
      else if n = 7 then b # ''a'' else if n = 8 then b # ''b'' else if n = 12 then b # ''f''
      else if n = 10 then b # ''n'' else if n = 13 then b # ''r'' else if n = 9 then b # ''t''
      else if n = 11 then b # ''v''
      else if n < 32 \<or> n = 127 then b # ''x'' @ [hex_digit (n div 16), hex_digit (n mod 16)]
      else [c])"

definition quote_q :: "string \<Rightarrow> string" where
  "quote_q s = CHR 0x22 # concat (map quote_char s) @ [CHR 0x22]"

subsection \<open>Polling a context\<close>

text \<open>
  A \<open>context.Context\<close> is seen by the code only through the answers to \<open>ctx.Err()\<close>, and once
  it is cancelled it stays cancelled. It is modelled by the number of further polls that still
  answer "not cancelled" (\<open>None\<close>: it is never cancelled).
\<close>

type_synonym go_ctx = "nat option"

fun ctx_poll :: "go_ctx \<Rightarrow> bool \<times> go_ctx" where
  "ctx_poll None = (False, None)"
| "ctx_poll (Some 0) = (True, Some 0)"
| "ctx_poll (Some (Suc n)) = (False, Some n)"

lemma ctx_poll_never [simp]: "fst (ctx_poll None) = False" "snd (ctx_poll None) = None"
  by simp_all

lemma ctx_poll_sticky: "ctx_poll c = (True, c') \<Longrightarrow> c' = c \<and> ctx_poll c' = (True, c')"
  by (cases c rule: ctx_poll.cases) auto

end
