(* ===== verification/Go_Value.thy ===== *)
theory Go_Value
  imports Prelude Complex_Main
begin

section \<open>Go values: any, float64, formatting and JSON\<close>

text \<open>
  The dynamic values (\<open>any\<close>) that rows, payloads and remembered state carry, and the standard
  library functions the program applies to them: \<open>fmt.Sprintf("%v", v)\<close>, \<open>json.Marshal\<close> and
  the RFC 3339 layouts of package time. \<open>float64\<close> is modelled by its rational value with the
  rounding of IEEE 754 binary64 (nearest, ties to even) written out; negative zero is not
  distinguished from zero. All integer types of Go share the constructor \<open>GInt\<close>. Times are
  nanoseconds since the Unix epoch, in UTC, as the sources deliver them. Strings are formatted
  to JSON byte by byte; bytes above 127 are copied, which is what Go does for valid UTF-8.
\<close>

subsection \<open>float64\<close>

datatype f64 = FFin rat | FNaN | FPosInf | FNegInf

definition pow2 :: "int \<Rightarrow> rat" where
  "pow2 e = (if 0 \<le> e then 2 ^ nat e else 1 / 2 ^ nat (- e))"

definition pow10 :: "int \<Rightarrow> rat" where
  "pow10 e = (if 0 \<le> e then 10 ^ nat e else 1 / 10 ^ nat (- e))"

text \<open>\<open>a / b\<close> rounded to an integer, ties to even, for \<open>b > 0\<close>.\<close>

definition round_half_even :: "int \<Rightarrow> int \<Rightarrow> int" where
  "round_half_even a b = (let f = a div b; r = a mod b in
     if 2 * r < b then f else if b < 2 * r then f + 1 else if even f then f else f + 1)"

text \<open>\<open>a * base ^ e / b\<close> rounded to an integer, for either sign of \<open>e\<close>.\<close>

definition scaled :: "int \<Rightarrow> int \<Rightarrow> int \<Rightarrow> int \<Rightarrow> int" where
  "scaled base a b e = (if 0 \<le> e then round_half_even (a * base ^ nat e) b
                        else round_half_even a (b * base ^ nat (- e)))"

function bit_len :: "int \<Rightarrow> int" where
  "bit_len n = (if n \<le> 0 then 0 else 1 + bit_len (n div 2))"
  by pat_completeness auto
termination
  by (relation "measure nat") auto

declare bit_len.simps [simp del]

text \<open>Whether \<open>base ^ e \<le> a / b\<close>.\<close>

definition power_le :: "int \<Rightarrow> int \<Rightarrow> int \<Rightarrow> int \<Rightarrow> bool" where
  "power_le base e a b =
     (if 0 \<le> e then b * base ^ nat e \<le> a else b \<le> a * base ^ nat (- e))"

text \<open>The exponent of the leading bit: \<open>2 ^ e \<le> a / b < 2 ^ (e + 1)\<close> for positive \<open>a\<close>, \<open>b\<close>.\<close>

definition lead_exp :: "int \<Rightarrow> int \<Rightarrow> int" where
  "lead_exp a b = (let e = bit_len a - bit_len b in if power_le 2 e a b then e else e - 1)"

text \<open>
  The nearest float of \<open>a / b\<close>: 53 significant bits, the exponent of the last one at least
  \<open>-1074\<close>.
\<close>

definition round_pos :: "int \<Rightarrow> int \<Rightarrow> rat" where
  "round_pos a b = (let u = max (lead_exp a b - 52) (- 1074)
                    in of_int (scaled 2 a b (- u)) * pow2 u)"

definition f64_of_rat :: "rat \<Rightarrow> f64" where
  "f64_of_rat q =
     (if q = 0 then FFin 0
      else case quotient_of q of (a, b) \<Rightarrow>
        let r = round_pos \<bar>a\<bar> b in
        if lead_exp \<bar>a\<bar> b < 1023 then FFin (if 0 < a then r else - r)
        else if r < pow2 1024 then FFin (if 0 < a then r else - r)
        else if 0 < a then FPosInf else FNegInf)"

definition f64_of_int :: "int \<Rightarrow> f64" where
  "f64_of_int i = f64_of_rat (of_int i)"

fun f64_eq :: "f64 \<Rightarrow> f64 \<Rightarrow> bool" where
  "f64_eq FNaN y = False"
| "f64_eq x FNaN = False"
| "f64_eq x y = (x = y)"

fun f64_less :: "f64 \<Rightarrow> f64 \<Rightarrow> bool" where
  "f64_less (FFin p) (FFin q) = (p < q)"
| "f64_less (FFin p) FPosInf = True"
| "f64_less FNegInf (FFin q) = True"
| "f64_less FNegInf FPosInf = True"
| "f64_less x y = False"

definition f64_le :: "f64 \<Rightarrow> f64 \<Rightarrow> bool" where
  "f64_le x y \<longleftrightarrow> f64_less x y \<or> f64_eq x y"

text \<open>Division as the ratio check uses it: a finite dividend and a finite non-zero divisor.\<close>

fun f64_div :: "f64 \<Rightarrow> f64 \<Rightarrow> f64" where
  "f64_div (FFin p) (FFin q) =
     (if q \<noteq> 0 then f64_of_rat (p / q)
      else if p = 0 then FNaN else if 0 < p then FPosInf else FNegInf)"
| "f64_div (FFin p) FPosInf = FFin 0"
| "f64_div (FFin p) FNegInf = FFin 0"
| "f64_div FPosInf (FFin q) = (if q < 0 then FNegInf else FPosInf)"
| "f64_div FNegInf (FFin q) = (if q < 0 then FPosInf else FNegInf)"
| "f64_div x y = FNaN"

fun f64_mul :: "f64 \<Rightarrow> f64 \<Rightarrow> f64" where
  "f64_mul (FFin p) (FFin q) = f64_of_rat (p * q)"
| "f64_mul FNaN y = FNaN"
| "f64_mul x FNaN = FNaN"
| "f64_mul (FFin p) FPosInf = (if p = 0 then FNaN else if 0 < p then FPosInf else FNegInf)"
| "f64_mul (FFin p) FNegInf = (if p = 0 then FNaN else if 0 < p then FNegInf else FPosInf)"
| "f64_mul FPosInf (FFin q) = (if q = 0 then FNaN else if 0 < q then FPosInf else FNegInf)"
| "f64_mul FNegInf (FFin q) = (if q = 0 then FNaN else if 0 < q then FNegInf else FPosInf)"
| "f64_mul FPosInf FPosInf = FPosInf"
| "f64_mul FPosInf FNegInf = FNegInf"
| "f64_mul FNegInf FPosInf = FNegInf"
| "f64_mul FNegInf FNegInf = FPosInf"

subsection \<open>Shortest decimal digits\<close>

text \<open>
  The shortest decimal digits that read back as the same float (\<open>strconv\<close>, precision
  \<open>-1\<close>): the digits \<open>m\<close> and the decimal point \<open>dp\<close>, value \<open>0.m * 10 ^ dp\<close>. Seventeen digits
  always suffice for binary64.
\<close>

definition dec_point :: "int \<Rightarrow> int \<Rightarrow> int" where
  "dec_point a b = (let e = int (length (dec_pos a)) - int (length (dec_pos b))
                    in if power_le 10 e a b then e + 1 else e)"

fun shortest_from :: "nat \<Rightarrow> int \<Rightarrow> int \<Rightarrow> int \<Rightarrow> int \<Rightarrow> int \<times> int" where
  "shortest_from 0 nd a b dp = (nd, scaled 10 a b (nd - dp))"
| "shortest_from (Suc k) nd a b dp =
     (let m = scaled 10 a b (nd - dp)
      in if f64_of_rat (of_int m * pow10 (dp - nd)) = FFin (of_int a / of_int b) then (nd, m)
         else shortest_from k (nd + 1) a b dp)"

definition strip_zeros :: "string \<Rightarrow> string" where
  "strip_zeros s = rev (dropWhile (\<lambda>c. c = CHR ''0'') (rev s))"

text \<open>A carry in the rounding (\<open>9.96\<close> to \<open>10\<close>) moves the decimal point.\<close>

definition shortest_digits :: "rat \<Rightarrow> string \<times> int" where
  "shortest_digits q =
     (case quotient_of q of (a, b) \<Rightarrow>
      let dp = dec_point a b; (nd, m) = shortest_from 16 1 a b dp
      in (strip_zeros (dec_pos m), if 10 ^ nat nd \<le> m then dp + 1 else dp))"

definition zeros :: "nat \<Rightarrow> string" where
  "zeros n = replicate n (CHR ''0'')"

text \<open>The \<open>%f\<close> and \<open>%e\<close> layouts of \<open>strconv\<close> for given digits.\<close>

definition fmt_fixed :: "string \<times> int \<Rightarrow> string" where
  "fmt_fixed d = (case d of (ds, dp) \<Rightarrow>
     let n = int (length ds) in
     if dp \<le> 0 then ''0.'' @ zeros (nat (- dp)) @ ds
     else if n \<le> dp then ds @ zeros (nat (dp - n))
     else take (nat dp) ds @ ''.'' @ drop (nat dp) ds)"

definition fmt_exp :: "nat \<Rightarrow> string \<times> int \<Rightarrow> string" where
  "fmt_exp w d = (case d of (ds, dp) \<Rightarrow>
     let e = dp - 1 in
     take 1 ds @ (if length ds \<le> 1 then [] else ''.'' @ drop 1 ds)
       @ ''e'' @ (if e < 0 then ''-'' else ''+'') @ pad_int w \<bar>e\<bar>)"

text \<open>
  \<open>fmt\<close> with \<open>%v\<close> is the shortest \<open>%g\<close>: exponent form for decimal exponents below \<open>-4\<close> and
  from \<open>6\<close> on, so that \<open>float64(1500000)\<close> prints as \<open>1.5e+06\<close>.
\<close>

definition fmt_g_pos :: "rat \<Rightarrow> string" where
  "fmt_g_pos q = (let d = shortest_digits q; e = snd d - 1
                  in if e < - 4 \<or> 6 \<le> e then fmt_exp 2 d else fmt_fixed d)"


text \<open>\<open>encoding/json\<close>: fixed form between \<open>1e-6\<close> and \<open>1e21\<close>, exponents without a leading zero.\<close>

definition fmt_json_pos :: "rat \<Rightarrow> string" where
  "fmt_json_pos q = (let d = shortest_digits q in
     if q < pow10 (- 6) then fmt_exp 1 d
     else if pow10 21 \<le> q then fmt_exp 2 d else fmt_fixed d)"

fun signed :: "(rat \<Rightarrow> string) \<Rightarrow> rat \<Rightarrow> string" where
  "signed f q = (if q = 0 then ''0'' else if q < 0 then ''-'' @ f (- q) else f q)"

fun fmt_v_f64 :: "f64 \<Rightarrow> string" where
  "fmt_v_f64 (FFin q) = signed fmt_g_pos q"
| "fmt_v_f64 FNaN = ''NaN''"
| "fmt_v_f64 FPosInf = ''+Inf''"
| "fmt_v_f64 FNegInf = ''-Inf''"

text \<open>The verb \<open>%.nf\<close>: the exact value rounded to \<open>n\<close> decimals.\<close>

definition fmt_prec_pos :: "nat \<Rightarrow> rat \<Rightarrow> string" where
  "fmt_prec_pos n q = (case quotient_of q of (a, b) \<Rightarrow>
     let m = scaled 10 a b (int n); p = 10 ^ n in
     dec_pos (m div p) @ (if n = 0 then [] else ''.'' @ pad_int n (m mod p)))"

fun fmt_prec :: "nat \<Rightarrow> f64 \<Rightarrow> string" where
  "fmt_prec n (FFin q) = (if q < 0 then ''-'' @ fmt_prec_pos n (- q) else fmt_prec_pos n q)"
| "fmt_prec n FNaN = ''NaN''"
| "fmt_prec n FPosInf = ''+Inf''"
| "fmt_prec n FNegInf = ''-Inf''"

subsection \<open>Times\<close>

type_synonym go_time = int

definition second_ns :: int where
  "second_ns = 1000000000"

text \<open>The zero \<open>time.Time\<close>: 1 January of year 1, 00:00:00 UTC.\<close>

definition time_zero :: go_time where
  "time_zero = - 62135596800 * second_ns"

definition is_zero :: "go_time \<Rightarrow> bool" where
  "is_zero t \<longleftrightarrow> t = time_zero"

text \<open>Year, month and day of a day number (days since 1 January 1970).\<close>

definition civil :: "int \<Rightarrow> int \<times> int \<times> int" where
  "civil d =
     (let z = d + 719468; era = z div 146097; doe = z mod 146097;
          yoe = (doe - doe div 1460 + doe div 36524 - doe div 146096) div 365;
          doy = doe - (365 * yoe + yoe div 4 - yoe div 100);
          mp = (5 * doy + 2) div 153;
          day = doy - (153 * mp + 2) div 5 + 1;
          month = (if mp < 10 then mp + 3 else mp - 9);
          year = yoe + era * 400 + (if month \<le> 2 then 1 else 0)
      in (year, month, day))"

definition fmt_year :: "int \<Rightarrow> string" where
  "fmt_year y = (if y < 0 then ''-'' @ pad_int 4 (- y) else pad_int 4 y)"

definition fmt_date :: "go_time \<Rightarrow> string" where
  "fmt_date t = (case civil (t div (86400 * second_ns)) of (y, m, d) \<Rightarrow>
     fmt_year y @ ''-'' @ pad_int 2 m @ ''-'' @ pad_int 2 d)"

definition fmt_clock :: "go_time \<Rightarrow> string" where
  "fmt_clock t = (let s = (t div second_ns) mod 86400 in
     pad_int 2 (s div 3600) @ '':'' @ pad_int 2 (s div 60 mod 60) @ '':''
       @ pad_int 2 (s mod 60))"

definition fmt_frac :: "go_time \<Rightarrow> string" where
  "fmt_frac t = (let f = strip_zeros (pad_int 9 (t mod second_ns))
                 in if f = [] then [] else ''.'' @ f)"

definition rfc3339 :: "go_time \<Rightarrow> string" where
  "rfc3339 t = fmt_date t @ ''T'' @ fmt_clock t @ ''Z''"

definition rfc3339_nano :: "go_time \<Rightarrow> string" where
  "rfc3339_nano t = fmt_date t @ ''T'' @ fmt_clock t @ fmt_frac t @ ''Z''"

definition time_string :: "go_time \<Rightarrow> string" where
  "time_string t = fmt_date t @ '' '' @ fmt_clock t @ fmt_frac t @ '' +0000 UTC''"

subsection \<open>Dynamic values\<close>

datatype gval =
    GNil
  | GBool bool
  | GInt int
  | GFloat f64
  | GStr string
  | GTime go_time
  | GTimePtr "go_time option"
  | GMap "(string \<times> gval) list"
  | GList "gval list"

type_synonym payload = "(string \<times> gval) list"

text \<open>\<open>fmt.Sprintf("%v", v)\<close>: maps print their entries in the order of their keys.\<close>

fun sprint_v :: "gval \<Rightarrow> string" where
  "sprint_v GNil = ''<nil>''"
| "sprint_v (GBool b) = (if b then ''true'' else ''false'')"
| "sprint_v (GInt i) = dec_int i"
| "sprint_v (GFloat x) = fmt_v_f64 x"
| "sprint_v (GStr s) = s"
| "sprint_v (GTime t) = time_string t"
| "sprint_v (GTimePtr p) = (case p of None \<Rightarrow> ''<nil>'' | Some t \<Rightarrow> time_string t)"
| "sprint_v (GMap m) =
     ''map['' @ join '' '' (map (\<lambda>(k, s). k @ '':'' @ s)
        (sort_key fst (map (\<lambda>(k, v). (k, sprint_v v)) m))) @ '']''"
| "sprint_v (GList xs) = ''['' @ join '' '' (map sprint_v xs) @ '']''"

subsection \<open>json.Marshal\<close>

definition json_escape :: "char \<Rightarrow> string" where
  "json_escape c =
     (let n = (of_char c :: nat) in
      if n = 34 then [CHR 0x5C, CHR 0x22]
      else if n = 92 then [CHR 0x5C, CHR 0x5C]
      else if n = 8 then CHR 0x5C # ''b''
      else if n = 12 then CHR 0x5C # ''f''
      else if n = 10 then CHR 0x5C # ''n''
      else if n = 13 then CHR 0x5C # ''r''
      else if n = 9 then CHR 0x5C # ''t''
      else if n < 32 \<or> n = 60 \<or> n = 62 \<or> n = 38
        then CHR 0x5C # ''u00'' @ [hex_digit (n div 16), hex_digit (n mod 16)]
      else [c])"

definition json_string :: "string \<Rightarrow> string" where
  "json_string s = CHR 0x22 # concat (map json_escape s) @ [CHR 0x22]"

text \<open>
  \<open>json.Marshal\<close> fails on a NaN or an infinity anywhere in the value (\<open>None\<close>). Map keys are
  written in sorted order.
\<close>

fun all_some :: "'a option list \<Rightarrow> 'a list option" where
  "all_some [] = Some []"
| "all_some (None # xs) = None"
| "all_some (Some x # xs) = map_option ((#) x) (all_some xs)"

fun json_marshal :: "gval \<Rightarrow> string option" where
  "json_marshal GNil = Some ''null''"
| "json_marshal (GBool b) = Some (if b then ''true'' else ''false'')"
| "json_marshal (GInt i) = Some (dec_int i)"
| "json_marshal (GFloat x) = (case x of FFin q \<Rightarrow> Some (signed fmt_json_pos q) | _ \<Rightarrow> None)"
| "json_marshal (GStr s) = Some (json_string s)"
| "json_marshal (GTime t) = Some (json_string (rfc3339_nano t))"
| "json_marshal (GTimePtr p) =
     Some (case p of None \<Rightarrow> ''null'' | Some t \<Rightarrow> json_string (rfc3339_nano t))"
| "json_marshal (GMap m) =
     map_option (\<lambda>es. ''{'' @ join '','' (map (\<lambda>(k, s). json_string k @ '':'' @ s)
                   (sort_key fst (zip (map fst m) es))) @ ''}'')
       (all_some (map (\<lambda>(k, v). json_marshal v) m))"
| "json_marshal (GList xs) =
     map_option (\<lambda>es. ''['' @ join '','' es @ '']'') (all_some (map json_marshal xs))"

end
