(* ===== verification/Config.thy ===== *)
theory Config
  imports Prelude Go_Value
begin

section \<open>Sync configuration: pkg/config/sync\<close>

text \<open>
  The records of \<open>pkg/config/sync/config.go\<close>, the expansion of environment placeholders
  (\<open>env.go\<close>), the defaults (\<open>load.go\<close>) and the validation (\<open>validate.go\<close>). The YAML decoder
  is third-party code, so parsing takes it as a parameter; the predicate shorthands that the
  program itself decodes are translated. Pointers that mark presence are booleans or options.
\<close>

subsection \<open>The records\<close>

record watermark_config =
  wm_column :: string
  wm_type :: string

record mapping_entry =
  me_source :: string
  me_dest :: string
  me_exclude :: bool
  me_redacted :: bool

text \<open>\<open>DestName\<close>: the effective destination field.\<close>

definition dest_name :: "mapping_entry \<Rightarrow> string" where
  "dest_name m = (if me_dest m \<noteq> [] then me_dest m else me_source m)"

record auth_config =
  au_type :: string
  au_token :: string
  au_client_id :: string
  au_client_secret :: string
  au_token_url :: string
  au_scopes :: "string list"
  au_key :: string
  au_value :: string
  au_in_header :: bool
  au_username :: string
  au_password :: string

record source_config =
  so_type :: string
  so_url :: string
  so_table :: string
  so_query :: string
  so_entity_key :: string
  so_watermark :: "watermark_config option"
  so_batch_size :: int
  so_auth :: "auth_config option"

record dest_config =
  de_type :: string
  de_url :: string
  de_auth :: "auth_config option"
  de_object :: string
  de_table :: string
  de_match_on :: "string list"
  de_method :: string
  de_options :: "(string \<times> string) list"

record fingerprint_config =
  fc_include :: "string list"
  fc_exclude :: "string list"

record state_config =
  sc_backend :: string
  sc_path :: string
  sc_connection :: string
  sc_key_prefix :: string
  sc_fingerprint :: fingerprint_config

record transitioned_config =
  tc_field :: string
  tc_from :: string
  tc_to :: string

text \<open>
  \<open>WhenConfig\<close> is a struct whose fields are all optional; nothing in the type forces exactly one
  of them to be set, so neither does the model.
\<close>

datatype when_config =
  When (w_first_seen: bool) (w_fp_changed: bool)
       (w_transitioned: "transitioned_config option") (w_only: "string list")
       (w_any: "when_config option list") (w_all: "when_config option list")
       (w_not: "when_config option")

record rule_config =
  ru_name :: string
  ru_when :: when_config
  ru_once :: bool
  ru_action :: string
  ru_remember :: "(string \<times> string) list"

record decisions_config =
  dc_default :: string
  dc_rules :: "rule_config list"

record on_missing_config =
  om_action :: string
  om_fields :: "string list"
  om_after :: int
  om_allow :: bool

record safety_config =
  sf_max_creates :: int
  sf_max_updates :: int
  sf_max_deletes :: int
  sf_approval_above :: f64
  sf_dry_run_required :: bool
  sf_ratios :: "(string \<times> f64) list"
  sf_approval_for :: "string list"

record errors_config =
  er_on_error :: string
  er_max_retries :: int
  er_dlq_path :: string
  er_webhook :: string
  er_dlq2_path :: string

text \<open>\<open>ResolvedDLQPath\<close>: \<open>dlq.path\<close> if set, the top-level \<open>dlq_path\<close> otherwise.\<close>

definition resolved_dlq_path :: "errors_config \<Rightarrow> string" where
  "resolved_dlq_path e = (if er_dlq2_path e \<noteq> [] then er_dlq2_path e else er_dlq_path e)"

record artifacts_config =
  ac_path :: string
  ac_max_samples :: int

record sync_spec =
  sp_name :: string
  sp_source :: source_config
  sp_mapping :: "mapping_entry list"
  sp_required :: "string list"
  sp_dest :: dest_config
  sp_state :: state_config
  sp_decisions :: decisions_config
  sp_missing :: on_missing_config
  sp_safety :: safety_config
  sp_errors :: errors_config
  sp_artifacts :: artifacts_config
  sp_metrics_path :: string
  sp_cron :: string

subsection \<open>Predicate shorthands: UnmarshalYAML\<close>

definition when_empty :: when_config where
  "when_empty = When False False None [] [] [] None"

definition unmarshal_when_scalar :: "string \<Rightarrow> when_config res" where
  "unmarshal_when_scalar v =
     (if trim_space v = ''first_seen()'' then Inr (When True False None [] [] [] None)
      else if trim_space v = ''fingerprint_changed()''
        then Inr (When False True None [] [] [] None)
      else Inl (ErrMsg (''unknown predicate shorthand '' @ quote_q v)))"

subsection \<open>Environment placeholders: env.go\<close>

text \<open>
  \<open>expandEnv\<close>: every leftmost match of \<open>${...}\<close> with a non-empty name free of closing braces is
  replaced by the value of the variable, and left as it is when the variable is not set. The
  scan resumes after the match, so a value is not expanded again.
\<close>

definition env_match :: "string \<Rightarrow> (string \<times> string) option" where
  "env_match s =
     (case s of
        a # b # r \<Rightarrow>
          (if a = CHR ''$'' \<and> b = CHR ''{'' then
             (let key = takeWhile (\<lambda>c. c \<noteq> CHR ''}'') r; rest = dropWhile (\<lambda>c. c \<noteq> CHR ''}'') r
              in if key \<noteq> [] \<and> rest \<noteq> [] then Some (key, tl rest) else None)
           else None)
      | _ \<Rightarrow> None)"

lemma env_match_shorter: "env_match s = Some (key, rest) \<Longrightarrow> length rest < length s"
proof -
  assume "env_match s = Some (key, rest)"
  then obtain a b r where "s = a # b # r" "rest = tl (dropWhile (\<lambda>c. c \<noteq> CHR ''}'') r)"
    by (auto simp: env_match_def Let_def split: list.splits if_splits)
  moreover have "length (tl (dropWhile P r)) \<le> length r" for P
    by (metis diff_le_self le_trans length_dropWhile_le length_tl)
  ultimately show ?thesis by (simp add: le_imp_less_Suc less_SucI)
qed

function expand_env :: "(string \<Rightarrow> string option) \<Rightarrow> string \<Rightarrow> string" where
  "expand_env env [] = []"
| "expand_env env (c # s) =
     (case env_match (c # s) of
        None \<Rightarrow> c # expand_env env s
      | Some (key, rest) \<Rightarrow>
          (case env key of
             Some v \<Rightarrow> v
           | None \<Rightarrow> ''${'' @ key @ ''}'') @ expand_env env rest)"
  by pat_completeness auto
termination
  by (relation "measure (\<lambda>(env, s). length s)") (auto dest: env_match_shorter)

definition apply_env_auth :: "(string \<Rightarrow> string option) \<Rightarrow> auth_config \<Rightarrow> auth_config" where
  "apply_env_auth env a = a\<lparr>
     au_token := expand_env env (au_token a),
     au_client_id := expand_env env (au_client_id a),
     au_client_secret := expand_env env (au_client_secret a),
     au_token_url := expand_env env (au_token_url a),
     au_key := expand_env env (au_key a),
     au_value := expand_env env (au_value a),
     au_username := expand_env env (au_username a),
     au_password := expand_env env (au_password a)\<rparr>"

definition apply_env_source :: "(string \<Rightarrow> string option) \<Rightarrow> source_config \<Rightarrow> source_config" where
  "apply_env_source env s = s\<lparr>
     so_url := expand_env env (so_url s),
     so_query := expand_env env (so_query s),
     so_auth := map_option (apply_env_auth env) (so_auth s)\<rparr>"

definition apply_env_dest :: "(string \<Rightarrow> string option) \<Rightarrow> dest_config \<Rightarrow> dest_config" where
  "apply_env_dest env d = d\<lparr>
     de_url := expand_env env (de_url d),
     de_auth := map_option (apply_env_auth env) (de_auth d),
     de_options := map (\<lambda>(k, v). (k, expand_env env v)) (de_options d)\<rparr>"

definition apply_env :: "(string \<Rightarrow> string option) \<Rightarrow> sync_spec \<Rightarrow> sync_spec" where
  "apply_env env s = s\<lparr>
     sp_name := expand_env env (sp_name s),
     sp_source := apply_env_source env (sp_source s),
     sp_dest := apply_env_dest env (sp_dest s),
     sp_state := (sp_state s)\<lparr>
       sc_connection := expand_env env (sc_connection (sp_state s)),
       sc_path := expand_env env (sc_path (sp_state s))\<rparr>,
     sp_errors := (sp_errors s)\<lparr>er_dlq_path := expand_env env (er_dlq_path (sp_errors s))\<rparr>\<rparr>"

subsection \<open>Defaults: load.go\<close>

text \<open>The eight assignments of \<open>applyDefaults\<close>, in their order.\<close>

definition default_source :: "source_config \<Rightarrow> source_config" where
  "default_source s = (if so_batch_size s = 0 then s\<lparr>so_batch_size := 1000\<rparr> else s)"

definition default_state :: "state_config \<Rightarrow> state_config" where
  "default_state s =
     (let s1 = (if sc_backend s = [] then s\<lparr>sc_backend := ''sqlite''\<rparr> else s)
      in if sc_path s1 = [] \<and> sc_backend s1 = ''sqlite''
         then s1\<lparr>sc_path := ''./state/sync.db''\<rparr> else s1)"

definition default_errors :: "errors_config \<Rightarrow> errors_config" where
  "default_errors e =
     (let e1 = (if er_on_error e = [] then e\<lparr>er_on_error := ''skip''\<rparr> else e)
      in if er_max_retries e1 = 0 then e1\<lparr>er_max_retries := 3\<rparr> else e1)"

definition default_missing :: "on_missing_config \<Rightarrow> on_missing_config" where
  "default_missing m =
     (let m1 = (if om_action m = [] then m\<lparr>om_action := ''skip''\<rparr> else m)
      in if om_after m1 = 0 then m1\<lparr>om_after := 1\<rparr> else m1)"

definition apply_defaults :: "sync_spec \<Rightarrow> sync_spec" where
  "apply_defaults s = s\<lparr>
     sp_source := default_source (sp_source s),
     sp_state := default_state (sp_state s),
     sp_decisions := (if dc_default (sp_decisions s) = []
        then (sp_decisions s)\<lparr>dc_default := ''skip''\<rparr> else sp_decisions s),
     sp_errors := default_errors (sp_errors s),
     sp_missing := default_missing (sp_missing s)\<rparr>"

text \<open>\<open>Parse\<close> and \<open>Load\<close>; the decoder and the file read are parameters.\<close>

definition parse_config ::
  "('y \<Rightarrow> sync_spec res) \<Rightarrow> (string \<Rightarrow> string option) \<Rightarrow> 'y \<Rightarrow> sync_spec res" where
  "parse_config decode env data =
     (case decode data of
        Inl e \<Rightarrow> Inl (ErrWrap ''parse yaml'' e)
      | Inr f \<Rightarrow> Inr (apply_defaults (apply_env env f)))"

definition load_config ::
  "('y \<Rightarrow> sync_spec res) \<Rightarrow> (string \<Rightarrow> string option) \<Rightarrow> (string \<Rightarrow> 'y res) \<Rightarrow> string
     \<Rightarrow> sync_spec res" where
  "load_config decode env read_file path =
     (case read_file path of
        Inl e \<Rightarrow> Inl (ErrWrap ''read config'' e)
      | Inr data \<Rightarrow> parse_config decode env data)"

subsection \<open>Validation: validate.go\<close>

definition valid_actions :: "string list" where
  "valid_actions = [''upsert'', ''update'', ''create'', ''delete'', ''skip'']"

definition valid_on_error :: "string list" where
  "valid_on_error = [''skip'', ''retry'', ''dlq'']"

definition validate_source :: "source_config \<Rightarrow> unit res" where
  "validate_source s =
     (if trim_space (so_type s) = [] then Inl (ErrMsg ''sync.source.type is required'')
      else if trim_space (so_url s) = [] then Inl (ErrMsg ''sync.source.url is required'')
      else if trim_space (so_entity_key s) = []
        then Inl (ErrMsg ''sync.source.entity_key is required'')
      else Inr ())"

definition validate_dest :: "dest_config \<Rightarrow> unit res" where
  "validate_dest d =
     (if trim_space (de_type d) = [] then Inl (ErrMsg ''sync.destination.type is required'')
      else Inr ())"

definition validate_rule :: "nat \<Rightarrow> rule_config \<Rightarrow> unit res" where
  "validate_rule i r =
     (if trim_space (ru_name r) = []
        then Inl (ErrMsg (''sync.decisions.rules['' @ dec_nat i @ ''].name is required''))
      else if ru_action r \<notin> set valid_actions
        then Inl (ErrMsg (''sync.decisions.rules['' @ dec_nat i @ ''] ('' @ ru_name r
               @ ''): action '' @ quote_q (ru_action r)
               @ '' must be one of: upsert, update, create, skip, delete''))
      else Inr ())"

fun validate_rules :: "nat \<Rightarrow> rule_config list \<Rightarrow> unit res" where
  "validate_rules i [] = Inr ()"
| "validate_rules i (r # rs) =
     (case validate_rule i r of Inl e \<Rightarrow> Inl e | Inr _ \<Rightarrow> validate_rules (Suc i) rs)"

definition validate_sync :: "sync_spec \<Rightarrow> unit res" where
  "validate_sync s =
     (if trim_space (sp_name s) = [] then Inl (ErrMsg ''sync.name is required'')
      else case validate_source (sp_source s) of Inl e \<Rightarrow> Inl e | Inr _ \<Rightarrow>
           (case validate_dest (sp_dest s) of Inl e \<Rightarrow> Inl e | Inr _ \<Rightarrow>
            (case validate_rules 0 (dc_rules (sp_decisions s)) of Inl e \<Rightarrow> Inl e | Inr _ \<Rightarrow>
             (if dc_default (sp_decisions s) \<noteq> [] \<and> dc_default (sp_decisions s) \<notin> set valid_actions
                then Inl (ErrMsg (''sync.decisions.default '' @ quote_q (dc_default (sp_decisions s))
                       @ '' must be one of: upsert, update, create, skip, delete''))
              else if er_on_error (sp_errors s) \<noteq> [] \<and> er_on_error (sp_errors s) \<notin> set valid_on_error
                then Inl (ErrMsg (''sync.errors.on_error '' @ quote_q (er_on_error (sp_errors s))
                       @ '' must be one of: skip, retry, dlq''))
              else Inr ()))))"

subsection \<open>Facts\<close>

lemma validate_source_ok:
  "validate_source s = Inr () \<longleftrightarrow>
     trim_space (so_type s) \<noteq> [] \<and> trim_space (so_url s) \<noteq> [] \<and> trim_space (so_entity_key s) \<noteq> []"
  by (simp add: validate_source_def)

lemma validate_rules_ok:
  "validate_rules i rs = Inr () \<longleftrightarrow>
     (\<forall>r \<in> set rs. trim_space (ru_name r) \<noteq> [] \<and> ru_action r \<in> set valid_actions)"
  by (induction rs arbitrary: i) (auto simp: validate_rule_def split: sum.splits)

lemma guard_ok: "(if b then Inl e else x) = Inr () \<longleftrightarrow> \<not> b \<and> x = Inr ()"
  by simp

lemma then_ok: "(case x of Inl e \<Rightarrow> Inl e | Inr _ \<Rightarrow> y) = Inr () \<longleftrightarrow> x = Inr () \<and> y = Inr ()"
  for x :: "unit res"
  by (cases x) auto

lemma apply_defaults_idem: "apply_defaults (apply_defaults s) = apply_defaults s"
  by (simp add: apply_defaults_def default_source_def default_state_def default_errors_def
      default_missing_def Let_def)

lemma env_match_None: "CHR ''$'' \<notin> set s \<Longrightarrow> env_match s = None"
  by (auto simp: env_match_def split: list.splits)

lemma expand_env_no_dollar: "CHR ''$'' \<notin> set s \<Longrightarrow> expand_env env s = s"
  by (induction s) (auto simp: env_match_None)

text \<open>With no variable set, expansion is the identity: an unset placeholder survives.\<close>

lemma env_match_Some_append:
  assumes "env_match s = Some (key, rest)"
  shows "s = ''${'' @ key @ ''}'' @ rest"
proof -
  obtain a b r where s: "s = a # b # r" and ab: "a = CHR ''$''" "b = CHR ''{''"
    and k: "key = takeWhile (\<lambda>c. c \<noteq> CHR ''}'') r"
    and r: "dropWhile (\<lambda>c. c \<noteq> CHR ''}'') r \<noteq> []" "rest = tl (dropWhile (\<lambda>c. c \<noteq> CHR ''}'') r)"
    using assms by (auto simp: env_match_def Let_def split: list.splits if_splits)
  have "hd (dropWhile (\<lambda>c. c \<noteq> CHR ''}'') r) = CHR ''}''"
    using hd_dropWhile [OF r(1)] by simp
  then have "dropWhile (\<lambda>c. c \<noteq> CHR ''}'') r = CHR ''}'' # rest"
    using r by (metis list.collapse)
  then have "r = key @ CHR ''}'' # rest"
    using k by (metis takeWhile_dropWhile_id)
  with s ab show ?thesis by simp
qed

lemma expand_env_unset: "expand_env (\<lambda>_. None) s = s"
proof (induction "\<lambda>_ :: string. None :: string option" s rule: expand_env.induct)
  case (2 c s)
  then show ?case
    by (cases "env_match (c # s)") (auto dest: env_match_Some_append)
qed simp

subsection \<open>Properties\<close>

text \<open>
  Loading a configuration file and validating it succeeds exactly on the files that
  can be read and decoded and whose expanded form has a sync name, a source type, URL and entity
  key, a destination type, named rules with one of the five actions, and a default action and
  an error policy that are left out or known. What is left out is then filled in: a loaded
  configuration never has an empty default action, error policy, missing action or batch size 0.
\<close>

theorem load_validate_accepts:
  "((\<exists>s. load_config decode env read_file path = Inr s \<and> validate_sync s = Inr ())
    \<longleftrightarrow> (\<exists>data f s. read_file path = Inr data \<and> decode data = Inr f \<and> s = apply_env env f
        \<and> trim_space (sp_name s) \<noteq> []
        \<and> trim_space (so_type (sp_source s)) \<noteq> [] \<and> trim_space (so_url (sp_source s)) \<noteq> []
        \<and> trim_space (so_entity_key (sp_source s)) \<noteq> [] \<and> trim_space (de_type (sp_dest s)) \<noteq> []
        \<and> list_all (\<lambda>r. trim_space (ru_name r) \<noteq> [] \<and> ru_action r \<in> set valid_actions)
            (dc_rules (sp_decisions s))
        \<and> dc_default (sp_decisions s) \<in> insert [] (set valid_actions)
        \<and> er_on_error (sp_errors s) \<in> insert [] (set valid_on_error)))
    \<and> pred_sum (\<lambda>_. True)
        (\<lambda>s. dc_default (sp_decisions s) \<noteq> [] \<and> er_on_error (sp_errors s) \<noteq> []
          \<and> om_action (sp_missing s) \<noteq> [] \<and> so_batch_size (sp_source s) \<noteq> 0)
        (load_config decode env read_file path)"
proof -
  have valid: "validate_sync (apply_defaults s) = Inr () \<longleftrightarrow>
      trim_space (sp_name s) \<noteq> []
      \<and> trim_space (so_type (sp_source s)) \<noteq> [] \<and> trim_space (so_url (sp_source s)) \<noteq> []
      \<and> trim_space (so_entity_key (sp_source s)) \<noteq> [] \<and> trim_space (de_type (sp_dest s)) \<noteq> []
      \<and> (\<forall>r \<in> set (dc_rules (sp_decisions s)). trim_space (ru_name r) \<noteq> [] \<and> ru_action r \<in> set valid_actions)
      \<and> dc_default (sp_decisions s) \<in> insert [] (set valid_actions)
      \<and> er_on_error (sp_errors s) \<in> insert [] (set valid_on_error)" for s
  proof -
    have src: "validate_source (sp_source (apply_defaults s)) = validate_source (sp_source s)"
      by (simp add: apply_defaults_def default_source_def validate_source_def)
    have rules: "dc_rules (sp_decisions (apply_defaults s)) = dc_rules (sp_decisions s)"
      by (simp add: apply_defaults_def)
    have default: "dc_default (sp_decisions (apply_defaults s)) =
        (if dc_default (sp_decisions s) = [] then ''skip'' else dc_default (sp_decisions s))"
      by (simp add: apply_defaults_def)
    have on_error: "er_on_error (sp_errors (apply_defaults s)) =
        (if er_on_error (sp_errors s) = [] then ''skip'' else er_on_error (sp_errors s))"
      by (simp add: apply_defaults_def default_errors_def Let_def)
    have skip: "''skip'' \<in> set valid_actions" "''skip'' \<in> set valid_on_error"
      by (simp_all add: valid_actions_def valid_on_error_def)
    have other: "sp_name (apply_defaults s) = sp_name s" "sp_dest (apply_defaults s) = sp_dest s"
      by (simp_all add: apply_defaults_def)
    show ?thesis
      using skip unfolding validate_sync_def src rules default on_error other validate_dest_def
        guard_ok then_ok validate_source_ok validate_rules_ok by auto
  qed
  have filled: "dc_default (sp_decisions (apply_defaults s)) \<noteq> []
      \<and> er_on_error (sp_errors (apply_defaults s)) \<noteq> [] \<and> om_action (sp_missing (apply_defaults s)) \<noteq> []
      \<and> so_batch_size (sp_source (apply_defaults s)) \<noteq> 0" for s
    by (simp add: apply_defaults_def default_errors_def default_missing_def default_source_def Let_def)
  show ?thesis
    by (auto simp: load_config_def parse_config_def valid list_all_iff filled split: sum.splits)
qed

text \<open>
  Expansion replaces the first placeholder of a text by the value of its variable,
  or leaves it as it is when the variable is not set, and goes on behind it: the inserted value
  is not expanded again.
\<close>

theorem expand_env_placeholder:
  assumes "CHR ''$'' \<notin> set before" "key \<noteq> []" "CHR ''}'' \<notin> set key"
  shows "expand_env env (before @ ''${'' @ key @ ''}'' @ after) =
    before @ (case env key of Some v \<Rightarrow> v | None \<Rightarrow> ''${'' @ key @ ''}'') @ expand_env env after"
  using assms(1)
proof (induction before)
  case Nil
  have "takeWhile (\<lambda>c. c \<noteq> CHR ''}'') (key @ CHR ''}'' # after) = key"
    "dropWhile (\<lambda>c. c \<noteq> CHR ''}'') (key @ CHR ''}'' # after) = CHR ''}'' # after"
    using assms(3) by (subst takeWhile_append2 dropWhile_append2; auto)+
  then show ?case using assms(2) by (auto simp: env_match_def split: option.splits)
next
  case (Cons c cs)
  have "env_match (c # cs @ s) = None" for s
    using Cons.prems by (auto simp: env_match_def split: list.splits)
  then show ?case using Cons by simp
qed

theorem expand_env_placeholder_witness:
  "expand_env (\<lambda>k. if k = ''HOME'' then Some ''${X}'' else None) (''a'' @ ''${'' @ ''HOME'' @ ''}'' @ ''b'')
     = ''a${X}b''"
  using expand_env_placeholder [of "''a''" "''HOME''" "\<lambda>k. if k = ''HOME'' then Some ''${X}'' else None" "''b''"]
  by (simp add: env_match_def)

end
