(* ===== verification/Sha256.thy ===== *)
theory Sha256
  imports Prelude "HOL-Library.Word"
begin

unbundle bit_operations_syntax

section \<open>SHA-256\<close>

text \<open>
  The hash function of \<open>crypto/sha256\<close>, which the program applies to canonical payloads, to
  delivery keys and to approval snapshots, and the lower-case hexadecimal rendering it stores.
  It is written out (FIPS 180-4) so that concrete fingerprints evaluate; no proof of the
  development depends on its being free of collisions unless a hypothesis says so.
\<close>

type_synonym u32 = "32 word"

definition rotr32 :: "nat \<Rightarrow> u32 \<Rightarrow> u32" where
  "rotr32 n x = drop_bit n x OR push_bit (32 - n) x"

text \<open>
  The constants are the first 32 bits of the fractional parts of the cube roots of the first 64
  primes and of the square roots of the first eight: integer roots of the primes scaled up,
  found bit by bit, of which the word keeps the low 32 bits.
\<close>

fun root_bits :: "nat \<Rightarrow> int \<Rightarrow> nat \<Rightarrow> int \<Rightarrow> int" where
  "root_bits k n 0 acc = acc"
| "root_bits k n (Suc b) acc = root_bits k n b (if (acc + 2 ^ b) ^ k \<le> n then acc + 2 ^ b else acc)"

definition root_fraction :: "nat \<Rightarrow> int \<Rightarrow> u32" where
  "root_fraction k p = word_of_int (root_bits k (p * 2 ^ (32 * k)) 37 0)"

definition small_primes :: "int list" where
  "small_primes = filter (\<lambda>n. list_all (\<lambda>d. n mod d \<noteq> 0) [2..n - 1]) [2..311]"

definition sha_k :: "u32 list" where
  "sha_k = map (root_fraction 3) small_primes"

type_synonym sha_state = "u32 \<times> u32 \<times> u32 \<times> u32 \<times> u32 \<times> u32 \<times> u32 \<times> u32"

definition sha_init :: sha_state where
  "sha_init = (let r = root_fraction 2 in (r 2, r 3, r 5, r 7, r 11, r 13, r 17, r 19))"

fun sha_round :: "sha_state \<Rightarrow> u32 \<times> u32 \<Rightarrow> sha_state" where
  "sha_round (a, b, c, d, e, f, g, h) (k, w) =
     (let s1 = rotr32 6 e XOR rotr32 11 e XOR rotr32 25 e;
          ch = (e AND f) XOR (NOT e AND g);
          t1 = h + s1 + ch + k + w;
          s0 = rotr32 2 a XOR rotr32 13 a XOR rotr32 22 a;
          mj = (a AND b) XOR (a AND c) XOR (b AND c);
          t2 = s0 + mj
      in (t1 + t2, a, b, c, d + t1, e, f, g))"

text \<open>The message schedule, most recent word first.\<close>

definition sha_extend :: "u32 list \<Rightarrow> u32 list" where
  "sha_extend ws =
     (let w2 = ws ! 1; w7 = ws ! 6; w15 = ws ! 14; w16 = ws ! 15;
          s0 = rotr32 7 w15 XOR rotr32 18 w15 XOR drop_bit 3 w15;
          s1 = rotr32 17 w2 XOR rotr32 19 w2 XOR drop_bit 10 w2
      in (w16 + s0 + w7 + s1) # ws)"

definition sha_schedule :: "u32 list \<Rightarrow> u32 list" where
  "sha_schedule block = rev ((sha_extend ^^ 48) (rev block))"

fun sha_add :: "sha_state \<Rightarrow> sha_state \<Rightarrow> sha_state" where
  "sha_add (a, b, c, d, e, f, g, h) (a', b', c', d', e', f', g', h') =
     (a + a', b + b', c + c', d + d', e + e', f + f', g + g', h + h')"

definition sha_compress :: "sha_state \<Rightarrow> u32 list \<Rightarrow> sha_state" where
  "sha_compress st block = sha_add st (foldl sha_round st (zip sha_k (sha_schedule block)))"

definition byte_of :: "char \<Rightarrow> u32" where
  "byte_of c = word_of_int (of_char c)"

fun words_of_bytes :: "u32 list \<Rightarrow> u32 list" where
  "words_of_bytes (a # b # c # d # xs) =
     (push_bit 24 a OR push_bit 16 b OR push_bit 8 c OR d) # words_of_bytes xs"
| "words_of_bytes _ = []"

definition sha_pad :: "string \<Rightarrow> u32 list" where
  "sha_pad s =
     (let n = length s; bits = 8 * int n
      in words_of_bytes (map byte_of s @ 0x80 # replicate ((119 - n mod 64) mod 64) 0)
           @ [word_of_int (bits div 2 ^ 32), word_of_int bits])"

fun sha_blocks :: "nat \<Rightarrow> u32 list \<Rightarrow> u32 list list" where
  "sha_blocks 0 ws = []"
| "sha_blocks (Suc n) ws = take 16 ws # sha_blocks n (drop 16 ws)"

definition hex_char :: "int \<Rightarrow> char" where
  "hex_char n = (if n < 10 then char_of (48 + n) else char_of (87 + n))"

definition hex_word :: "u32 \<Rightarrow> string" where
  "hex_word w = map (\<lambda>i. hex_char (uint w div 16 ^ i mod 16)) [7, 6, 5, 4, 3, 2, 1, 0]"

definition sha256_hex :: "string \<Rightarrow> string" where
  "sha256_hex s =
     (let ws = sha_pad s in
      case foldl sha_compress sha_init (sha_blocks (length ws div 16) ws) of
        (a, b, c, d, e, f, g, h) \<Rightarrow> concat (map hex_word [a, b, c, d, e, f, g, h]))"

end
