(* ===== verification/Fingerprint.thy ===== *)
theory Fingerprint
  imports Go_Value Sha256 "HOL-Library.Multiset"
begin

section \<open>Entity fingerprints: internal/fingerprint\<close>

text \<open>
  The canonical encoding of a payload (keys sorted at every level, no white space), its SHA-256
  fingerprint, and the normalisation of times before hashing. A value that \<open>json.Marshal\<close>
  rejects (NaN, an infinity) contributes no bytes at all, because the code drops the error.
\<close>

definition marshal_or_nothing :: "gval \<Rightarrow> string" where
  "marshal_or_nothing v = (case json_marshal v of None \<Rightarrow> [] | Some s \<Rightarrow> s)"

definition canon_entries :: "(string \<times> string) list \<Rightarrow> string" where
  "canon_entries es =
     ''{'' @ join '','' (map (\<lambda>(k, s). json_string k @ '':'' @ s) (sort_key fst es)) @ ''}''"

fun write_canonical :: "string list \<Rightarrow> bool \<Rightarrow> gval \<Rightarrow> string" where
  "write_canonical excl toplvl (GMap m) =
     canon_entries (filter (\<lambda>(k, s). \<not> (toplvl \<and> k \<in> set excl))
        (map (\<lambda>(k, v). (k, write_canonical excl False v)) m))"
| "write_canonical excl toplvl (GList xs) =
     ''['' @ join '','' (map (write_canonical excl False) xs) @ '']''"
| "write_canonical excl toplvl v = marshal_or_nothing v"

definition canonical :: "string list \<Rightarrow> payload \<Rightarrow> string" where
  "canonical excl data = write_canonical excl True (GMap data)"

definition fp_of :: "payload \<Rightarrow> string list \<Rightarrow> string" where
  "fp_of data excl = sha256_hex (canonical excl data)"

definition fp_changed :: "payload \<Rightarrow> payload \<Rightarrow> string list \<Rightarrow> bool" where
  "fp_changed a b excl \<longleftrightarrow> fp_of a excl \<noteq> fp_of b excl"

subsection \<open>Normalisation\<close>

fun normalize_value :: "gval \<Rightarrow> gval" where
  "normalize_value (GTime t) = GStr (rfc3339 t)"
| "normalize_value (GTimePtr p) = (case p of None \<Rightarrow> GNil | Some t \<Rightarrow> GStr (rfc3339 t))"
| "normalize_value (GMap m) = GMap (map (\<lambda>(k, v). (k, normalize_value v)) m)"
| "normalize_value (GList xs) = GList (map normalize_value xs)"
| "normalize_value v = v"

definition normalize_payload :: "payload \<Rightarrow> payload" where
  "normalize_payload data = map (\<lambda>(k, v). (k, normalize_value v)) data"

subsection \<open>Iteration order does not matter\<close>

text \<open>Two values that differ only in the order in which the runtime visits map entries.\<close>

inductive same_value :: "gval \<Rightarrow> gval \<Rightarrow> bool" where
  same_leaf: "same_value v v"
| same_list: "list_all2 same_value xs ys \<Longrightarrow> same_value (GList xs) (GList ys)"
| same_map: "go_map m \<Longrightarrow> mset m = mset m' \<Longrightarrow>
    list_all2 (\<lambda>a b. fst a = fst b \<and> same_value (snd a) (snd b)) m' n \<Longrightarrow>
    same_value (GMap m) (GMap n)"

lemma sort_entries_unique:
  fixes xs ys :: "('a::linorder \<times> 'b) list"
  assumes "distinct (map fst xs)" "mset xs = mset ys"
  shows "sort_key fst xs = sort_key fst ys"
proof -
  have d: "distinct (map fst ys)"
    using assms by (metis mset_eq_imp_distinct_iff mset_map)
  have inj: "inj_on fst (set xs)" "inj_on fst (set ys)"
    using assms(1) d by (simp_all add: distinct_map)
  have s: "set xs = set ys" using assms(2) by (metis set_mset_mset)
  have dx: "distinct (map fst (sort_key fst zs))" if "distinct (map fst zs)" for zs :: "('a \<times> 'b) list"
    using that by (simp add: distinct_map)
  show ?thesis
    by (rule map_sorted_distinct_set_unique [of fst])
       (use inj s assms(1) d dx [of xs] dx [of ys] in simp_all)
qed

lemma canon_entries_perm:
  "distinct (map fst xs) \<Longrightarrow> mset xs = mset ys \<Longrightarrow> canon_entries xs = canon_entries ys"
  unfolding canon_entries_def using sort_entries_unique [of xs ys] by simp

lemma canon_entries_filter_perm:
  assumes "distinct (map fst xs)" "mset xs = mset ys"
  shows "canon_entries (filter P xs) = canon_entries (filter P ys)"
proof (rule canon_entries_perm)
  show "distinct (map fst (filter P xs))" using assms(1) by (rule distinct_map_filter)
  show "mset (filter P xs) = mset (filter P ys)" using assms(2) by simp
qed

definition canon_pairs :: "string list \<Rightarrow> payload \<Rightarrow> (string \<times> string) list" where
  "canon_pairs excl m = map (\<lambda>(k, v). (k, write_canonical excl False v)) m"

lemma write_canonical_map:
  "write_canonical excl toplvl (GMap m) =
     canon_entries (filter (\<lambda>e. \<not> (toplvl \<and> fst e \<in> set excl)) (canon_pairs excl m))"
  by (simp add: canon_pairs_def split_def)

lemma write_canonical_same:
  "same_value v w \<Longrightarrow> write_canonical excl toplvl v = write_canonical excl toplvl w"
proof (induction arbitrary: toplvl rule: same_value.induct)
  case (same_list xs ys)
  have "map (write_canonical excl False) xs = map (write_canonical excl False) ys"
    using same_list by (auto simp: list_all2_conv_all_nth intro!: nth_equalityI)
  then show ?case by simp
next
  case (same_map m m' n)
  have eq: "canon_pairs excl m' = canon_pairs excl n"
    using same_map(3)
    by (auto simp: canon_pairs_def list_all2_conv_all_nth split_def intro!: nth_equalityI)
  have "distinct (map fst (canon_pairs excl m))"
    using same_map(1) by (simp add: go_map_def canon_pairs_def comp_def split_def)
  moreover have "mset (canon_pairs excl m) = mset (canon_pairs excl m')"
    using same_map(2) by (simp add: canon_pairs_def)
  ultimately show ?case
    unfolding write_canonical_map eq [symmetric] by (rule canon_entries_filter_perm)
qed simp

subsection \<open>Exclusion\<close>

text \<open>The exclusion list only acts on the top level: below it, it can be dropped.\<close>

lemma write_canonical_below: "write_canonical excl False v = write_canonical [] False v"
proof (induction v)
  case (GMap m)
  have "canon_pairs excl m = canon_pairs [] m"
    using GMap by (force simp: canon_pairs_def)
  then show ?case unfolding write_canonical_map by simp
next
  case (GList xs)
  then have "map (write_canonical excl False) xs = map (write_canonical [] False) xs" by simp
  then show ?case by (simp only: write_canonical.simps)
qed simp_all

lemma canonical_filter:
  "canonical excl data = canonical [] (filter (\<lambda>(k, v). k \<notin> set excl) data)"
proof -
  have "canon_pairs excl m = canon_pairs [] m" for m
    unfolding canon_pairs_def by (simp only: write_canonical_below [of excl])
  moreover have "filter (\<lambda>e. fst e \<notin> set excl) (canon_pairs [] data)
      = canon_pairs [] (filter (\<lambda>(k, v). k \<notin> set excl) data)"
    by (simp add: canon_pairs_def filter_map comp_def split_def)
  ultimately show ?thesis
    unfolding canonical_def write_canonical_map by simp
qed

lemma fp_of_filter: "fp_of data excl = fp_of (filter (\<lambda>(k, v). k \<notin> set excl) data) []"
  by (simp add: fp_of_def canonical_filter [of excl])

lemma filter_aput_excluded:
  "k \<in> set excl \<Longrightarrow>
   filter (\<lambda>(x, v). x \<notin> set excl) (aput k v m) = filter (\<lambda>(x, v). x \<notin> set excl) m"
  by (induction m) auto

lemma fp_of_excluded_field:
  "k \<in> set excl \<Longrightarrow> fp_of (aput k v m) excl = fp_of m excl"
  by (simp add: fp_of_filter [of _ excl] filter_aput_excluded)

subsection \<open>Facts on normalisation\<close>

fun time_free :: "gval \<Rightarrow> bool" where
  "time_free (GTime t) = False"
| "time_free (GTimePtr p) = False"
| "time_free (GMap m) = list_all (\<lambda>(k, v). time_free v) m"
| "time_free (GList xs) = list_all time_free xs"
| "time_free v = True"

lemma normalize_time_free: "time_free (normalize_value v)"
  by (induction v rule: normalize_value.induct)
     (auto simp: list_all_iff split: option.splits)

lemma normalize_fixpoint: "time_free v \<Longrightarrow> normalize_value v = v"
  by (induction v rule: normalize_value.induct) (auto simp: list_all_iff intro!: map_idI)

lemma normalize_value_idem: "normalize_value (normalize_value v) = normalize_value v"
  by (simp add: normalize_fixpoint normalize_time_free)

lemma normalize_payload_idem: "normalize_payload (normalize_payload m) = normalize_payload m"
  by (simp add: normalize_payload_def normalize_value_idem split_def comp_def)

lemma alookup_normalize: "alookup (normalize_payload m) k = map_option normalize_value (alookup m k)"
  by (simp add: normalize_payload_def map_of_map_value)

lemma go_map_normalize [simp]: "go_map (normalize_payload m) = go_map m"
  by (simp add: normalize_payload_def)

lemma rfc3339_whole_seconds: "s div second_ns = t div second_ns \<Longrightarrow> rfc3339 s = rfc3339 t"
proof -
  assume eq: "s div second_ns = t div second_ns"
  have "x div (86400 * second_ns) = (x div second_ns) div 86400" for x :: int
    by (simp add: zdiv_zmult2_eq second_ns_def div_mult2_eq mult.commute flip: zdiv_zmult2_eq)
  then show ?thesis
    by (simp add: rfc3339_def fmt_date_def fmt_clock_def eq)
qed

subsection \<open>Properties\<close>

text \<open>
  Property C13. The fingerprint sees only the top-level entries that are not excluded, and sees
  them as a map: two payloads whose remaining entries differ at most in the order in which maps
  are iterated, at any depth, have the same fingerprint.
\<close>

theorem fp_order_insensitive:
  assumes "same_value (GMap (filter (\<lambda>(k, v). k \<notin> set excl) d)) (GMap (filter (\<lambda>(k, v). k \<notin> set excl) d'))"
  shows "fp_of d excl = fp_of d' excl"
proof -
  have "fp_of (filter (\<lambda>(k, v). k \<notin> set excl) d) [] = fp_of (filter (\<lambda>(k, v). k \<notin> set excl) d') []"
    unfolding fp_of_def canonical_def write_canonical_same [OF assms, of "[]" True] by (rule refl)
  then show ?thesis by (simp only: fp_of_filter [of d excl] fp_of_filter [of d' excl])
qed

theorem fp_order_insensitive_witness:
  "fp_of [(''a'', GInt 1), (''t'', GInt 5), (''m'', GMap [(''x'', GNil), (''y'', GBool True)])] [''t'']
   = fp_of [(''m'', GMap [(''y'', GBool True), (''x'', GNil)]), (''t'', GInt 6), (''a'', GInt 1)] [''t'']"
proof (rule fp_order_insensitive)
  have m: "same_value (GMap [(''x'', GNil), (''y'', GBool True)]) (GMap [(''y'', GBool True), (''x'', GNil)])"
    by (rule same_map [of _ "[(''y'', GBool True), (''x'', GNil)]"]) (auto simp: go_map_def same_leaf)
  have "same_value (GMap [(''a'', GInt 1), (''m'', GMap [(''x'', GNil), (''y'', GBool True)])])
      (GMap [(''m'', GMap [(''y'', GBool True), (''x'', GNil)]), (''a'', GInt 1)])"
    by (rule same_map [of _ "[(''m'', GMap [(''x'', GNil), (''y'', GBool True)]), (''a'', GInt 1)]"])
      (auto simp: go_map_def same_leaf m)
  then show "same_value
      (GMap (filter (\<lambda>(k, v). k \<notin> set [''t'']) [(''a'', GInt 1), (''t'', GInt 5), (''m'', GMap [(''x'', GNil), (''y'', GBool True)])]))
      (GMap (filter (\<lambda>(k, v). k \<notin> set [''t'']) [(''m'', GMap [(''y'', GBool True), (''x'', GNil)]), (''t'', GInt 6), (''a'', GInt 1)]))"
    by simp
qed

text \<open>
  Normalising a payload is idempotent and leaves no timestamp value in it; two
  timestamps in the same second, or a timestamp and its RFC 3339 text, become the same value, so
  a change within one second is not seen as a change.
\<close>

theorem normalize_timestamps:
  "normalize_payload (normalize_payload m) = normalize_payload m
   \<and> list_all (\<lambda>(k, v). time_free v) (normalize_payload m)
   \<and> normalize_payload (aput k (GTime t) m) = normalize_payload (aput k (GStr (rfc3339 t)) m)
   \<and> (t div second_ns = t' div second_ns \<longrightarrow>
        fp_of (normalize_payload (aput k (GTime t) m)) excl = fp_of (normalize_payload (aput k (GTime t') m)) excl)"
proof -
  have put: "normalize_payload (aput k v m) = aput k (normalize_value v) (normalize_payload m)" for v
    by (induction m) (auto simp: normalize_payload_def)
  have "list_all (\<lambda>(k, v). time_free v) (normalize_payload m)"
    by (auto simp: normalize_payload_def list_all_iff normalize_time_free)
  moreover have "rfc3339 t = rfc3339 t'" if "t div second_ns = t' div second_ns"
    using that by (rule rfc3339_whole_seconds)
  ultimately show ?thesis by (auto simp: put normalize_payload_idem)
qed

theorem normalize_timestamps_witness:
  "fp_of (normalize_payload (aput ''at'' (GTime 1000000001) [])) [] = fp_of (normalize_payload (aput ''at'' (GTime 1999999999) [])) []"
  by (rule normalize_timestamps [THEN conjunct2, THEN conjunct2, THEN conjunct2, rule_format])
    (simp add: second_ns_def)

end
