(* ===== verification/Diff.thy ===== *)
theory Diff
  imports Go_Value
begin

section \<open>Field-level diffs: internal/diff\<close>

text \<open>
  The set of changed fields between the remembered and the current payload. A \<open>Result\<close> is a Go
  map from field names to the two values; values are compared by their \<open>%v\<close> rendering.
\<close>

record field_change =
  ch_previous :: gval
  ch_current :: gval

type_synonym diff_result = "(string \<times> field_change) list"

definition diff_equal :: "gval \<Rightarrow> gval \<Rightarrow> bool" where
  "diff_equal a b \<longleftrightarrow> sprint_v a = sprint_v b"

text \<open>A missing key reads as the nil interface.\<close>

definition get_or_nil :: "payload \<Rightarrow> string \<Rightarrow> gval" where
  "get_or_nil m k = (case alookup m k of None \<Rightarrow> GNil | Some v \<Rightarrow> v)"

definition field_differs :: "payload \<Rightarrow> string \<Rightarrow> gval \<Rightarrow> bool" where
  "field_differs previous k cur \<longleftrightarrow>
     (case alookup previous k of None \<Rightarrow> True | Some prev \<Rightarrow> \<not> diff_equal prev cur)"

definition diff_compute :: "payload \<Rightarrow> payload \<Rightarrow> diff_result" where
  "diff_compute previous current =
     map (\<lambda>(k, cur). (k, \<lparr>ch_previous = get_or_nil previous k, ch_current = cur\<rparr>))
       (filter (\<lambda>(k, cur). field_differs previous k cur) current)
     @ map (\<lambda>(k, prev). (k, \<lparr>ch_previous = prev, ch_current = GNil\<rparr>))
       (filter (\<lambda>(k, prev). \<not> has_key current k) previous)"

definition diff_is_empty :: "diff_result \<Rightarrow> bool" where
  "diff_is_empty r \<longleftrightarrow> length r = 0"

definition diff_contains :: "diff_result \<Rightarrow> string \<Rightarrow> bool" where
  "diff_contains r f \<longleftrightarrow> has_key r f"

definition only_contains :: "diff_result \<Rightarrow> string list \<Rightarrow> bool" where
  "only_contains r fs \<longleftrightarrow>
     (if length r \<noteq> length fs then False else list_all (diff_contains r) fs)"

definition diff_transitioned :: "diff_result \<Rightarrow> string \<Rightarrow> string \<Rightarrow> string \<Rightarrow> bool" where
  "diff_transitioned r field from_v to_v \<longleftrightarrow>
     (case alookup r field of None \<Rightarrow> False
      | Some ch \<Rightarrow> sprint_v (ch_previous ch) = from_v \<and> sprint_v (ch_current ch) = to_v)"

subsection \<open>Facts\<close>

lemma diff_compute_go_map:
  assumes "go_map p" "go_map c"
  shows "go_map (diff_compute p c)"
proof -
  have "distinct (map fst (filter P m))" if "go_map m" for P and m :: payload
    using that by (simp add: go_map_def distinct_map_filter)
  with assms show ?thesis
    by (auto simp: go_map_def diff_compute_def comp_def split_def) force
qed

lemma diff_keys:
  "fst ` set (diff_compute p c)
     = {k. (\<exists>v. (k, v) \<in> set c \<and> field_differs p k v)} \<union> (fst ` set p - fst ` set c)"
  by (force simp: diff_compute_def image_iff)

lemma map_of_map_entries:
  "go_map m \<Longrightarrow> map_of (map (\<lambda>(k, v). (k, f k v)) (filter (\<lambda>(k, v). P k v) m)) x
     = Option.bind (map_of m x) (\<lambda>v. if P x v then Some (f x v) else None)"
proof (induction m)
  case (Cons a m)
  have "map_of (map (\<lambda>(k, v). (k, f k v)) (filter (\<lambda>(k, v). P k v) m)) x = None"
    if "map_of m x = None" for x
    using that by (auto simp: map_of_eq_None_iff image_iff)
  with Cons show ?case
    by (cases a) (auto simp: go_map_def map_of_eq_None_iff)
qed simp

text \<open>The diff as a finite map, field by field.\<close>

lemma diff_lookup:
  assumes p: "go_map p" and c: "go_map c"
  shows "alookup (diff_compute p c) k =
     (case alookup c k of
        Some cur \<Rightarrow>
          (case alookup p k of
             Some prev \<Rightarrow> if diff_equal prev cur then None
                          else Some \<lparr>ch_previous = prev, ch_current = cur\<rparr>
           | None \<Rightarrow> Some \<lparr>ch_previous = GNil, ch_current = cur\<rparr>)
      | None \<Rightarrow> map_option (\<lambda>prev. \<lparr>ch_previous = prev, ch_current = GNil\<rparr>) (alookup p k))"
proof -
  have "alookup (diff_compute p c) k =
     (case Option.bind (alookup c k) (\<lambda>v. if field_differs p k v
             then Some \<lparr>ch_previous = get_or_nil p k, ch_current = v\<rparr> else None) of
        Some x \<Rightarrow> Some x
      | None \<Rightarrow> Option.bind (alookup p k) (\<lambda>v. if \<not> has_key c k
             then Some \<lparr>ch_previous = v, ch_current = GNil\<rparr> else None))"
    by (simp only: diff_compute_def map_of_append map_add_def map_of_map_entries [OF p]
        map_of_map_entries [OF c])
  then show ?thesis
    by (cases "alookup c k"; cases "alookup p k")
       (auto simp: has_key_def field_differs_def get_or_nil_def simp del: has_key_iff)
qed

lemma diff_empty_iff:
  assumes "go_map p" "go_map c"
  shows "diff_is_empty (diff_compute p c) \<longleftrightarrow>
     (\<forall>k. rel_option diff_equal (alookup p k) (alookup c k))"
proof -
  have "diff_is_empty (diff_compute p c) \<longleftrightarrow> (\<forall>k. alookup (diff_compute p c) k = None)"
    unfolding diff_is_empty_def by (metis length_0_conv map_of_eq_empty_iff)
  also have "\<dots> \<longleftrightarrow> (\<forall>k. rel_option diff_equal (alookup p k) (alookup c k))"
    unfolding diff_lookup [OF assms]
    by (intro arg_cong [where f = All] ext) (auto split: option.splits)
  finally show ?thesis .
qed

lemma only_contains_iff:
  assumes "go_map r" "distinct fs"
  shows "only_contains r fs \<longleftrightarrow> set fs = fst ` set r"
proof -
  have "length r = card (fst ` set r)"
    using assms(1) by (metis distinct_card go_map_def length_map list.set_map)
  moreover have "length fs = card (set fs)" using assms(2) by (simp add: distinct_card)
  moreover have "list_all (diff_contains r) fs \<longleftrightarrow> set fs \<subseteq> fst ` set r"
    by (auto simp: diff_contains_def list_all_iff)
  moreover have "card (set fs) = card (fst ` set r) \<Longrightarrow> set fs \<subseteq> fst ` set r \<Longrightarrow> set fs = fst ` set r"
    by (rule card_subset_eq) auto
  ultimately show ?thesis
    unfolding only_contains_def by (metis subset_refl)
qed

subsection \<open>Properties\<close>

text \<open>
  Property C14. The diff of two payloads, field by field: a field of the new payload is in it when
  it is new or prints differently, a field that disappeared is in it with a nil value, and a
  rule on \<open>only_changed\<close> holds exactly when the listed fields are the changed ones.
\<close>

theorem diff_exact:
  assumes "go_map p" "go_map c" "distinct fs"
  shows "(\<forall>k. alookup (diff_compute p c) k =
     (case alookup c k of
        Some cur \<Rightarrow>
          (case alookup p k of
             Some prev \<Rightarrow> if sprint_v prev = sprint_v cur then None
                          else Some \<lparr>ch_previous = prev, ch_current = cur\<rparr>
           | None \<Rightarrow> Some \<lparr>ch_previous = GNil, ch_current = cur\<rparr>)
      | None \<Rightarrow> map_option (\<lambda>prev. \<lparr>ch_previous = prev, ch_current = GNil\<rparr>) (alookup p k)))
    \<and> (only_contains (diff_compute p c) fs \<longleftrightarrow> set fs = fst ` set (diff_compute p c))
    \<and> (diff_is_empty (diff_compute p c) \<longleftrightarrow> (\<forall>k. rel_option diff_equal (alookup p k) (alookup c k)))"
  using diff_lookup [OF assms(1,2)] only_contains_iff [OF diff_compute_go_map [OF assms(1,2)] assms(3)]
    diff_empty_iff [OF assms(1,2)]
  unfolding diff_equal_def by blast

theorem diff_exact_witness:
  "only_contains (diff_compute [(''a'', GInt 1), (''b'', GStr ''x'')] [(''a'', GInt 2), (''b'', GStr ''x'')]) [''a'']"
proof -
  have "fst ` set (diff_compute [(''a'', GInt 1), (''b'', GStr ''x'')] [(''a'', GInt 2), (''b'', GStr ''x'')]) = {''a''}"
    by (simp add: diff_compute_def field_differs_def diff_equal_def dec_int_def dec_pos.simps digit_char_def)
  then show ?thesis
    using diff_exact [of "[(''a'', GInt 1), (''b'', GStr ''x'')]" "[(''a'', GInt 2), (''b'', GStr ''x'')]" "[''a'']"]
    by (simp add: go_map_def)
qed

text \<open>
  The comparison of the diff goes through the printed form, so it does not see a
  change of type: the number 1 becoming the text 1 leaves the diff empty, although the two
  values are encoded differently; and a list of \<open>only_changed\<close> that names a changed field twice
  is satisfied while another field changed too.
\<close>

theorem diff_blind_spots:
  "diff_is_empty (diff_compute [(''a'', GInt 1)] [(''a'', GStr ''1'')])
   \<and> json_marshal (GInt 1) \<noteq> json_marshal (GStr ''1'')
   \<and> (let d = diff_compute [(''a'', GNil), (''b'', GNil)] [(''a'', GBool True), (''b'', GBool True)] in
      only_contains d [''a'', ''a''] \<and> diff_contains d ''b'')"
  by (simp add: diff_is_empty_def diff_compute_def field_differs_def diff_equal_def dec_int_def
      dec_pos.simps digit_char_def json_string_def only_contains_def diff_contains_def Let_def has_key_def
      char_of_def)

end
