(* ===== verification/Decision.thy ===== *)
theory Decision
  imports Config Diff
begin

section \<open>Decision rules: internal/decision\<close>

text \<open>
  Predicates over one entity, the rule loop that yields a plan, and the trace of all rules. The
  rule-firing checker of the source is an interface with one query; it is a function from rule
  names to an answer or an error, or absent (the nil interface). \<open>now\<close> is the rendered clock.
\<close>

record plan =
  pl_action :: string
  pl_rules :: "string list"
  pl_reasons :: "string list"
  pl_remember :: "(string \<times> string) list"

definition plan_init :: plan where
  "plan_init = \<lparr>pl_action = [], pl_rules = [], pl_reasons = [], pl_remember = []\<rparr>"

definition plan_skipped :: "plan \<Rightarrow> bool" where
  "plan_skipped p \<longleftrightarrow> pl_action p = ''skip''"

record decision_input =
  in_first_seen :: bool
  in_fp_changed :: bool
  in_diff :: diff_result
  in_previous :: payload
  in_current :: payload
  in_remembered :: payload

subsection \<open>Predicates\<close>

text \<open>The rendering of a slice of strings by \<open>%v\<close>.\<close>

definition fmt_strings :: "string list \<Rightarrow> string" where
  "fmt_strings xs = ''['' @ join '' '' xs @ '']''"

fun eval_when :: "when_config \<Rightarrow> decision_input \<Rightarrow> bool \<times> string"
  and eval_any :: "when_config option list \<Rightarrow> decision_input \<Rightarrow> bool \<times> string"
  and eval_all :: "when_config option list \<Rightarrow> decision_input \<Rightarrow> string list \<Rightarrow> bool \<times> string"
where
  "eval_when (When first_seen changed tr only any_of all_of neg) inp =
     (if first_seen then (in_first_seen inp, ''first_seen()'')
      else if changed then (in_fp_changed inp, ''fingerprint_changed()'')
      else case tr of Some t \<Rightarrow>
        (diff_transitioned (in_diff inp) (tc_field t) (tc_from t) (tc_to t),
         ''transitioned('' @ tc_field t @ '', '' @ tc_from t @ '', '' @ tc_to t @ '')'')
      | None \<Rightarrow>
        if only \<noteq> [] then (only_contains (in_diff inp) only, ''only_changed('' @ fmt_strings only @ '')'')
        else if any_of \<noteq> [] then eval_any any_of inp
        else if all_of \<noteq> [] then eval_all all_of inp []
        else case neg of
          Some w \<Rightarrow> (case eval_when w inp of (ok, reason) \<Rightarrow> (\<not> ok, ''not('' @ reason @ '')''))
        | None \<Rightarrow> (False, ''empty predicate''))"
| "eval_any [] inp = (False, ''any(...) = false'')"
| "eval_any (None # ws) inp = eval_any ws inp"
| "eval_any (Some w # ws) inp =
     (case eval_when w inp of (ok, reason) \<Rightarrow> if ok then (True, reason) else eval_any ws inp)"
| "eval_all [] inp reasons = (True, ''all('' @ fmt_strings reasons @ '')'')"
| "eval_all (None # ws) inp reasons = eval_all ws inp reasons"
| "eval_all (Some w # ws) inp reasons =
     (case eval_when w inp of (ok, reason) \<Rightarrow>
        if \<not> ok then (False, reason) else eval_all ws inp (reasons @ [reason]))"

subsection \<open>The rule loop: Evaluate\<close>

type_synonym rule_checker = "(string \<Rightarrow> bool res) option"

definition eval_remember :: "string \<Rightarrow> string \<Rightarrow> string" where
  "eval_remember now expr = (if expr = ''now()'' then now else expr)"

definition remember_all :: "string \<Rightarrow> (string \<times> string) list \<Rightarrow> (string \<times> string) list" where
  "remember_all now rem = map (\<lambda>(k, expr). (k, eval_remember now expr)) rem"

definition plan_of_rule :: "string \<Rightarrow> rule_config \<Rightarrow> string \<Rightarrow> plan" where
  "plan_of_rule now r reason =
     \<lparr>pl_action = ru_action r, pl_rules = [ru_name r], pl_reasons = [reason],
      pl_remember = remember_all now (ru_remember r)\<rparr>"

text \<open>The once-guard of a rule: whether it is to be passed over, or the error of the query.\<close>

definition fired_before :: "rule_checker \<Rightarrow> rule_config \<Rightarrow> bool res" where
  "fired_before chk r =
     (case chk of
        None \<Rightarrow> Inr False
      | Some has_fired \<Rightarrow>
          if \<not> ru_once r then Inr False
          else case has_fired (ru_name r) of
                 Inl e \<Rightarrow> Inl (ErrWrap (''check rule firing '' @ quote_q (ru_name r)) e)
               | Inr b \<Rightarrow> Inr b)"

fun eval_rules :: "rule_checker \<Rightarrow> string \<Rightarrow> decision_input \<Rightarrow> rule_config list \<Rightarrow> plan res" where
  "eval_rules chk now inp [] = Inr plan_init"
| "eval_rules chk now inp (r # rs) =
     (case fired_before chk r of
        Inl e \<Rightarrow> Inl e
      | Inr fired \<Rightarrow>
          if fired then eval_rules chk now inp rs
          else case eval_when (ru_when r) inp of (matched, reason) \<Rightarrow>
                 if matched then Inr (plan_of_rule now r reason)
                 else eval_rules chk now inp rs)"

definition default_plan :: "decisions_config \<Rightarrow> plan \<Rightarrow> plan" where
  "default_plan cfg p =
     (if pl_action p = [] then
        p\<lparr>pl_action := (if dc_default cfg = [] then ''skip'' else dc_default cfg),
          pl_reasons := pl_reasons p @ [''no rule matched, using default'']\<rparr>
      else p)"

definition evaluate ::
  "decisions_config \<Rightarrow> decision_input \<Rightarrow> rule_checker \<Rightarrow> string \<Rightarrow> plan res" where
  "evaluate cfg inp chk now =
     map_sum id (default_plan cfg) (eval_rules chk now inp (dc_rules cfg))"

subsection \<open>The trace of all rules: Trace\<close>

record rule_trace =
  rt_rule :: string
  rt_action :: string
  rt_matched :: bool
  rt_reason :: string
  rt_fired :: bool
  rt_winner :: bool

definition trace_skipped :: "rule_config \<Rightarrow> rule_trace" where
  "trace_skipped r = \<lparr>rt_rule = ru_name r, rt_action = ru_action r, rt_matched = False,
     rt_reason = [], rt_fired = True, rt_winner = False\<rparr>"

definition trace_entry :: "rule_config \<Rightarrow> bool \<Rightarrow> string \<Rightarrow> bool \<Rightarrow> rule_trace" where
  "trace_entry r matched reason winner =
     \<lparr>rt_rule = ru_name r, rt_action = ru_action r, rt_matched = matched,
      rt_reason = reason, rt_fired = False, rt_winner = winner\<rparr>"

fun trace_rules ::
  "rule_checker \<Rightarrow> string \<Rightarrow> decision_input \<Rightarrow> bool \<Rightarrow> plan \<Rightarrow> rule_trace list \<Rightarrow> rule_config list
     \<Rightarrow> plan \<times> rule_trace list \<times> go_error option" where
  "trace_rules chk now inp won p trs [] = (p, trs, None)"
| "trace_rules chk now inp won p trs (r # rs) =
     (case fired_before chk r of
        Inl e \<Rightarrow> (p, trs, Some e)
      | Inr fired \<Rightarrow>
          if fired then trace_rules chk now inp won p (trs @ [trace_skipped r]) rs
          else case eval_when (ru_when r) inp of (matched, reason) \<Rightarrow>
                 trace_rules chk now inp (won \<or> matched)
                   (if matched \<and> \<not> won then plan_of_rule now r reason else p)
                   (trs @ [trace_entry r matched reason (matched \<and> \<not> won)]) rs)"

definition trace ::
  "decisions_config \<Rightarrow> decision_input \<Rightarrow> rule_checker \<Rightarrow> string
     \<Rightarrow> plan \<times> rule_trace list \<times> go_error option" where
  "trace cfg inp chk now =
     (case trace_rules chk now inp False plan_init [] (dc_rules cfg) of
        (p, trs, Some e) \<Rightarrow> (p, trs, Some e)
      | (p, trs, None) \<Rightarrow> (default_plan cfg p, trs, None))"

subsection \<open>A boolean semantics of predicates\<close>

text \<open>
  The documented meaning of a predicate, without reasons and without the order in which the
  branches are tried: it is defined on predicates with exactly one field set, the only ones the
  configuration format describes.
\<close>

fun when_wf :: "when_config \<Rightarrow> bool" where
  "when_wf (When f c t only any_of all_of neg) \<longleftrightarrow>
     length (filter id [f, c, t \<noteq> None, only \<noteq> [], any_of \<noteq> [], all_of \<noteq> [], neg \<noteq> None]) = 1
     \<and> list_all (pred_option when_wf) any_of \<and> list_all (pred_option when_wf) all_of
     \<and> pred_option when_wf neg"

fun holds :: "decision_input \<Rightarrow> when_config \<Rightarrow> bool" where
  "holds inp (When f c t only any_of all_of neg) \<longleftrightarrow>
     (f \<and> in_first_seen inp) \<or> (c \<and> in_fp_changed inp)
     \<or> (case t of None \<Rightarrow> False
        | Some tr \<Rightarrow> diff_transitioned (in_diff inp) (tc_field tr) (tc_from tr) (tc_to tr))
     \<or> (only \<noteq> [] \<and> only_contains (in_diff inp) only)
     \<or> list_ex (\<lambda>w. case w of None \<Rightarrow> False | Some w' \<Rightarrow> holds inp w') any_of
     \<or> (all_of \<noteq> [] \<and> list_all (\<lambda>w. case w of None \<Rightarrow> True | Some w' \<Rightarrow> holds inp w') all_of)
     \<or> (case neg of None \<Rightarrow> False | Some w' \<Rightarrow> \<not> holds inp w')"

lemma eval_any_iff:
  "fst (eval_any ws inp) \<longleftrightarrow> (\<exists>w. Some w \<in> set ws \<and> fst (eval_when w inp))"
proof (induction ws)
  case (Cons a ws)
  then show ?case by (cases a) (auto split: prod.splits)
qed simp

lemma eval_all_iff:
  "fst (eval_all ws inp rs) \<longleftrightarrow> (\<forall>w. Some w \<in> set ws \<longrightarrow> fst (eval_when w inp))"
proof (induction ws arbitrary: rs)
  case (Cons a ws)
  then show ?case by (cases a) (auto split: prod.splits)
qed simp

lemma eval_when_holds: "when_wf w \<Longrightarrow> fst (eval_when w inp) = holds inp w"
proof (induction w)
  case (When f c t only any_of all_of neg)
  have any_eq: "fst (eval_any any_of inp) = list_ex (\<lambda>w. case w of None \<Rightarrow> False | Some w' \<Rightarrow> holds inp w') any_of"
    using When by (auto simp: eval_any_iff list_ex_iff list_all_iff pred_option_def split: option.splits)
  have all_eq: "fst (eval_all all_of inp []) = list_all (\<lambda>w. case w of None \<Rightarrow> True | Some w' \<Rightarrow> holds inp w') all_of"
    using When by (auto simp: eval_all_iff list_all_iff pred_option_def split: option.splits)
  have neg_eq: "fst (eval_when w inp) = holds inp w" if "neg = Some w" for w
    using When that by auto
  from When.prems show ?case
    by (cases t; cases neg)
       (auto simp: any_eq all_eq neg_eq case_prod_unfold split: if_splits)
qed

subsection \<open>First match wins\<close>

definition not_fired :: "rule_checker \<Rightarrow> rule_config \<Rightarrow> bool" where
  "not_fired chk r \<longleftrightarrow> fired_before chk r = Inr False"

definition plan_for :: "string \<Rightarrow> decision_input \<Rightarrow> rule_config option \<Rightarrow> plan" where
  "plan_for now inp r = (case r of None \<Rightarrow> plan_init
     | Some r \<Rightarrow> plan_of_rule now r (snd (eval_when (ru_when r) inp)))"

definition first_match :: "rule_checker \<Rightarrow> decision_input \<Rightarrow> rule_config list \<Rightarrow> rule_config option" where
  "first_match chk inp rs =
     List.find (\<lambda>r. not_fired chk r \<and> fst (eval_when (ru_when r) inp)) rs"

lemma eval_rules_first_match:
  "eval_rules chk now inp rs = Inr p \<Longrightarrow> p = plan_for now inp (first_match chk inp rs)"
proof (induction rs)
  case (Cons r rs)
  then show ?case
    by (cases "fired_before chk r")
       (auto simp: plan_for_def first_match_def not_fired_def split: prod.splits if_splits)
qed (simp add: plan_for_def first_match_def)

lemma eval_rules_total:
  "(\<forall>r \<in> set rs. \<exists>b. fired_before chk r = Inr b) \<Longrightarrow>
     eval_rules chk now inp rs = Inr (plan_for now inp (first_match chk inp rs))"
proof (induction rs)
  case (Cons r rs)
  then show ?case
    by (auto simp: plan_for_def first_match_def not_fired_def split: prod.splits if_splits)
qed (simp add: plan_for_def first_match_def)

lemma trace_rules_won:
  "(\<forall>r \<in> set rs. \<exists>b. fired_before chk r = Inr b) \<Longrightarrow>
     \<exists>ts. trace_rules chk now inp won p trs rs
        = (if won then p else case first_match chk inp rs of None \<Rightarrow> p
              | Some r \<Rightarrow> plan_for now inp (Some r), trs @ ts, None)
      \<and> map rt_rule ts = map ru_name rs
      \<and> map rt_rule (filter rt_winner ts) =
          (if won then [] else case first_match chk inp rs of None \<Rightarrow> [] | Some r \<Rightarrow> [ru_name r])"
proof (induction rs arbitrary: won p trs)
  case Nil
  then show ?case by (simp add: first_match_def)
next
  case (Cons r rs)
  then obtain fired where f: "fired_before chk r = Inr fired" by auto
  obtain ok reason where w: "eval_when (ru_when r) inp = (ok, reason)" by fastforce
  let ?won = "if fired then won else won \<or> ok"
  let ?p = "if fired then p else if ok \<and> \<not> won then plan_of_rule now r reason else p"
  let ?t = "if fired then trace_skipped r else trace_entry r ok reason (ok \<and> \<not> won)"
  have step: "trace_rules chk now inp won p trs (r # rs)
      = trace_rules chk now inp ?won ?p (trs @ [?t]) rs"
    using f w by simp
  obtain ts where ts: "trace_rules chk now inp ?won ?p (trs @ [?t]) rs
        = (if ?won then ?p else case first_match chk inp rs of None \<Rightarrow> ?p
              | Some r \<Rightarrow> plan_for now inp (Some r), (trs @ [?t]) @ ts, None)"
      "map rt_rule ts = map ru_name rs"
      "map rt_rule (filter rt_winner ts) =
          (if ?won then [] else case first_match chk inp rs of None \<Rightarrow> [] | Some r \<Rightarrow> [ru_name r])"
    using Cons.IH [of ?won ?p "trs @ [?t]"] Cons.prems by auto
  show ?case
    by (rule exI [of _ "?t # ts"], unfold step ts(1), cases won; cases fired; cases ok)
       (use ts(2,3) f w in \<open>auto simp: first_match_def not_fired_def plan_for_def trace_skipped_def
          trace_entry_def split: option.splits\<close>)
qed

lemma trace_total:
  assumes "\<forall>r \<in> set (dc_rules cfg). \<exists>b. fired_before chk r = Inr b"
  shows "\<exists>p ts. evaluate cfg inp chk now = Inr p \<and> trace cfg inp chk now = (p, ts, None)
     \<and> map rt_rule ts = map ru_name (dc_rules cfg)
     \<and> map rt_rule (filter rt_winner ts) = pl_rules p"
proof -
  let ?fm = "first_match chk inp (dc_rules cfg)"
  have ev: "evaluate cfg inp chk now = Inr (default_plan cfg (plan_for now inp ?fm))"
    using eval_rules_total [OF assms] by (simp add: evaluate_def)
  obtain ts where "trace_rules chk now inp False plan_init [] (dc_rules cfg)
        = (plan_for now inp ?fm, ts, None)"
      "map rt_rule ts = map ru_name (dc_rules cfg)"
      "map rt_rule (filter rt_winner ts) = (case ?fm of None \<Rightarrow> [] | Some r \<Rightarrow> [ru_name r])"
    using trace_rules_won [OF assms, of now inp False plan_init "[]"]
    by (auto simp: plan_for_def split: option.splits)
  moreover have "pl_rules (default_plan cfg (plan_for now inp ?fm))
      = (case ?fm of None \<Rightarrow> [] | Some r \<Rightarrow> [ru_name r])"
    by (simp add: default_plan_def plan_for_def plan_init_def plan_of_rule_def split: option.splits)
  ultimately show ?thesis using ev by (simp add: trace_def)
qed

subsection \<open>Properties\<close>

text \<open>
  Property C15. When no query of the firing store fails, the plan is that of the first rule that
  has not used up its single firing and whose predicate holds; without one, the action is the
  default. The trace of all rules ends with the same plan, has one entry per rule in order, and
  marks as the winner exactly the rule the plan names.
\<close>

theorem evaluate_first_match:
  assumes "\<forall>r \<in> set (dc_rules cfg). \<exists>b. fired_before chk r = Inr b"
  shows "evaluate cfg inp chk now = Inr (default_plan cfg (plan_for now inp (first_match chk inp (dc_rules cfg))))
    \<and> (\<exists>ts. trace cfg inp chk now
        = (default_plan cfg (plan_for now inp (first_match chk inp (dc_rules cfg))), ts, None)
      \<and> map rt_rule ts = map ru_name (dc_rules cfg)
      \<and> map rt_rule (filter rt_winner ts)
        = pl_rules (default_plan cfg (plan_for now inp (first_match chk inp (dc_rules cfg)))))"
proof -
  have "evaluate cfg inp chk now = Inr (default_plan cfg (plan_for now inp (first_match chk inp (dc_rules cfg))))"
    using eval_rules_total [OF assms] by (simp add: evaluate_def)
  then show ?thesis using trace_total [OF assms, of inp now] by auto
qed

theorem evaluate_first_match_witness:
  "(let r = \<lparr>ru_name = ''new'', ru_when = When True False None [] [] [] None, ru_once = True,
             ru_action = ''create'', ru_remember = []\<rparr>;
        cfg = \<lparr>dc_default = ''skip'', dc_rules = [r]\<rparr>;
        inp = \<lparr>in_first_seen = True, in_fp_changed = True, in_diff = [], in_previous = [], in_current = [],
               in_remembered = []\<rparr>
    in map_sum id pl_action (evaluate cfg inp (Some (\<lambda>_. Inr False)) ''now'') = Inr ''create''
       \<and> map_sum id pl_action (evaluate cfg inp (Some (\<lambda>_. Inr True)) ''now'') = Inr ''skip'')"
  using evaluate_first_match [of "\<lparr>dc_default = ''skip'', dc_rules = [\<lparr>ru_name = ''new'',
        ru_when = When True False None [] [] [] None, ru_once = True, ru_action = ''create'', ru_remember = []\<rparr>]\<rparr>"
      "Some (\<lambda>_. Inr False)" "\<lparr>in_first_seen = True, in_fp_changed = True, in_diff = [], in_previous = [],
        in_current = [], in_remembered = []\<rparr>" "''now''"]
  by (simp add: evaluate_def fired_before_def first_match_def not_fired_def plan_for_def plan_of_rule_def
      default_plan_def plan_init_def Let_def)

text \<open>
  A predicate with exactly one field set, at every level, means what the
  configuration format says: the any-list is a disjunction, the all-list a conjunction, the
  negation a negation.
\<close>

theorem eval_when_meaning:
  assumes "when_wf w"
  shows "fst (eval_when w inp) = holds inp w"
  using assms by (rule eval_when_holds)

theorem eval_when_meaning_witness:
  "fst (eval_when (When False False None [] [] [Some (When False True None [] [] [] None),
      Some (When False False None [] [] [] (Some (When True False None [] [] [] None)))] None)
     \<lparr>in_first_seen = False, in_fp_changed = True, in_diff = [], in_previous = [], in_current = [],
      in_remembered = []\<rparr>)"
  by (subst eval_when_meaning) simp_all

text \<open>
  The two evaluations differ on errors: when the firing of a rule behind the first
  match cannot be looked up, the engine's evaluation has already decided, but the trace, which
  visits every rule, ends with the error.
\<close>

theorem trace_fails_where_evaluate_decides:
  "(let w = When True False None [] [] [] None;
        r1 = \<lparr>ru_name = ''a'', ru_when = w, ru_once = False, ru_action = ''create'', ru_remember = []\<rparr>;
        r2 = \<lparr>ru_name = ''b'', ru_when = w, ru_once = True, ru_action = ''update'', ru_remember = []\<rparr>;
        cfg = \<lparr>dc_default = ''skip'', dc_rules = [r1, r2]\<rparr>;
        chk = Some (\<lambda>_. Inl (ErrMsg ''store down''));
        inp = \<lparr>in_first_seen = True, in_fp_changed = True, in_diff = [], in_previous = [], in_current = [],
               in_remembered = []\<rparr>
    in map_sum id pl_action (evaluate cfg inp chk ''now'') = Inr ''create''
       \<and> snd (snd (trace cfg inp chk ''now'')) \<noteq> None)"
  by (simp add: evaluate_def trace_def fired_before_def plan_of_rule_def default_plan_def Let_def)

end
