(* ===== verification/Safety.thy ===== *)
theory Safety
  imports Config
begin

section \<open>Blast-radius limits: internal/safety\<close>

text \<open>
  The per-run caps, the changed-field ratios checked before any delivery, and the approval gate.
  Counters are Go \<open>int\<close>s; ratios and thresholds are \<open>float64\<close>s, compared and printed as floats.
\<close>

record run_counts =
  rc_creates :: int
  rc_updates :: int
  rc_deletes :: int

definition counts_zero :: run_counts where
  "counts_zero = \<lparr>rc_creates = 0, rc_updates = 0, rc_deletes = 0\<rparr>"

definition allow :: "safety_config \<Rightarrow> string \<Rightarrow> run_counts \<Rightarrow> unit res" where
  "allow cfg action counts =
     (if action = ''create'' \<or> action = ''upsert'' then
        (if sf_max_creates cfg > 0 \<and> rc_creates counts \<ge> sf_max_creates cfg
         then Inl (ErrMsg (''safety: max_creates_per_run ('' @ dec_int (sf_max_creates cfg) @ '') reached''))
         else Inr ())
      else if action = ''update'' then
        (if sf_max_updates cfg > 0 \<and> rc_updates counts \<ge> sf_max_updates cfg
         then Inl (ErrMsg (''safety: max_updates_per_run ('' @ dec_int (sf_max_updates cfg) @ '') reached''))
         else Inr ())
      else if action = ''delete'' then
        (if sf_max_deletes cfg > 0 \<and> rc_deletes counts \<ge> sf_max_deletes cfg
         then Inl (ErrMsg (''safety: max_deletes_per_run ('' @ dec_int (sf_max_deletes cfg) @ '') reached''))
         else Inr ())
      else Inr ())"

definition record_action :: "string \<Rightarrow> run_counts \<Rightarrow> run_counts" where
  "record_action action c =
     (if action = ''create'' \<or> action = ''upsert'' then c\<lparr>rc_creates := rc_creates c + 1\<rparr>
      else if action = ''update'' then c\<lparr>rc_updates := rc_updates c + 1\<rparr>
      else if action = ''delete'' then c\<lparr>rc_deletes := rc_deletes c + 1\<rparr>
      else c)"

text \<open>A missing key of the counter map reads as zero.\<close>

definition get_count :: "(string \<times> int) list \<Rightarrow> string \<Rightarrow> int" where
  "get_count m k = (case alookup m k of None \<Rightarrow> 0 | Some n \<Rightarrow> n)"

definition field_ratio :: "(string \<times> int) list \<Rightarrow> int \<Rightarrow> string \<Rightarrow> f64" where
  "field_ratio changes entities field =
     f64_div (f64_of_int (get_count changes field)) (f64_of_int entities)"

definition ratio_error :: "string \<Rightarrow> f64 \<Rightarrow> f64 \<Rightarrow> go_error" where
  "ratio_error field ratio threshold =
     ErrMsg (''safety: field '' @ quote_q field @ '' changed in ''
       @ fmt_prec 1 (f64_mul ratio (FFin 100)) @ ''% of entities (limit ''
       @ fmt_prec 1 (f64_mul threshold (FFin 100)) @ ''%) '' @ em_dash
       @ '' use dry-run to review before proceeding'')"

fun check_ratios :: "(string \<times> int) list \<Rightarrow> int \<Rightarrow> (string \<times> f64) list \<Rightarrow> unit res" where
  "check_ratios changes entities [] = Inr ()"
| "check_ratios changes entities ((field, threshold) # rs) =
     (if f64_less threshold (field_ratio changes entities field)
      then Inl (ratio_error field (field_ratio changes entities field) threshold)
      else check_ratios changes entities rs)"

definition check_field_ratios :: "safety_config \<Rightarrow> (string \<times> int) list \<Rightarrow> int \<Rightarrow> unit res" where
  "check_field_ratios cfg changes entities =
     (if entities = 0 \<or> length (sf_ratios cfg) = 0 then Inr ()
      else check_ratios changes entities (sf_ratios cfg))"

fun approval_for :: "string list \<Rightarrow> run_counts \<Rightarrow> bool \<times> string" where
  "approval_for [] c = (False, [])"
| "approval_for (a # as) c =
     (if to_lower a = ''delete'' \<and> rc_deletes c > 0
        then (True, ''approval required for delete action ('' @ dec_int (rc_deletes c) @ '' deletes)'')
      else if to_lower a = ''create'' \<and> rc_creates c > 0
        then (True, ''approval required for create action ('' @ dec_int (rc_creates c) @ '' creates)'')
      else if to_lower a = ''update'' \<and> rc_updates c > 0
        then (True, ''approval required for update action ('' @ dec_int (rc_updates c) @ '' updates)'')
      else approval_for as c)"

definition approval_required :: "safety_config \<Rightarrow> run_counts \<Rightarrow> bool \<times> string" where
  "approval_required cfg c =
     (let n_total = rc_creates c + rc_updates c + rc_deletes c in
      if f64_less (FFin 0) (sf_approval_above cfg) \<and> f64_less (sf_approval_above cfg) (f64_of_int n_total)
      then (True, ''total deliveries ('' @ dec_int n_total @ '') exceeds require_approval_above (''
              @ fmt_prec 0 (sf_approval_above cfg) @ '')'')
      else approval_for (sf_approval_for cfg) c)"

subsection \<open>Facts\<close>

text \<open>A counter is within its cap when the cap is unset or not exceeded.\<close>

definition within_cap :: "int \<Rightarrow> int \<Rightarrow> bool" where
  "within_cap cap n \<longleftrightarrow> (cap > 0 \<longrightarrow> n \<le> cap)"

definition caps_ok :: "safety_config \<Rightarrow> run_counts \<Rightarrow> bool" where
  "caps_ok cfg c \<longleftrightarrow> within_cap (sf_max_creates cfg) (rc_creates c)
     \<and> within_cap (sf_max_updates cfg) (rc_updates c)
     \<and> within_cap (sf_max_deletes cfg) (rc_deletes c)"

lemma caps_ok_zero [simp]: "caps_ok cfg counts_zero"
  by (simp add: caps_ok_def within_cap_def counts_zero_def)

lemma allow_cases:
  assumes "allow cfg a c = Inr ()"
  obtains (create) "a = ''create'' \<or> a = ''upsert''"
      "sf_max_creates cfg > 0 \<longrightarrow> rc_creates c < sf_max_creates cfg"
      "record_action a c = c\<lparr>rc_creates := rc_creates c + 1\<rparr>"
    | (update) "a = ''update''" "sf_max_updates cfg > 0 \<longrightarrow> rc_updates c < sf_max_updates cfg"
      "record_action a c = c\<lparr>rc_updates := rc_updates c + 1\<rparr>"
    | (delete) "a = ''delete''" "sf_max_deletes cfg > 0 \<longrightarrow> rc_deletes c < sf_max_deletes cfg"
      "record_action a c = c\<lparr>rc_deletes := rc_deletes c + 1\<rparr>"
    | (other) "record_action a c = c"
proof (cases "a = ''create'' \<or> a = ''upsert''")
  case True
  then have "sf_max_creates cfg > 0 \<longrightarrow> rc_creates c < sf_max_creates cfg"
    using assms unfolding allow_def by (simp only: if_P split: if_splits) auto
  moreover have "record_action a c = c\<lparr>rc_creates := rc_creates c + 1\<rparr>"
    using True unfolding record_action_def by (simp only: if_P)
  ultimately show thesis using True create by blast
next
  case nc: False
  show thesis
  proof (cases "a = ''update''")
    case True
    then have "sf_max_updates cfg > 0 \<longrightarrow> rc_updates c < sf_max_updates cfg"
      using assms nc unfolding allow_def by (simp only: if_P if_not_P split: if_splits) auto
    moreover have "record_action a c = c\<lparr>rc_updates := rc_updates c + 1\<rparr>"
      using True nc unfolding record_action_def by (simp only: if_P if_not_P if_False if_True refl)
    ultimately show thesis using True update by blast
  next
    case nu: False
    show thesis
    proof (cases "a = ''delete''")
      case True
      then have "sf_max_deletes cfg > 0 \<longrightarrow> rc_deletes c < sf_max_deletes cfg"
        using assms nc nu unfolding allow_def by (simp only: if_P if_not_P split: if_splits) auto
      moreover have "record_action a c = c\<lparr>rc_deletes := rc_deletes c + 1\<rparr>"
        using True nc nu unfolding record_action_def by (simp only: if_P if_not_P if_False if_True refl)
      ultimately show thesis using True delete by blast
    next
      case False
      then show thesis using nc nu other unfolding record_action_def
        by (simp only: if_not_P if_False refl)
    qed
  qed
qed

lemma allow_record_caps:
  assumes "allow cfg a c = Inr ()" "caps_ok cfg c"
  shows "caps_ok cfg (record_action a c)"
  using assms(1)
proof (cases rule: allow_cases)
  case create
  show ?thesis using assms(2) create(2) unfolding create(3) by (auto simp: caps_ok_def within_cap_def)
next
  case update
  show ?thesis using assms(2) update(2) unfolding update(3) by (auto simp: caps_ok_def within_cap_def)
next
  case delete
  show ?thesis using assms(2) delete(2) unfolding delete(3) by (auto simp: caps_ok_def within_cap_def)
next
  case other
  then show ?thesis using assms(2) by simp
qed

lemma check_ratios_ok:
  "check_ratios changes entities rs = Inr () \<longleftrightarrow>
     (\<forall>(field, threshold) \<in> set rs. \<not> f64_less threshold (field_ratio changes entities field))"
  by (induction rs) (auto split: if_splits)

lemma check_field_ratios_ok:
  "check_field_ratios cfg changes entities = Inr () \<longleftrightarrow>
     entities = 0 \<or> (\<forall>(field, threshold) \<in> set (sf_ratios cfg).
                     \<not> f64_less threshold (field_ratio changes entities field))"
  by (auto simp: check_field_ratios_def check_ratios_ok)

lemma approval_for_iff:
  "fst (approval_for as c) \<longleftrightarrow>
     (\<exists>a \<in> set as. (to_lower a = ''delete'' \<and> rc_deletes c > 0)
        \<or> (to_lower a = ''create'' \<and> rc_creates c > 0) \<or> (to_lower a = ''update'' \<and> rc_updates c > 0))"
  by (induction as) auto

lemma counts_nonneg_record:
  "0 \<le> rc_creates c \<and> 0 \<le> rc_updates c \<and> 0 \<le> rc_deletes c \<Longrightarrow>
   0 \<le> rc_creates (record_action a c) \<and> 0 \<le> rc_updates (record_action a c)
     \<and> 0 \<le> rc_deletes (record_action a c)"
  by (simp add: record_action_def)

end
