(* ===== verification/Expr.thy ===== *)
theory Expr
  imports Go_Value
begin

section \<open>Filter expressions: internal/steps/expr.go\<close>

text \<open>
  The lexer, the recursive-descent parser and the evaluator of filter conditions. The lexer
  works byte by byte and classifies each byte as the Latin-1 rune of the same number, as the
  code does. The parser state is the current token and the unread input. The parser functions
  take fuel, one unit per call, and answer \<open>None\<close> when it runs out; the fuel that \<open>parse_expr\<close>
  passes is shown to be always enough.
\<close>

datatype token_kind =
    TokString | TokNumber | TokBool | TokEQ | TokNE | TokGT | TokGTE | TokLT | TokLTE
  | TokAND | TokOR | TokNOT | TokLParen | TokRParen | TokComma | TokIdent | TokEOF

record token =
  tk_kind :: token_kind
  tk_val :: string

definition tok :: "token_kind \<Rightarrow> string \<Rightarrow> token" where
  "tok k v = \<lparr>tk_kind = k, tk_val = v\<rparr>"

subsection \<open>The lexer\<close>

definition rune_of :: "char \<Rightarrow> nat" where
  "rune_of c = of_char c"

definition uni_space :: "char \<Rightarrow> bool" where
  "uni_space c \<longleftrightarrow> is_space c \<or> rune_of c = 133 \<or> rune_of c = 160"

definition uni_letter :: "char \<Rightarrow> bool" where
  "uni_letter c \<longleftrightarrow> (let n = rune_of c in
     (65 \<le> n \<and> n \<le> 90) \<or> (97 \<le> n \<and> n \<le> 122) \<or> n = 170 \<or> n = 181 \<or> n = 186
     \<or> (192 \<le> n \<and> n \<le> 214) \<or> (216 \<le> n \<and> n \<le> 246) \<or> (248 \<le> n \<and> n \<le> 255))"

definition ident_char :: "char \<Rightarrow> bool" where
  "ident_char c \<longleftrightarrow> uni_letter c \<or> is_digit c \<or> c = CHR ''_'' \<or> c = CHR ''.''"

definition number_char :: "char \<Rightarrow> bool" where
  "number_char c \<longleftrightarrow> is_digit c \<or> c = CHR ''.''"

definition not_quote :: "char \<Rightarrow> bool" where
  "not_quote c \<longleftrightarrow> c \<noteq> CHR 0x27"

text \<open>The conversion \<open>string(ch)\<close> of a byte encodes its rune in UTF-8.\<close>

definition rune_string :: "char \<Rightarrow> string" where
  "rune_string c = (let n = rune_of c in
     if n < 128 then [c] else [char_of (192 + n div 64), char_of (128 + n mod 64)])"

definition ident_token :: "string \<Rightarrow> token" where
  "ident_token s =
     (let u = to_upper s in
      if u = ''AND'' then tok TokAND s
      else if u = ''OR'' then tok TokOR s
      else if u = ''NOT'' then tok TokNOT s
      else if u = ''TRUE'' \<or> u = ''FALSE'' then tok TokBool (to_lower s)
      else tok TokIdent s)"

text \<open>
  One token from a byte that is neither white space nor the end of the input. A single \<open>=\<close> or
  \<open>!\<close>, like any other unknown byte, yields an end-of-input token carrying the byte.
\<close>

definition lex_word :: "char \<Rightarrow> string \<Rightarrow> token \<times> string" where
  "lex_word c s =
     (if is_digit c then (tok TokNumber (takeWhile number_char (c # s)), dropWhile number_char (c # s))
      else let w = takeWhile ident_char (c # s) in
        if w = [] then (tok TokEOF (rune_string c), s)
        else (ident_token w, dropWhile ident_char (c # s)))"

definition peek_eq :: "string \<Rightarrow> bool" where
  "peek_eq s \<longleftrightarrow> (case s of [] \<Rightarrow> False | d # _ \<Rightarrow> d = CHR ''='')"

definition lex_char :: "char \<Rightarrow> string \<Rightarrow> token \<times> string" where
  "lex_char c s =
     (if c = CHR ''('' then (tok TokLParen ''('', s)
      else if c = CHR '')'' then (tok TokRParen '')'', s)
      else if c = CHR '','' then (tok TokComma '','', s)
      else if c = CHR ''='' \<and> peek_eq s then (tok TokEQ ''=='', tl s)
      else if c = CHR ''!'' \<and> peek_eq s then (tok TokNE ''!='', tl s)
      else if c = CHR ''>'' then
        (if peek_eq s then (tok TokGTE ''>='', tl s) else (tok TokGT ''>'', s))
      else if c = CHR ''<'' then
        (if peek_eq s then (tok TokLTE ''<='', tl s) else (tok TokLT ''<'', s))
      else if c = CHR 0x27 then
        (tok TokString (takeWhile not_quote s), tl (dropWhile not_quote s))
      else lex_word c s)"

definition lex_next :: "string \<Rightarrow> token \<times> string" where
  "lex_next s =
     (case dropWhile uni_space s of
        [] \<Rightarrow> (tok TokEOF [], [])
      | c # r \<Rightarrow> lex_char c r)"

subsection \<open>Expressions\<close>

datatype cmp_op = OpEQ | OpNE | OpGT | OpGTE | OpLT | OpLTE

datatype literal = LitString string | LitNumber f64 | LitBool bool

datatype expr =
    ECmp string cmp_op literal
  | EAnd expr expr
  | EOr expr expr
  | ENot expr
  | EContains string string
  | EStartsWith string string

text \<open>
  \<open>strconv.ParseFloat\<close> on a word of digits and dots that starts with a digit: at most one dot,
  the nearest float, an error when the value overflows.
\<close>

definition parse_float :: "string \<Rightarrow> f64 option" where
  "parse_float s =
     (case split_char (CHR ''.'') s of
        [i] \<Rightarrow> (case f64_of_rat (of_int (read_int i)) of FFin q \<Rightarrow> Some (FFin q) | _ \<Rightarrow> None)
      | [i, f] \<Rightarrow> (case f64_of_rat (of_int (read_int (i @ f)) / 10 ^ length f) of
                     FFin q \<Rightarrow> Some (FFin q) | _ \<Rightarrow> None)
      | _ \<Rightarrow> None)"

definition cmp_of_token :: "token_kind \<Rightarrow> cmp_op option" where
  "cmp_of_token k =
     (case k of TokEQ \<Rightarrow> Some OpEQ | TokNE \<Rightarrow> Some OpNE | TokGT \<Rightarrow> Some OpGT
      | TokGTE \<Rightarrow> Some OpGTE | TokLT \<Rightarrow> Some OpLT | TokLTE \<Rightarrow> Some OpLTE | _ \<Rightarrow> None)"

subsection \<open>The parser\<close>

type_synonym pstate = "token \<times> string"
type_synonym 'a parsed = "('a \<times> pstate) res"

definition p_next :: "pstate \<Rightarrow> pstate" where
  "p_next st = lex_next (snd st)"

abbreviation cur_kind :: "pstate \<Rightarrow> token_kind" where
  "cur_kind st \<equiv> tk_kind (fst st)"

abbreviation cur_val :: "pstate \<Rightarrow> string" where
  "cur_val st \<equiv> tk_val (fst st)"

definition unexpected :: "pstate \<Rightarrow> go_error" where
  "unexpected st = ErrMsg (''unexpected token '' @ quote_q (cur_val st))"

definition parse_value :: "pstate \<Rightarrow> literal parsed" where
  "parse_value st =
     (case cur_kind st of
        TokString \<Rightarrow> Inr (LitString (cur_val st), p_next st)
      | TokNumber \<Rightarrow>
          (case parse_float (cur_val st) of
             None \<Rightarrow> Inl (ErrMsg (''invalid number '' @ quote_q (cur_val st)))
           | Some x \<Rightarrow> Inr (LitNumber x, p_next st))
      | TokBool \<Rightarrow> Inr (LitBool (cur_val st = ''true''), p_next st)
      | _ \<Rightarrow> Inl (ErrMsg (''expected literal value, got '' @ quote_q (cur_val st))))"

definition parse_comparison :: "string \<Rightarrow> pstate \<Rightarrow> expr parsed" where
  "parse_comparison field st =
     (case cmp_of_token (cur_kind st) of
        None \<Rightarrow> Inl (ErrMsg (''expected comparison operator after '' @ quote_q field))
      | Some op \<Rightarrow>
          (case parse_value (p_next st) of
             Inl e \<Rightarrow> Inl e
           | Inr (v, st') \<Rightarrow> Inr (ECmp field op v, st')))"

text \<open>The state passed in is at the opening parenthesis.\<close>

definition parse_function_call :: "string \<Rightarrow> pstate \<Rightarrow> expr parsed" where
  "parse_function_call name st0 =
     (let st1 = p_next st0 in
      if cur_kind st1 \<noteq> TokIdent
        then Inl (ErrMsg (''expected field name in '' @ name @ ''()''))
      else let field = cur_val st1; st2 = p_next st1 in
      if cur_kind st2 \<noteq> TokComma then Inl (unexpected st2)
      else let st3 = p_next st2 in
      if cur_kind st3 \<noteq> TokString
        then Inl (ErrMsg (''expected string literal in '' @ name @ ''()''))
      else let arg = cur_val st3; st4 = p_next st3 in
      if cur_kind st4 \<noteq> TokRParen then Inl (unexpected st4)
      else let st5 = p_next st4 in
      if to_lower name = ''contains'' then Inr (EContains field arg, st5)
      else if to_lower name = ''startswith'' then Inr (EStartsWith field arg, st5)
      else Inl (ErrMsg (''unknown function '' @ quote_q name)))"

text \<open>
  The parser methods as one function on the method to run: \<open>POr\<close>, \<open>PAnd\<close>, \<open>PNot\<close> and
  \<open>PPrimary\<close> are the methods, \<open>PLoopOr\<close> and \<open>PLoopAnd\<close> the loops of the first two with the
  expression built so far. Each body below takes the function to call for the other methods.
\<close>

datatype p_method = POr | PLoopOr expr | PAnd | PLoopAnd expr | PNot | PPrimary

type_synonym p_call = "p_method \<Rightarrow> pstate \<Rightarrow> expr parsed option"

definition then_parse ::
  "expr parsed option \<Rightarrow> (expr \<Rightarrow> pstate \<Rightarrow> expr parsed option) \<Rightarrow> expr parsed option" where
  "then_parse r f = (case r of Some (Inr (e, st)) \<Rightarrow> f e st | _ \<Rightarrow> r)"

definition parse_or :: "p_call \<Rightarrow> pstate \<Rightarrow> expr parsed option" where
  "parse_or call st = then_parse (call PAnd st) (\<lambda>l. call (PLoopOr l))"

definition loop_or :: "p_call \<Rightarrow> expr \<Rightarrow> pstate \<Rightarrow> expr parsed option" where
  "loop_or call l st =
     (if cur_kind st = TokOR
      then then_parse (call PAnd (p_next st)) (\<lambda>r. call (PLoopOr (EOr l r)))
      else Some (Inr (l, st)))"

definition parse_and :: "p_call \<Rightarrow> pstate \<Rightarrow> expr parsed option" where
  "parse_and call st = then_parse (call PNot st) (\<lambda>l. call (PLoopAnd l))"

definition loop_and :: "p_call \<Rightarrow> expr \<Rightarrow> pstate \<Rightarrow> expr parsed option" where
  "loop_and call l st =
     (if cur_kind st = TokAND
      then then_parse (call PNot (p_next st)) (\<lambda>r. call (PLoopAnd (EAnd l r)))
      else Some (Inr (l, st)))"

definition parse_not :: "p_call \<Rightarrow> pstate \<Rightarrow> expr parsed option" where
  "parse_not call st =
     (if cur_kind st = TokNOT
      then then_parse (call PNot (p_next st)) (\<lambda>e st'. Some (Inr (ENot e, st')))
      else call PPrimary st)"

definition parse_primary :: "p_call \<Rightarrow> pstate \<Rightarrow> expr parsed option" where
  "parse_primary call st =
     (if cur_kind st = TokLParen then
        then_parse (call POr (p_next st))
          (\<lambda>e st'. if cur_kind st' \<noteq> TokRParen then Some (Inl (unexpected st'))
                   else Some (Inr (e, p_next st')))
      else if cur_kind st = TokIdent then
        (let name = cur_val st; st' = p_next st in
         if cur_kind st' = TokLParen then Some (parse_function_call name st')
         else Some (parse_comparison name st'))
      else Some (Inl (unexpected st)))"

fun p_step :: "p_call \<Rightarrow> p_call" where
  "p_step call POr st = parse_or call st"
| "p_step call (PLoopOr l) st = loop_or call l st"
| "p_step call PAnd st = parse_and call st"
| "p_step call (PLoopAnd l) st = loop_and call l st"
| "p_step call PNot st = parse_not call st"
| "p_step call PPrimary st = parse_primary call st"

fun run_parser :: "nat \<Rightarrow> p_call" where
  "run_parser 0 m st = None"
| "run_parser (Suc n) m st = p_step (run_parser n) m st"

definition parse_fuel :: "string \<Rightarrow> nat" where
  "parse_fuel s = 6 * length s + 5"

definition parse_expr :: "string \<Rightarrow> expr res option" where
  "parse_expr condition =
     (case run_parser (parse_fuel condition) POr (lex_next condition) of
        None \<Rightarrow> None
      | Some (Inl e) \<Rightarrow> Some (Inl e)
      | Some (Inr (e, st)) \<Rightarrow>
          if cur_kind st \<noteq> TokEOF then Some (Inl (unexpected st)) else Some (Inr e))"

subsection \<open>The evaluator\<close>

fun to_float64 :: "gval \<Rightarrow> f64 option" where
  "to_float64 (GInt i) = Some (f64_of_int i)"
| "to_float64 (GFloat x) = Some x"
| "to_float64 v = None"

fun cmp_strings :: "cmp_op \<Rightarrow> string \<Rightarrow> string \<Rightarrow> bool" where
  "cmp_strings OpEQ a b = (a = b)"
| "cmp_strings OpNE a b = (a \<noteq> b)"
| "cmp_strings OpGT a b = (b < a)"
| "cmp_strings OpGTE a b = (b \<le> a)"
| "cmp_strings OpLT a b = (a < b)"
| "cmp_strings OpLTE a b = (a \<le> b)"

fun cmp_floats :: "cmp_op \<Rightarrow> f64 \<Rightarrow> f64 \<Rightarrow> bool" where
  "cmp_floats OpEQ a b = f64_eq a b"
| "cmp_floats OpNE a b = (\<not> f64_eq a b)"
| "cmp_floats OpGT a b = f64_less b a"
| "cmp_floats OpGTE a b = f64_le b a"
| "cmp_floats OpLT a b = f64_less a b"
| "cmp_floats OpLTE a b = f64_le a b"

fun cmp_bools :: "cmp_op \<Rightarrow> bool \<Rightarrow> bool \<Rightarrow> bool" where
  "cmp_bools OpEQ a b = (a = b)"
| "cmp_bools OpNE a b = (a \<noteq> b)"
| "cmp_bools op a b = False"

fun as_string :: "gval \<Rightarrow> string option" where
  "as_string (GStr s) = Some s"
| "as_string v = None"

fun as_bool :: "gval \<Rightarrow> bool option" where
  "as_bool (GBool b) = Some b"
| "as_bool v = None"

definition eval_cmp :: "cmp_op \<Rightarrow> literal \<Rightarrow> gval \<Rightarrow> bool" where
  "eval_cmp op lit left_v =
     (case lit of
        LitString rv \<Rightarrow> (case as_string left_v of None \<Rightarrow> False | Some ls \<Rightarrow> cmp_strings op ls rv)
      | LitNumber rv \<Rightarrow> (case to_float64 left_v of None \<Rightarrow> False | Some lf \<Rightarrow> cmp_floats op lf rv)
      | LitBool rv \<Rightarrow> (case as_bool left_v of None \<Rightarrow> False | Some lb \<Rightarrow> cmp_bools op lb rv))"

definition on_string :: "payload \<Rightarrow> string \<Rightarrow> (string \<Rightarrow> bool) \<Rightarrow> bool" where
  "on_string data field f =
     (case alookup data field of None \<Rightarrow> False
      | Some v \<Rightarrow> (case as_string v of None \<Rightarrow> False | Some s \<Rightarrow> f s))"

fun eval_expr :: "expr \<Rightarrow> payload \<Rightarrow> bool" where
  "eval_expr (ECmp field op lit) data =
     (case alookup data field of None \<Rightarrow> False | Some v \<Rightarrow> eval_cmp op lit v)"
| "eval_expr (EAnd l r) data = (eval_expr l data \<and> eval_expr r data)"
| "eval_expr (EOr l r) data = (eval_expr l data \<or> eval_expr r data)"
| "eval_expr (ENot e) data = (\<not> eval_expr e data)"
| "eval_expr (EContains field sub) data = on_string data field (\<lambda>s. contains_str s sub)"
| "eval_expr (EStartsWith field pre) data = on_string data field (\<lambda>s. has_prefix s pre)"

subsection \<open>The fuel is enough\<close>

text \<open>
  The size of a parser state: zero at an end-of-input token, which no method reads past. Every
  other token shrinks it, and each method has spent at least one token by the time it calls
  itself again.
\<close>

definition p_size :: "pstate \<Rightarrow> nat" where
  "p_size st = (if cur_kind st = TokEOF then 0 else Suc (length (snd st)))"

lemma lex_word_consumes: "lex_word c s = (t, r) \<Longrightarrow> length r \<le> length s"
proof -
  have le: "length (dropWhile P (c # s)) \<le> length s" if "P c" for P
    using that by (simp add: length_dropWhile_le)
  have "number_char c" if "is_digit c" using that by (simp add: number_char_def)
  moreover have "ident_char c" if "takeWhile ident_char (c # s) \<noteq> []" using that by (auto split: if_splits)
  ultimately show "lex_word c s = (t, r) \<Longrightarrow> length r \<le> length s"
    using le by (auto simp: lex_word_def Let_def split: if_splits)
qed

lemma length_tl_dropWhile: "length (tl (dropWhile P s)) \<le> length s"
  by (metis diff_le_self le_trans length_dropWhile_le length_tl)

lemma lex_char_consumes: "lex_char c s = (t, r) \<Longrightarrow> length r \<le> length s"
  using length_tl_dropWhile [of not_quote s] lex_word_consumes [of c s t r]
  by (auto simp: lex_char_def split: if_splits)

lemma lex_next_size: "p_size (lex_next s) \<le> length s"
proof (cases "dropWhile uni_space s")
  case Nil
  show ?thesis unfolding lex_next_def Nil by (simp add: p_size_def tok_def)
next
  case (Cons c r)
  obtain t r' where l: "lex_char c r = (t, r')" by fastforce
  have "Suc (length r') \<le> length (dropWhile uni_space s)"
    using lex_char_consumes [OF l] Cons by simp
  then show ?thesis
    using Cons l length_dropWhile_le [of uni_space s] by (simp add: lex_next_def p_size_def)
qed

lemma p_next_size: "cur_kind st \<noteq> TokEOF \<Longrightarrow> p_size (p_next st) < p_size st"
  using lex_next_size [of "snd st"] by (simp add: p_next_def p_size_def)

lemma p_next_size_le: "p_size (p_next st) \<le> p_size st \<or> cur_kind st = TokEOF"
  using p_next_size [of st] by linarith

lemma parse_value_size: "parse_value st = Inr (v, st') \<Longrightarrow> p_size st' < p_size st"
  using p_next_size [of st]
  by (auto simp: parse_value_def split: token_kind.splits option.splits)

lemma parse_comparison_size: "parse_comparison f st = Inr (e, st') \<Longrightarrow> p_size st' < p_size st"
proof -
  assume h: "parse_comparison f st = Inr (e, st')"
  then have "cur_kind st \<noteq> TokEOF"
    by (auto simp: parse_comparison_def cmp_of_token_def)
  then have "p_size (p_next st) < p_size st" by (rule p_next_size)
  moreover have "p_size st' < p_size (p_next st)"
    using h by (auto simp: parse_comparison_def split: option.splits sum.splits dest: parse_value_size)
  ultimately show ?thesis by simp
qed

lemma parse_function_call_size:
  assumes "parse_function_call f st = Inr (e, st')" "cur_kind st \<noteq> TokEOF"
  shows "p_size st' < p_size st"
proof -
  let ?s1 = "p_next st" let ?s2 = "p_next ?s1" let ?s3 = "p_next ?s2" let ?s4 = "p_next ?s3"
  have k: "cur_kind ?s1 = TokIdent" "cur_kind ?s2 = TokComma" "cur_kind ?s3 = TokString"
      "cur_kind ?s4 = TokRParen" "st' = p_next ?s4"
    using assms(1) by (auto simp: parse_function_call_def Let_def split: if_splits)
  have "p_size ?s1 < p_size st" using assms(2) by (rule p_next_size)
  moreover have "p_size ?s2 < p_size ?s1" "p_size ?s3 < p_size ?s2" "p_size ?s4 < p_size ?s3"
      "p_size st' < p_size ?s4"
    using k p_next_size [of ?s1] p_next_size [of ?s2] p_next_size [of ?s3] p_next_size [of ?s4] by simp_all
  ultimately show ?thesis by linarith
qed

text \<open>What a call needs, and what it has spent when it succeeds.\<close>

definition p_fuel :: "p_method \<Rightarrow> pstate \<Rightarrow> nat" where
  "p_fuel m st = 6 * p_size st + (case m of POr \<Rightarrow> 4 | PLoopOr _ \<Rightarrow> 1 | PAnd \<Rightarrow> 3
     | PLoopAnd _ \<Rightarrow> 1 | PNot \<Rightarrow> 2 | PPrimary \<Rightarrow> 1)"

definition p_done :: "p_method \<Rightarrow> pstate \<Rightarrow> expr parsed option \<Rightarrow> bool" where
  "p_done m st r \<longleftrightarrow> (case r of None \<Rightarrow> False | Some (Inl e) \<Rightarrow> True
     | Some (Inr (e, st')) \<Rightarrow> (case m of PLoopOr _ \<Rightarrow> p_size st' \<le> p_size st
          | PLoopAnd _ \<Rightarrow> p_size st' \<le> p_size st | _ \<Rightarrow> p_size st' < p_size st))"

lemma p_done_then:
  assumes "p_done m st r" "\<And>e st'. r = Some (Inr (e, st')) \<Longrightarrow> p_done m' s0 (f e st')"
  shows "p_done m' s0 (then_parse r f)"
  using assms by (auto simp: p_done_def then_parse_def split: option.splits sum.splits)

lemma run_parser_done: "p_fuel m st \<le> n \<Longrightarrow> p_done m st (run_parser n m st)"
proof (induction n arbitrary: m st)
  case 0
  then show ?case by (simp add: p_fuel_def split: p_method.splits)
next
  case (Suc n)
  note call = Suc.IH
  have nx: "p_size (p_next st) < p_size st" if "cur_kind st \<noteq> TokEOF"
    using that by (rule p_next_size)
  have res: "p_size st' < p_size s \<or> (\<exists>l. m' = PLoopOr l \<or> m' = PLoopAnd l) \<and> p_size st' \<le> p_size s"
    if "p_done m' s (Some (Inr (e, st')))" for m' s e st'
    using that by (auto simp: p_done_def split: p_method.splits)
  show ?case
  proof (cases m)
    case POr
    have "p_done PAnd st (run_parser n PAnd st)"
      using Suc.prems POr by (intro call) (simp add: p_fuel_def)
    moreover have "p_done POr st (run_parser n (PLoopOr l) st')"
      if "run_parser n PAnd st = Some (Inr (l, st'))" for l st'
    proof -
      have lt: "p_size st' < p_size st"
        using calculation that by (simp add: p_done_def)
      then have "p_done (PLoopOr l) st' (run_parser n (PLoopOr l) st')"
        using Suc.prems POr by (intro call) (simp add: p_fuel_def)
      with lt show ?thesis by (auto simp: p_done_def split: option.splits sum.splits)
    qed
    ultimately show ?thesis using POr by (auto simp: parse_or_def intro: p_done_then)
  next
    case (PLoopOr l)
    show ?thesis
    proof (cases "cur_kind st = TokOR")
      case True
      then have lt: "p_size (p_next st) < p_size st" using nx by simp
      have a: "p_done PAnd (p_next st) (run_parser n PAnd (p_next st))"
        using Suc.prems PLoopOr lt by (intro call) (simp add: p_fuel_def)
      have "p_done (PLoopOr l) st (run_parser n (PLoopOr (EOr l r)) st')"
        if "run_parser n PAnd (p_next st) = Some (Inr (r, st'))" for r st'
      proof -
        have lt': "p_size st' < p_size st" using a that lt by (simp add: p_done_def)
        then have "p_done (PLoopOr (EOr l r)) st' (run_parser n (PLoopOr (EOr l r)) st')"
          using Suc.prems PLoopOr by (intro call) (simp add: p_fuel_def)
        with lt' show ?thesis by (auto simp: p_done_def split: option.splits sum.splits)
      qed
      with a show ?thesis using PLoopOr True by (auto simp: loop_or_def intro: p_done_then)
    qed (simp add: PLoopOr loop_or_def p_done_def)
  next
    case PAnd
    have "p_done PNot st (run_parser n PNot st)"
      using Suc.prems PAnd by (intro call) (simp add: p_fuel_def)
    moreover have "p_done PAnd st (run_parser n (PLoopAnd l) st')"
      if "run_parser n PNot st = Some (Inr (l, st'))" for l st'
    proof -
      have lt: "p_size st' < p_size st"
        using calculation that by (simp add: p_done_def)
      then have "p_done (PLoopAnd l) st' (run_parser n (PLoopAnd l) st')"
        using Suc.prems PAnd by (intro call) (simp add: p_fuel_def)
      with lt show ?thesis by (auto simp: p_done_def split: option.splits sum.splits)
    qed
    ultimately show ?thesis using PAnd by (auto simp: parse_and_def intro: p_done_then)
  next
    case (PLoopAnd l)
    show ?thesis
    proof (cases "cur_kind st = TokAND")
      case True
      then have lt: "p_size (p_next st) < p_size st" using nx by simp
      have a: "p_done PNot (p_next st) (run_parser n PNot (p_next st))"
        using Suc.prems PLoopAnd lt by (intro call) (simp add: p_fuel_def)
      have "p_done (PLoopAnd l) st (run_parser n (PLoopAnd (EAnd l r)) st')"
        if "run_parser n PNot (p_next st) = Some (Inr (r, st'))" for r st'
      proof -
        have lt': "p_size st' < p_size st" using a that lt by (simp add: p_done_def)
        then have "p_done (PLoopAnd (EAnd l r)) st' (run_parser n (PLoopAnd (EAnd l r)) st')"
          using Suc.prems PLoopAnd by (intro call) (simp add: p_fuel_def)
        with lt' show ?thesis by (auto simp: p_done_def split: option.splits sum.splits)
      qed
      with a show ?thesis using PLoopAnd True by (auto simp: loop_and_def intro: p_done_then)
    qed (simp add: PLoopAnd loop_and_def p_done_def)
  next
    case PNot
    show ?thesis
    proof (cases "cur_kind st = TokNOT")
      case True
      then have lt: "p_size (p_next st) < p_size st" using nx by simp
      then have "p_done PNot (p_next st) (run_parser n PNot (p_next st))"
        using Suc.prems PNot by (intro call) (simp add: p_fuel_def)
      then show ?thesis using lt PNot True
        by (auto simp: parse_not_def p_done_def then_parse_def split: option.splits sum.splits)
    next
      case False
      have "p_done PPrimary st (run_parser n PPrimary st)"
        using Suc.prems PNot by (intro call) (simp add: p_fuel_def)
      then show ?thesis using PNot False
        by (auto simp: parse_not_def p_done_def split: option.splits sum.splits)
    qed
  next
    case PPrimary
    show ?thesis
    proof (cases "cur_kind st = TokLParen")
      case True
      then have lt: "p_size (p_next st) < p_size st" using nx by simp
      then have a: "p_done POr (p_next st) (run_parser n POr (p_next st))"
        using Suc.prems PPrimary by (intro call) (simp add: p_fuel_def)
      have "p_size (p_next st') < p_size st"
        if "p_size st' < p_size (p_next st)" "cur_kind st' = TokRParen" for st'
        using that lt p_next_size [of st'] by simp
      with a show ?thesis using PPrimary True
        by (auto simp: parse_primary_def p_done_def then_parse_def split: option.splits sum.splits)
    next
      case False
      then show ?thesis
        using PPrimary nx parse_function_call_size [of "cur_val st" "p_next st"]
          parse_comparison_size [of "cur_val st" "p_next st"]
        by (auto simp: parse_primary_def p_done_def Let_def split: sum.splits dest: less_trans)
    qed
  qed
qed

lemma parse_expr_returns: "parse_expr s \<noteq> None"
proof -
  have "p_fuel POr (lex_next s) \<le> parse_fuel s"
    using lex_next_size [of s] by (simp add: p_fuel_def parse_fuel_def)
  from run_parser_done [OF this] have "run_parser (parse_fuel s) POr (lex_next s) \<noteq> None"
    by (cases "run_parser (parse_fuel s) POr (lex_next s)") (simp_all add: p_done_def)
  then show ?thesis
    by (auto simp: parse_expr_def split: option.splits sum.splits)
qed

subsection \<open>Printing and parsing back\<close>

text \<open>
  A printer for expressions, with every conjunction and disjunction in parentheses, and the
  expressions it can print: field names that lex as one identifier, string literals without a
  quote, non-negative integral numbers.
\<close>

definition show_op :: "cmp_op \<Rightarrow> string" where
  "show_op op = (case op of OpEQ \<Rightarrow> ''=='' | OpNE \<Rightarrow> ''!='' | OpGT \<Rightarrow> ''>'' | OpGTE \<Rightarrow> ''>=''
     | OpLT \<Rightarrow> ''<'' | OpLTE \<Rightarrow> ''<='')"

definition show_str :: "string \<Rightarrow> string" where
  "show_str s = CHR 0x27 # s @ [CHR 0x27]"

definition show_lit :: "literal \<Rightarrow> string" where
  "show_lit l = (case l of LitString s \<Rightarrow> show_str s
     | LitNumber x \<Rightarrow> (case x of FFin q \<Rightarrow> dec_pos \<lfloor>q\<rfloor> | _ \<Rightarrow> [])
     | LitBool b \<Rightarrow> if b then ''true'' else ''false'')"

fun show_expr :: "expr \<Rightarrow> string" where
  "show_expr (ECmp f op l) = f @ '' '' @ show_op op @ '' '' @ show_lit l"
| "show_expr (EAnd l r) = ''('' @ show_expr l @ '' AND '' @ show_expr r @ '')''"
| "show_expr (EOr l r) = ''('' @ show_expr l @ '' OR '' @ show_expr r @ '')''"
| "show_expr (ENot e) = ''NOT '' @ show_expr e"
| "show_expr (EContains f s) = ''contains('' @ f @ '', '' @ show_str s @ '')''"
| "show_expr (EStartsWith f s) = ''startswith('' @ f @ '', '' @ show_str s @ '')''"

definition reserved :: "string list" where
  "reserved = [''AND'', ''OR'', ''NOT'', ''TRUE'', ''FALSE'']"

definition field_name :: "string \<Rightarrow> bool" where
  "field_name f \<longleftrightarrow> (case f of [] \<Rightarrow> False | c # _ \<Rightarrow> \<not> is_digit c)
     \<and> list_all ident_char f \<and> to_upper f \<notin> set reserved"

definition show_lit_ok :: "literal \<Rightarrow> bool" where
  "show_lit_ok l \<longleftrightarrow> (case l of LitString s \<Rightarrow> list_all not_quote s
     | LitNumber x \<Rightarrow> (case x of FFin q \<Rightarrow> 0 \<le> q \<and> q = of_int \<lfloor>q\<rfloor> \<and> f64_of_rat q = FFin q
                       | _ \<Rightarrow> False)
     | LitBool b \<Rightarrow> True)"

fun printable :: "expr \<Rightarrow> bool" where
  "printable (ECmp f op l) = (field_name f \<and> show_lit_ok l)"
| "printable (EAnd l r) = (printable l \<and> printable r)"
| "printable (EOr l r) = (printable l \<and> printable r)"
| "printable (ENot e) = printable e"
| "printable (EContains f s) = (field_name f \<and> list_all not_quote s)"
| "printable (EStartsWith f s) = (field_name f \<and> list_all not_quote s)"

text \<open>The input after a word: empty, or a byte that ends it.\<close>

definition word_end :: "string \<Rightarrow> bool" where
  "word_end s \<longleftrightarrow> (case s of [] \<Rightarrow> True | c # _ \<Rightarrow> \<not> ident_char c)"

lemma takeWhile_word:
  "list_all P w \<Longrightarrow> (case r of [] \<Rightarrow> True | c # _ \<Rightarrow> \<not> P c) \<Longrightarrow>
     takeWhile P (w @ r) = w \<and> dropWhile P (w @ r) = r"
  by (cases r) (auto simp: list_all_iff takeWhile_append dropWhile_append)

lemma number_ident_char: "number_char c \<Longrightarrow> ident_char c"
  by (auto simp: number_char_def ident_char_def)

lemma ident_char_plain:
  assumes "ident_char c"
  shows "\<not> uni_space c" "lex_char c s = lex_word c s"
proof -
  have "\<not> is_space c" using assms
    by (auto simp: is_space_def ident_char_def uni_letter_def rune_of_def is_digit_of_char)
  moreover have "rune_of c \<noteq> 133" "rune_of c \<noteq> 160" using assms
    by (auto simp: ident_char_def uni_letter_def rune_of_def is_digit_def less_eq_char_def)
  ultimately show "\<not> uni_space c" by (simp add: uni_space_def)
  have "c \<notin> {CHR ''('', CHR '')'', CHR '','', CHR ''='', CHR ''!'', CHR ''>'', CHR ''<'', CHR 0x27}"
    using assms by (auto simp: ident_char_def uni_letter_def rune_of_def is_digit_of_char)
  then show "lex_char c s = lex_word c s" by (simp add: lex_char_def)
qed

lemma lex_space: "lex_next (CHR '' '' # s) = lex_next s"
  by (simp add: lex_next_def uni_space_def is_space_def)

lemma lex_ident_word:
  assumes "list_all ident_char w" "w \<noteq> []" "\<not> is_digit (hd w)" "word_end r"
  shows "lex_next (w @ r) = (ident_token w, r)"
proof -
  obtain c s where w: "w = c # s" using assms(2) by (cases w) auto
  have c: "ident_char c" using assms(1) w by simp
  have "takeWhile ident_char (c # s @ r) = w" "dropWhile ident_char (c # s @ r) = r"
    using takeWhile_word [OF assms(1), of r] assms(4) w by (auto simp: word_end_def)
  then have "lex_word c (s @ r) = (ident_token w, r)"
    using assms(3) w by (simp add: lex_word_def del: takeWhile.simps dropWhile.simps)
  then show ?thesis
    using ident_char_plain [OF c] by (simp add: lex_next_def w)
qed

lemma lex_field:
  assumes "field_name f" "word_end r"
  shows "lex_next (f @ r) = (tok TokIdent f, r)"
proof -
  have "f \<noteq> []" "\<not> is_digit (hd f)" "list_all ident_char f" "to_upper f \<notin> set reserved"
    using assms(1) by (auto simp: field_name_def split: list.splits)
  then show ?thesis
    using lex_ident_word [of f r] assms(2) by (simp add: ident_token_def reserved_def Let_def)
qed

lemma lex_number:
  assumes "0 \<le> n" "word_end r"
  shows "lex_next (dec_pos n @ r) = (tok TokNumber (dec_pos n), r)"
proof -
  obtain c s where d: "dec_pos n = c # s" by (cases "dec_pos n") auto
  have dig: "is_digit x" if "x \<in> set (dec_pos n)" for x using dec_pos_digits [OF assms(1) that] .
  then have num: "list_all number_char (dec_pos n)" by (auto simp: list_all_iff number_char_def)
  have c: "is_digit c" "ident_char c" using dig d by (auto simp: ident_char_def)
  have "takeWhile number_char (c # s @ r) = dec_pos n" "dropWhile number_char (c # s @ r) = r"
    using takeWhile_word [OF num, of r] assms(2) number_ident_char
    unfolding d append_Cons word_end_def by (metis (mono_tags, lifting) list.case_eq_if)+
  then have "lex_word c (s @ r) = (tok TokNumber (dec_pos n), r)"
    using c by (simp add: lex_word_def del: takeWhile.simps dropWhile.simps)
  then show ?thesis
    using ident_char_plain [OF c(2)] by (simp add: lex_next_def d)
qed

lemma lex_string:
  assumes "list_all not_quote s"
  shows "lex_next (show_str s @ r) = (tok TokString s, r)"
proof -
  have "takeWhile not_quote (s @ CHR 0x27 # r) = s" "dropWhile not_quote (s @ CHR 0x27 # r) = CHR 0x27 # r"
    using takeWhile_word [OF assms, of "CHR 0x27 # r"] by (auto simp: not_quote_def)
  then show ?thesis
    by (simp add: show_str_def lex_next_def lex_char_def uni_space_def is_space_def rune_of_def)
qed

lemma lex_op: "lex_next (show_op op @ CHR '' '' # r)
    = (tok (case op of OpEQ \<Rightarrow> TokEQ | OpNE \<Rightarrow> TokNE | OpGT \<Rightarrow> TokGT | OpGTE \<Rightarrow> TokGTE
        | OpLT \<Rightarrow> TokLT | OpLTE \<Rightarrow> TokLTE) (show_op op), CHR '' '' # r)"
  by (cases op) (simp_all add: show_op_def lex_next_def lex_char_def peek_eq_def uni_space_def
      is_space_def rune_of_def)

lemma lex_punct:
  "lex_next (CHR ''('' # r) = (tok TokLParen ''('', r)"
  "lex_next (CHR '')'' # r) = (tok TokRParen '')'', r)"
  "lex_next (CHR '','' # r) = (tok TokComma '','', r)"
  by (simp_all add: lex_next_def lex_char_def uni_space_def is_space_def rune_of_def)

lemma word_end_simps [simp]:
  "word_end []" "word_end (CHR '' '' # r)" "word_end (CHR ''('' # r)" "word_end (CHR '')'' # r)"
  "word_end (CHR '','' # r)"
  by (simp_all add: word_end_def ident_char_def uni_letter_def rune_of_def is_digit_of_char)

lemma lex_keywords:
  "word_end r \<Longrightarrow> lex_next (''AND'' @ r) = (tok TokAND ''AND'', r)"
  "word_end r \<Longrightarrow> lex_next (''OR'' @ r) = (tok TokOR ''OR'', r)"
  "word_end r \<Longrightarrow> lex_next (''NOT'' @ r) = (tok TokNOT ''NOT'', r)"
  "word_end r \<Longrightarrow> lex_next (''true'' @ r) = (tok TokBool ''true'', r)"
  "word_end r \<Longrightarrow> lex_next (''false'' @ r) = (tok TokBool ''false'', r)"
  by (subst lex_ident_word; code_simp; simp)+

lemma function_names: "field_name ''contains''" "field_name ''startswith''"
  by code_simp+

text \<open>More fuel does not change an answer, so an answer with some fuel is the answer.\<close>

lemma then_parse_mono:
  assumes "then_parse r f = Some x" "\<And>y. r = Some y \<Longrightarrow> r' = Some y"
    "\<And>e st y. f e st = Some y \<Longrightarrow> f' e st = Some y"
  shows "then_parse r' f' = Some x"
  using assms by (auto simp: then_parse_def split: option.splits sum.splits) (metis, metis)?

definition call_le :: "p_call \<Rightarrow> p_call \<Rightarrow> bool" where
  "call_le c c' \<longleftrightarrow> (\<forall>m st y. c m st = Some y \<longrightarrow> c' m st = Some y)"

lemma call_le_then:
  assumes "call_le c c'" "then_parse (c m st) f = Some x"
    "\<And>e st y. f e st = Some y \<Longrightarrow> f' e st = Some y"
  shows "then_parse (c' m st) f' = Some x"
  using then_parse_mono [OF assms(2)] assms(1,3) unfolding call_le_def by blast

lemma body_mono:
  assumes le: "call_le c c'"
  shows "parse_or c st = Some x \<Longrightarrow> parse_or c' st = Some x"
    and "loop_or c l st = Some x \<Longrightarrow> loop_or c' l st = Some x"
    and "parse_and c st = Some x \<Longrightarrow> parse_and c' st = Some x"
    and "loop_and c l st = Some x \<Longrightarrow> loop_and c' l st = Some x"
    and "parse_not c st = Some x \<Longrightarrow> parse_not c' st = Some x"
    and "parse_primary c st = Some x \<Longrightarrow> parse_primary c' st = Some x"
proof -
  have ap: "c m st = Some y \<Longrightarrow> c' m st = Some y" for m st y
    using le unfolding call_le_def by blast
  note tp = call_le_then [OF le]
  show "parse_or c st = Some x \<Longrightarrow> parse_or c' st = Some x"
    unfolding parse_or_def by (erule tp) (auto intro: ap)
  show "loop_or c l st = Some x \<Longrightarrow> loop_or c' l st = Some x"
    unfolding loop_or_def by (auto split: if_splits elim!: tp intro: ap)
  show "parse_and c st = Some x \<Longrightarrow> parse_and c' st = Some x"
    unfolding parse_and_def by (erule tp) (auto intro: ap)
  show "loop_and c l st = Some x \<Longrightarrow> loop_and c' l st = Some x"
    unfolding loop_and_def by (auto split: if_splits elim!: tp intro: ap)
  show "parse_not c st = Some x \<Longrightarrow> parse_not c' st = Some x"
    unfolding parse_not_def by (auto split: if_splits elim!: tp intro: ap)
  show "parse_primary c st = Some x \<Longrightarrow> parse_primary c' st = Some x"
    unfolding parse_primary_def by (auto simp: Let_def split: if_splits elim!: tp intro: ap)
qed

lemma run_parser_Suc: "run_parser n m st = Some r \<Longrightarrow> run_parser (Suc n) m st = Some r"
proof (induction n arbitrary: m st r)
  case (Suc n)
  have le: "call_le (run_parser n) (run_parser (Suc n))"
    using Suc.IH unfolding call_le_def by blast
  have "p_step (run_parser n) m st = Some r" using Suc.prems by simp
  then have "p_step (run_parser (Suc n)) m st = Some r"
    by (cases m; simp only: p_step.simps) (erule body_mono [OF le])+
  then show ?case by (simp only: run_parser.simps(2) [of "Suc n"])
qed simp

lemma run_parser_mono: "run_parser n m st = Some r \<Longrightarrow> n \<le> k \<Longrightarrow> run_parser k m st = Some r"
proof (induction k)
  case (Suc k)
  then show ?case using run_parser_Suc by (metis le_Suc_eq)
qed simp

definition parses :: "p_method \<Rightarrow> pstate \<Rightarrow> expr parsed \<Rightarrow> bool" where
  "parses m st r \<longleftrightarrow> (\<exists>n. run_parser n m st = Some r)"

lemma parses_Suc: "run_parser (Suc n) m st = Some r \<Longrightarrow> parses m st r"
  unfolding parses_def by blast

lemma parses2:
  assumes "parses m st r" "parses m' st' r'"
  obtains n where "run_parser n m st = Some r" "run_parser n m' st' = Some r'"
  using assms unfolding parses_def by (metis run_parser_mono nle_le)

lemma parses_primary:
  assumes "cur_kind st \<noteq> TokNOT" "parses PPrimary st r"
  shows "parses PNot st r"
proof -
  obtain n where "run_parser n PPrimary st = Some r" using assms(2) by (auto simp: parses_def)
  with assms(1) show ?thesis by (intro parses_Suc [of n]) (simp add: parse_not_def)
qed

lemma parses_not:
  assumes "cur_kind st = TokNOT" "parses PNot (p_next st) (Inr (e, st'))"
  shows "parses PNot st (Inr (ENot e, st'))"
proof -
  obtain n where "run_parser n PNot (p_next st) = Some (Inr (e, st'))"
    using assms(2) by (auto simp: parses_def)
  with assms(1) show ?thesis
    by (intro parses_Suc [of n]) (simp add: parse_not_def then_parse_def)
qed

lemma parses_loop_and_end: "cur_kind st \<noteq> TokAND \<Longrightarrow> parses (PLoopAnd l) st (Inr (l, st))"
  by (auto simp: loop_and_def intro!: parses_Suc [of 0])

lemma parses_loop_or_end: "cur_kind st \<noteq> TokOR \<Longrightarrow> parses (PLoopOr l) st (Inr (l, st))"
  by (auto simp: loop_or_def intro!: parses_Suc [of 0])

lemma parses_loop_and:
  assumes "cur_kind st = TokAND" "parses PNot (p_next st) (Inr (r, st'))"
    "parses (PLoopAnd (EAnd l r)) st' x"
  shows "parses (PLoopAnd l) st x"
proof -
  obtain n where "run_parser n PNot (p_next st) = Some (Inr (r, st'))"
      "run_parser n (PLoopAnd (EAnd l r)) st' = Some x"
    using parses2 [OF assms(2,3)] .
  with assms(1) show ?thesis
    by (intro parses_Suc [of n]) (simp add: loop_and_def then_parse_def)
qed

lemma parses_and:
  assumes "parses PNot st (Inr (l, st'))" "parses (PLoopAnd l) st' x"
  shows "parses PAnd st x"
proof -
  obtain n where "run_parser n PNot st = Some (Inr (l, st'))" "run_parser n (PLoopAnd l) st' = Some x"
    using parses2 [OF assms] .
  then show ?thesis by (intro parses_Suc [of n]) (simp add: parse_and_def then_parse_def)
qed

lemma parses_loop_or:
  assumes "cur_kind st = TokOR" "parses PAnd (p_next st) (Inr (r, st'))"
    "parses (PLoopOr (EOr l r)) st' x"
  shows "parses (PLoopOr l) st x"
proof -
  obtain n where "run_parser n PAnd (p_next st) = Some (Inr (r, st'))"
      "run_parser n (PLoopOr (EOr l r)) st' = Some x"
    using parses2 [OF assms(2,3)] .
  with assms(1) show ?thesis
    by (intro parses_Suc [of n]) (simp add: loop_or_def then_parse_def)
qed

lemma parses_or:
  assumes "parses PAnd st (Inr (l, st'))" "parses (PLoopOr l) st' x"
  shows "parses POr st x"
proof -
  obtain n where "run_parser n PAnd st = Some (Inr (l, st'))" "run_parser n (PLoopOr l) st' = Some x"
    using parses2 [OF assms] .
  then show ?thesis by (intro parses_Suc [of n]) (simp add: parse_or_def then_parse_def)
qed

lemma parses_paren:
  assumes "parses POr (lex_next s) (Inr (e, st'))" "cur_kind st' = TokRParen"
  shows "parses PNot (tok TokLParen ''('', s) (Inr (e, p_next st'))"
proof -
  obtain n where "run_parser n POr (lex_next s) = Some (Inr (e, st'))"
    using assms(1) by (auto simp: parses_def)
  with assms(2) have "parses PPrimary (tok TokLParen ''('', s) (Inr (e, p_next st'))"
    by (intro parses_Suc [of n]) (simp add: parse_primary_def then_parse_def tok_def p_next_def)
  then show ?thesis by (intro parses_primary) (simp_all add: tok_def)
qed

lemma parses_atom:
  assumes "cur_kind st = TokIdent"
    "r = (if cur_kind (p_next st) = TokLParen then parse_function_call (cur_val st) (p_next st)
          else parse_comparison (cur_val st) (p_next st))"
  shows "parses PPrimary st r"
  using assms by (auto simp: parse_primary_def Let_def intro!: parses_Suc [of 0])

lemma parse_float_integral:
  assumes "0 \<le> q" "q = of_int \<lfloor>q\<rfloor>" "f64_of_rat q = FFin q"
  shows "parse_float (dec_pos \<lfloor>q\<rfloor>) = Some (FFin q)"
proof -
  have n: "0 \<le> \<lfloor>q\<rfloor>" using assms(1) by simp
  have "CHR ''.'' \<notin> set (dec_pos \<lfloor>q\<rfloor>)"
    using dec_pos_digits [OF n, of "CHR ''.''"] by (auto simp: is_digit_of_char)
  then show ?thesis
    using assms(2,3) n by (simp add: parse_float_def split_char_no_occurrence)
qed

lemma parse_value_lit:
  assumes "show_lit_ok l" "word_end r"
  shows "parse_value (lex_next (show_lit l @ r)) = Inr (l, lex_next r)"
proof (cases l)
  case (LitString s)
  then show ?thesis using assms
    by (simp add: show_lit_def show_lit_ok_def lex_string parse_value_def p_next_def tok_def)
next
  case (LitNumber x)
  then obtain q where q: "x = FFin q" "0 \<le> q" "q = of_int \<lfloor>q\<rfloor>" "f64_of_rat q = FFin q"
    using assms(1) by (auto simp: show_lit_ok_def split: f64.splits)
  then have "0 \<le> \<lfloor>q\<rfloor>" by simp
  then show ?thesis using LitNumber q assms(2) parse_float_integral [OF q(2-4)]
    by (simp add: show_lit_def lex_number parse_value_def p_next_def tok_def)
next
  case (LitBool b)
  then show ?thesis using assms lex_keywords(4,5) [OF assms(2)]
    by (simp add: show_lit_def parse_value_def p_next_def tok_def)
qed

lemma parse_show_call:
  assumes "field_name f" "list_all not_quote s" "name \<noteq> []"
  shows "parse_function_call name (tok TokLParen ''('', f @ '', '' @ show_str s @ '')'' @ r)
     = (if to_lower name = ''contains'' then Inr (EContains f s, lex_next r)
        else if to_lower name = ''startswith'' then Inr (EStartsWith f s, lex_next r)
        else Inl (ErrMsg (''unknown function '' @ quote_q name)))"
  using lex_field [OF assms(1), of "'', '' @ show_str s @ '')'' @ r"]
    lex_string [OF assms(2), of "CHR '')'' # r"]
  by (simp add: parse_function_call_def p_next_def lex_punct lex_space tok_def Let_def)

lemma parses_show:
  assumes "printable e" "word_end r"
  shows "parses PNot (lex_next (show_expr e @ r)) (Inr (e, lex_next r))"
  using assms
proof (induction e arbitrary: r)
  case (ECmp f op l)
  let ?tl = "'' '' @ show_op op @ '' '' @ show_lit l @ r"
  have l1: "lex_next (f @ ?tl) = (tok TokIdent f, ?tl)"
    using ECmp by (intro lex_field) simp_all
  have l2: "parse_comparison f (lex_next ?tl) = Inr (ECmp f op l, lex_next r)"
    using ECmp lex_op [of op "show_lit l @ r"] parse_value_lit [of l r]
    by (cases op) (simp_all add: parse_comparison_def lex_space p_next_def cmp_of_token_def tok_def)
  have l3: "cur_kind (lex_next ?tl) \<noteq> TokLParen"
    using lex_op [of op "show_lit l @ r"] by (cases op) (simp_all add: lex_space tok_def)
  show ?case
    using l1 l2 l3 by (intro parses_primary parses_atom) (simp_all add: p_next_def tok_def)
next
  case (EAnd l r')
  have ll: "parses PNot (lex_next (show_expr l @ '' AND '' @ show_expr r' @ '')'' @ r))
      (Inr (l, lex_next ('' AND '' @ show_expr r' @ '')'' @ r)))"
    using EAnd by simp
  have and_tok: "lex_next ('' AND '' @ s) = (tok TokAND ''AND'', CHR '' '' # s)" for s
    using lex_keywords(1) [of "CHR '' '' # s"] by (simp add: lex_space)
  have rr: "parses PNot (lex_next (CHR '' '' # show_expr r' @ '')'' @ r)) (Inr (r', lex_next ('')'' @ r)))"
    using EAnd by (simp add: lex_space)
  have "parses PAnd (lex_next (show_expr l @ '' AND '' @ show_expr r' @ '')'' @ r))
      (Inr (EAnd l r', lex_next ('')'' @ r)))"
    by (rule parses_and [OF ll], rule parses_loop_and, use and_tok rr in \<open>simp_all add: tok_def p_next_def\<close>)
       (rule parses_loop_and_end, simp add: lex_punct tok_def)
  then have "parses POr (lex_next (show_expr l @ '' AND '' @ show_expr r' @ '')'' @ r))
      (Inr (EAnd l r', lex_next ('')'' @ r)))"
    by (rule parses_or) (rule parses_loop_or_end, simp add: lex_punct tok_def)
  from parses_paren [OF this] show ?case
    by (simp add: lex_punct tok_def p_next_def)
next
  case (EOr l r')
  have ll: "parses PNot (lex_next (show_expr l @ '' OR '' @ show_expr r' @ '')'' @ r))
      (Inr (l, lex_next ('' OR '' @ show_expr r' @ '')'' @ r)))"
    using EOr by simp
  have or_tok: "lex_next ('' OR '' @ s) = (tok TokOR ''OR'', CHR '' '' # s)" for s
    using lex_keywords(2) [of "CHR '' '' # s"] by (simp add: lex_space)
  have rr: "parses PNot (lex_next (CHR '' '' # show_expr r' @ '')'' @ r)) (Inr (r', lex_next ('')'' @ r)))"
    using EOr by (simp add: lex_space)
  have al: "parses PAnd (lex_next (show_expr l @ '' OR '' @ show_expr r' @ '')'' @ r))
      (Inr (l, lex_next ('' OR '' @ show_expr r' @ '')'' @ r)))"
    by (rule parses_and [OF ll], rule parses_loop_and_end, simp only: or_tok, simp add: tok_def)
  have ar: "parses PAnd (lex_next (CHR '' '' # show_expr r' @ '')'' @ r)) (Inr (r', lex_next ('')'' @ r)))"
    by (rule parses_and [OF rr], rule parses_loop_and_end, simp add: lex_punct tok_def)
  have "parses POr (lex_next (show_expr l @ '' OR '' @ show_expr r' @ '')'' @ r))
      (Inr (EOr l r', lex_next ('')'' @ r)))"
    by (rule parses_or [OF al], rule parses_loop_or, use or_tok ar in \<open>simp_all add: tok_def p_next_def\<close>)
       (rule parses_loop_or_end, simp add: lex_punct tok_def)
  from parses_paren [OF this] show ?case
    by (simp add: lex_punct tok_def p_next_def)
next
  case (ENot e)
  have l: "lex_next (''NOT '' @ show_expr e @ r) = (tok TokNOT ''NOT'', CHR '' '' # show_expr e @ r)"
    using lex_keywords(3) [of "CHR '' '' # show_expr e @ r"] by simp
  have "parses PNot (lex_next (CHR '' '' # show_expr e @ r)) (Inr (e, lex_next r))"
    using ENot by (simp add: lex_space)
  then show ?case
    using l parses_not [of "lex_next (''NOT '' @ show_expr e @ r)"] by (simp add: p_next_def tok_def)
next
  case (EContains f s)
  have "lex_next (''contains'' @ ''('' @ f @ '', '' @ show_str s @ '')'' @ r)
      = (tok TokIdent ''contains'', ''('' @ f @ '', '' @ show_str s @ '')'' @ r)"
    by (rule lex_field) (simp_all add: function_names)
  then show ?case
    using parse_show_call [of f s "''contains''" r] EContains
    by (intro parses_primary parses_atom) (simp_all add: p_next_def lex_punct tok_def to_lower_def lower_char_def)
next
  case (EStartsWith f s)
  have "lex_next (''startswith'' @ ''('' @ f @ '', '' @ show_str s @ '')'' @ r)
      = (tok TokIdent ''startswith'', ''('' @ f @ '', '' @ show_str s @ '')'' @ r)"
    by (rule lex_field) (simp_all add: function_names)
  then show ?case
    using parse_show_call [of f s "''startswith''" r] EStartsWith
    by (intro parses_primary parses_atom) (simp_all add: p_next_def lex_punct tok_def to_lower_def lower_char_def)
qed

lemma parse_show_then:
  assumes "printable e" "word_end r" "cur_kind (lex_next r) = TokEOF"
  shows "parse_expr (show_expr e @ r) = Some (Inr e)"
proof -
  have "parses PNot (lex_next (show_expr e @ r)) (Inr (e, lex_next r))"
    using parses_show [OF assms(1,2)] .
  then have "parses PAnd (lex_next (show_expr e @ r)) (Inr (e, lex_next r))"
    by (rule parses_and) (rule parses_loop_and_end, simp add: assms(3))
  then have "parses POr (lex_next (show_expr e @ r)) (Inr (e, lex_next r))"
    by (rule parses_or) (rule parses_loop_or_end, simp add: assms(3))
  then obtain n where n: "run_parser n POr (lex_next (show_expr e @ r)) = Some (Inr (e, lex_next r))"
    unfolding parses_def by blast
  obtain y where y: "run_parser (parse_fuel (show_expr e @ r)) POr (lex_next (show_expr e @ r)) = Some y"
    using parse_expr_returns [of "show_expr e @ r"] by (auto simp: parse_expr_def split: option.splits)
  have "y = Inr (e, lex_next r)"
    using run_parser_mono [OF n, of "max n (parse_fuel (show_expr e @ r))"]
      run_parser_mono [OF y, of "max n (parse_fuel (show_expr e @ r))"] by simp
  then show ?thesis by (simp add: parse_expr_def y assms(3))
qed

subsection \<open>Properties\<close>

text \<open>
  Property C16. Parsing a condition always returns, with an expression or an error: the fuel the
  model gives the parser, linear in the length of the text, is never used up.
\<close>

theorem parse_expr_terminates: "\<exists>r. parse_expr condition = Some r"
  using parse_expr_returns [of condition] by (cases "parse_expr condition") auto

text \<open>
  Property C17. Printing an expression and parsing the text gives the expression back: the
  precedence, the parentheses, the keywords and the literals of the grammar are read as they
  are written.
\<close>

theorem parse_show:
  assumes "printable e"
  shows "parse_expr (show_expr e) = Some (Inr e)"
  using parse_show_then [OF assms, of "[]"] by (simp add: lex_next_def tok_def)

theorem parse_show_witness:
  "parse_expr ''(plan == 'pro' AND NOT contains(email, 'x'))''
    = Some (Inr (EAnd (ECmp ''plan'' OpEQ (LitString ''pro'')) (ENot (EContains ''email'' ''x''))))"
proof -
  have "printable (EAnd (ECmp ''plan'' OpEQ (LitString ''pro'')) (ENot (EContains ''email'' ''x'')))"
    by code_simp
  moreover have "show_expr (EAnd (ECmp ''plan'' OpEQ (LitString ''pro'')) (ENot (EContains ''email'' ''x'')))
      = ''(plan == 'pro' AND NOT contains(email, 'x'))''"
    by code_simp
  ultimately show ?thesis using parse_show by metis
qed

text \<open>
  A byte the lexer does not know ends the input for it: whatever follows a complete
  condition behind such a byte is dropped without an error.
\<close>

theorem parse_ignores_after_unknown_byte:
  assumes "printable e"
  shows "parse_expr (show_expr e @ '';'' @ rest) = Some (Inr e)"
proof -
  have "lex_next ('';'' @ rest) = (tok TokEOF '';'', rest)"
    by (simp add: lex_next_def lex_char_def lex_word_def uni_space_def is_space_def rune_of_def
        is_digit_def ident_char_def uni_letter_def rune_string_def Let_def)
  moreover have "\<not> ident_char CHR '';''" by code_simp
  ultimately show ?thesis
    using assms by (intro parse_show_then) (simp_all add: tok_def word_end_def)
qed

theorem parse_ignores_after_unknown_byte_witness:
  "parse_expr ''a == true; AND b == (((''  = Some (Inr (ECmp ''a'' OpEQ (LitBool True)))"
proof -
  have "printable (ECmp ''a'' OpEQ (LitBool True))" "show_expr (ECmp ''a'' OpEQ (LitBool True)) = ''a == true''"
    by code_simp+
  then show ?thesis using parse_ignores_after_unknown_byte [of _ "'' AND b == (((''"] by fastforce
qed

end
