(* ===== verification/Steps.thy ===== *)
theory Steps
  imports Expr
begin

section \<open>Row transforms: internal/steps/steps.go\<close>

text \<open>
  The transform steps of a pipeline, compiled from their configuration to a list of step
  functions and applied to the data of a row one after the other. Iteration over a Go map while
  it is changed is modelled as a pass over the keys present at its start, one of the orders the
  runtime may take; the order of the list is the order of the runtime.
\<close>

record transform_step =
  ts_filter :: string
  ts_rename :: "(string \<times> string) list"
  ts_add :: "(string \<times> string) list"
  ts_drop :: "string list"
  ts_mask :: "string list"
  ts_trim :: "string list"
  ts_flatten :: string

datatype step_fn =
    SFilter expr
  | SRename "(string \<times> string) list"
  | SAdd "(string \<times> string) list"
  | SDrop "string list"
  | STrim "string list"
  | SFlatten string
  | SMask "string list"

subsection \<open>New: compiling the configuration\<close>

definition compile_filter :: "string \<Rightarrow> step_fn list res option" where
  "compile_filter f =
     (if f = [] then Some (Inr [])
      else map_option (map_sum id (\<lambda>e. [SFilter e])) (parse_expr f))"

definition compile_rest :: "transform_step \<Rightarrow> step_fn list" where
  "compile_rest s =
     (if ts_rename s \<noteq> [] then [SRename (ts_rename s)] else [])
     @ (if ts_add s \<noteq> [] then [SAdd (ts_add s)] else [])
     @ (if ts_drop s \<noteq> [] then [SDrop (ts_drop s)] else [])
     @ (if ts_trim s \<noteq> [] then [STrim (ts_trim s)] else [])
     @ (if ts_flatten s \<noteq> [] then [SFlatten (ts_flatten s)] else [])
     @ (if ts_mask s \<noteq> [] then [SMask (ts_mask s)] else [])"

fun new_processor :: "transform_step list \<Rightarrow> step_fn list res option" where
  "new_processor [] = Some (Inr [])"
| "new_processor (s # ss) =
     (case compile_filter (ts_filter s) of
        Some (Inr fs) \<Rightarrow> map_option (map_sum id (\<lambda>rest. fs @ compile_rest s @ rest)) (new_processor ss)
      | r \<Rightarrow> r)"

subsection \<open>Add expressions\<close>

text \<open>
  A match of the template pattern at the head of a string: two opening braces, a run without
  closing braces, two closing braces. The result is the inner text and what follows.
\<close>

definition not_close :: "char \<Rightarrow> bool" where
  "not_close c \<longleftrightarrow> c \<noteq> CHR ''}''"

definition template_match :: "string \<Rightarrow> (string \<times> string) option" where
  "template_match s =
     (if has_prefix s ''{{'' then
        (let body = drop 2 s; inner = takeWhile not_close body; rest = dropWhile not_close body
         in if has_prefix rest ''}}'' then Some (inner, drop 2 rest) else None)
      else None)"

lemma template_match_length:
  "template_match s = Some (inner, rest) \<Longrightarrow> length inner + length rest + 4 = length s"
proof -
  assume m: "template_match s = Some (inner, rest)"
  then obtain t u where "s = ''{{'' @ t" "dropWhile not_close t = ''}}'' @ u"
      "inner = takeWhile not_close t" "rest = u"
    by (auto simp: template_match_def Let_def has_prefix_iff split: if_splits)
  moreover have "length t = length (takeWhile not_close t) + length (dropWhile not_close t)"
    by (metis length_append takeWhile_dropWhile_id)
  ultimately show ?thesis by simp
qed

text \<open>The pieces of a template: text to copy (\<open>Inl\<close>) and inner expressions (\<open>Inr\<close>).\<close>

function template_pieces :: "string \<Rightarrow> (string + string) list" where
  "template_pieces [] = []"
| "template_pieces (c # s) =
     (case template_match (c # s) of
        Some (inner, rest) \<Rightarrow> Inr inner # template_pieces rest
      | None \<Rightarrow> Inl [c] # template_pieces s)"
  by pat_completeness auto
termination
  by (relation "measure length") (auto dest: template_match_length)

lemma template_pieces_shorter: "Inr inner \<in> set (template_pieces s) \<Longrightarrow> length inner < length s"
proof (induction s rule: template_pieces.induct)
  case (2 c s)
  then show ?case
    by (cases "template_match (c # s)") (force dest: template_match_length)+
qed simp

text \<open>\<open>strings.Count\<close> of the opening braces, without overlaps.\<close>

fun count_open :: "string \<Rightarrow> nat" where
  "count_open (a # b # s) =
     (if a = CHR ''{'' \<and> b = CHR ''{'' then Suc (count_open s) else count_open (b # s))"
| "count_open s = 0"

definition is_placeholder :: "string \<Rightarrow> bool" where
  "is_placeholder e \<longleftrightarrow> has_prefix e ''{{'' \<and> has_suffix e ''}}'' \<and> 4 \<le> length e \<and> count_open e = 1"

definition strip_placeholder :: "string \<Rightarrow> string" where
  "strip_placeholder e =
     (if is_placeholder e then trim_space (take (length e - 4) (drop 2 e)) else e)"

definition quoted_literal :: "string \<Rightarrow> bool" where
  "quoted_literal e \<longleftrightarrow> has_prefix e [CHR 0x27] \<and> has_suffix e [CHR 0x27] \<and> 2 \<le> length e"

text \<open>\<open>if c then a else b\<close>: the three parts, when both separators are there.\<close>

definition if_parts :: "string \<Rightarrow> (string \<times> string \<times> string) option" where
  "if_parts e =
     (case split_once '' then '' (drop 3 e) of
        None \<Rightarrow> None
      | Some (c, r) \<Rightarrow>
          (case split_once '' else '' r of
             None \<Rightarrow> None
           | Some (a, b) \<Rightarrow> Some (trim_space c, trim_space a, trim_space b)))"

lemma split_once_length:
  "split_once sep s = Some (a, b) \<Longrightarrow> length a + length sep + length b = length s"
proof (induction sep s arbitrary: a rule: split_once.induct)
  case (2 sep c s)
  show ?case
  proof (cases "has_prefix (c # s) sep")
    case True
    then obtain u where u: "c # s = sep @ u" by (auto simp: has_prefix_iff)
    have "a = []" "b = drop (length sep) (c # s)" using True 2(2) by simp_all
    then have "length a + length sep + length b = length (sep @ u)" by (simp add: u)
    then show ?thesis by (simp only: u)
  next
    case False
    with 2 show ?thesis by auto
  qed
qed (auto split: if_splits)

lemma length_strip_placeholder: "length (strip_placeholder e) \<le> length e"
  using length_trim_space [of "take (length e - 4) (drop 2 e)"]
  by (auto simp: strip_placeholder_def)

lemma if_parts_shorter:
  assumes "if_parts e = Some (c, a, b)" "has_prefix e ''if ''"
  shows "length a < length e" "length b < length e"
proof -
  obtain c' r a' b' where p: "split_once '' then '' (drop 3 e) = Some (c', r)"
      "split_once '' else '' r = Some (a', b')" "a = trim_space a'" "b = trim_space b'"
    using assms(1) by (auto simp: if_parts_def split: option.splits)
  have "length a' + length b' + 6 = length r" "length r + 6 \<le> length e"
    using split_once_length [OF p(1)] split_once_length [OF p(2)] assms(2)
    by (auto simp: has_prefix_iff)
  with p(3,4) show "length a < length e" "length b < length e"
    using length_trim_space [of a'] length_trim_space [of b'] by simp_all
qed

definition render_piece :: "gval \<Rightarrow> string" where
  "render_piece v = (case v of GNil \<Rightarrow> [] | GTime t \<Rightarrow> rfc3339 t | _ \<Rightarrow> sprint_v v)"

definition holds_expr :: "string \<Rightarrow> payload \<Rightarrow> bool option" where
  "holds_expr condition data =
     (case parse_expr condition of Some (Inr e) \<Rightarrow> Some (eval_expr e data) | _ \<Rightarrow> None)"

lemma piece_shorter:
  "Inr inner \<in> set (template_pieces (trim_space e)) \<Longrightarrow> length (trim_space inner) < length e"
  using template_pieces_shorter [of inner "trim_space e"] length_trim_space [of inner]
    length_trim_space [of e] by linarith

lemma branch_shorter:
  assumes "if_parts (strip_placeholder (trim_space e)) = Some x" "(c, y) = x" "(a, b) = y"
    "has_prefix (strip_placeholder (trim_space e)) ''if ''"
  shows "length a < length e" "length b < length e"
proof -
  have p: "if_parts (strip_placeholder (trim_space e)) = Some (c, a, b)" using assms by simp
  have "length (strip_placeholder (trim_space e)) \<le> length e"
    using length_strip_placeholder [of "trim_space e"] length_trim_space [of e] by linarith
  with if_parts_shorter [OF p assms(4)]
  show "length a < length e" "length b < length e" by simp_all
qed

text \<open>\<open>evalAddExpr\<close> together with \<open>evalIfExpr\<close>; \<open>now\<close> is the clock.\<close>

function eval_add :: "go_time \<Rightarrow> payload \<Rightarrow> string \<Rightarrow> gval" where
  "eval_add now data expr0 =
     (let expr1 = trim_space expr0 in
      if \<not> is_placeholder expr1 \<and> contains_str expr1 ''{{'' then
        GStr (concat (map (\<lambda>p. case p of Inl s \<Rightarrow> s
                               | Inr inner \<Rightarrow> render_piece (eval_add now data (trim_space inner)))
                (template_pieces expr1)))
      else let e = strip_placeholder expr1 in
        if e = ''now()'' then GTime now
        else if quoted_literal e then GStr (take (length e - 2) (drop 1 e))
        else if has_prefix e ''if '' then
          (case if_parts e of
             None \<Rightarrow> GStr e
           | Some (c, a, b) \<Rightarrow>
               (case holds_expr c data of
                  None \<Rightarrow> GStr e
                | Some ok \<Rightarrow> if ok then eval_add now data a else eval_add now data b))
        else (case alookup data e of Some v \<Rightarrow> v | None \<Rightarrow> GStr e))"
  by pat_completeness auto
termination
  by (relation "measure (\<lambda>(now, data, e). length e)")
     (simp_all, blast intro: piece_shorter, (blast intro: branch_shorter)+)

declare eval_add.simps [simp del]

subsection \<open>Flattening\<close>

fun as_map :: "gval \<Rightarrow> payload option" where
  "as_map (GMap m) = Some m"
| "as_map v = None"

text \<open>One nested entry: the key is deleted and the entries of its map are put one by one.\<close>

definition expand_entry :: "string \<Rightarrow> string \<Rightarrow> payload \<Rightarrow> payload \<Rightarrow> payload" where
  "expand_entry sep k nested data =
     foldl (\<lambda>d (nk, nv). aput (k @ sep @ nk) nv d) (adel k data) nested"

definition flatten_key :: "string \<Rightarrow> bool \<times> payload \<Rightarrow> string \<Rightarrow> bool \<times> payload" where
  "flatten_key sep st k =
     (case Option.bind (alookup (snd st) k) as_map of
        None \<Rightarrow> st
      | Some nested \<Rightarrow> (True, expand_entry sep k nested (snd st)))"

definition flatten_pass :: "string \<Rightarrow> payload \<Rightarrow> bool \<times> payload" where
  "flatten_pass sep data = foldl (flatten_key sep) (False, data) (map fst data)"

text \<open>The number of maps inside a value; a pass that expands anything lowers it.\<close>

fun maps_in :: "gval \<Rightarrow> nat" where
  "maps_in (GMap m) = Suc (sum_list (map (\<lambda>(k, v). maps_in v) m))"
| "maps_in (GList xs) = sum_list (map maps_in xs)"
| "maps_in v = 0"

definition maps_of :: "payload \<Rightarrow> nat" where
  "maps_of data = sum_list (map (maps_in \<circ> snd) data)"

lemma maps_of_simps [simp]: "maps_of [] = 0" "maps_of ((k, v) # m) = maps_in v + maps_of m"
  by (simp_all add: maps_of_def)

lemma maps_of_aput: "maps_of (aput k v m) \<le> maps_in v + maps_of m"
  by (induction m) auto

lemma maps_of_adel: "alookup m k = Some v \<Longrightarrow> maps_in v + maps_of (adel k m) \<le> maps_of m"
proof -
  have le: "maps_of (adel k m) \<le> maps_of m" for m
    by (induction m) (auto simp: AList.delete_eq)
  assume "alookup m k = Some v"
  then show ?thesis
  proof (induction m)
    case (Cons a m)
    then show ?case using le [of m] by (cases a) (auto simp: AList.delete_eq split: if_splits)
  qed simp
qed

lemma expand_entry_maps:
  assumes "alookup data k = Some (GMap nested)"
  shows "maps_of (expand_entry sep k nested data) < maps_of data"
proof -
  have fold: "maps_of (foldl (\<lambda>d (nk, nv). aput (k @ sep @ nk) nv d) d ns) \<le> maps_of d + maps_of ns" for d ns
  proof (induction ns arbitrary: d)
    case (Cons a ns)
    obtain nk nv where a: "a = (nk, nv)" by fastforce
    show ?case
      using Cons [of "aput (k @ sep @ nk) nv d"] maps_of_aput [of "k @ sep @ nk" nv d] a by simp
  qed simp
  have "maps_in (GMap nested) = Suc (maps_of nested)"
    by (simp add: maps_of_def comp_def split_def)
  then show ?thesis
    using fold [of "adel k data" nested] maps_of_adel [OF assms] by (simp add: expand_entry_def)
qed

lemma flatten_key_maps:
  "flatten_key sep (b, d) k = (b', d') \<Longrightarrow> (b' = b \<and> d' = d) \<or> (b' \<and> maps_of d' < maps_of d)"
  by (auto simp: flatten_key_def expand_entry_maps split: option.splits elim!: as_map.elims
      simp: bind_eq_Some_conv)

lemma flatten_pass_maps: "flatten_pass sep data = (True, data') \<Longrightarrow> maps_of data' < maps_of data"
proof -
  have "foldl (flatten_key sep) (b, d) ks = (b', d')
      \<Longrightarrow> (b' = b \<and> d' = d) \<or> (b' \<and> maps_of d' < maps_of d)" for ks b d b' d'
  proof (induction ks arbitrary: b d)
    case (Cons k ks)
    obtain b1 d1 where k: "flatten_key sep (b, d) k = (b1, d1)" by fastforce
    then have "(b' = b1 \<and> d' = d1) \<or> (b' \<and> maps_of d' < maps_of d1)"
      using Cons by simp
    with flatten_key_maps [OF k] show ?case by auto
  qed simp
  then show "flatten_pass sep data = (True, data') \<Longrightarrow> maps_of data' < maps_of data"
    unfolding flatten_pass_def by blast
qed

function flatten_into :: "string \<Rightarrow> payload \<Rightarrow> payload" where
  "flatten_into sep data =
     (case flatten_pass sep data of
        (expanded, data') \<Rightarrow> if expanded then flatten_into sep data' else data')"
  by pat_completeness auto
termination
  by (relation "measure (\<lambda>(sep, data). maps_of data)") (auto dest: flatten_pass_maps [OF sym])

declare flatten_into.simps [simp del]

subsection \<open>Apply\<close>

definition rename_field :: "payload \<Rightarrow> string \<times> string \<Rightarrow> payload" where
  "rename_field data r =
     (case alookup data (fst r) of None \<Rightarrow> data
      | Some v \<Rightarrow> adel (fst r) (aput (snd r) v data))"

definition trim_field :: "payload \<Rightarrow> string \<Rightarrow> payload" where
  "trim_field data f =
     (case Option.bind (alookup data f) as_string of None \<Rightarrow> data
      | Some s \<Rightarrow> aput f (GStr (trim_space s)) data)"

definition mask_field :: "payload \<Rightarrow> string \<Rightarrow> payload" where
  "mask_field data f = (if has_key data f then aput f (GStr ''***'') data else data)"

fun run_step :: "go_time \<Rightarrow> step_fn \<Rightarrow> payload \<Rightarrow> payload \<times> bool" where
  "run_step now (SFilter e) data = (data, eval_expr e data)"
| "run_step now (SRename rs) data = (foldl rename_field data rs, True)"
| "run_step now (SAdd as) data = (foldl (\<lambda>d (f, e). aput f (eval_add now d e) d) data as, True)"
| "run_step now (SDrop fs) data = (foldl (\<lambda>d f. adel f d) data fs, True)"
| "run_step now (STrim fs) data =
     (if fs = [''*''] then foldl trim_field data (map fst data) else foldl trim_field data fs, True)"
| "run_step now (SFlatten sep) data = (flatten_into sep data, True)"
| "run_step now (SMask fs) data = (foldl mask_field data fs, True)"

fun apply_steps :: "go_time \<Rightarrow> step_fn list \<Rightarrow> payload \<Rightarrow> payload \<times> bool" where
  "apply_steps now [] data = (data, True)"
| "apply_steps now (s # ss) data =
     (case run_step now s data of
        (data', keep) \<Rightarrow> if keep then apply_steps now ss data' else (data', False))"

subsection \<open>Facts\<close>

text \<open>After flattening no value is a map.\<close>

lemma flatten_key_flag: "flatten_key sep (b, d) k = (False, d') \<Longrightarrow> d' = d \<and> b = False
    \<and> Option.bind (alookup d k) as_map = None"
  by (auto simp: flatten_key_def split: option.splits)

lemma flatten_pass_done:
  assumes "flatten_pass sep data = (False, data')"
  shows "data' = data" "\<forall>k \<in> fst ` set data. Option.bind (alookup data k) as_map = None"
proof -
  have "foldl (flatten_key sep) (b, d) ks = (False, d')
      \<Longrightarrow> d' = d \<and> b = False \<and> (\<forall>k \<in> set ks. Option.bind (alookup d k) as_map = None)" for ks b d d'
  proof (induction ks arbitrary: b d)
    case (Cons k ks)
    obtain b1 d1 where k: "flatten_key sep (b, d) k = (b1, d1)" by fastforce
    with Cons have c: "d' = d1" "b1 = False" "\<forall>k \<in> set ks. Option.bind (alookup d1 k) as_map = None"
      by auto
    with k have "flatten_key sep (b, d) k = (False, d1)" by simp
    from flatten_key_flag [OF this] c show ?case by auto
  qed simp
  from this [of False data "map fst data" data'] assms
  show "data' = data" "\<forall>k \<in> fst ` set data. Option.bind (alookup data k) as_map = None"
    by (auto simp: flatten_pass_def)
qed

lemma flatten_into_flat: "Option.bind (alookup (flatten_into sep data) k) as_map = None"
proof (induction sep data rule: flatten_into.induct)
  case (1 sep data)
  obtain b data' where p: "flatten_pass sep data = (b, data')" by fastforce
  show ?case
  proof (cases b)
    case True
    with 1 p show ?thesis by (simp add: flatten_into.simps [of sep data])
  next
    case False
    with p have "data' = data" "\<forall>k \<in> fst ` set data. Option.bind (alookup data k) as_map = None"
      using flatten_pass_done by simp_all
    then have "Option.bind (alookup data k) as_map = None"
      by (cases "k \<in> fst ` set data") (auto simp: map_of_eq_None_iff [symmetric])
    then show ?thesis using False p \<open>data' = data\<close> by (simp add: flatten_into.simps [of sep data])
  qed
qed

lemma foldl_mask_lookup:
  "alookup (foldl mask_field data fs) k
     = (if k \<in> set fs \<and> has_key data k then Some (GStr ''***'') else alookup data k)"
proof (induction fs arbitrary: data)
  case (Cons f fs)
  have "has_key (mask_field data f) k = has_key data k"
    by (auto simp: mask_field_def has_key_def update_conv' simp del: has_key_iff)
  moreover have "alookup (mask_field data f) k
      = (if k = f \<and> has_key data f then Some (GStr ''***'') else alookup data k)"
    by (simp add: mask_field_def update_conv' del: has_key_iff)
  ultimately show ?case using Cons [of "mask_field data f"] by (auto simp del: has_key_iff)
qed simp

lemma foldl_drop_lookup:
  "alookup (foldl (\<lambda>d f. adel f d) data fs) k = (if k \<in> set fs then None else alookup data k)"
  by (induction fs arbitrary: data) (auto simp: delete_conv')

lemma apply_steps_append:
  "apply_steps now (s1 @ s2) data =
     (case apply_steps now s1 data of (d, keep) \<Rightarrow> if keep then apply_steps now s2 d else (d, False))"
  by (induction s1 arbitrary: data) (auto split: prod.splits)

lemma new_processor_returns: "new_processor ss \<noteq> None"
proof (induction ss)
  case (Cons s ss)
  obtain r where "compile_filter (ts_filter s) = Some r"
    using parse_expr_returns [of "ts_filter s"] by (force simp: compile_filter_def)
  with Cons show ?case by (auto split: sum.splits)
qed simp

subsection \<open>Properties\<close>

text \<open>
  Flattening ends, whatever the nesting and even when a nested key makes a new map
  appear in place of one already expanded, and afterwards no top-level value is a map.
\<close>

theorem flatten_leaves_no_map:
  "Option.bind (alookup (flatten_into sep data) k) as_map = None"
  by (rule flatten_into_flat)

text \<open>
  What a chain of a drop, a mask and a filter step leaves of each field; a filter
  that fails stops the chain, and a field renamed to its own name is lost.
\<close>

theorem steps_field_effects:
  "alookup (fst (apply_steps now [SDrop fs, SMask ms] data)) k
     = (if k \<in> set fs then None
        else if k \<in> set ms \<and> has_key data k then Some (GStr ''***'') else alookup data k)
   \<and> apply_steps now (SFilter e # ss) data = (if eval_expr e data then apply_steps now ss data else (data, False))
   \<and> alookup (fst (run_step now (SRename [(k, k)]) data)) k = None"
proof -
  have "has_key (foldl (\<lambda>d f. adel f d) data fs) k \<longleftrightarrow> k \<notin> set fs \<and> has_key data k"
    using foldl_drop_lookup [of data fs k] by (simp add: has_key_def del: has_key_iff)
  then show ?thesis
    by (simp add: foldl_mask_lookup foldl_drop_lookup rename_field_def delete_conv' del: has_key_iff
        split: option.split)
qed

end
