(* ===== verification/State_Store.thy ===== *)
theory State_Store
  imports Go_Value
begin

section \<open>The state store contract and the memory store: internal/state\<close>

text \<open>
  The records of \<open>models.go\<close>, the interface \<open>StateStore\<close> of \<open>store.go\<close> as a record of
  functions over an arbitrary state, an abstract store that says what the interface promises,
  the locale of those promises, and the memory store (\<open>memory.go\<close>) with its interpretation.
  Operations that read the clock take it as an argument. Reads answer a result, writes answer
  a result and the new state.
\<close>

subsection \<open>Models\<close>

record run_stats =
  rs_extracted :: int
  rs_loaded :: int
  rs_skipped :: int
  rs_errored :: int
  rs_watermark :: go_time
  rs_status :: string
  rs_error :: string
  rs_creates :: int
  rs_updates :: int
  rs_deletes :: int
  rs_changes :: "(string \<times> int) list"
  rs_approval :: bool
  rs_approval_hash :: string

record run_log =
  rl_id :: int
  rl_sync :: string
  rl_mode :: string
  rl_started :: go_time
  rl_finished :: go_time
  rl_extracted :: int
  rl_loaded :: int
  rl_skipped :: int
  rl_errored :: int
  rl_watermark :: go_time
  rl_status :: string
  rl_error :: string

record entity_state =
  es_sync :: string
  es_dest :: string
  es_key :: string
  es_dest_id :: string
  es_fp :: string
  es_prev_fp :: string
  es_payload :: payload
  es_prev_payload :: payload
  es_remembered :: payload
  es_decision :: string
  es_status :: string
  es_missing :: int
  es_version :: int
  es_created :: go_time
  es_updated :: go_time

record decision_event =
  ev_id :: int
  ev_sync :: string
  ev_dest :: string
  ev_key :: string
  ev_run :: int
  ev_decision :: string
  ev_rules :: "string list"
  ev_reasons :: "string list"
  ev_created :: go_time

definition run_log_new :: "int \<Rightarrow> string \<Rightarrow> string \<Rightarrow> go_time \<Rightarrow> run_log" where
  "run_log_new i sync mode now =
     \<lparr>rl_id = i, rl_sync = sync, rl_mode = mode, rl_started = now, rl_finished = time_zero,
      rl_extracted = 0, rl_loaded = 0, rl_skipped = 0, rl_errored = 0, rl_watermark = time_zero,
      rl_status = ''running'', rl_error = []\<rparr>"

definition run_log_finish :: "go_time \<Rightarrow> run_stats \<Rightarrow> run_log \<Rightarrow> run_log" where
  "run_log_finish now st r = r\<lparr>rl_finished := now, rl_extracted := rs_extracted st,
     rl_loaded := rs_loaded st, rl_skipped := rs_skipped st, rl_errored := rs_errored st,
     rl_watermark := rs_watermark st, rl_status := rs_status st, rl_error := rs_error st\<rparr>"

subsection \<open>The interface\<close>

record 'st store_ops =
  st_get :: "string \<Rightarrow> string \<Rightarrow> string \<Rightarrow> 'st \<Rightarrow> entity_state option res"
  st_save :: "go_time \<Rightarrow> entity_state \<Rightarrow> 'st \<Rightarrow> unit res \<times> 'st"
  st_list :: "string \<Rightarrow> string \<Rightarrow> int \<Rightarrow> int \<Rightarrow> 'st \<Rightarrow> entity_state list res"
  st_reset :: "string \<Rightarrow> string \<Rightarrow> string \<Rightarrow> 'st \<Rightarrow> unit res \<times> 'st"
  st_has_fired :: "string \<Rightarrow> string \<Rightarrow> string \<Rightarrow> string \<Rightarrow> 'st \<Rightarrow> bool res"
  st_mark_fired :: "go_time \<Rightarrow> string \<Rightarrow> string \<Rightarrow> string \<Rightarrow> string \<Rightarrow> 'st \<Rightarrow> unit res \<times> 'st"
  st_record :: "go_time \<Rightarrow> decision_event \<Rightarrow> 'st \<Rightarrow> unit res \<times> 'st"
  st_decisions :: "string \<Rightarrow> string \<Rightarrow> string \<Rightarrow> int \<Rightarrow> 'st \<Rightarrow> decision_event list res"
  st_start_run :: "go_time \<Rightarrow> string \<Rightarrow> string \<Rightarrow> 'st \<Rightarrow> int res \<times> 'st"
  st_finish_run :: "go_time \<Rightarrow> int \<Rightarrow> run_stats \<Rightarrow> 'st \<Rightarrow> unit res \<times> 'st"
  st_run_history :: "string \<Rightarrow> int \<Rightarrow> 'st \<Rightarrow> run_log list res"
  st_is_delivered :: "string \<Rightarrow> string \<Rightarrow> string \<Rightarrow> 'st \<Rightarrow> bool res"
  st_mark_delivered :: "go_time \<Rightarrow> string \<Rightarrow> string \<Rightarrow> string \<Rightarrow> 'st \<Rightarrow> unit res \<times> 'st"
  st_begin :: "'st \<Rightarrow> unit res \<times> 'st"
  st_commit :: "'st \<Rightarrow> unit res \<times> 'st"
  st_rollback :: "'st \<Rightarrow> unit res \<times> 'st"
  st_lock :: "go_time \<Rightarrow> string \<Rightarrow> string \<Rightarrow> int \<Rightarrow> 'st \<Rightarrow> unit res \<times> 'st"
  st_unlock :: "string \<Rightarrow> 'st \<Rightarrow> unit res \<times> 'st"
  st_heartbeat :: "go_time \<Rightarrow> string \<Rightarrow> string \<Rightarrow> int \<Rightarrow> 'st \<Rightarrow> unit res \<times> 'st"

subsection \<open>Composite keys\<close>

text \<open>
  The backends identify records by their components joined with NUL bytes. The encoding is
  injective when all components but the entity key (the row ID) are free of NUL bytes.
\<close>

definition nul :: char where
  "nul = CHR 0x00"

definition entity_state_key :: "string \<Rightarrow> string \<Rightarrow> string \<Rightarrow> string" where
  "entity_state_key sync dest key = join [nul] [sync, dest, key]"

definition rule_firing_key :: "string \<Rightarrow> string \<Rightarrow> string \<Rightarrow> string \<Rightarrow> string" where
  "rule_firing_key sync dest key rule = join [nul] [sync, dest, key, rule]"

definition delivery_key :: "string \<Rightarrow> string \<Rightarrow> string \<Rightarrow> string" where
  "delivery_key row_id sync dest = join [nul] [row_id, sync, dest]"

definition nul_free :: "string \<Rightarrow> bool" where
  "nul_free s \<longleftrightarrow> nul \<notin> set s"

lemma append_sep_inj:
  "c \<notin> set a \<Longrightarrow> c \<notin> set b \<Longrightarrow> a @ c # x = b @ c # y \<longleftrightarrow> a = b \<and> x = y"
proof (induction a arbitrary: b)
  case Nil
  then show ?case by (cases b) auto
next
  case (Cons z a)
  then show ?case by (cases b) auto
qed

lemma append_sep_inj_right:
  assumes "c \<notin> set x" "c \<notin> set y"
  shows "a @ c # x = b @ c # y \<longleftrightarrow> a = b \<and> x = y"
proof -
  have "a @ c # x = b @ c # y \<longleftrightarrow> rev x @ c # rev a = rev y @ c # rev b"
    by (metis (no_types, opaque_lifting) append_Cons append_Nil append_assoc rev.simps(2) rev_append rev_rev_ident)
  also have "\<dots> \<longleftrightarrow> a = b \<and> x = y"
    using append_sep_inj [of c "rev x" "rev y" "rev a" "rev b"] assms by auto
  finally show ?thesis .
qed

lemma entity_state_key_inj:
  assumes "nul_free s" "nul_free s'" "nul_free d" "nul_free d'"
  shows "entity_state_key s d k = entity_state_key s' d' k' \<longleftrightarrow> s = s' \<and> d = d' \<and> k = k'"
  using assms by (auto simp: entity_state_key_def nul_free_def append_sep_inj)

lemma delivery_key_inj:
  assumes "nul_free s" "nul_free s'" "nul_free d" "nul_free d'"
  shows "delivery_key r s d = delivery_key r' s' d' \<longleftrightarrow> r = r' \<and> s = s' \<and> d = d'"
proof -
  have "delivery_key r s d = delivery_key r' s' d' \<longleftrightarrow> r @ nul # s = r' @ nul # s' \<and> d = d'"
    using append_sep_inj_right [of nul d d' "r @ nul # s" "r' @ nul # s'"] assms
    by (simp add: delivery_key_def nul_free_def)
  then show ?thesis
    using append_sep_inj_right [of nul s s' r r'] assms by (auto simp: nul_free_def)
qed

lemma rule_firing_key_inj:
  assumes "nul_free s" "nul_free s'" "nul_free d" "nul_free d'" "nul_free r" "nul_free r'"
  shows "rule_firing_key s d k r = rule_firing_key s' d' k' r'
    \<longleftrightarrow> s = s' \<and> d = d' \<and> k = k' \<and> r = r'"
  using assms
  by (auto simp: rule_firing_key_def nul_free_def append_sep_inj append_sep_inj_right)

subsection \<open>The abstract store\<close>

text \<open>
  What a client may rely on: entity states by sync, destination and key (without their
  timestamps), the fired rules, the delivery marks already committed, the marks of the open
  batch if there is one, and the locks.
\<close>

record abs_store =
  ab_entities :: "string \<times> string \<times> string \<Rightarrow> entity_state option"
  ab_fired :: "(string \<times> string \<times> string \<times> string) set"
  ab_delivered :: "(string \<times> string \<times> string) set"
  ab_batch :: "(string \<times> string \<times> string) set option"
  ab_locks :: "string \<Rightarrow> (string \<times> go_time) option"

definition es_core :: "entity_state \<Rightarrow> entity_state" where
  "es_core es = es\<lparr>es_created := 0, es_updated := 0\<rparr>"

definition es_stored :: "(payload \<Rightarrow> payload) \<Rightarrow> entity_state \<Rightarrow> entity_state" where
  "es_stored f es = es\<lparr>es_payload := f (es_payload es), es_prev_payload := f (es_prev_payload es),
     es_remembered := f (es_remembered es)\<rparr>"

definition ab_is_delivered :: "abs_store \<Rightarrow> string \<times> string \<times> string \<Rightarrow> bool" where
  "ab_is_delivered a k \<longleftrightarrow>
     k \<in> ab_delivered a \<or> (case ab_batch a of None \<Rightarrow> False | Some b \<Rightarrow> k \<in> b)"

definition ab_mark_delivered :: "string \<times> string \<times> string \<Rightarrow> abs_store \<Rightarrow> abs_store" where
  "ab_mark_delivered k a =
     (case ab_batch a of
        None \<Rightarrow> a\<lparr>ab_delivered := insert k (ab_delivered a)\<rparr>
      | Some b \<Rightarrow> a\<lparr>ab_batch := Some (insert k b)\<rparr>)"

definition ab_commit :: "abs_store \<Rightarrow> abs_store" where
  "ab_commit a =
     a\<lparr>ab_delivered := ab_delivered a \<union> (case ab_batch a of None \<Rightarrow> {} | Some b \<Rightarrow> b),
       ab_batch := None\<rparr>"

definition ab_save :: "entity_state \<Rightarrow> abs_store \<Rightarrow> abs_store" where
  "ab_save es a =
     a\<lparr>ab_entities := (ab_entities a)((es_sync es, es_dest es, es_key es) := Some (es_core es))\<rparr>"

definition ab_reset :: "string \<times> string \<times> string \<Rightarrow> abs_store \<Rightarrow> abs_store" where
  "ab_reset k a = a\<lparr>ab_entities := (ab_entities a)(k := None)\<rparr>"

definition ab_fire :: "string \<times> string \<times> string \<times> string \<Rightarrow> abs_store \<Rightarrow> abs_store" where
  "ab_fire k a = a\<lparr>ab_fired := insert k (ab_fired a)\<rparr>"

definition ab_lock :: "string \<Rightarrow> string \<times> go_time \<Rightarrow> abs_store \<Rightarrow> abs_store" where
  "ab_lock sy l a = a\<lparr>ab_locks := (ab_locks a)(sy := Some l)\<rparr>"

definition ab_locked :: "abs_store \<Rightarrow> go_time \<Rightarrow> string \<Rightarrow> bool" where
  "ab_locked a now sy \<longleftrightarrow> (case ab_locks a sy of None \<Rightarrow> False | Some (ow, ex) \<Rightarrow> now < ex)"

text \<open>
  The contract, as a functional refinement: the abstraction of the new state is the abstract
  operation on the abstraction of the old one. \<open>stored\<close> is what a backend does to a payload
  between saving and reading it back. Names of syncs, destinations and rules are free of NUL
  bytes; entity keys and row IDs are arbitrary.
\<close>

lemma exact_expiry:
  "a' = ab_lock sy (owner, now + ttl) a \<Longrightarrow>
   \<exists>until. now + ttl - 1000 < until \<and> until \<le> now + ttl \<and> a' = ab_lock sy (owner, until) a"
  by (rule exI [of _ "now + ttl"]) simp

locale state_store =
  fixes ops :: "'st store_ops"
    and inv :: "'st \<Rightarrow> bool"
    and abs :: "'st \<Rightarrow> abs_store"
    and stored :: "payload \<Rightarrow> payload"
  assumes get_law: "inv s \<Longrightarrow> nul_free sy \<Longrightarrow> nul_free d \<Longrightarrow> st_get ops sy d k s = Inr found \<Longrightarrow>
      map_option es_core found = ab_entities (abs s) (sy, d, k)"
    and save_law: "inv s \<Longrightarrow> nul_free (es_sync es) \<Longrightarrow> nul_free (es_dest es) \<Longrightarrow>
      st_save ops now es s = (Inr (), s') \<Longrightarrow> inv s' \<and> abs s' = ab_save (es_stored stored es) (abs s)"
    and save_error: "inv s \<Longrightarrow> st_save ops now es s = (Inl err, s') \<Longrightarrow> inv s' \<and> abs s' = abs s"
    and reset_law: "inv s \<Longrightarrow> nul_free sy \<Longrightarrow> nul_free d \<Longrightarrow> st_reset ops sy d k s = (Inr (), s') \<Longrightarrow>
      inv s' \<and> abs s' = ab_reset (sy, d, k) (abs s)"
    and has_fired_law: "inv s \<Longrightarrow> nul_free sy \<Longrightarrow> nul_free d \<Longrightarrow> nul_free ru \<Longrightarrow>
      st_has_fired ops sy d k ru s = Inr b \<Longrightarrow> b \<longleftrightarrow> (sy, d, k, ru) \<in> ab_fired (abs s)"
    and mark_fired_law: "inv s \<Longrightarrow> nul_free sy \<Longrightarrow> nul_free d \<Longrightarrow> nul_free ru \<Longrightarrow>
      st_mark_fired ops now sy d k ru s = (Inr (), s') \<Longrightarrow>
      inv s' \<and> abs s' = ab_fire (sy, d, k, ru) (abs s)"
    and mark_fired_error: "inv s \<Longrightarrow> st_mark_fired ops now sy d k ru s = (Inl err, s') \<Longrightarrow>
      inv s' \<and> abs s' = abs s"
    and record_law: "inv s \<Longrightarrow> st_record ops now ev s = (r, s') \<Longrightarrow> inv s' \<and> abs s' = abs s"
    and start_run_law: "inv s \<Longrightarrow> st_start_run ops now sy mode s = (rid', s') \<Longrightarrow> inv s' \<and> abs s' = abs s"
    and finish_run_law: "inv s \<Longrightarrow> st_finish_run ops now i stats s = (r, s') \<Longrightarrow> inv s' \<and> abs s' = abs s"
    and is_delivered_law: "inv s \<Longrightarrow> nul_free sy \<Longrightarrow> nul_free d \<Longrightarrow>
      st_is_delivered ops rid sy d s = Inr b \<Longrightarrow> b \<longleftrightarrow> ab_is_delivered (abs s) (rid, sy, d)"
    and mark_delivered_law: "inv s \<Longrightarrow> nul_free sy \<Longrightarrow> nul_free d \<Longrightarrow>
      st_mark_delivered ops now rid sy d s = (Inr (), s') \<Longrightarrow>
      inv s' \<and> abs s' = ab_mark_delivered (rid, sy, d) (abs s)"
    and mark_delivered_error: "inv s \<Longrightarrow> st_mark_delivered ops now rid sy d s = (Inl err, s') \<Longrightarrow>
      inv s' \<and> abs s' = abs s"
    and begin_law: "inv s \<Longrightarrow> st_begin ops s = (Inr (), s') \<Longrightarrow>
      inv s' \<and> abs s' = (abs s)\<lparr>ab_batch := Some {}\<rparr>"
    and commit_law: "inv s \<Longrightarrow> st_commit ops s = (Inr (), s') \<Longrightarrow> inv s' \<and> abs s' = ab_commit (abs s)"
    and commit_error: "inv s \<Longrightarrow> st_commit ops s = (Inl err, s') \<Longrightarrow>
      inv s' \<and> abs s' = (abs s)\<lparr>ab_batch := None\<rparr>"
    and rollback_law: "inv s \<Longrightarrow> st_rollback ops s = (r, s') \<Longrightarrow>
      inv s' \<and> abs s' = (abs s)\<lparr>ab_batch := None\<rparr>"
    and lock_law: "inv s \<Longrightarrow> st_lock ops now sy owner ttl s = (Inr (), s') \<Longrightarrow>
      \<not> ab_locked (abs s) now sy \<and> inv s'
      \<and> (\<exists>until. now + ttl - 1000 < until \<and> until \<le> now + ttl \<and> abs s' = ab_lock sy (owner, until) (abs s))"
    and unlock_law: "inv s \<Longrightarrow> st_unlock ops sy s = (Inr (), s') \<Longrightarrow>
      inv s' \<and> abs s' = (abs s)\<lparr>ab_locks := (ab_locks (abs s))(sy := None)\<rparr>"
begin

text \<open>A delivery mark is visible at once, survives a commit, and is lost by a rollback.\<close>

lemma mark_then_delivered:
  assumes "inv s" "nul_free sy" "nul_free d" "st_mark_delivered ops now rid sy d s = (Inr (), s')"
    "st_is_delivered ops rid sy d s' = Inr b"
  shows "b"
proof -
  have "inv s'" "abs s' = ab_mark_delivered (rid, sy, d) (abs s)"
    using mark_delivered_law [OF assms(1-4)] by simp_all
  then show ?thesis
    using is_delivered_law [OF _ assms(2,3,5)]
    by (simp add: ab_is_delivered_def ab_mark_delivered_def split: option.splits)
qed

lemma commit_keeps_marks:
  assumes "inv s" "nul_free sy" "nul_free d" "st_is_delivered ops rid sy d s = Inr True"
    "st_commit ops s = (Inr (), s')" "st_is_delivered ops rid sy d s' = Inr b"
  shows "b"
proof -
  have "inv s'" "abs s' = ab_commit (abs s)"
    using commit_law [OF assms(1,5)] by simp_all
  then show ?thesis
    using is_delivered_law [OF assms(1-4)] is_delivered_law [OF _ assms(2,3,6)]
    by (auto simp: ab_is_delivered_def ab_commit_def split: option.splits)
qed

lemma rollback_drops_marks:
  assumes "inv s" "nul_free sy" "nul_free d" "st_begin ops s = (Inr (), s1)"
    "st_mark_delivered ops now rid sy d s1 = (Inr (), s2)" "st_rollback ops s2 = (x, s3)"
    "st_is_delivered ops rid sy d s3 = Inr b"
  shows "b \<longleftrightarrow> (rid, sy, d) \<in> ab_delivered (abs s)"
proof -
  have s1: "inv s1" "abs s1 = (abs s)\<lparr>ab_batch := Some {}\<rparr>"
    using begin_law [OF assms(1,4)] by simp_all
  have s2: "inv s2" "abs s2 = ab_mark_delivered (rid, sy, d) (abs s1)"
    using mark_delivered_law [OF s1(1) assms(2,3,5)] by simp_all
  have s3: "inv s3" "abs s3 = (abs s2)\<lparr>ab_batch := None\<rparr>"
    using rollback_law [OF s2(1) assms(6)] by simp_all
  show ?thesis
    using is_delivered_law [OF s3(1) assms(2,3,7)] s1(2) s2(2) s3(2)
    by (simp add: ab_is_delivered_def ab_mark_delivered_def)
qed

text \<open>What was saved is what is read back, up to the timestamps and what storing does.\<close>

lemma save_then_get:
  assumes "inv s" "nul_free (es_sync es)" "nul_free (es_dest es)" "st_save ops now es s = (Inr (), s')"
    "st_get ops (es_sync es) (es_dest es) (es_key es) s' = Inr found"
  shows "map_option es_core found = Some (es_core (es_stored stored es))"
  using get_law [OF _ assms(2,3,5)] save_law [OF assms(1-4)]
  by (simp add: ab_save_def es_stored_def)

lemma save_then_get_other:
  assumes "inv s" "nul_free (es_sync es)" "nul_free (es_dest es)" "nul_free sy" "nul_free d"
    "st_save ops now es s = (Inr (), s')" "(sy, d, k) \<noteq> (es_sync es, es_dest es, es_key es)"
    "st_get ops sy d k s' = Inr found'" "st_get ops sy d k s = Inr found"
  shows "map_option es_core found' = map_option es_core found"
  using get_law [OF _ assms(4,5,8)] get_law [OF assms(1,4,5,9)] save_law [OF assms(1-3,6)] assms(7)
  by (auto simp: ab_save_def es_stored_def)

text \<open>
  A second lock before the expiry of the first is refused; a store may cut the expiry down to
  microseconds.
\<close>

lemma lock_excludes:
  assumes "inv s" "st_lock ops now sy owner ttl s = (Inr (), s1)"
    "now' \<le> now + ttl - 1000" "st_lock ops now' sy owner' ttl' s1 = (r, s2)"
  shows "r \<noteq> Inr ()"
  using lock_law [OF assms(1,2)] lock_law [of s1 now' sy owner' ttl' s2] assms
  by (auto simp: ab_lock_def ab_locked_def)

end

subsection \<open>The memory store: memory.go\<close>

record mem_lock =
  ml_owner :: string
  ml_expires :: go_time

record mem_store =
  ms_entities :: "(string \<times> entity_state) list"
  ms_firings :: "(string \<times> go_time) list"
  ms_decisions :: "decision_event list"
  ms_runs :: "(int \<times> run_log) list"
  ms_next_run :: int
  ms_deliveries :: "(string \<times> bool) list"
  ms_pending :: "(string \<times> bool) list"
  ms_in_batch :: bool
  ms_locks :: "(string \<times> mem_lock) list"

definition new_mem_store :: mem_store where
  "new_mem_store = \<lparr>ms_entities = [], ms_firings = [], ms_decisions = [], ms_runs = [],
     ms_next_run = 0, ms_deliveries = [], ms_pending = [], ms_in_batch = False, ms_locks = []\<rparr>"

definition mem_get :: "string \<Rightarrow> string \<Rightarrow> string \<Rightarrow> mem_store \<Rightarrow> entity_state option res" where
  "mem_get sy d k s = Inr (alookup (ms_entities s) (entity_state_key sy d k))"

definition mem_save :: "go_time \<Rightarrow> entity_state \<Rightarrow> mem_store \<Rightarrow> unit res \<times> mem_store" where
  "mem_save now es s =
     (Inr (), s\<lparr>ms_entities := aput (entity_state_key (es_sync es) (es_dest es) (es_key es)) es (ms_entities s)\<rparr>)"

text \<open>A slice expression with an offset and a limit; a limit of zero or less means no limit.\<close>

definition page_of :: "int \<Rightarrow> int \<Rightarrow> 'a list \<Rightarrow> 'a list" where
  "page_of lmt off xs =
     (if off \<ge> int (length xs) then []
      else let ys = drop (nat off) xs in if lmt > 0 \<and> int (length ys) > lmt then take (nat lmt) ys else ys)"

definition mem_list ::
  "string \<Rightarrow> string \<Rightarrow> int \<Rightarrow> int \<Rightarrow> mem_store \<Rightarrow> entity_state list res" where
  "mem_list sy d lmt off s =
     Inr (page_of lmt off (sort_key (\<lambda>es. - es_updated es)
       (filter (\<lambda>es. es_sync es = sy \<and> es_dest es = d) (map snd (ms_entities s)))))"

definition mem_reset :: "string \<Rightarrow> string \<Rightarrow> string \<Rightarrow> mem_store \<Rightarrow> unit res \<times> mem_store" where
  "mem_reset sy d k s = (Inr (), s\<lparr>ms_entities := adel (entity_state_key sy d k) (ms_entities s)\<rparr>)"

definition mem_has_fired ::
  "string \<Rightarrow> string \<Rightarrow> string \<Rightarrow> string \<Rightarrow> mem_store \<Rightarrow> bool res" where
  "mem_has_fired sy d k r s = Inr (has_key (ms_firings s) (rule_firing_key sy d k r))"

definition mem_mark_fired ::
  "go_time \<Rightarrow> string \<Rightarrow> string \<Rightarrow> string \<Rightarrow> string \<Rightarrow> mem_store \<Rightarrow> unit res \<times> mem_store" where
  "mem_mark_fired now sy d k r s =
     (Inr (), s\<lparr>ms_firings := aput (rule_firing_key sy d k r) now (ms_firings s)\<rparr>)"

definition mem_record :: "go_time \<Rightarrow> decision_event \<Rightarrow> mem_store \<Rightarrow> unit res \<times> mem_store" where
  "mem_record now ev s = (Inr (), s\<lparr>ms_decisions := ms_decisions s @ [ev]\<rparr>)"

definition limit_to :: "int \<Rightarrow> 'a list \<Rightarrow> 'a list" where
  "limit_to lmt xs = (if lmt > 0 then take (nat lmt) xs else xs)"

definition mem_decisions ::
  "string \<Rightarrow> string \<Rightarrow> string \<Rightarrow> int \<Rightarrow> mem_store \<Rightarrow> decision_event list res" where
  "mem_decisions sy d k lmt s =
     Inr (limit_to lmt (filter (\<lambda>ev. ev_sync ev = sy \<and> ev_dest ev = d \<and> ev_key ev = k)
       (rev (ms_decisions s))))"

definition mem_start_run :: "go_time \<Rightarrow> string \<Rightarrow> string \<Rightarrow> mem_store \<Rightarrow> int res \<times> mem_store" where
  "mem_start_run now sy mode s =
     (let i = ms_next_run s + 1
      in (Inr i, s\<lparr>ms_next_run := i, ms_runs := aput i (run_log_new i sy mode now) (ms_runs s)\<rparr>))"

definition mem_finish_run :: "go_time \<Rightarrow> int \<Rightarrow> run_stats \<Rightarrow> mem_store \<Rightarrow> unit res \<times> mem_store" where
  "mem_finish_run now i st s =
     (case alookup (ms_runs s) i of
        None \<Rightarrow> (Inl (ErrMsg (''state: run '' @ dec_int i @ '' not found'')), s)
      | Some r \<Rightarrow> (Inr (), s\<lparr>ms_runs := aput i (run_log_finish now st r) (ms_runs s)\<rparr>))"

definition mem_run_history :: "string \<Rightarrow> int \<Rightarrow> mem_store \<Rightarrow> run_log list res" where
  "mem_run_history sy lmt s =
     Inr (limit_to lmt (sort_key (\<lambda>r. - rl_started r)
       (filter (\<lambda>r. rl_sync r = sy) (map snd (ms_runs s)))))"

definition mem_last_run :: "string \<Rightarrow> mem_store \<Rightarrow> run_log res" where
  "mem_last_run sy s =
     (case mem_run_history sy 1 s of
        Inl e \<Rightarrow> Inl e
      | Inr [] \<Rightarrow> Inl (ErrMsg (''state: no runs found for '' @ quote_q sy))
      | Inr (r # _) \<Rightarrow> Inr r)"

text \<open>A missing key of a map to booleans reads as false.\<close>

definition get_flag :: "(string \<times> bool) list \<Rightarrow> string \<Rightarrow> bool" where
  "get_flag m k \<longleftrightarrow> alookup m k = Some True"

definition mem_is_delivered :: "string \<Rightarrow> string \<Rightarrow> string \<Rightarrow> mem_store \<Rightarrow> bool res" where
  "mem_is_delivered r sy d s =
     (let key = delivery_key r sy d in
      if ms_in_batch s \<and> get_flag (ms_pending s) key then Inr True
      else Inr (get_flag (ms_deliveries s) key))"

definition mem_mark_delivered ::
  "go_time \<Rightarrow> string \<Rightarrow> string \<Rightarrow> string \<Rightarrow> mem_store \<Rightarrow> unit res \<times> mem_store" where
  "mem_mark_delivered now r sy d s =
     (let key = delivery_key r sy d in
      if ms_in_batch s then (Inr (), s\<lparr>ms_pending := aput key True (ms_pending s)\<rparr>)
      else (Inr (), s\<lparr>ms_deliveries := aput key True (ms_deliveries s)\<rparr>))"

definition mem_begin :: "mem_store \<Rightarrow> unit res \<times> mem_store" where
  "mem_begin s = (Inr (), s\<lparr>ms_pending := [], ms_in_batch := True\<rparr>)"

definition mem_commit :: "mem_store \<Rightarrow> unit res \<times> mem_store" where
  "mem_commit s =
     (Inr (), s\<lparr>ms_pending := [], ms_in_batch := False,
        ms_deliveries := foldl (\<lambda>m k. aput k True m) (ms_deliveries s) (map fst (ms_pending s))\<rparr>)"

definition mem_rollback :: "mem_store \<Rightarrow> unit res \<times> mem_store" where
  "mem_rollback s = (Inr (), s\<lparr>ms_pending := [], ms_in_batch := False\<rparr>)"

definition lock_error :: "string \<Rightarrow> string \<Rightarrow> go_error" where
  "lock_error sy owner =
     ErrMsg (''state: sync '' @ quote_q sy @ '' is already running (lock held by '' @ quote_q owner
       @ '') '' @ em_dash @ '' use 'vortara state unlock' to clear a stale lock'')"

definition mem_lock_run ::
  "go_time \<Rightarrow> string \<Rightarrow> string \<Rightarrow> int \<Rightarrow> mem_store \<Rightarrow> unit res \<times> mem_store" where
  "mem_lock_run now sy owner ttl s =
     (let acquire = (Inr (), s\<lparr>ms_locks := aput sy \<lparr>ml_owner = owner, ml_expires = now + ttl\<rparr> (ms_locks s)\<rparr>)
      in case alookup (ms_locks s) sy of
           None \<Rightarrow> acquire
         | Some l \<Rightarrow> if ml_expires l > now then (Inl (lock_error sy (ml_owner l)), s) else acquire)"

definition mem_unlock_run :: "string \<Rightarrow> mem_store \<Rightarrow> unit res \<times> mem_store" where
  "mem_unlock_run sy s = (Inr (), s\<lparr>ms_locks := adel sy (ms_locks s)\<rparr>)"

definition mem_heartbeat ::
  "go_time \<Rightarrow> string \<Rightarrow> string \<Rightarrow> int \<Rightarrow> mem_store \<Rightarrow> unit res \<times> mem_store" where
  "mem_heartbeat now sy owner ttl s =
     (case alookup (ms_locks s) sy of
        None \<Rightarrow> (Inr (), s)
      | Some l \<Rightarrow> if ml_owner l = owner
          then (Inr (), s\<lparr>ms_locks := aput sy (l\<lparr>ml_expires := now + ttl\<rparr>) (ms_locks s)\<rparr>)
          else (Inr (), s))"

definition mem_ops :: "mem_store store_ops" where
  "mem_ops = \<lparr>st_get = mem_get, st_save = mem_save, st_list = mem_list, st_reset = mem_reset,
     st_has_fired = mem_has_fired, st_mark_fired = mem_mark_fired, st_record = mem_record,
     st_decisions = mem_decisions, st_start_run = mem_start_run, st_finish_run = mem_finish_run,
     st_run_history = mem_run_history, st_is_delivered = mem_is_delivered,
     st_mark_delivered = mem_mark_delivered, st_begin = mem_begin, st_commit = mem_commit,
     st_rollback = mem_rollback, st_lock = mem_lock_run, st_unlock = mem_unlock_run,
     st_heartbeat = mem_heartbeat\<rparr>"

subsection \<open>The memory store keeps the contract\<close>

definition set_flags :: "(string \<times> bool) list \<Rightarrow> (string \<times> string \<times> string) set" where
  "set_flags m = {(r, sy, d). nul_free sy \<and> nul_free d \<and> get_flag m (delivery_key r sy d)}"

definition entity_map ::
  "(string \<times> entity_state) list \<Rightarrow> string \<times> string \<times> string \<Rightarrow> entity_state option" where
  "entity_map m = (\<lambda>(sy, d, k). if nul_free sy \<and> nul_free d
     then map_option es_core (alookup m (entity_state_key sy d k)) else None)"

definition fired_set :: "(string \<times> go_time) list \<Rightarrow> (string \<times> string \<times> string \<times> string) set" where
  "fired_set m = {(sy, d, k, r). nul_free sy \<and> nul_free d \<and> nul_free r
     \<and> has_key m (rule_firing_key sy d k r)}"

definition mem_abs :: "mem_store \<Rightarrow> abs_store" where
  "mem_abs s = \<lparr>ab_entities = entity_map (ms_entities s), ab_fired = fired_set (ms_firings s),
     ab_delivered = set_flags (ms_deliveries s),
     ab_batch = (if ms_in_batch s then Some (set_flags (ms_pending s)) else None),
     ab_locks = (\<lambda>sy. map_option (\<lambda>l. (ml_owner l, ml_expires l)) (alookup (ms_locks s) sy))\<rparr>"

text \<open>Outside a batch nothing is pending, and a pending key is marked.\<close>

definition mem_inv :: "mem_store \<Rightarrow> bool" where
  "mem_inv s \<longleftrightarrow> (ms_in_batch s \<or> ms_pending s = []) \<and> list_all snd (ms_pending s)"

lemma get_flag_aput: "get_flag (aput k True m) x \<longleftrightarrow> x = k \<or> get_flag m x"
  by (auto simp: get_flag_def update_conv')

lemma list_all_snd_aput: "list_all snd m \<Longrightarrow> list_all snd (aput k True m)"
  by (induction m) auto

lemma get_flag_key: "list_all snd m \<Longrightarrow> get_flag m x \<longleftrightarrow> x \<in> fst ` set m"
  by (induction m) (auto simp: get_flag_def)

lemma get_flag_Nil [simp]: "\<not> get_flag [] x"
  by (simp add: get_flag_def)

lemma set_flags_Nil [simp]: "set_flags [] = {}"
  by (simp add: set_flags_def)

lemma set_flags_aput:
  assumes "nul_free sy" "nul_free d"
  shows "set_flags (aput (delivery_key r sy d) True m) = insert (r, sy, d) (set_flags m)"
  using assms by (auto simp: set_flags_def get_flag_aput delivery_key_inj)

lemma get_flag_foldl:
  "get_flag (foldl (\<lambda>m k. aput k True m) m ks) x \<longleftrightarrow> x \<in> set ks \<or> get_flag m x"
  by (induction ks arbitrary: m) (auto simp: get_flag_aput)

lemma set_flags_commit:
  "list_all snd p \<Longrightarrow> set_flags (foldl (\<lambda>m k. aput k True m) m (map fst p)) = set_flags m \<union> set_flags p"
  by (auto simp: set_flags_def get_flag_foldl get_flag_key)

lemma entity_map_aput:
  "nul_free sy \<Longrightarrow> nul_free d \<Longrightarrow>
   entity_map (aput (entity_state_key sy d k) es m) = (entity_map m)((sy, d, k) := Some (es_core es))"
  by (auto simp: entity_map_def fun_eq_iff update_conv' entity_state_key_inj)

lemma entity_map_adel:
  "nul_free sy \<Longrightarrow> nul_free d \<Longrightarrow>
   entity_map (adel (entity_state_key sy d k) m) = (entity_map m)((sy, d, k) := None)"
  by (auto simp: entity_map_def fun_eq_iff delete_conv' entity_state_key_inj)

lemma fired_set_aput:
  "nul_free sy \<Longrightarrow> nul_free d \<Longrightarrow> nul_free r \<Longrightarrow>
   fired_set (aput (rule_firing_key sy d k r) now m) = insert (sy, d, k, r) (fired_set m)"
  by (auto simp: fired_set_def has_key_def update_conv' rule_firing_key_inj simp del: has_key_iff)

lemma entity_map_lookup:
  "nul_free sy \<Longrightarrow> nul_free d \<Longrightarrow>
   entity_map m (sy, d, k) = map_option es_core (alookup m (entity_state_key sy d k))"
  by (simp add: entity_map_def)

lemma fired_set_mem:
  "nul_free sy \<Longrightarrow> nul_free d \<Longrightarrow> nul_free r \<Longrightarrow>
   (sy, d, k, r) \<in> fired_set m \<longleftrightarrow> has_key m (rule_firing_key sy d k r)"
  by (simp add: fired_set_def del: has_key_iff)

lemmas mem_defs = mem_ops_def mem_get_def mem_save_def mem_reset_def mem_has_fired_def
  mem_mark_fired_def mem_record_def mem_start_run_def mem_finish_run_def mem_is_delivered_def
  mem_mark_delivered_def mem_begin_def mem_commit_def mem_rollback_def mem_lock_run_def
  mem_unlock_run_def

lemma es_stored_id [simp]: "es_stored (\<lambda>p. p) es = es"
  by (simp add: es_stored_def)

interpretation mem: state_store mem_ops mem_inv mem_abs "\<lambda>p. p"
proof
  fix s s' :: mem_store and sy d k :: string and found
  assume "nul_free sy" "nul_free d" "st_get mem_ops sy d k s = Inr found"
  then show "map_option es_core found = ab_entities (mem_abs s) (sy, d, k)"
    by (auto simp: mem_defs mem_abs_def entity_map_lookup)
next
  fix s s' :: mem_store and es now
  assume "mem_inv s" "nul_free (es_sync es)" "nul_free (es_dest es)"
    "st_save mem_ops now es s = (Inr (), s')"
  then show "mem_inv s' \<and> mem_abs s' = ab_save (es_stored (\<lambda>p. p) es) (mem_abs s)"
    by (auto simp: mem_defs mem_abs_def ab_save_def mem_inv_def entity_map_aput)
next
  fix s s' :: mem_store and sy d k
  assume "mem_inv s" "nul_free sy" "nul_free d" "st_reset mem_ops sy d k s = (Inr (), s')"
  then show "mem_inv s' \<and> mem_abs s' = ab_reset (sy, d, k) (mem_abs s)"
    by (auto simp: mem_defs mem_abs_def ab_reset_def mem_inv_def entity_map_adel)
next
  fix s :: mem_store and sy d k ru b
  assume "nul_free sy" "nul_free d" "nul_free ru" "st_has_fired mem_ops sy d k ru s = Inr b"
  then show "b \<longleftrightarrow> (sy, d, k, ru) \<in> ab_fired (mem_abs s)"
    by (auto simp: mem_defs mem_abs_def fired_set_mem simp del: has_key_iff)
next
  fix s s' :: mem_store and sy d k ru now
  assume "mem_inv s" "nul_free sy" "nul_free d" "nul_free ru"
    "st_mark_fired mem_ops now sy d k ru s = (Inr (), s')"
  then show "mem_inv s' \<and> mem_abs s' = ab_fire (sy, d, k, ru) (mem_abs s)"
    by (auto simp: mem_defs mem_abs_def ab_fire_def mem_inv_def fired_set_aput simp del: has_key_iff)
next
  fix s :: mem_store and sy d rid b
  assume "mem_inv s" "nul_free sy" "nul_free d" "st_is_delivered mem_ops rid sy d s = Inr b"
  then show "b \<longleftrightarrow> ab_is_delivered (mem_abs s) (rid, sy, d)"
    by (auto simp: mem_defs mem_abs_def ab_is_delivered_def set_flags_def Let_def split: if_splits)
next
  fix s s' :: mem_store and sy d rid now
  assume "mem_inv s" "nul_free sy" "nul_free d" "st_mark_delivered mem_ops now rid sy d s = (Inr (), s')"
  then show "mem_inv s' \<and> mem_abs s' = ab_mark_delivered (rid, sy, d) (mem_abs s)"
    by (auto simp: mem_defs mem_abs_def ab_mark_delivered_def mem_inv_def set_flags_aput
        list_all_snd_aput Let_def split: if_splits)
next
  fix s s' :: mem_store
  assume "mem_inv s" "st_commit mem_ops s = (Inr (), s')"
  then show "mem_inv s' \<and> mem_abs s' = ab_commit (mem_abs s)"
    by (auto simp: mem_defs mem_abs_def ab_commit_def mem_inv_def set_flags_commit)
next
  fix s s' :: mem_store and now sy owner ttl
  assume "mem_inv s" "st_lock mem_ops now sy owner ttl s = (Inr (), s')"
  then have "\<not> ab_locked (mem_abs s) now sy \<and> mem_inv s' \<and>
      mem_abs s' = ab_lock sy (owner, now + ttl) (mem_abs s)"
    by (auto simp: mem_defs mem_abs_def ab_lock_def ab_locked_def mem_inv_def update_conv' fun_eq_iff
        Let_def split: option.splits if_splits)
  then show "\<not> ab_locked (mem_abs s) now sy \<and> mem_inv s' \<and>
      (\<exists>until. now + ttl - 1000 < until \<and> until \<le> now + ttl \<and> mem_abs s' = ab_lock sy (owner, until) (mem_abs s))"
    using exact_expiry by blast
next
  fix s s' :: mem_store and sy
  assume "mem_inv s" "st_unlock mem_ops sy s = (Inr (), s')"
  then show "mem_inv s' \<and> mem_abs s' = (mem_abs s)\<lparr>ab_locks := (ab_locks (mem_abs s))(sy := None)\<rparr>"
    by (auto simp: mem_defs mem_abs_def mem_inv_def delete_conv' fun_eq_iff)
qed (auto simp: mem_defs mem_abs_def mem_inv_def Let_def split: option.splits if_splits)

end
