(* ===== verification/Sqlite_Store.thy ===== *)
theory Sqlite_Store
  imports State_Store
begin

section \<open>The SQLite store: internal/state/sqlite.go\<close>

text \<open>
  The tables are association lists on their primary keys, the in-memory batch is a list of
  entries with the set of their keys. The effect of each SQL statement the code sends is written
  out; \<open>sq_fail\<close> says which statements the database currently rejects, and a rejected statement
  changes nothing. Payload columns hold JSON text: what comes back is the decoded text of the
  encoded value (\<open>json_reload\<close>), in which every number is a \<open>float64\<close>.
\<close>

subsection \<open>Payloads through a JSON column\<close>

fun json_value :: "gval \<Rightarrow> gval" where
  "json_value (GInt i) = GFloat (f64_of_int i)"
| "json_value (GTime t) = GStr (rfc3339_nano t)"
| "json_value (GTimePtr p) = (case p of None \<Rightarrow> GNil | Some t \<Rightarrow> GStr (rfc3339_nano t))"
| "json_value (GMap m) = GMap (map (\<lambda>(k, v). (k, json_value v)) m)"
| "json_value (GList xs) = GList (map json_value xs)"
| "json_value v = v"

text \<open>Both conversions drop their error: a value that does not encode comes back as no map.\<close>

definition json_reload :: "payload \<Rightarrow> payload" where
  "json_reload p =
     (case json_marshal (GMap p) of None \<Rightarrow> [] | Some _ \<Rightarrow> map (\<lambda>(k, v). (k, json_value v)) p)"

subsection \<open>State\<close>

record delivery_entry =
  dl_row :: string
  dl_sync :: string
  dl_dest :: string
  dl_at :: go_time

record sq_lock =
  sl_owner :: string
  sl_acquired :: go_time
  sl_heartbeat :: go_time
  sl_expires :: go_time

record sq_store =
  sq_entities :: "((string \<times> string \<times> string) \<times> entity_state) list"
  sq_firings :: "(string \<times> string \<times> string \<times> string) list"
  sq_events :: "decision_event list"
  sq_runs :: "run_log list"
  sq_last_run :: int
  sq_deliveries :: "(string \<times> string \<times> string) list"
  sq_locks :: "(string \<times> sq_lock) list"
  sq_pending :: "delivery_entry list"
  sq_seen :: "string list option"
  sq_fail :: "string \<Rightarrow> go_error option"

definition sq_exec :: "string \<Rightarrow> (sq_store \<Rightarrow> sq_store) \<Rightarrow> sq_store \<Rightarrow> unit res \<times> sq_store" where
  "sq_exec stmt f s = (case sq_fail s stmt of Some e \<Rightarrow> (Inl e, s) | None \<Rightarrow> (Inr (), f s))"

definition sq_query :: "string \<Rightarrow> (sq_store \<Rightarrow> 'a) \<Rightarrow> sq_store \<Rightarrow> 'a res" where
  "sq_query stmt f s = (case sq_fail s stmt of Some e \<Rightarrow> Inl e | None \<Rightarrow> Inr (f s))"

definition insert_ignore :: "'a \<Rightarrow> 'a list \<Rightarrow> 'a list" where
  "insert_ignore x xs = (if x \<in> set xs then xs else xs @ [x])"

subsection \<open>Entity state\<close>

definition sq_get :: "string \<Rightarrow> string \<Rightarrow> string \<Rightarrow> sq_store \<Rightarrow> entity_state option res" where
  "sq_get sy d k s =
     map_sum (ErrWrap ''state: get entity'') id
       (sq_query ''get'' (\<lambda>s. alookup (sq_entities s) (sy, d, k)) s)"

text \<open>The upsert keeps the creation time of an existing row and stamps the update time.\<close>

definition sq_upsert_entity :: "go_time \<Rightarrow> entity_state \<Rightarrow> sq_store \<Rightarrow> sq_store" where
  "sq_upsert_entity now es s =
     (let key = (es_sync es, es_dest es, es_key es);
          created = (case alookup (sq_entities s) key of None \<Rightarrow> now | Some old \<Rightarrow> es_created old)
      in s\<lparr>sq_entities := aput key
             ((es_stored json_reload es)\<lparr>es_created := created, es_updated := now\<rparr>) (sq_entities s)\<rparr>)"

definition sq_save :: "go_time \<Rightarrow> entity_state \<Rightarrow> sq_store \<Rightarrow> unit res \<times> sq_store" where
  "sq_save now es s = sq_exec ''save'' (sq_upsert_entity now es) s"

definition sq_list ::
  "string \<Rightarrow> string \<Rightarrow> int \<Rightarrow> int \<Rightarrow> sq_store \<Rightarrow> entity_state list res" where
  "sq_list sy d lmt off s =
     (let n = (if lmt \<le> 0 then 100 else lmt) in
      sq_query ''list'' (\<lambda>s. take (nat n) (drop (nat off) (sort_key (\<lambda>es. - es_updated es)
        (map snd (filter (\<lambda>((sy', d', k), es). sy' = sy \<and> d' = d) (sq_entities s)))))) s)"

definition sq_reset :: "string \<Rightarrow> string \<Rightarrow> string \<Rightarrow> sq_store \<Rightarrow> unit res \<times> sq_store" where
  "sq_reset sy d k s = sq_exec ''reset'' (\<lambda>s. s\<lparr>sq_entities := adel (sy, d, k) (sq_entities s)\<rparr>) s"

subsection \<open>Rule firings and decision events\<close>

definition sq_has_fired ::
  "string \<Rightarrow> string \<Rightarrow> string \<Rightarrow> string \<Rightarrow> sq_store \<Rightarrow> bool res" where
  "sq_has_fired sy d k r s = sq_query ''has_fired'' (\<lambda>s. (sy, d, k, r) \<in> set (sq_firings s)) s"

definition sq_mark_fired ::
  "go_time \<Rightarrow> string \<Rightarrow> string \<Rightarrow> string \<Rightarrow> string \<Rightarrow> sq_store \<Rightarrow> unit res \<times> sq_store" where
  "sq_mark_fired now sy d k r s =
     sq_exec ''mark_fired'' (\<lambda>s. s\<lparr>sq_firings := insert_ignore (sy, d, k, r) (sq_firings s)\<rparr>) s"

definition sq_record :: "go_time \<Rightarrow> decision_event \<Rightarrow> sq_store \<Rightarrow> unit res \<times> sq_store" where
  "sq_record now ev s =
     (let created = (if is_zero (ev_created ev) then now else ev_created ev) in
      sq_exec ''record'' (\<lambda>s. s\<lparr>sq_events := sq_events s
         @ [ev\<lparr>ev_id := int (length (sq_events s)) + 1, ev_created := created\<rparr>]\<rparr>) s)"

definition sq_decisions ::
  "string \<Rightarrow> string \<Rightarrow> string \<Rightarrow> int \<Rightarrow> sq_store \<Rightarrow> decision_event list res" where
  "sq_decisions sy d k lmt s =
     (let n = (if lmt \<le> 0 then 20 else lmt) in
      sq_query ''decisions'' (\<lambda>s. take (nat n) (sort_key (\<lambda>ev. - ev_created ev)
        (filter (\<lambda>ev. ev_sync ev = sy \<and> ev_dest ev = d \<and> ev_key ev = k) (sq_events s)))) s)"

subsection \<open>Run log\<close>

definition sq_start_run :: "go_time \<Rightarrow> string \<Rightarrow> string \<Rightarrow> sq_store \<Rightarrow> int res \<times> sq_store" where
  "sq_start_run now sy mode s =
     (case sq_fail s ''start_run'' of
        Some e \<Rightarrow> (Inl e, s)
      | None \<Rightarrow> (let i = sq_last_run s + 1 in
          (Inr i, s\<lparr>sq_last_run := i, sq_runs := sq_runs s @ [run_log_new i sy mode now]\<rparr>)))"

definition sq_finish_run :: "go_time \<Rightarrow> int \<Rightarrow> run_stats \<Rightarrow> sq_store \<Rightarrow> unit res \<times> sq_store" where
  "sq_finish_run now i st s =
     sq_exec ''finish_run''
       (\<lambda>s. s\<lparr>sq_runs := map (\<lambda>r. if rl_id r = i then run_log_finish now st r else r) (sq_runs s)\<rparr>) s"

definition sq_run_history :: "string \<Rightarrow> int \<Rightarrow> sq_store \<Rightarrow> run_log list res" where
  "sq_run_history sy lmt s =
     (let n = (if lmt \<le> 0 then 20 else lmt) in
      sq_query ''run_history'' (\<lambda>s. take (nat n) (sort_key (\<lambda>r. - rl_started r)
        (filter (\<lambda>r. rl_sync r = sy) (sq_runs s)))) s)"

definition sq_last_run_of :: "string \<Rightarrow> sq_store \<Rightarrow> run_log res" where
  "sq_last_run_of sy s =
     (case sq_run_history sy 1 s of
        Inl e \<Rightarrow> Inl e
      | Inr [] \<Rightarrow> Inl (ErrMsg (''no runs found for '' @ quote_q sy))
      | Inr (r # _) \<Rightarrow> Inr r)"

subsection \<open>Delivery idempotency\<close>

definition sq_is_delivered :: "string \<Rightarrow> string \<Rightarrow> string \<Rightarrow> sq_store \<Rightarrow> bool res" where
  "sq_is_delivered r sy d s =
     (if (case sq_seen s of None \<Rightarrow> False | Some ks \<Rightarrow> delivery_key r sy d \<in> set ks) then Inr True
      else sq_query ''is_delivered'' (\<lambda>s. (r, sy, d) \<in> set (sq_deliveries s)) s)"

definition sq_mark_delivered ::
  "go_time \<Rightarrow> string \<Rightarrow> string \<Rightarrow> string \<Rightarrow> sq_store \<Rightarrow> unit res \<times> sq_store" where
  "sq_mark_delivered now r sy d s =
     (case sq_seen s of
        Some ks \<Rightarrow>
          (if delivery_key r sy d \<in> set ks then (Inr (), s)
           else (Inr (), s\<lparr>sq_seen := Some (delivery_key r sy d # ks),
                  sq_pending := sq_pending s
                    @ [\<lparr>dl_row = r, dl_sync = sy, dl_dest = d, dl_at = now\<rparr>]\<rparr>))
      | None \<Rightarrow>
          sq_exec ''mark_delivered'' (\<lambda>s. s\<lparr>sq_deliveries := insert_ignore (r, sy, d) (sq_deliveries s)\<rparr>) s)"

definition sq_begin :: "sq_store \<Rightarrow> unit res \<times> sq_store" where
  "sq_begin s = (Inr (), s\<lparr>sq_pending := [], sq_seen := Some []\<rparr>)"

definition entry_key :: "delivery_entry \<Rightarrow> string \<times> string \<times> string" where
  "entry_key e = (dl_row e, dl_sync e, dl_dest e)"

text \<open>
  The batch is emptied before the transaction starts; the transaction inserts all entries or
  none.
\<close>

fun first_failure :: "sq_store \<Rightarrow> string list \<Rightarrow> go_error option" where
  "first_failure s [] = None"
| "first_failure s (stmt # stmts) =
     (case sq_fail s stmt of Some e \<Rightarrow> Some e | None \<Rightarrow> first_failure s stmts)"

definition sq_commit :: "sq_store \<Rightarrow> unit res \<times> sq_store" where
  "sq_commit s =
     (let pending = sq_pending s; s1 = s\<lparr>sq_pending := [], sq_seen := None\<rparr> in
      if pending = [] then (Inr (), s1)
      else case first_failure s1 [''begin_tx'', ''prepare'', ''insert_delivery'', ''commit_tx''] of
             Some e \<Rightarrow> (Inl e, s1)
           | None \<Rightarrow> (Inr (), s1\<lparr>sq_deliveries :=
               foldl (\<lambda>ds e. insert_ignore (entry_key e) ds) (sq_deliveries s1) pending\<rparr>))"

definition sq_rollback :: "sq_store \<Rightarrow> unit res \<times> sq_store" where
  "sq_rollback s = (Inr (), s\<lparr>sq_pending := [], sq_seen := None\<rparr>)"

subsection \<open>Locks\<close>

definition sq_lock_run ::
  "go_time \<Rightarrow> string \<Rightarrow> string \<Rightarrow> int \<Rightarrow> sq_store \<Rightarrow> unit res \<times> sq_store" where
  "sq_lock_run now sy owner ttl s =
     (case sq_fail s ''lock_cleanup'' of
        Some e \<Rightarrow> (Inl (ErrWrap ''state: lock cleanup'' e), s)
      | None \<Rightarrow>
          let s1 = s\<lparr>sq_locks := filter (\<lambda>(k, l). \<not> (k = sy \<and> sl_expires l \<le> now)) (sq_locks s)\<rparr> in
          (case sq_fail s ''lock_insert'' of
             Some e \<Rightarrow> (Inl (ErrWrap ''state: acquire lock'' e), s1)
           | None \<Rightarrow>
               (case alookup (sq_locks s1) sy of
                  None \<Rightarrow> (Inr (), s1\<lparr>sq_locks := (sy, \<lparr>sl_owner = owner, sl_acquired = now,
                            sl_heartbeat = now, sl_expires = now + ttl\<rparr>) # sq_locks s1\<rparr>)
                | Some l \<Rightarrow>
                    (Inl (lock_error sy (case sq_fail s ''lock_owner'' of None \<Rightarrow> sl_owner l | Some _ \<Rightarrow> [])),
                     s1))))"

definition sq_unlock_run :: "string \<Rightarrow> sq_store \<Rightarrow> unit res \<times> sq_store" where
  "sq_unlock_run sy s = sq_exec ''unlock'' (\<lambda>s. s\<lparr>sq_locks := adel sy (sq_locks s)\<rparr>) s"

definition sq_heartbeat_run ::
  "go_time \<Rightarrow> string \<Rightarrow> string \<Rightarrow> int \<Rightarrow> sq_store \<Rightarrow> unit res \<times> sq_store" where
  "sq_heartbeat_run now sy owner ttl s =
     sq_exec ''heartbeat'' (\<lambda>s. s\<lparr>sq_locks := map (\<lambda>(k, l).
        (k, if k = sy \<and> sl_owner l = owner
            then l\<lparr>sl_heartbeat := now, sl_expires := now + ttl\<rparr> else l)) (sq_locks s)\<rparr>) s"

definition sqlite_ops :: "sq_store store_ops" where
  "sqlite_ops = \<lparr>st_get = sq_get, st_save = sq_save, st_list = sq_list, st_reset = sq_reset,
     st_has_fired = sq_has_fired, st_mark_fired = sq_mark_fired, st_record = sq_record,
     st_decisions = sq_decisions, st_start_run = sq_start_run, st_finish_run = sq_finish_run,
     st_run_history = sq_run_history, st_is_delivered = sq_is_delivered,
     st_mark_delivered = sq_mark_delivered, st_begin = sq_begin, st_commit = sq_commit,
     st_rollback = sq_rollback, st_lock = sq_lock_run, st_unlock = sq_unlock_run,
     st_heartbeat = sq_heartbeat_run\<rparr>"

subsection \<open>The SQLite store keeps the contract\<close>

definition sq_entity_map ::
  "((string \<times> string \<times> string) \<times> entity_state) list \<Rightarrow> string \<times> string \<times> string \<Rightarrow> entity_state option" where
  "sq_entity_map m k = map_option es_core (alookup m k)"

definition seen_set :: "string list \<Rightarrow> (string \<times> string \<times> string) set" where
  "seen_set ks = {(r, sy, d). nul_free sy \<and> nul_free d \<and> delivery_key r sy d \<in> set ks}"

definition sq_abs :: "sq_store \<Rightarrow> abs_store" where
  "sq_abs s = \<lparr>ab_entities = sq_entity_map (sq_entities s), ab_fired = set (sq_firings s),
     ab_delivered = set (sq_deliveries s), ab_batch = map_option seen_set (sq_seen s),
     ab_locks = (\<lambda>sy. map_option (\<lambda>l. (sl_owner l, sl_expires l)) (alookup (sq_locks s) sy))\<rparr>"

text \<open>
  The keys seen in the batch are those of the pending entries; outside a batch nothing is
  pending. The lock table has one row per sync.
\<close>

definition sq_inv :: "sq_store \<Rightarrow> bool" where
  "sq_inv s \<longleftrightarrow>
     (case sq_seen s of None \<Rightarrow> sq_pending s = []
      | Some ks \<Rightarrow> seen_set ks = entry_key ` set (sq_pending s))
     \<and> go_map (sq_locks s)"

lemma set_insert_ignore [simp]: "set (insert_ignore x xs) = insert x (set xs)"
  by (auto simp: insert_ignore_def)

lemma set_foldl_insert_ignore:
  "set (foldl (\<lambda>ds e. insert_ignore (entry_key e) ds) ds es) = set ds \<union> entry_key ` set es"
  by (induction es arbitrary: ds) auto

lemma seen_set_Nil [simp]: "seen_set [] = {}"
  by (simp add: seen_set_def)

lemma seen_set_Cons:
  "nul_free sy \<Longrightarrow> nul_free d \<Longrightarrow> seen_set (delivery_key r sy d # ks) = insert (r, sy, d) (seen_set ks)"
  by (auto simp: seen_set_def delivery_key_inj)

lemma seen_set_mem:
  "nul_free sy \<Longrightarrow> nul_free d \<Longrightarrow> (r, sy, d) \<in> seen_set ks \<longleftrightarrow> delivery_key r sy d \<in> set ks"
  by (simp add: seen_set_def)

lemma sq_entity_map_aput:
  "sq_entity_map (aput k es m) = (sq_entity_map m)(k := Some (es_core es))"
  by (simp add: sq_entity_map_def fun_eq_iff update_conv')

lemma sq_entity_map_adel: "sq_entity_map (adel k m) = (sq_entity_map m)(k := None)"
  by (simp add: sq_entity_map_def fun_eq_iff delete_conv')

lemmas sq_defs = sqlite_ops_def sq_get_def sq_save_def sq_reset_def sq_has_fired_def
  sq_mark_fired_def sq_record_def sq_start_run_def sq_finish_run_def sq_is_delivered_def
  sq_mark_delivered_def sq_begin_def sq_commit_def sq_rollback_def sq_lock_run_def
  sq_unlock_run_def sq_exec_def sq_query_def

lemma map_of_filter_other:
  "x \<noteq> y \<Longrightarrow> map_of (filter (\<lambda>(k, v). \<not> (k = y \<and> P v)) m) x = map_of m x"
  by (induction m) auto

lemma sq_lock_run_ok:
  assumes "sq_inv s" "sq_lock_run now sy owner ttl s = (Inr (), s')"
  shows "\<not> ab_locked (sq_abs s) now sy \<and> sq_inv s' \<and> sq_abs s' = ab_lock sy (owner, now + ttl) (sq_abs s)"
proof -
  let ?ls = "filter (\<lambda>(k, l). \<not> (k = sy \<and> sl_expires l \<le> now)) (sq_locks s)"
  let ?l = "\<lparr>sl_owner = owner, sl_acquired = now, sl_heartbeat = now, sl_expires = now + ttl\<rparr>"
  have none: "alookup ?ls sy = None" and s': "s' = s\<lparr>sq_locks := (sy, ?l) # ?ls\<rparr>"
    using assms(2) by (auto simp: sq_lock_run_def Let_def split: option.splits)
  have gm: "go_map (sq_locks s)" using assms(1) by (simp add: sq_inv_def)
  have other: "alookup ?ls x = alookup (sq_locks s) x" if "x \<noteq> sy" for x
    using that by (rule map_of_filter_other)
  have "now \<ge> sl_expires l" if "alookup (sq_locks s) sy = Some l" for l
  proof -
    have "(sy, l) \<in> set (sq_locks s)" using that by (rule map_of_SomeD)
    then show ?thesis using none by (force simp: map_of_eq_None_iff)
  qed
  then have "\<not> ab_locked (sq_abs s) now sy"
    by (auto simp: ab_locked_def sq_abs_def split: option.splits)
  moreover have "sq_inv s'"
    using assms(1) none gm by (auto simp: s' sq_inv_def go_map_def map_of_eq_None_iff distinct_map_filter
        split: option.splits)
  moreover have "sq_abs s' = ab_lock sy (owner, now + ttl) (sq_abs s)"
    using other by (auto simp: s' sq_abs_def ab_lock_def fun_eq_iff)
  ultimately show ?thesis by blast
qed

interpretation sqlite: state_store sqlite_ops sq_inv sq_abs json_reload
proof
  fix s s' :: sq_store and sy d k :: string and found
  assume "nul_free sy" "nul_free d" "st_get sqlite_ops sy d k s = Inr found"
  then show "map_option es_core found = ab_entities (sq_abs s) (sy, d, k)"
    by (auto simp: sq_defs sq_abs_def sq_entity_map_def split: option.splits)
next
  fix s s' :: sq_store and es now
  assume "sq_inv s" "nul_free (es_sync es)" "nul_free (es_dest es)"
    "st_save sqlite_ops now es s = (Inr (), s')"
  then have s': "s' = sq_upsert_entity now es s" "sq_inv s"
    by (auto simp: sq_defs split: option.splits)
  then show "sq_inv s' \<and> sq_abs s' = ab_save (es_stored json_reload es) (sq_abs s)"
    by (auto simp: sq_abs_def ab_save_def sq_inv_def sq_upsert_entity_def Let_def sq_entity_map_aput
        es_core_def es_stored_def split: option.splits)
next
  fix s s' :: sq_store and sy d k
  assume "sq_inv s" "nul_free sy" "nul_free d" "st_reset sqlite_ops sy d k s = (Inr (), s')"
  then show "sq_inv s' \<and> sq_abs s' = ab_reset (sy, d, k) (sq_abs s)"
    by (auto simp: sq_defs sq_abs_def ab_reset_def sq_inv_def sq_entity_map_adel split: option.splits)
next
  fix s :: sq_store and sy d k ru b
  assume "st_has_fired sqlite_ops sy d k ru s = Inr b"
  then show "b \<longleftrightarrow> (sy, d, k, ru) \<in> ab_fired (sq_abs s)"
    by (auto simp: sq_defs sq_abs_def split: option.splits)
next
  fix s s' :: sq_store and sy d k ru now
  assume "sq_inv s" "st_mark_fired sqlite_ops now sy d k ru s = (Inr (), s')"
  then show "sq_inv s' \<and> sq_abs s' = ab_fire (sy, d, k, ru) (sq_abs s)"
    by (auto simp: sq_defs sq_abs_def ab_fire_def sq_inv_def split: option.splits)
next
  fix s :: sq_store and sy d rid b
  assume "nul_free sy" "nul_free d" "st_is_delivered sqlite_ops rid sy d s = Inr b"
  then show "b \<longleftrightarrow> ab_is_delivered (sq_abs s) (rid, sy, d)"
    by (auto simp: sq_defs sq_abs_def ab_is_delivered_def seen_set_mem split: option.splits if_splits)
next
  fix s s' :: sq_store and sy d rid now
  assume a: "sq_inv s" "nul_free sy" "nul_free d" "st_mark_delivered sqlite_ops now rid sy d s = (Inr (), s')"
  show "sq_inv s' \<and> sq_abs s' = ab_mark_delivered (rid, sy, d) (sq_abs s)"
  proof (cases "sq_seen s")
    case None
    with a show ?thesis
      by (auto simp: sq_defs sq_abs_def ab_mark_delivered_def sq_inv_def split: option.splits)
  next
    case (Some ks)
    show ?thesis
    proof (cases "delivery_key rid sy d \<in> set ks")
      case True
      then have "(rid, sy, d) \<in> seen_set ks" using a by (simp add: seen_set_mem)
      with True Some a show ?thesis
        by (auto simp: sq_defs sq_abs_def ab_mark_delivered_def insert_absorb)
    next
      case False
      with Some a show ?thesis
        by (auto simp: sq_defs sq_abs_def ab_mark_delivered_def sq_inv_def seen_set_Cons entry_key_def)
    qed
  qed
next
  fix s s' :: sq_store
  assume "sq_inv s" "st_commit sqlite_ops s = (Inr (), s')"
  then show "sq_inv s' \<and> sq_abs s' = ab_commit (sq_abs s)"
    by (auto simp: sq_defs sq_abs_def ab_commit_def sq_inv_def Let_def set_foldl_insert_ignore
        split: option.splits if_splits)
next
  fix s s' :: sq_store and now sy owner ttl
  assume "sq_inv s" "st_lock sqlite_ops now sy owner ttl s = (Inr (), s')"
  then show "\<not> ab_locked (sq_abs s) now sy \<and> sq_inv s' \<and>
      (\<exists>until. now + ttl - 1000 < until \<and> until \<le> now + ttl \<and> sq_abs s' = ab_lock sy (owner, until) (sq_abs s))"
    using sq_lock_run_ok [of s now sy owner ttl s'] exact_expiry by (simp add: sqlite_ops_def)
next
  fix s s' :: sq_store and sy
  assume "sq_inv s" "st_unlock sqlite_ops sy s = (Inr (), s')"
  then show "sq_inv s' \<and> sq_abs s' = (sq_abs s)\<lparr>ab_locks := (ab_locks (sq_abs s))(sy := None)\<rparr>"
    by (auto simp: sq_defs sq_abs_def sq_inv_def delete_conv' fun_eq_iff split: option.splits)
qed (auto simp: sq_defs sq_abs_def sq_inv_def Let_def split: option.splits if_splits)

end
