(* ===== verification/Lru.thy ===== *)
theory Lru
  imports Go_Value
begin

section \<open>The LRU cache: internal/cache/lru.go\<close>

text \<open>
  A bounded cache with optional expiry. The Go code keeps a map from keys to entries and a
  doubly linked list of the same entries, most recently used first; the model keeps the map and
  the list of the keys in that order. The abstract cache is the list of entries alone.
\<close>

record ('k, 'v) lru =
  lru_cap :: int
  lru_items :: "('k \<times> 'v \<times> go_time) list"
  lru_order :: "'k list"

definition lru_new :: "int \<Rightarrow> ('k, 'v) lru" where
  "lru_new c = \<lparr>lru_cap = (if c \<le> 0 then 1 else c), lru_items = [], lru_order = []\<rparr>"

definition move_to_front :: "'k \<Rightarrow> 'k list \<Rightarrow> 'k list" where
  "move_to_front k ks = k # removeAll k ks"

definition lru_expiry :: "go_time \<Rightarrow> int \<Rightarrow> go_time" where
  "lru_expiry now ttl = (if ttl > 0 then now + ttl else time_zero)"

definition lru_remove :: "'k \<Rightarrow> ('k, 'v) lru \<Rightarrow> ('k, 'v) lru" where
  "lru_remove k c = c\<lparr>lru_items := adel k (lru_items c), lru_order := removeAll k (lru_order c)\<rparr>"

definition lru_evict :: "('k, 'v) lru \<Rightarrow> ('k, 'v) lru" where
  "lru_evict c = (if lru_order c = [] then c else lru_remove (last (lru_order c)) c)"

text \<open>Room for one more entry: the least recently used one goes when the cache is full.\<close>

definition lru_room_for :: "('k, 'v) lru \<Rightarrow> ('k, 'v) lru" where
  "lru_room_for c = (if int (length (lru_order c)) \<ge> lru_cap c then lru_evict c else c)"

definition lru_set :: "go_time \<Rightarrow> 'k \<Rightarrow> 'v \<Rightarrow> int \<Rightarrow> ('k, 'v) lru \<Rightarrow> ('k, 'v) lru" where
  "lru_set now k v ttl c =
     (if has_key (lru_items c) k then
        c\<lparr>lru_items := aput k (v, lru_expiry now ttl) (lru_items c),
          lru_order := move_to_front k (lru_order c)\<rparr>
      else
        let c1 = lru_room_for c
        in c1\<lparr>lru_items := aput k (v, lru_expiry now ttl) (lru_items c1),
              lru_order := k # lru_order c1\<rparr>)"

definition expired :: "go_time \<Rightarrow> go_time \<Rightarrow> bool" where
  "expired now e \<longleftrightarrow> \<not> is_zero e \<and> now > e"

definition lru_get :: "go_time \<Rightarrow> 'k \<Rightarrow> ('k, 'v) lru \<Rightarrow> 'v option \<times> ('k, 'v) lru" where
  "lru_get now k c =
     (case alookup (lru_items c) k of
        None \<Rightarrow> (None, c)
      | Some (v, e) \<Rightarrow>
          if expired now e then (None, lru_remove k c)
          else (Some v, c\<lparr>lru_order := move_to_front k (lru_order c)\<rparr>))"

definition lru_delete :: "'k \<Rightarrow> ('k, 'v) lru \<Rightarrow> ('k, 'v) lru" where
  "lru_delete k c = (if has_key (lru_items c) k then lru_remove k c else c)"

definition lru_len :: "('k, 'v) lru \<Rightarrow> nat" where
  "lru_len c = length (lru_items c)"

subsection \<open>Invariant and abstraction\<close>

definition lru_inv :: "('k, 'v) lru \<Rightarrow> bool" where
  "lru_inv c \<longleftrightarrow> lru_cap c \<ge> 1 \<and> go_map (lru_items c) \<and> distinct (lru_order c)
     \<and> set (lru_order c) = fst ` set (lru_items c) \<and> int (length (lru_order c)) \<le> lru_cap c"

definition lru_abs :: "('k, 'v) lru \<Rightarrow> ('k \<times> ('v \<times> go_time)) list" where
  "lru_abs c = map (\<lambda>k. (k, the (alookup (lru_items c) k))) (lru_order c)"

lemma lru_len_order: "lru_inv c \<Longrightarrow> lru_len c = length (lru_order c)"
proof -
  assume "lru_inv c"
  then have d: "distinct (map fst (lru_items c))" "distinct (lru_order c)"
    and s: "set (lru_order c) = set (map fst (lru_items c))"
    by (simp_all add: lru_inv_def go_map_def)
  from distinct_card [OF d(1)] distinct_card [OF d(2)] show ?thesis
    by (simp only: s lru_len_def length_map)
qed

lemma removeAll_notin: "k \<notin> set ks \<Longrightarrow> removeAll k ks = ks"
  by (rule removeAll_id)

lemma length_removeAll_distinct:
  "distinct ks \<Longrightarrow> k \<in> set ks \<Longrightarrow> Suc (length (removeAll k ks)) = length ks"
  by (induction ks) (auto simp: removeAll_id)

lemma lru_inv_new: "lru_inv (lru_new n)"
  by (simp add: lru_inv_def lru_new_def)

lemma lru_inv_remove: "lru_inv c \<Longrightarrow> lru_inv (lru_remove k c)"
proof -
  assume i: "lru_inv c"
  have "length (removeAll k (lru_order c)) \<le> length (lru_order c)" by simp
  with i show ?thesis
    by (auto simp: lru_inv_def lru_remove_def keys_adel distinct_removeAll simp del: length_removeAll_less_eq)
qed

lemma lru_abs_remove: "lru_abs (lru_remove k c) = filter (\<lambda>e. fst e \<noteq> k) (lru_abs c)"
proof -
  have "map (\<lambda>x. (x, the (alookup (adel k m) x))) (removeAll k ks)
      = filter (\<lambda>e. fst e \<noteq> k) (map (\<lambda>x. (x, the (alookup m x))) ks)" for ks m
    by (induction ks) (auto simp: delete_conv')
  then show ?thesis by (simp add: lru_abs_def lru_remove_def)
qed

lemma filter_last_distinct:
  assumes "distinct (map fst xs)" "xs \<noteq> []"
  shows "filter (\<lambda>e. fst e \<noteq> fst (last xs)) xs = butlast xs"
proof -
  obtain ys y where xs: "xs = ys @ [y]" using assms(2) by (metis rev_exhaust)
  have "\<forall>e \<in> set ys. fst e \<noteq> fst y" using assms(1) xs by (auto simp: image_iff)
  then show ?thesis using xs by simp
qed

lemma lru_abs_keys: "map fst (lru_abs c) = lru_order c"
  by (simp add: lru_abs_def comp_def)

lemma lru_abs_evict:
  assumes "lru_inv c" "lru_order c \<noteq> []"
  shows "lru_abs (lru_evict c) = butlast (lru_abs c)"
proof -
  have ne: "lru_abs c \<noteq> []" using assms(2) by (simp add: lru_abs_def)
  have "last (lru_order c) = fst (last (lru_abs c))"
    using ne by (metis last_map lru_abs_keys)
  moreover have "distinct (map fst (lru_abs c))"
    using assms(1) by (simp only: lru_abs_keys lru_inv_def)
  ultimately show ?thesis
    using assms(2) filter_last_distinct [OF _ ne] by (simp add: lru_evict_def lru_abs_remove)
qed

lemma lru_evict_props:
  assumes "lru_inv c" "lru_order c \<noteq> []"
  shows "lru_inv (lru_evict c)" "Suc (length (lru_order (lru_evict c))) = length (lru_order c)"
    "lru_cap (lru_evict c) = lru_cap c" "set (lru_order (lru_evict c)) \<subseteq> set (lru_order c)"
proof -
  show "lru_inv (lru_evict c)" using assms by (simp add: lru_evict_def lru_inv_remove)
  have "last (lru_order c) \<in> set (lru_order c)" "distinct (lru_order c)"
    using assms by (simp_all add: lru_inv_def del: last_in_set) (metis last_in_set)
  from length_removeAll_distinct [OF this(2,1)]
  show "Suc (length (lru_order (lru_evict c))) = length (lru_order c)"
    using assms(2) by (simp add: lru_evict_def lru_remove_def)
qed (use assms in \<open>auto simp: lru_evict_def lru_remove_def\<close>)

lemma lru_inv_insert:
  assumes "lru_inv c" "k \<notin> set (lru_order c)" "int (length (lru_order c)) < lru_cap c"
  shows "lru_inv (c\<lparr>lru_items := aput k e (lru_items c), lru_order := k # lru_order c\<rparr>)"
  using assms by (auto simp: lru_inv_def keys_aput)

lemma lru_abs_insert:
  assumes "k \<notin> set (lru_order c)"
  shows "lru_abs (c\<lparr>lru_items := aput k e (lru_items c), lru_order := k # lru_order c\<rparr>) = (k, e) # lru_abs c"
  using assms by (auto simp: lru_abs_def update_conv')

lemma lru_room:
  assumes "lru_inv c"
  shows "lru_inv (lru_room_for c)" "int (length (lru_order (lru_room_for c))) < lru_cap (lru_room_for c)"
    "lru_cap (lru_room_for c) = lru_cap c" "set (lru_order (lru_room_for c)) \<subseteq> set (lru_order c)"
    "lru_abs (lru_room_for c) = take (nat (lru_cap c) - 1) (lru_abs c)"
proof -
  have ne: "lru_order c \<noteq> []" if "int (length (lru_order c)) \<ge> lru_cap c"
    using that assms(1) by (auto simp: lru_inv_def)
  have len: "length (lru_abs c) = length (lru_order c)" by (simp add: lru_abs_def)
  show "lru_inv (lru_room_for c)" "lru_cap (lru_room_for c) = lru_cap c"
    "set (lru_order (lru_room_for c)) \<subseteq> set (lru_order c)"
    using assms(1) ne lru_evict_props [OF assms(1)] by (auto simp: lru_room_for_def)
  show "int (length (lru_order (lru_room_for c))) < lru_cap (lru_room_for c)"
    using assms(1) ne lru_evict_props [OF assms(1)] by (auto simp: lru_room_for_def lru_inv_def)
  show "lru_abs (lru_room_for c) = take (nat (lru_cap c) - 1) (lru_abs c)"
    using assms(1) ne lru_abs_evict [OF assms(1)] len
    by (auto simp: lru_room_for_def lru_inv_def butlast_conv_take intro!: arg_cong2 [where f = take] take_all [symmetric])
qed

lemma lru_set_inv: "lru_inv c \<Longrightarrow> lru_inv (lru_set now k v ttl c)"
proof -
  assume i: "lru_inv c"
  show ?thesis
  proof (cases "has_key (lru_items c) k")
    case True
    then have "Suc (length (removeAll k (lru_order c))) = length (lru_order c)"
      using i by (intro length_removeAll_distinct) (auto simp: lru_inv_def)
    with i True show ?thesis
      by (auto simp: lru_set_def lru_inv_def keys_aput move_to_front_def distinct_removeAll)
  next
    case False
    then have "k \<notin> set (lru_order (lru_room_for c))"
      using i lru_room(4) [OF i] by (auto simp: lru_inv_def)
    from lru_inv_insert [OF lru_room(1) [OF i] this lru_room(2) [OF i]]
    show ?thesis using False by (simp add: lru_set_def Let_def lru_room_for_def del: has_key_iff)
  qed
qed

text \<open>
  \<open>Set\<close> on the abstract cache: the entry moves to the front and only the \<open>cap\<close> most recently
  used entries stay.
\<close>

lemma lru_set_abs:
  assumes i: "lru_inv c"
  shows "lru_abs (lru_set now k v ttl c)
     = take (nat (lru_cap c)) ((k, v, lru_expiry now ttl) # filter (\<lambda>e. fst e \<noteq> k) (lru_abs c))"
proof (cases "has_key (lru_items c) k")
  case True
  have len: "length (removeAll k (lru_order c)) < nat (lru_cap c)"
    using i True length_removeAll_distinct [of "lru_order c" k] by (auto simp: lru_inv_def)
  have "map (\<lambda>x. (x, the (alookup (aput k e m) x))) (removeAll k ks)
      = filter (\<lambda>e. fst e \<noteq> k) (map (\<lambda>x. (x, the (alookup m x))) ks)" for ks m e
    by (induction ks) (auto simp: update_conv')
  note this [of "(v, lru_expiry now ttl)" "lru_items c" "lru_order c"]
  then have "lru_abs (lru_set now k v ttl c) = (k, v, lru_expiry now ttl) # filter (\<lambda>e. fst e \<noteq> k) (lru_abs c)"
    using True by (simp add: lru_set_def lru_abs_def move_to_front_def update_conv' del: has_key_iff)
  moreover have "length (filter (\<lambda>e. fst e \<noteq> k) (lru_abs c)) < nat (lru_cap c)"
  proof -
    have "length (filter (\<lambda>e. fst e \<noteq> k) (lru_abs c)) = length (removeAll k (lru_order c))"
      by (metis length_map lru_abs_keys lru_abs_remove lru_remove_def lru.select_convs(3) lru.surjective
          lru.update_convs(2,3))
    then show ?thesis using len by simp
  qed
  ultimately show ?thesis by simp
next
  case False
  then have k: "k \<notin> set (lru_order c)" using i by (simp add: lru_inv_def)
  have "filter (\<lambda>e. fst e \<noteq> k) (lru_abs c) = lru_abs c"
    using k by (auto simp: lru_abs_def intro!: filter_True)
  moreover obtain n where "nat (lru_cap c) = Suc n" using i by (cases "nat (lru_cap c)") (auto simp: lru_inv_def)
  ultimately show ?thesis
    using False k lru_room(4,5) [OF i] lru_abs_insert [of k "lru_room_for c" "(v, lru_expiry now ttl)"]
    by (auto simp: lru_set_def Let_def simp del: has_key_iff)
qed

lemma lru_get_inv: "lru_inv c \<Longrightarrow> lru_inv (snd (lru_get now k c))"
proof -
  assume i: "lru_inv c"
  have "lru_inv (c\<lparr>lru_order := move_to_front k (lru_order c)\<rparr>)" if "alookup (lru_items c) k = Some x" for x
  proof -
    have k: "k \<in> set (lru_order c)" using that i by (force simp: lru_inv_def dest: map_of_SomeD)
    then have "Suc (length (removeAll k (lru_order c))) = length (lru_order c)"
      using i by (intro length_removeAll_distinct) (auto simp: lru_inv_def)
    with i k show ?thesis by (auto simp: lru_inv_def move_to_front_def distinct_removeAll)
  qed
  with i show ?thesis by (auto simp: lru_get_def lru_inv_remove split: option.splits)
qed

lemma lru_delete_inv: "lru_inv c \<Longrightarrow> lru_inv (lru_delete k c)"
  by (simp add: lru_delete_def lru_inv_remove)

text \<open>A value just set without a lifetime is found.\<close>

lemma lru_set_get:
  assumes "lru_inv c" "ttl \<le> 0"
  shows "fst (lru_get now' k (lru_set now k v ttl c)) = Some v"
proof -
  have "alookup (lru_items (lru_set now k v ttl c)) k = Some (v, time_zero)"
    using assms(2) by (simp add: lru_set_def Let_def update_conv' lru_expiry_def)
  then show ?thesis by (simp add: lru_get_def expired_def is_zero_def)
qed

lemma lru_cap_set [simp]: "lru_cap (lru_set now k v ttl c) = lru_cap c"
  by (simp add: lru_set_def Let_def lru_room_for_def lru_evict_def lru_remove_def)

text \<open>Runs of operations from an empty cache.\<close>

datatype ('k, 'v) lru_op = LSet go_time 'k 'v int | LGet go_time 'k | LDelete 'k

fun lru_step :: "('k, 'v) lru \<Rightarrow> ('k, 'v) lru_op \<Rightarrow> ('k, 'v) lru" where
  "lru_step c (LSet now k v ttl) = lru_set now k v ttl c"
| "lru_step c (LGet now k) = snd (lru_get now k c)"
| "lru_step c (LDelete k) = lru_delete k c"

lemma lru_step_inv: "lru_inv c \<Longrightarrow> lru_inv (lru_step c x)"
  by (cases x) (simp_all add: lru_set_inv lru_get_inv lru_delete_inv)

lemma lru_step_cap: "lru_cap (lru_step c x) = lru_cap c"
  by (cases x) (auto simp: lru_get_def lru_delete_def lru_remove_def split: option.splits)

lemma lru_run_inv:
  "lru_inv (foldl lru_step c xs) \<and> lru_cap (foldl lru_step c xs) = lru_cap c" if "lru_inv c"
  using that by (induction xs arbitrary: c) (auto simp: lru_step_inv lru_step_cap)

subsection \<open>Properties\<close>

text \<open>
  After any sequence of operations on a new cache the map and the recency list agree
  on the keys, no key is listed twice, and the cache holds at most its capacity, which is at
  least one.
\<close>

theorem lru_runs_ok:
  "lru_inv (foldl lru_step (lru_new n) xs)
   \<and> int (lru_len (foldl lru_step (lru_new n) xs)) \<le> max 1 n"
proof -
  have i: "lru_inv (foldl lru_step (lru_new n) xs)"
    "lru_cap (foldl lru_step (lru_new n) xs) = lru_cap (lru_new n :: ('a, 'b) lru)"
    using lru_run_inv [OF lru_inv_new] by auto
  then show ?thesis
    using lru_len_order [OF i(1)] by (simp add: lru_inv_def) (simp add: lru_new_def split: if_splits)
qed

text \<open>
  Property C18. Setting a key implements the abstract cache, the list of entries by recency: the
  entry comes first, an older entry of the key goes, and only as many as the capacity stay.
  A value set without a lifetime is found again at any later time.
\<close>

theorem lru_set_refines:
  assumes "lru_inv c"
  shows "lru_abs (lru_set now k v ttl c)
     = take (nat (lru_cap c)) ((k, v, lru_expiry now ttl) # filter (\<lambda>e. fst e \<noteq> k) (lru_abs c))
   \<and> (ttl \<le> 0 \<longrightarrow> fst (lru_get now' k (lru_set now k v ttl c)) = Some v)"
  using lru_set_abs [OF assms] lru_set_get [OF assms] by blast

theorem lru_set_refines_witness:
  "lru_abs (lru_set 5 ''b'' (2::int) 0 (lru_set 5 ''a'' 1 0 (lru_new 1))) = [(''b'', 2, time_zero)]"
proof -
  have "lru_inv (lru_set 5 ''a'' (1::int) 0 (lru_new 1))" by (intro lru_set_inv lru_inv_new)
  from lru_set_refines [OF this, of 5 "''b''" 2 0] show ?thesis
    by (simp add: lru_expiry_def) (simp add: lru_new_def)
qed

end
