(* ===== verification/Conn_Config.thy ===== *)
theory Conn_Config
  imports Config
begin

section \<open>Connector configuration: pkg/config/types.go and its conversions\<close>

text \<open>
  The configuration records the connectors receive, and the two conversions of
  \<open>internal/engine/run.go\<close> from the YAML configuration to them.
\<close>

record conn_auth =
  ca_type :: string
  ca_token :: string
  ca_key :: string
  ca_value :: string
  ca_in_header :: bool
  ca_username :: string
  ca_password :: string
  ca_client_id :: string
  ca_client_secret :: string
  ca_token_url :: string
  ca_scopes :: "string list"
  ca_in_header_set :: bool

definition in_header_specified :: "conn_auth \<Rightarrow> bool" where
  "in_header_specified a = ca_in_header_set a"

record retry_config =
  rt_attempts :: int
  rt_backoff_ms :: int
  rt_backoff_on :: "int list"
  rt_drop_on :: "int list"

record rate_limit_config =
  rl_requests :: int
  rl_period :: string

record breaker_config =
  bc_threshold :: int
  bc_cooldown_ms :: int

record conn_source =
  cs_type :: string
  cs_connection :: string
  cs_url :: string
  cs_table :: string
  cs_query :: string
  cs_watermark :: string
  cs_exclude :: "string list"
  cs_batch_size :: int
  cs_parallelism :: int
  cs_options :: "(string \<times> string) list"
  cs_auth :: conn_auth

record conn_dest =
  cd_type :: string
  cd_connection :: string
  cd_url :: string
  cd_match_on :: string
  cd_strategy :: string
  cd_parallelism :: int
  cd_method :: string
  cd_headers :: "(string \<times> string) list"
  cd_options :: "(string \<times> string) list"
  cd_auth :: conn_auth
  cd_retry :: retry_config
  cd_rate_limit :: rate_limit_config
  cd_breaker :: breaker_config

definition conn_auth_zero :: conn_auth where
  "conn_auth_zero = \<lparr>ca_type = [], ca_token = [], ca_key = [], ca_value = [], ca_in_header = False,
     ca_username = [], ca_password = [], ca_client_id = [], ca_client_secret = [],
     ca_token_url = [], ca_scopes = [], ca_in_header_set = False\<rparr>"

text \<open>The conversion of credentials copies seven of the fields and leaves the others empty.\<close>

definition conv_auth :: "auth_config option \<Rightarrow> conn_auth" where
  "conv_auth a =
     (case a of None \<Rightarrow> conn_auth_zero
      | Some x \<Rightarrow> conn_auth_zero\<lparr>ca_type := au_type x, ca_token := au_token x,
          ca_client_id := au_client_id x, ca_client_secret := au_client_secret x,
          ca_token_url := au_token_url x, ca_username := au_username x,
          ca_password := au_password x\<rparr>)"

definition sync_src_to_conn :: "source_config \<Rightarrow> conn_source" where
  "sync_src_to_conn s =
     \<lparr>cs_type = so_type s, cs_connection = so_url s, cs_url = so_url s, cs_table = so_table s,
      cs_query = so_query s,
      cs_watermark = (case so_watermark s of None \<Rightarrow> [] | Some w \<Rightarrow> wm_column w),
      cs_exclude = [], cs_batch_size = so_batch_size s, cs_parallelism = 0, cs_options = [],
      cs_auth = conv_auth (so_auth s)\<rparr>"

definition sync_dest_to_conn :: "dest_config \<Rightarrow> conn_dest" where
  "sync_dest_to_conn d =
     \<lparr>cd_type = de_type d, cd_connection = de_url d, cd_url = de_url d,
      cd_match_on = join '','' (de_match_on d), cd_strategy = ''upsert'', cd_parallelism = 0,
      cd_method = [], cd_headers = [],
      cd_options = foldl (\<lambda>m (k, v). aput k v m)
        [(''object'', de_object d), (''table'', de_table d)] (de_options d),
      cd_auth = conv_auth (de_auth d),
      cd_retry = \<lparr>rt_attempts = 0, rt_backoff_ms = 0, rt_backoff_on = [], rt_drop_on = []\<rparr>,
      cd_rate_limit = \<lparr>rl_requests = 0, rl_period = []\<rparr>,
      cd_breaker = \<lparr>bc_threshold = 0, bc_cooldown_ms = 0\<rparr>\<rparr>"

text \<open>A missing key of a map to strings reads as the empty string.\<close>

definition get_opt :: "(string \<times> string) list \<Rightarrow> string \<Rightarrow> string" where
  "get_opt m k = (case alookup m k of None \<Rightarrow> [] | Some v \<Rightarrow> v)"

text \<open>An API key configured in YAML never reaches the connector: key and value are not copied.\<close>

lemma conv_auth_no_key: "ca_key (conv_auth a) = [] \<and> ca_value (conv_auth a) = []"
  by (simp add: conv_auth_def conn_auth_zero_def split: option.splits)

end
