(* ===== verification/Http.thy ===== *)
theory Http
  imports Conn_Config Go_Value "HOL-Library.Word"
begin

section \<open>Retry, circuit breaker, rate limiter, authentication: internal/connector/http\<close>

text \<open>
  The helpers every HTTP destination shares. The outside world is a state \<open>'w\<close> that a request
  or a sleep transforms; durations are 64-bit words of nanoseconds, as \<open>time.Duration\<close> is, with
  the wrap-around of its arithmetic. The breaker and the token bucket are state machines.
\<close>

subsection \<open>DoWithRetry\<close>

definition default_retry :: "retry_config \<Rightarrow> retry_config" where
  "default_retry c =
     c\<lparr>rt_attempts := (if rt_attempts c = 0 then 3 else rt_attempts c),
       rt_backoff_ms := (if rt_backoff_ms c = 0 then 1000 else rt_backoff_ms c),
       rt_backoff_on := (if rt_backoff_on c = [] then [429, 500, 502, 503, 504] else rt_backoff_on c),
       rt_drop_on := (if rt_drop_on c = [] then [400, 401, 403, 404, 409] else rt_drop_on c)\<rparr>"

definition thirty_seconds :: int where
  "thirty_seconds = 30 * second_ns"

text \<open>
  \<open>time.Duration(ms) * time.Millisecond * time.Duration(1<<attempt)\<close>, then the cap. The shift
  of an \<open>int\<close> gives zero from 64 on.
\<close>

definition backoff_word :: "int \<Rightarrow> nat \<Rightarrow> 64 word" where
  "backoff_word ms attempt = word_of_int ms * 1000000 * push_bit attempt 1"

definition backoff_ns :: "int \<Rightarrow> nat \<Rightarrow> int" where
  "backoff_ns ms attempt =
     (let b = sint (backoff_word ms attempt) in if b > thirty_seconds then thirty_seconds else b)"

text \<open>
  The loop. \<open>request\<close> is one call of the closure: a status code and an error. \<open>sleep\<close> is the
  select on the timer and the context: it answers the context's error when that came first.
\<close>

type_synonym 'w request = "'w \<Rightarrow> (int \<times> go_error option) \<times> 'w"
type_synonym 'w sleeper = "int \<Rightarrow> 'w \<Rightarrow> go_error option \<times> 'w"

definition is_2xx :: "int \<Rightarrow> bool" where
  "is_2xx code \<longleftrightarrow> 200 \<le> code \<and> code < 300"

definition is_circuit_open :: "go_error option \<Rightarrow> bool" where
  "is_circuit_open err = (case err of None \<Rightarrow> False | Some e \<Rightarrow> error_is e ErrCircuitOpen)"

lemma is_circuit_open_None [simp]: "\<not> is_circuit_open None"
  by (simp add: is_circuit_open_def)

definition permanent_failure :: "int \<Rightarrow> go_error" where
  "permanent_failure code = ErrMsg (''permanent failure: HTTP '' @ dec_int code)"

definition exhausted :: "int \<Rightarrow> int \<Rightarrow> go_error" where
  "exhausted n code = ErrMsg (''exhausted '' @ dec_int n @ '' attempts, last status: '' @ dec_int code)"

fun retry_loop ::
  "retry_config \<Rightarrow> 'w request \<Rightarrow> 'w sleeper \<Rightarrow> nat \<Rightarrow> nat \<Rightarrow> int \<Rightarrow> 'w \<Rightarrow> go_error option \<times> 'w" where
  "retry_loop c request sleep attempt 0 last_code w =
     (Some (ErrMsg (''exhausted retries, last status: '' @ dec_int last_code)), w)"
| "retry_loop c request sleep attempt (Suc left) last_code w =
     (case request w of ((code, err), w1) \<Rightarrow>
        if err = None \<and> is_2xx code then (None, w1)
        else if is_circuit_open err then (err, w1)
        else if code \<in> set (rt_drop_on c) then (Some (permanent_failure code), w1)
        else if left = 0 then (Some (exhausted (rt_attempts c) code), w1)
        else if code \<in> set (rt_backoff_on c) \<or> err \<noteq> None then
          (case sleep (backoff_ns (rt_backoff_ms c) attempt) w1 of
             (Some e, w2) \<Rightarrow> (Some e, w2)
           | (None, w2) \<Rightarrow> retry_loop c request sleep (Suc attempt) left code w2)
        else retry_loop c request sleep (Suc attempt) left code w1)"

definition do_with_retry ::
  "retry_config \<Rightarrow> 'w request \<Rightarrow> 'w sleeper \<Rightarrow> 'w \<Rightarrow> go_error option \<times> 'w" where
  "do_with_retry cfg request sleep w =
     (let c = default_retry cfg in retry_loop c request sleep 0 (nat (rt_attempts c)) 0 w)"

text \<open>Counting the requests: a world that carries a counter the request increments.\<close>

definition counted :: "'w request \<Rightarrow> ('w \<times> nat) request" where
  "counted request wn = (case request (fst wn) of (r, w') \<Rightarrow> (r, (w', Suc (snd wn))))"

definition uncounted :: "'w sleeper \<Rightarrow> ('w \<times> nat) sleeper" where
  "uncounted sleep d wn = (case sleep d (fst wn) of (r, w') \<Rightarrow> (r, (w', snd wn)))"

lemma retry_loop_count:
  "snd (snd (retry_loop c (counted request) (uncounted sleep) a left code (w, n))) \<le> n + left"
proof (induction left arbitrary: a code w n)
  case (Suc left)
  obtain cd err w1 where r: "request w = ((cd, err), w1)" by (metis surj_pair)
  obtain e w2 where s: "sleep (backoff_ns (rt_backoff_ms c) a) w1 = (e, w2)" by fastforce
  have cr: "counted request (w, n) = ((cd, err), w1, Suc n)" by (simp add: counted_def r)
  have us: "uncounted sleep (backoff_ns (rt_backoff_ms c) a) (w1, Suc n) = (e, w2, Suc n)"
    by (simp add: uncounted_def s)
  show ?case
    using Suc [of "Suc a" cd w1 "Suc n"] Suc [of "Suc a" cd w2 "Suc n"]
    by (auto simp: cr us split: option.splits)
qed simp

text \<open>A nil result means that the last request answered a 2xx status without an error.\<close>

lemma retry_loop_success:
  "retry_loop c request sleep a left code w = (None, w') \<Longrightarrow>
     \<exists>w0 s. request w0 = ((s, None), w') \<and> is_2xx s"
proof (induction left arbitrary: a code w)
  case (Suc left)
  then show ?case
    by (auto split: prod.splits option.splits if_splits)
qed simp

text \<open>The loop answers an error of the context only when a sleep did.\<close>

lemma error_is_circuit: "error_is e ErrCircuitOpen \<Longrightarrow> \<not> error_is e ErrCanceled \<and> \<not> error_is e ErrDeadline"
  by (induction e) auto

lemma len64: "LENGTH(64) - 1 = (63 :: nat)"
  by simp

text \<open>Below the overflow the backoff is the exponential one, capped at thirty seconds.\<close>

lemma backoff_ns_exact:
  assumes "0 \<le> ms" "ms * 1000000 * 2 ^ attempt < 2 ^ 63"
  shows "backoff_ns ms attempt = min thirty_seconds (ms * 1000000 * 2 ^ attempt)"
proof -
  let ?v = "ms * 1000000 * 2 ^ attempt"
  have w: "backoff_word ms attempt = word_of_int ?v"
    by (simp add: backoff_word_def push_bit_eq_mult)
  have "sint (word_of_int ?v :: 64 word) = ?v"
  proof -
    have nonneg: "0 \<le> ?v" using assms(1) by simp
    have "- (2 ^ 63) \<le> ?v" by (rule order_trans [OF _ nonneg]) simp
    then have "signed_take_bit 63 ?v = ?v" using assms(2) by (rule signed_take_bit_int_eq_self)
    then show ?thesis unfolding sint_sbintrunc' by (simp only: len64)
  qed
  then show ?thesis by (simp add: backoff_ns_def w min_def Let_def)
qed

lemma backoff_ns_le: "backoff_ns ms attempt \<le> thirty_seconds"
  by (simp add: backoff_ns_def Let_def)

subsection \<open>The circuit breaker\<close>

datatype breaker_state = BClosed | BOpen | BHalfOpen

record breaker =
  cb_state :: breaker_state
  cb_failures :: int
  cb_threshold :: int
  cb_cooldown :: int
  cb_opened :: go_time
  cb_locked :: bool
  cb_in_flight :: bool

definition new_breaker :: "breaker_config \<Rightarrow> breaker option" where
  "new_breaker c =
     (if bc_threshold c = 0 then None
      else let cd = sint (word_of_int (bc_cooldown_ms c) * 1000000 :: 64 word) in
        Some \<lparr>cb_state = BClosed, cb_failures = 0, cb_threshold = bc_threshold c,
              cb_cooldown = (if cd \<le> 0 then thirty_seconds else cd), cb_opened = time_zero,
              cb_locked = False, cb_in_flight = False\<rparr>)"

definition allow_half_open :: "breaker \<Rightarrow> go_error option \<times> breaker" where
  "allow_half_open b =
     (if cb_in_flight b then (Some ErrCircuitOpen, b)
      else if cb_locked b then (Some ErrCircuitOpen, b)
      else (None, b\<lparr>cb_locked := True, cb_in_flight := True\<rparr>))"

definition breaker_allow :: "go_time \<Rightarrow> breaker \<Rightarrow> go_error option \<times> breaker" where
  "breaker_allow now b =
     (case cb_state b of
        BClosed \<Rightarrow> (None, b)
      | BOpen \<Rightarrow>
          if now - cb_opened b < cb_cooldown b then (Some ErrCircuitOpen, b)
          else allow_half_open (b\<lparr>cb_state := BHalfOpen, cb_failures := 0\<rparr>)
      | BHalfOpen \<Rightarrow> allow_half_open b)"

definition release_half_open :: "breaker \<Rightarrow> breaker" where
  "release_half_open b = (if cb_in_flight b then b\<lparr>cb_in_flight := False, cb_locked := False\<rparr> else b)"

definition record_success :: "breaker \<Rightarrow> breaker" where
  "record_success b =
     (if cb_state b = BHalfOpen
      then release_half_open (b\<lparr>cb_state := BClosed, cb_failures := 0, cb_opened := time_zero\<rparr>)
      else b\<lparr>cb_failures := 0\<rparr>)"

definition record_failure :: "go_time \<Rightarrow> breaker \<Rightarrow> breaker" where
  "record_failure now b =
     (case cb_state b of
        BHalfOpen \<Rightarrow>
          release_half_open (b\<lparr>cb_state := BOpen, cb_failures := cb_threshold b, cb_opened := now\<rparr>)
      | BClosed \<Rightarrow>
          (let b1 = b\<lparr>cb_failures := cb_failures b + 1\<rparr>
           in if cb_failures b1 \<ge> cb_threshold b1 then b1\<lparr>cb_state := BOpen, cb_opened := now\<rparr> else b1)
      | BOpen \<Rightarrow> b\<lparr>cb_opened := now\<rparr>)"

definition breaker_name :: "breaker option \<Rightarrow> string" where
  "breaker_name b =
     (case b of None \<Rightarrow> ''disabled''
      | Some x \<Rightarrow> (case cb_state x of BOpen \<Rightarrow> ''open'' | BHalfOpen \<Rightarrow> ''half_open'' | BClosed \<Rightarrow> ''closed''))"

text \<open>
  The operations as labelled steps, and the breakers a fresh one can become. A request that was
  allowed is followed by a success or a failure, or by neither.
\<close>

datatype cb_event = CbAllow go_time "go_error option" | CbSuccess | CbFailure go_time

inductive cb_step :: "breaker \<Rightarrow> cb_event \<Rightarrow> breaker \<Rightarrow> bool" where
  cb_allow: "breaker_allow now b = (r, b') \<Longrightarrow> cb_step b (CbAllow now r) b'"
| cb_success: "cb_step b CbSuccess (record_success b)"
| cb_failure: "cb_step b (CbFailure now) (record_failure now b)"

inductive cb_run :: "breaker \<Rightarrow> cb_event list \<Rightarrow> breaker \<Rightarrow> bool" where
  cb_nil: "cb_run b [] b"
| cb_cons: "cb_step b e b1 \<Longrightarrow> cb_run b1 es b2 \<Longrightarrow> cb_run b (e # es) b2"

inductive_cases cb_stepE: "cb_step b e b'"
inductive_cases cb_allowE: "cb_step b (CbAllow now r) b'"
inductive_cases cb_run_NilE: "cb_run b [] b'"
inductive_cases cb_run_ConsE: "cb_run b (e # es) b'"
inductive_simps cb_allow_iff: "cb_step b (CbAllow now r) b'"

definition cb_inv :: "breaker \<Rightarrow> bool" where
  "cb_inv b \<longleftrightarrow> (cb_locked b \<longleftrightarrow> cb_in_flight b) \<and> (cb_in_flight b \<longrightarrow> cb_state b = BHalfOpen)
     \<and> cb_cooldown b > 0
     \<and> (cb_state b = BClosed \<longrightarrow> cb_failures b < cb_threshold b \<or> cb_threshold b \<le> 0)"

lemmas cb_defs = breaker_allow_def allow_half_open_def record_success_def record_failure_def
  release_half_open_def

lemma cb_inv_new: "new_breaker c = Some b \<Longrightarrow> cb_inv b"
  by (auto simp: new_breaker_def cb_inv_def thirty_seconds_def second_ns_def Let_def split: if_splits)

lemma cb_step_inv: "cb_step b e b' \<Longrightarrow> cb_inv b \<Longrightarrow> cb_inv b'"
  by (erule cb_stepE)
     (auto simp: cb_inv_def cb_defs Let_def split: breaker_state.splits if_splits)

lemma cb_run_inv: "cb_run b es b' \<Longrightarrow> cb_inv b \<Longrightarrow> cb_inv b'"
  by (induction rule: cb_run.induct) (auto intro: cb_step_inv)

text \<open>While the breaker is open and the cooldown has not passed, every request is refused.\<close>

lemma open_refuses:
  "cb_state b = BOpen \<Longrightarrow> now - cb_opened b < cb_cooldown b \<Longrightarrow>
   breaker_allow now b = (Some ErrCircuitOpen, b)"
  by (simp add: breaker_allow_def)

text \<open>\<open>n\<close> failures in a row on a closed breaker.\<close>

fun fail_times :: "go_time list \<Rightarrow> breaker \<Rightarrow> breaker" where
  "fail_times [] b = b"
| "fail_times (t # ts) b = fail_times ts (record_failure t b)"

lemma fail_times_closed:
  "cb_state b = BClosed \<Longrightarrow> cb_failures b + int (length ts) < cb_threshold b \<Longrightarrow>
   fail_times ts b = b\<lparr>cb_failures := cb_failures b + int (length ts)\<rparr>"
  by (induction ts arbitrary: b) (auto simp: record_failure_def Let_def)

lemma fail_times_append: "fail_times (ts @ us) b = fail_times us (fail_times ts b)"
  by (induction ts arbitrary: b) auto

lemma opens_at_threshold:
  assumes "cb_state b = BClosed" "cb_failures b = 0" "int (length ts) = cb_threshold b - 1"
  shows "cb_state (fail_times ts b) = BClosed" "cb_state (fail_times (ts @ [t]) b) = BOpen"
    "cb_opened (fail_times (ts @ [t]) b) = t"
  using assms fail_times_closed [of b ts]
  by (simp_all add: fail_times_append record_failure_def Let_def)

text \<open>
  Once a probe is in flight, every further request is refused until its outcome is recorded: if
  it never is, the breaker stays shut for good.
\<close>

definition is_refusal :: "cb_event \<Rightarrow> bool" where
  "is_refusal e = (case e of CbAllow now (Some err) \<Rightarrow> err = ErrCircuitOpen | _ \<Rightarrow> False)"

lemma probe_blocks:
  assumes "cb_run b es b'" "cb_state b = BHalfOpen" "cb_in_flight b" "\<forall>e \<in> set es. \<exists>t r. e = CbAllow t r"
  shows "b' = b \<and> list_all is_refusal es"
  using assms
proof (induction rule: cb_run.induct)
  case (cb_cons b e b1 es b2)
  then obtain t r where "e = CbAllow t r" by auto
  with cb_cons show ?case
    by (auto simp: cb_allow_iff cb_defs is_refusal_def)
qed simp

subsection \<open>The rate limiter\<close>

text \<open>
  The token bucket: the buffered channel \<open>tokens\<close>. The ticker of the refill goroutine puts one
  token unless the channel is full; \<open>Wait\<close> takes one, or fails when the context is done.
\<close>

record bucket =
  tb_tokens :: int
  tb_capacity :: int

definition new_rate_limiter ::
  "(string \<Rightarrow> int res) \<Rightarrow> rate_limit_config \<Rightarrow> (bucket \<times> int) option res" where
  "new_rate_limiter parse_duration c =
     (if rl_requests c < 0 then Inl (ErrMsg ''rate limit requests must be >= 0'')
      else if rl_requests c = 0 \<or> trim_space (rl_period c) = [] then Inr None
      else case parse_duration (rl_period c) of
             Inl e \<Rightarrow> Inl e
           | Inr period \<Rightarrow>
               let interval = (if period < 0 then - (\<bar>period\<bar> div rl_requests c) else period div rl_requests c)
               in Inr (Some (\<lparr>tb_tokens = rl_requests c, tb_capacity = rl_requests c\<rparr>,
                             if interval \<le> 0 then 1 else interval)))"

definition bucket_refill :: "bucket \<Rightarrow> bucket" where
  "bucket_refill b = (if tb_tokens b < tb_capacity b then b\<lparr>tb_tokens := tb_tokens b + 1\<rparr> else b)"

definition bucket_take :: "bucket \<Rightarrow> bucket option" where
  "bucket_take b = (if tb_tokens b > 0 then Some (b\<lparr>tb_tokens := tb_tokens b - 1\<rparr>) else None)"

inductive bucket_run :: "bucket \<Rightarrow> nat \<Rightarrow> nat \<Rightarrow> bucket \<Rightarrow> bool" where
  bucket_start: "bucket_run b 0 0 b"
| bucket_tick: "bucket_run b takes ticks b1 \<Longrightarrow> bucket_run b takes (Suc ticks) (bucket_refill b1)"
| bucket_wait: "bucket_run b takes ticks b1 \<Longrightarrow> bucket_take b1 = Some b2 \<Longrightarrow>
    bucket_run b (Suc takes) ticks b2"

lemma bucket_run_bound:
  "bucket_run b takes ticks b' \<Longrightarrow> 0 \<le> tb_tokens b \<Longrightarrow> tb_tokens b \<le> tb_capacity b \<Longrightarrow>
   0 \<le> tb_tokens b' \<and> tb_tokens b' \<le> tb_capacity b' \<and> tb_capacity b' = tb_capacity b
     \<and> tb_tokens b' + int takes \<le> tb_tokens b + int ticks"
  by (induction rule: bucket_run.induct) (auto simp: bucket_refill_def bucket_take_def split: if_splits)

subsection \<open>Authentication\<close>

datatype authenticator =
    BearerAuth string
  | APIKeyAuth string string bool
  | BasicAuth string string
  | OAuth2 string string string "string list"

definition new_authenticator :: "conn_auth \<Rightarrow> authenticator option res" where
  "new_authenticator c =
     (let ty = to_lower (trim_space (ca_type c)) in
      if ty = [] then Inr None
      else if ty = ''bearer'' then
        (if trim_space (ca_token c) = [] then Inl (ErrMsg ''bearer auth requires token'')
         else Inr (Some (BearerAuth (ca_token c))))
      else if ty = ''api_key'' then
        (if trim_space (ca_key c) = [] \<or> trim_space (ca_value c) = []
         then Inl (ErrMsg ''api_key auth requires key and value'')
         else Inr (Some (APIKeyAuth (ca_key c) (ca_value c)
                (if in_header_specified c then ca_in_header c else True))))
      else if ty = ''basic'' then Inr (Some (BasicAuth (ca_username c) (ca_password c)))
      else if ty = ''oauth2_client_credentials'' then
        (if trim_space (ca_client_id c) = [] \<or> trim_space (ca_client_secret c) = []
            \<or> trim_space (ca_token_url c) = []
         then Inl (ErrMsg ''oauth2_client_credentials requires client_id, client_secret, token_url'')
         else Inr (Some (OAuth2 (ca_client_id c) (ca_client_secret c) (ca_token_url c) (ca_scopes c))))
      else Inl (ErrMsg (''unknown auth type '' @ quote_q (ca_type c)
             @ '', valid: bearer, api_key, basic, oauth2_client_credentials'')))"

definition auth_name :: "authenticator \<Rightarrow> string" where
  "auth_name a = (case a of BearerAuth _ \<Rightarrow> ''bearer'' | APIKeyAuth _ _ _ \<Rightarrow> ''api_key''
     | BasicAuth _ _ \<Rightarrow> ''basic'' | OAuth2 _ _ _ _ \<Rightarrow> ''oauth2_client_credentials'')"

text \<open>
  The cached OAuth2 token. The token server is a function on the world: a transport error, or a
  status with the decoded body (the token and its lifetime in seconds) or the decoding error.
\<close>

record token_cache =
  tc_token :: string
  tc_expires :: go_time

type_synonym 'w token_server = "'w \<Rightarrow> (int \<times> (string \<times> int) res) res \<times> 'w"

definition token_valid :: "go_time \<Rightarrow> token_cache \<Rightarrow> bool" where
  "token_valid now c \<longleftrightarrow> tc_token c \<noteq> [] \<and> tc_expires c - now > 30 * second_ns"

definition get_token ::
  "'w token_server \<Rightarrow> go_time \<Rightarrow> token_cache \<Rightarrow> 'w \<Rightarrow> string res \<times> token_cache \<times> 'w" where
  "get_token server now c w =
     (if token_valid now c then (Inr (tc_token c), c, w)
      else case server w of
        (Inl e, w1) \<Rightarrow> (Inl e, c, w1)
      | (Inr (status, body), w1) \<Rightarrow>
          if status < 200 \<or> status \<ge> 300
          then (Inl (ErrMsg (''oauth2 token server returned '' @ dec_int status)), c, w1)
          else case body of
                 Inl e \<Rightarrow> (Inl e, c, w1)
               | Inr (token, lifetime) \<Rightarrow>
                   if trim_space token = []
                   then (Inl (ErrMsg ''oauth2 token server returned empty access_token''), c, w1)
                   else (Inr token, \<lparr>tc_token = token,
                           tc_expires = now + sint (word_of_int lifetime * 1000000000 :: 64 word)\<rparr>, w1))"

lemma get_token_caches:
  assumes "get_token server now c w = (Inr token, c', w')" "now' + 30 * second_ns < tc_expires c'"
    "tc_token c' \<noteq> []"
  shows "get_token server now' c' w' = (Inr token, c', w')"
  using assms
  by (auto simp: get_token_def token_valid_def split: prod.splits sum.splits if_splits)

lemma get_token_error_keeps_cache:
  "get_token server now c w = (Inl e, c', w') \<Longrightarrow> c' = c"
  by (auto simp: get_token_def split: prod.splits sum.splits if_splits)

subsection \<open>Properties\<close>

text \<open>
  The retry helper makes at most the configured number of requests (three when none
  is configured), and reports success only when its last request was answered with a 2xx status.
\<close>

theorem do_with_retry_bounded:
  "snd (snd (do_with_retry cfg (counted request) (uncounted sleep) (w, 0))) \<le> nat (rt_attempts (default_retry cfg))
   \<and> (do_with_retry cfg request sleep w = (None, w') \<longrightarrow> (\<exists>w0 s. request w0 = ((s, None), w') \<and> is_2xx s))"
  using retry_loop_count [of "default_retry cfg" request sleep 0 "nat (rt_attempts (default_retry cfg))" 0 w 0]
    retry_loop_success [of "default_retry cfg" request sleep 0 "nat (rt_attempts (default_retry cfg))" 0 w w']
  by (simp add: do_with_retry_def Let_def)

theorem do_with_retry_bounded_witness:
  "(let cfg = \<lparr>rt_attempts = 0, rt_backoff_ms = 0, rt_backoff_on = [], rt_drop_on = []\<rparr>;
        request = (\<lambda>w :: nat. ((if w < 2 then 503 else 200, None), Suc w)); sleep = (\<lambda>d w. (None, w)) in
    do_with_retry cfg request sleep 0 = (None, 3) \<and> (\<exists>w0 s. request w0 = ((s, None), 3) \<and> is_2xx s))"
  using do_with_retry_bounded [of "\<lparr>rt_attempts = 0, rt_backoff_ms = 0, rt_backoff_on = [], rt_drop_on = []\<rparr>"
      "\<lambda>w :: nat. ((if w < 2 then 503 else 200, None), Suc w)" "\<lambda>d w. (None, w)" 0 3]
  by (simp add: do_with_retry_def default_retry_def is_2xx_def numeral_3_eq_3 Let_def)

text \<open>
  A backoff is never longer than thirty seconds, and while the product fits 63 bits
  it doubles from attempt to attempt up to that cap. Beyond, it wraps around: with the default
  of one second, the wait before the 36th attempt is negative, so there is none.
\<close>

theorem backoff_bounds:
  "backoff_ns ms attempt \<le> thirty_seconds
   \<and> (0 \<le> ms \<and> ms * 1000000 * 2 ^ attempt < 2 ^ 63
        \<longrightarrow> backoff_ns ms attempt = min thirty_seconds (ms * 1000000 * 2 ^ attempt))
   \<and> backoff_ns 1000 34 < 0"
proof -
  have "backoff_ns 1000 34 < 0" by code_simp
  then show ?thesis using backoff_ns_le [of ms attempt] backoff_ns_exact [of ms attempt] by blast
qed

theorem backoff_bounds_witness: "backoff_ns 1000 3 = 8 * second_ns"
  using backoff_bounds [of 1000 3] by (simp add: thirty_seconds_def second_ns_def)

text \<open>
  Property C19. Whatever requests, successes and failures a new circuit breaker goes through: its
  half-open lock is held exactly while a probe is in flight, a probe is only in flight while the
  breaker is half open, and a closed breaker is below its threshold. In particular an open
  breaker refuses every request until its cooldown is over.
\<close>

theorem breaker_invariant:
  assumes "new_breaker c = Some b" "cb_run b es b'"
  shows "cb_inv b' \<and> (cb_state b' = BOpen \<and> now - cb_opened b' < cb_cooldown b'
    \<longrightarrow> breaker_allow now b' = (Some ErrCircuitOpen, b'))"
  using cb_run_inv [OF assms(2) cb_inv_new [OF assms(1)]] open_refuses by blast

theorem breaker_invariant_witness:
  "(let b = \<lparr>cb_state = BClosed, cb_failures = 0, cb_threshold = 1, cb_cooldown = thirty_seconds,
             cb_opened = time_zero, cb_locked = False, cb_in_flight = False\<rparr> in
    breaker_allow 6 (record_failure 5 b) = (Some ErrCircuitOpen, record_failure 5 b))"
proof -
  let ?b = "\<lparr>cb_state = BClosed, cb_failures = 0, cb_threshold = 1, cb_cooldown = thirty_seconds,
             cb_opened = time_zero, cb_locked = False, cb_in_flight = False\<rparr>"
  have new: "new_breaker \<lparr>bc_threshold = 1, bc_cooldown_ms = 0\<rparr> = Some ?b"
    by (simp add: new_breaker_def)
  have run: "cb_run ?b [CbFailure 5] (record_failure 5 ?b)"
    by (rule cb_cons [OF cb_failure cb_nil])
  show ?thesis
    using breaker_invariant [OF new run, of 6] by (simp add: record_failure_def thirty_seconds_def second_ns_def)
qed

text \<open>
  Property C20. A breaker whose probe got no recorded outcome (the request failed before it was
  sent) refuses every later request for good: asking changes nothing, and only an outcome would
  reopen it.
\<close>

theorem lost_probe_wedges:
  assumes "cb_run b es b'" "cb_state b = BHalfOpen" "cb_in_flight b" "\<forall>e \<in> set es. \<exists>t r. e = CbAllow t r"
  shows "b' = b \<and> list_all is_refusal es"
  using assms by (rule probe_blocks)

theorem lost_probe_wedges_witness:
  "\<exists>b. cb_run b [CbAllow 10 (Some ErrCircuitOpen), CbAllow 10000000000000 (Some ErrCircuitOpen)] b
    \<and> list_all is_refusal [CbAllow 10 (Some ErrCircuitOpen), CbAllow 10000000000000 (Some ErrCircuitOpen)]"
proof -
  let ?b = "\<lparr>cb_state = BHalfOpen, cb_failures = 0, cb_threshold = 1, cb_cooldown = 1,
             cb_opened = 0, cb_locked = True, cb_in_flight = True\<rparr>"
  have step: "cb_step ?b (CbAllow t (Some ErrCircuitOpen)) ?b" for t
    by (rule cb_allow) (simp add: breaker_allow_def allow_half_open_def)
  have run: "cb_run ?b [CbAllow 10 (Some ErrCircuitOpen), CbAllow 10000000000000 (Some ErrCircuitOpen)] ?b"
    by (rule cb_cons [OF step cb_cons [OF step cb_nil]])
  then show ?thesis using lost_probe_wedges [OF run] by auto
qed

text \<open>
  Over any run of a new rate limiter, at most the configured number of requests plus
  the number of ticks so far have been let through, and the bucket never holds more tokens than
  its capacity.
\<close>

theorem rate_limit_bound:
  assumes "new_rate_limiter parse_duration c = Inr (Some (b, interval))" "bucket_run b takes ticks b'"
  shows "int takes \<le> rl_requests c + int ticks \<and> 0 \<le> tb_tokens b' \<and> tb_tokens b' \<le> rl_requests c \<and> interval > 0"
  using assms(1) bucket_run_bound [OF assms(2)]
  by (auto simp: new_rate_limiter_def Let_def split: if_splits sum.splits)

theorem rate_limit_bound_witness:
  "\<exists>b'. bucket_run \<lparr>tb_tokens = 2, tb_capacity = 2\<rparr> 1 0 b' \<and> tb_tokens b' \<le> 2"
proof -
  let ?b = "\<lparr>tb_tokens = 2, tb_capacity = 2\<rparr>"
  have new: "new_rate_limiter (\<lambda>_. Inr 1000) \<lparr>rl_requests = 2, rl_period = ''1s''\<rparr> = Inr (Some (?b, 500))"
    by (simp add: new_rate_limiter_def trim_space_def is_space_def)
  have run: "bucket_run ?b (Suc 0) 0 \<lparr>tb_tokens = 1, tb_capacity = 2\<rparr>"
    by (rule bucket_wait [OF bucket_start]) (simp add: bucket_take_def)
  show ?thesis using rate_limit_bound [OF new run] run by auto
qed

end
