(* ===== verification/Artifacts.thy ===== *)
theory Artifacts
  imports State_Store "HOL-Library.Multiset"
begin

section \<open>Run artifacts: internal/artifacts/writer.go\<close>

text \<open>
  The per-run writer: counters, capped samples and the field-change table that ends up sorted by
  frequency. The files are the values passed to the encoder; the file system is not modelled.
\<close>

record art_config =
  ar_base :: string
  ar_sync :: string
  ar_run :: int
  ar_max_samples :: int

record art_writer =
  aw_cfg :: art_config
  aw_enabled :: bool
  aw_n_creates :: int
  aw_n_updates :: int
  aw_n_skips :: int
  aw_n_errors :: int
  aw_n_missing :: int
  aw_decisions :: "decision_event list"
  aw_creates :: "payload list"
  aw_updates :: "payload list"
  aw_skips :: "payload list"
  aw_fields :: "(string \<times> int) list"

definition art_new :: "art_config \<Rightarrow> art_writer" where
  "art_new c =
     (let c1 = (if ar_max_samples c \<le> 0 then c\<lparr>ar_max_samples := 10\<rparr> else c)
      in \<lparr>aw_cfg = c1, aw_enabled = (ar_base c \<noteq> [] \<and> ar_sync c \<noteq> []), aw_n_creates = 0,
          aw_n_updates = 0, aw_n_skips = 0, aw_n_errors = 0, aw_n_missing = 0, aw_decisions = [],
          aw_creates = [], aw_updates = [], aw_skips = [], aw_fields = []\<rparr>)"

definition bump :: "(string \<times> int) list \<Rightarrow> string \<Rightarrow> (string \<times> int) list" where
  "bump m f = aput f ((case alookup m f of None \<Rightarrow> 0 | Some n \<Rightarrow> n) + 1) m"

definition tag_sample :: "string \<Rightarrow> payload \<Rightarrow> payload" where
  "tag_sample key data = foldl (\<lambda>m (k, v). aput k v m) [(''_entity_key'', GStr key)] data"

definition keep_sample :: "art_writer \<Rightarrow> payload \<Rightarrow> payload list \<Rightarrow> payload list" where
  "keep_sample w s xs = (if int (length xs) < ar_max_samples (aw_cfg w) then xs @ [s] else xs)"

definition art_decision :: "decision_event \<Rightarrow> art_writer \<Rightarrow> art_writer" where
  "art_decision ev w = (if \<not> aw_enabled w then w else w\<lparr>aw_decisions := aw_decisions w @ [ev]\<rparr>)"

definition art_create :: "string \<Rightarrow> payload \<Rightarrow> art_writer \<Rightarrow> art_writer" where
  "art_create key data w =
     (if \<not> aw_enabled w then w
      else w\<lparr>aw_n_creates := aw_n_creates w + 1,
             aw_creates := keep_sample w (tag_sample key data) (aw_creates w)\<rparr>)"

definition art_update :: "string \<Rightarrow> payload \<Rightarrow> string list \<Rightarrow> art_writer \<Rightarrow> art_writer" where
  "art_update key data changed w =
     (if \<not> aw_enabled w then w
      else w\<lparr>aw_n_updates := aw_n_updates w + 1,
             aw_fields := foldl bump (aw_fields w) changed,
             aw_updates := keep_sample w (tag_sample key data) (aw_updates w)\<rparr>)"

definition art_skip :: "string \<Rightarrow> art_writer \<Rightarrow> art_writer" where
  "art_skip key w =
     (if \<not> aw_enabled w then w
      else w\<lparr>aw_n_skips := aw_n_skips w + 1,
             aw_skips := keep_sample w [(''entity_key'', GStr key)] (aw_skips w)\<rparr>)"

definition art_error :: "art_writer \<Rightarrow> art_writer" where
  "art_error w = (if \<not> aw_enabled w then w else w\<lparr>aw_n_errors := aw_n_errors w + 1\<rparr>)"

definition art_missing :: "art_writer \<Rightarrow> art_writer" where
  "art_missing w = (if \<not> aw_enabled w then w else w\<lparr>aw_n_missing := aw_n_missing w + 1\<rparr>)"

subsection \<open>The field-change table: writeFieldDiff\<close>

text \<open>
  The insertion sort by swaps. The list is kept reversed, so that the element next to the
  insertion point comes first: \<open>sink\<close> swaps the new entry towards the front while it has more
  changes than its neighbour.
\<close>

fun sink :: "string \<times> int \<Rightarrow> (string \<times> int) list \<Rightarrow> (string \<times> int) list" where
  "sink e [] = [e]"
| "sink e (y # ys) = (if snd e > snd y then y # sink e ys else e # y # ys)"

definition sort_changes :: "(string \<times> int) list \<Rightarrow> (string \<times> int) list" where
  "sort_changes es = rev (foldl (\<lambda>acc e. sink e acc) [] es)"

lemma mset_sink: "mset (sink e ys) = add_mset e (mset ys)"
  by (induction ys) auto

lemma set_sink: "set (sink e ys) = insert e (set ys)"
  by (induction ys) auto

lemma sorted_sink: "sorted (map snd ys) \<Longrightarrow> sorted (map snd (sink e ys))"
  by (induction ys) (auto simp: set_sink)

lemma sink_fold:
  "sorted (map snd acc) \<Longrightarrow> sorted (map snd (foldl (\<lambda>acc e. sink e acc) acc es))
     \<and> mset (foldl (\<lambda>acc e. sink e acc) acc es) = mset acc + mset es"
  by (induction es arbitrary: acc) (auto simp: sorted_sink mset_sink)

lemma sort_changes_sorted: "sorted_wrt (\<ge>) (map snd (sort_changes es))"
  using sink_fold [of "[]" es] by (simp add: sort_changes_def rev_map [symmetric] sorted_wrt_rev)

lemma sort_changes_mset: "mset (sort_changes es) = mset es"
  using sink_fold [of "[]" es] by (simp add: sort_changes_def)

text \<open>Samples never outgrow the cap; a disabled writer stays as it is.\<close>

lemma keep_sample_cap:
  "int (length xs) \<le> ar_max_samples (aw_cfg w) \<Longrightarrow>
   int (length (keep_sample w s xs)) \<le> ar_max_samples (aw_cfg w)"
  by (simp add: keep_sample_def)

lemma bump_count:
  "alookup (bump m f) g = (if g = f then Some ((case alookup m f of None \<Rightarrow> 0 | Some n \<Rightarrow> n) + 1)
     else alookup m g)"
  by (simp add: bump_def update_conv')

lemma tag_sample_lookup:
  "alookup (tag_sample key data) k =
     (case alookup (rev data) k of Some v \<Rightarrow> Some v
      | None \<Rightarrow> if k = ''_entity_key'' then Some (GStr key) else None)"
proof -
  have "alookup (foldl (\<lambda>m (k, v). aput k v m) m data) k
      = (case alookup (rev data) k of Some v \<Rightarrow> Some v | None \<Rightarrow> alookup m k)" for m
    by (induction data arbitrary: m) (auto simp: update_conv' map_add_def split: option.splits)
  then show ?thesis by (auto simp: tag_sample_def split: option.splits)
qed

subsection \<open>Properties\<close>

text \<open>
  The field-change table of a run lists every changed field once with its count, the
  most often changed first.
\<close>

theorem sort_changes_correct:
  "mset (sort_changes es) = mset es \<and> sorted_wrt (\<ge>) (map snd (sort_changes es))"
  using sort_changes_mset sort_changes_sorted by blast

end
