(* ===== verification/Delivery.thy ===== *)
theory Delivery
  imports State_Store
begin

section \<open>Rows and the destination contract: pkg/row, internal/connector/destination/destination.go\<close>

text \<open>
  The row that travels between packages, the result of a load, and the interface of a
  destination. A load runs in a system: the context it polls, the state store it reads and
  marks, and the outside world it writes to. The contract is a locale that extends the one of
  the store.
\<close>

subsection \<open>Rows\<close>

record row =
  row_id :: string
  row_source :: string
  row_pipeline :: string
  row_key :: string
  row_data :: payload
  row_extracted :: go_time
  row_watermark :: go_time
  row_meta :: payload
  row_ctx :: bool

definition row_zero :: row where
  "row_zero = \<lparr>row_id = [], row_source = [], row_pipeline = [], row_key = [], row_data = [],
     row_extracted = time_zero, row_watermark = time_zero, row_meta = [], row_ctx = False\<rparr>"

text \<open>\<open>reset\<close> and \<open>Get\<close>: a recycled row reads as a fresh one, whatever it held.\<close>

definition row_reset :: "row \<Rightarrow> row" where
  "row_reset r =
     (let r1 = r\<lparr>row_id := [], row_source := [], row_pipeline := [], row_key := [],
                 row_extracted := time_zero, row_watermark := time_zero, row_ctx := False\<rparr>;
          r2 = r1\<lparr>row_data := foldl (\<lambda>d k. adel k d) (row_data r1) (map fst (row_data r1))\<rparr>
      in r2\<lparr>row_meta := foldl (\<lambda>d k. adel k d) (row_meta r2) (map fst (row_meta r2))\<rparr>)"

text \<open>\<open>sync.Pool\<close> hands out any row that was put back, or a new one.\<close>

definition row_get :: "row list \<Rightarrow> nat option \<Rightarrow> row \<times> row list" where
  "row_get pool pick =
     (case pick of
        Some i \<Rightarrow> if i < length pool then (row_reset (pool ! i), take i pool @ drop (Suc i) pool)
                  else (row_reset row_zero, pool)
      | None \<Rightarrow> (row_reset row_zero, pool))"

definition row_put :: "row \<Rightarrow> row list \<Rightarrow> row list" where
  "row_put r pool = r # pool"

definition new_row ::
  "string \<Rightarrow> go_time \<Rightarrow> string \<Rightarrow> string \<Rightarrow> string \<Rightarrow> payload \<Rightarrow> go_time \<Rightarrow> row" where
  "new_row uuid now source pipeline key data wm =
     \<lparr>row_id = uuid, row_source = source, row_pipeline = pipeline, row_key = key, row_data = data,
      row_extracted = now, row_watermark = wm, row_meta = [], row_ctx = False\<rparr>"

definition row_string :: "row \<Rightarrow> string" where
  "row_string r = ''pipeline='' @ row_pipeline r @ '' source='' @ row_source r @ '' pk='' @ row_key r"

definition row_clone :: "row \<Rightarrow> row" where
  "row_clone r = r\<lparr>row_data := map (\<lambda>(k, v). (k, v)) (row_data r),
                    row_meta := map (\<lambda>(k, v). (k, v)) (row_meta r)\<rparr>"

lemma foldl_adel_all: "fst ` set d \<subseteq> set ks \<Longrightarrow> foldl (\<lambda>d k. adel k d) d ks = []"
proof (induction ks arbitrary: d)
  case (Cons k ks)
  then have "fst ` set (adel k d) \<subseteq> set ks" by (auto simp: keys_adel)
  then show ?case using Cons.IH by simp
qed (cases d; simp)

lemma row_reset_zero: "row_reset r = row_zero"
  by (simp add: row_reset_def row_zero_def Let_def foldl_adel_all)

lemma row_get_fresh: "fst (row_get pool pick) = row_zero"
  by (simp add: row_get_def row_reset_zero split: option.splits)

lemma row_clone_same: "row_clone r = r"
  by (simp add: row_clone_def)

subsection \<open>Load results and systems\<close>

record row_error =
  re_row_id :: string
  re_row :: row
  re_err :: go_error

record load_result =
  lr_loaded :: int
  lr_skipped :: int
  lr_errors :: "row_error list"
  lr_dest_ids :: "(string \<times> string) list"

definition lr_empty :: load_result where
  "lr_empty = \<lparr>lr_loaded = 0, lr_skipped = 0, lr_errors = [], lr_dest_ids = []\<rparr>"

definition lr_add_error :: "row \<Rightarrow> go_error \<Rightarrow> load_result \<Rightarrow> load_result" where
  "lr_add_error r e res =
     res\<lparr>lr_errors := lr_errors res @ [\<lparr>re_row_id = row_id r, re_row = r, re_err = e\<rparr>]\<rparr>"

definition lr_add_skip :: "load_result \<Rightarrow> load_result" where
  "lr_add_skip res = res\<lparr>lr_skipped := lr_skipped res + 1\<rparr>"

definition lr_add_loaded :: "load_result \<Rightarrow> load_result" where
  "lr_add_loaded res = res\<lparr>lr_loaded := lr_loaded res + 1\<rparr>"

lemma lr_simps [simp]:
  "lr_loaded lr_empty = 0" "lr_skipped lr_empty = 0" "lr_errors lr_empty = []"
  "lr_loaded (lr_add_error r e res) = lr_loaded res" "lr_skipped (lr_add_error r e res) = lr_skipped res"
  "lr_loaded (lr_add_skip res) = lr_loaded res" "lr_skipped (lr_add_skip res) = lr_skipped res + 1"
  "lr_errors (lr_add_error r e res) = lr_errors res @ [\<lparr>re_row_id = row_id r, re_row = r, re_err = e\<rparr>]"
  "lr_errors (lr_add_skip res) = lr_errors res" "lr_errors (lr_add_loaded res) = lr_errors res"
  "lr_loaded (lr_add_loaded res) = lr_loaded res + 1" "lr_skipped (lr_add_loaded res) = lr_skipped res"
  by (simp_all add: lr_empty_def lr_add_error_def lr_add_skip_def lr_add_loaded_def)

record ('st, 'w) sys =
  sy_ctx :: go_ctx
  sy_store :: 'st
  sy_world :: 'w

type_synonym ('st, 'w) loader =
  "row list \<Rightarrow> string \<Rightarrow> string \<Rightarrow> ('st, 'w) sys \<Rightarrow> (load_result \<times> go_error option) \<times> ('st, 'w) sys"

text \<open>\<open>ctx.Err()\<close>; the error is that of a cancellation.\<close>

definition poll :: "('st, 'w) sys \<Rightarrow> bool \<times> ('st, 'w) sys" where
  "poll s = (case ctx_poll (sy_ctx s) of (done, c) \<Rightarrow> (done, s\<lparr>sy_ctx := c\<rparr>))"

definition is_ctx_error :: "go_error \<Rightarrow> bool" where
  "is_ctx_error err \<longleftrightarrow> error_is err ErrCanceled \<or> error_is err ErrDeadline"

lemma poll_frame [simp]:
  "sy_store (snd (poll s)) = sy_store s" "sy_world (snd (poll s)) = sy_world s"
  by (simp_all add: poll_def split: prod.splits)

lemma poll_frameD: "poll s = (b, s') \<Longrightarrow> sy_store s' = sy_store s \<and> sy_world s' = sy_world s"
  by (metis poll_frame snd_conv)

lemma poll_never: "sy_ctx s = None \<Longrightarrow> poll s = (False, s)"
  by (simp add: poll_def)

subsection \<open>The contract\<close>

text \<open>
  What the engine relies on when it loads one row: a row already delivered is reported as
  skipped and nothing is sent; a row reported as loaded is marked; a load never touches entity
  states or rule firings. A counting destination gives more: under a context that is never done,
  a row counts exactly once, as loaded, skipped or failed.
\<close>

definition counts_once :: "load_result \<Rightarrow> go_error option \<Rightarrow> bool" where
  "counts_once res err \<longleftrightarrow> 0 \<le> lr_loaded res \<and> 0 \<le> lr_skipped res \<and>
     (if err = None then lr_loaded res + lr_skipped res + int (length (lr_errors res)) = 1
      else lr_loaded res = 0 \<and> lr_skipped res = 0)"

locale destination = state_store ops inv abs stored
  for ops :: "'st store_ops" and inv and abs and stored +
  fixes load :: "('st, 'w) loader"
  assumes load_delivered: "inv (sy_store s) \<Longrightarrow> nul_free sy \<Longrightarrow> nul_free d \<Longrightarrow>
      st_is_delivered ops (row_id r) sy d (sy_store s) = Inr True \<Longrightarrow>
      load [r] sy d s = ((res, err), s') \<Longrightarrow>
      sy_store s' = sy_store s \<and> sy_world s' = sy_world s \<and> lr_loaded res = 0 \<and> lr_errors res = []
      \<and> (err = None \<longrightarrow> lr_skipped res = 1) \<and> (sy_ctx s = None \<longrightarrow> err = None)"
    and load_marks: "inv (sy_store s) \<Longrightarrow> nul_free sy \<Longrightarrow> nul_free d \<Longrightarrow>
      load [r] sy d s = ((res, err), s') \<Longrightarrow> lr_loaded res > 0 \<Longrightarrow>
      ab_is_delivered (abs (sy_store s')) (row_id r, sy, d)"
    and load_frame: "inv (sy_store s) \<Longrightarrow> nul_free sy \<Longrightarrow> nul_free d \<Longrightarrow>
      load rs sy d s = ((res, err), s') \<Longrightarrow>
      inv (sy_store s') \<and> ab_entities (abs (sy_store s')) = ab_entities (abs (sy_store s))
      \<and> ab_fired (abs (sy_store s')) = ab_fired (abs (sy_store s))"
begin

text \<open>A second load of a row that was loaded sends nothing, even when the answer was lost.\<close>

lemma load_twice:
  assumes "inv (sy_store s)" "nul_free sy" "nul_free d"
    "load [r] sy d s = ((res, err), s1)" "lr_loaded res > 0"
    "load [r] sy d s1 = ((res', err'), s2)" "st_is_delivered ops (row_id r) sy d (sy_store s1) = Inr b"
  shows "sy_world s2 = sy_world s1 \<and> lr_loaded res' = 0"
proof -
  have i1: "inv (sy_store s1)" using load_frame [OF assms(1-4)] by simp
  have "b" using is_delivered_law [OF i1 assms(2,3,7)] load_marks [OF assms(1-5)] by simp
  with assms(7) have "st_is_delivered ops (row_id r) sy d (sy_store s1) = Inr True" by simp
  from load_delivered [OF i1 assms(2,3) this assms(6)] show ?thesis by simp
qed

end

locale counting_destination = destination ops inv abs stored load
  for ops :: "'st store_ops" and inv and abs and stored and load :: "('st, 'w) loader" +
  assumes load_counts: "sy_ctx s = None \<Longrightarrow> load [r] sy d s = ((res, err), s') \<Longrightarrow>
      sy_ctx s' = None \<and> counts_once res err"

end
