(* ===== verification/Engine.thy ===== *)
theory Engine
  imports Decision Safety Fingerprint Artifacts Delivery Conn_Config
begin

section \<open>The sync engine: internal/engine\<close>

text \<open>
  One run of a sync (\<open>runOnce\<close>) as explicit state passing: the decision pass over the extracted
  rows, the safety gates, the delivery pass, the pass over entities missing from the source, and
  the end of the run. The store and the destination are records of functions. All readings of
  the clock in a run answer \<open>now\<close>; the rows are those the source puts on its channel, in
  order; the context may be found cancelled at any of its polls. Log output is left out.
\<close>

subsection \<open>The dead-letter queue: dlq.go\<close>

record dlq_record =
  dq_row_id :: string
  dq_sync :: string
  dq_key :: string
  dq_error :: string
  dq_failed_at :: go_time
  dq_data :: payload

text \<open>
  The writer: its lines, and what opening or writing the file currently answers. A record whose
  data does not encode leaves an empty line (\<open>None\<close>), because the error of the encoder is
  dropped.
\<close>

record dlq_writer =
  dw_path :: string
  dw_sync :: string
  dw_count :: int
  dw_lines :: "dlq_record option list"
  dw_fault :: "go_error option"

definition new_dlq :: "string \<Rightarrow> string \<Rightarrow> go_error option \<Rightarrow> dlq_writer option" where
  "new_dlq sync path fault =
     (if path = [] then None
      else Some \<lparr>dw_path = path, dw_sync = sync, dw_count = 0, dw_lines = [], dw_fault = fault\<rparr>)"

definition dlq_enabled :: "dlq_writer option \<Rightarrow> bool" where
  "dlq_enabled w \<longleftrightarrow> w \<noteq> None"

definition dlq_write ::
  "go_time \<Rightarrow> row \<Rightarrow> string \<Rightarrow> go_error \<Rightarrow> dlq_writer option \<Rightarrow> dlq_writer option" where
  "dlq_write now r key cause w =
     (case w of
        None \<Rightarrow> None
      | Some d \<Rightarrow>
          (case dw_fault d of
             Some _ \<Rightarrow> Some d
           | None \<Rightarrow>
               let rec = \<lparr>dq_row_id = row_id r, dq_sync = dw_sync d, dq_key = key,
                          dq_error = err_text cause, dq_failed_at = now, dq_data = row_data r\<rparr>;
                   line = (case json_marshal (GMap (row_data r)) of None \<Rightarrow> None | Some _ \<Rightarrow> Some rec)
               in Some (d\<lparr>dw_lines := dw_lines d @ [line], dw_count := dw_count d + 1\<rparr>)))"

definition dlq_count :: "dlq_writer option \<Rightarrow> int" where
  "dlq_count w = (case w of None \<Rightarrow> 0 | Some d \<Rightarrow> dw_count d)"

definition dlq_path_of :: "dlq_writer option \<Rightarrow> string" where
  "dlq_path_of w = (case w of None \<Rightarrow> [] | Some d \<Rightarrow> dw_path d)"

definition resolve_dlq_path :: "string \<Rightarrow> string \<Rightarrow> string" where
  "resolve_dlq_path sync path = (if path \<noteq> [] then path else ''./dlq/'' @ sync @ ''.dlq.jsonl'')"

subsection \<open>Payload helpers of run.go\<close>

definition build_fp_include :: "string list \<Rightarrow> string list option" where
  "build_fp_include inc = (if inc = [] then None else Some inc)"

definition fp_fields :: "payload \<Rightarrow> string list option \<Rightarrow> payload" where
  "fp_fields data inc =
     (case inc of None \<Rightarrow> data | Some fs \<Rightarrow> filter (\<lambda>(k, v). k \<in> set fs) data)"

definition missing_required :: "payload \<Rightarrow> string list \<Rightarrow> string list" where
  "missing_required data required =
     filter (\<lambda>f. case alookup data f of None \<Rightarrow> True | Some v \<Rightarrow> v = GNil) required"

definition redacted_fields :: "mapping_entry list \<Rightarrow> string list" where
  "redacted_fields mapping = map dest_name (filter me_redacted mapping)"

definition redact_payload :: "payload \<Rightarrow> string list \<Rightarrow> payload" where
  "redact_payload data redacted =
     (if redacted = [] then data
      else map (\<lambda>(k, v). (k, if k \<in> set redacted then GStr ''[REDACTED]'' else v)) data)"

definition apply_mapping :: "payload \<Rightarrow> mapping_entry list \<Rightarrow> payload" where
  "apply_mapping data mapping =
     (if mapping = [] then data
      else foldl (\<lambda>out m. case alookup data (me_source m) of
                            None \<Rightarrow> out | Some v \<Rightarrow> aput (dest_name m) v out) [] mapping)"

definition fp_exclude_of :: "sync_spec \<Rightarrow> string list" where
  "fp_exclude_of s =
     map dest_name (filter me_exclude (sp_mapping s)) @ fc_exclude (sc_fingerprint (sp_state s))"

definition mapped_row :: "sync_spec \<Rightarrow> payload \<Rightarrow> payload" where
  "mapped_row s data = normalize_payload (apply_mapping data (sp_mapping s))"

definition row_fingerprint :: "sync_spec \<Rightarrow> payload \<Rightarrow> string" where
  "row_fingerprint s mapped =
     fp_of (fp_fields mapped (build_fp_include (fc_include (sc_fingerprint (sp_state s)))))
       (fp_exclude_of s)"

subsection \<open>Keys and state records\<close>

definition op_key_text :: "string \<Rightarrow> string \<Rightarrow> string \<Rightarrow> string \<Rightarrow> string \<Rightarrow> string" where
  "op_key_text sync dest key action fp = join '':'' [sync, dest, key, action, fp]"

definition delivery_op_key :: "string \<Rightarrow> string \<Rightarrow> string \<Rightarrow> string \<Rightarrow> string \<Rightarrow> string" where
  "delivery_op_key sync dest key action fp = sha256_hex (op_key_text sync dest key action fp)"

definition approval_hash :: "string \<Rightarrow> string \<Rightarrow> run_counts \<Rightarrow> string" where
  "approval_hash sync dest c =
     ''appr-'' @ take 8 (sha256_hex (sync @ '':'' @ dest @ '':c='' @ dec_int (rc_creates c)
        @ '':u='' @ dec_int (rc_updates c) @ '':d='' @ dec_int (rc_deletes c)))"

definition remember_payload :: "(string \<times> string) list \<Rightarrow> payload \<Rightarrow> payload" where
  "remember_payload rem old = foldl (\<lambda>m (k, v). aput k (GStr v) m) old rem"

definition build_entity_state ::
  "string \<Rightarrow> string \<Rightarrow> string \<Rightarrow> string \<Rightarrow> string \<Rightarrow> payload \<Rightarrow> payload \<Rightarrow> entity_state option \<Rightarrow> plan
     \<Rightarrow> string \<Rightarrow> entity_state" where
  "build_entity_state sync dest key prev_fp cur_fp prev_payload cur_payload prev p status =
     \<lparr>es_sync = sync, es_dest = dest, es_key = key, es_dest_id = [], es_fp = cur_fp,
      es_prev_fp = prev_fp, es_payload = cur_payload, es_prev_payload = prev_payload,
      es_remembered = remember_payload (pl_remember p)
        (case prev of None \<Rightarrow> [] | Some es \<Rightarrow> es_remembered es),
      es_decision = pl_action p, es_status = status, es_missing = 0,
      es_version = (case prev of None \<Rightarrow> 1 | Some es \<Rightarrow> es_version es + 1),
      es_created = time_zero, es_updated = time_zero\<rparr>"

subsection \<open>The state of a run\<close>

record pending_delivery =
  pd_row :: row
  pd_key :: string
  pd_mapped :: payload
  pd_prev_fp :: string
  pd_cur_fp :: string
  pd_prev_payload :: payload
  pd_es :: "entity_state option"
  pd_plan :: plan
  pd_first_seen :: bool
  pd_changed :: "string list"

record ('st, 'w) run_env =
  en_ops :: "'st store_ops"
  en_load :: "('st, 'w) loader option"
  en_spec :: sync_spec
  en_dest :: string
  en_dry_run :: bool
  en_approval :: string
  en_now :: go_time
  en_run :: int
  en_alert :: "go_error \<Rightarrow> 'w \<Rightarrow> 'w"

record ('st, 'w) run_state =
  rn_sys :: "('st, 'w) sys"
  rn_stats :: run_stats
  rn_art :: art_writer
  rn_dlq :: "dlq_writer option"
  rn_seen :: "string list"
  rn_pending :: "pending_delivery list"
  rn_changes :: "(string \<times> int) list"
  rn_max_wm :: go_time
  rn_counts :: run_counts
  rn_error :: "go_error option"

abbreviation rn_store :: "('st, 'w) run_state \<Rightarrow> 'st" where
  "rn_store s \<equiv> sy_store (rn_sys s)"

abbreviation rn_world :: "('st, 'w) run_state \<Rightarrow> 'w" where
  "rn_world s \<equiv> sy_world (rn_sys s)"

definition set_store :: "'st \<Rightarrow> ('st, 'w) run_state \<Rightarrow> ('st, 'w) run_state" where
  "set_store st s = s\<lparr>rn_sys := (rn_sys s)\<lparr>sy_store := st\<rparr>\<rparr>"

text \<open>A store operation whose result the code drops.\<close>

definition do_store :: "('st \<Rightarrow> 'a \<times> 'st) \<Rightarrow> ('st, 'w) run_state \<Rightarrow> ('st, 'w) run_state" where
  "do_store f s = set_store (snd (f (rn_store s))) s"

definition upd_stats :: "(run_stats \<Rightarrow> run_stats) \<Rightarrow> ('st, 'w) run_state \<Rightarrow> ('st, 'w) run_state" where
  "upd_stats f s = s\<lparr>rn_stats := f (rn_stats s)\<rparr>"

definition add_extracted :: "run_stats \<Rightarrow> run_stats" where
  "add_extracted st = st\<lparr>rs_extracted := rs_extracted st + 1\<rparr>"

definition add_skipped :: "int \<Rightarrow> run_stats \<Rightarrow> run_stats" where
  "add_skipped n st = st\<lparr>rs_skipped := rs_skipped st + n\<rparr>"

definition add_errored :: "run_stats \<Rightarrow> run_stats" where
  "add_errored st = st\<lparr>rs_errored := rs_errored st + 1\<rparr>"

definition add_loaded :: "int \<Rightarrow> run_stats \<Rightarrow> run_stats" where
  "add_loaded n st = st\<lparr>rs_loaded := rs_loaded st + n\<rparr>"

definition run_poll :: "('st, 'w) run_state \<Rightarrow> bool \<times> ('st, 'w) run_state" where
  "run_poll s = (case poll (rn_sys s) of (b, y) \<Rightarrow> (b, s\<lparr>rn_sys := y\<rparr>))"

subsection \<open>Phase 1: decisions\<close>

definition note_watermark :: "row \<Rightarrow> ('st, 'w) run_state \<Rightarrow> ('st, 'w) run_state" where
  "note_watermark r s =
     (if \<not> is_zero (row_watermark r) \<and> row_watermark r > rn_max_wm s
      then s\<lparr>rn_max_wm := row_watermark r\<rparr> else s)"

definition insert_key :: "string \<Rightarrow> string list \<Rightarrow> string list" where
  "insert_key k ks = (if k \<in> set ks then ks else ks @ [k])"

definition decision_event_of :: "('st, 'w) run_env \<Rightarrow> string \<Rightarrow> plan \<Rightarrow> decision_event" where
  "decision_event_of e key p =
     \<lparr>ev_id = 0, ev_sync = sp_name (en_spec e), ev_dest = en_dest e, ev_key = key,
      ev_run = en_run e, ev_decision = pl_action p, ev_rules = pl_rules p,
      ev_reasons = pl_reasons p, ev_created = time_zero\<rparr>"

text \<open>What a row decides: its key, its state, the two fingerprints, the diff and the plan.\<close>

definition input_of :: "sync_spec \<Rightarrow> payload \<Rightarrow> entity_state option \<Rightarrow> decision_input" where
  "input_of spec mapped es =
     (let prev_fp = (case es of None \<Rightarrow> [] | Some x \<Rightarrow> es_fp x);
          prev = (case es of None \<Rightarrow> [] | Some x \<Rightarrow> es_payload x) in
      \<lparr>in_first_seen = (es = None), in_fp_changed = (row_fingerprint spec mapped \<noteq> prev_fp),
       in_diff = diff_compute prev mapped, in_previous = prev, in_current = mapped,
       in_remembered = (case es of None \<Rightarrow> [] | Some x \<Rightarrow> es_remembered x)\<rparr>)"

definition firing_checker :: "('st, 'w) run_env \<Rightarrow> string \<Rightarrow> 'st \<Rightarrow> rule_checker" where
  "firing_checker e key st =
     Some (\<lambda>rule. st_has_fired (en_ops e) (sp_name (en_spec e)) (en_dest e) key rule st)"

definition decide ::
  "('st, 'w) run_env \<Rightarrow> string \<Rightarrow> payload \<Rightarrow> entity_state option \<Rightarrow> 'st \<Rightarrow> plan res" where
  "decide e key mapped es st =
     evaluate (sp_decisions (en_spec e)) (input_of (en_spec e) mapped es)
       (firing_checker e key st) (rfc3339 (en_now e))"

definition pending_of ::
  "('st, 'w) run_env \<Rightarrow> row \<Rightarrow> string \<Rightarrow> payload \<Rightarrow> entity_state option \<Rightarrow> plan \<Rightarrow> pending_delivery" where
  "pending_of e r key mapped es p =
     (let prev = (case es of None \<Rightarrow> [] | Some x \<Rightarrow> es_payload x) in
      \<lparr>pd_row = r, pd_key = key, pd_mapped = mapped,
       pd_prev_fp = (case es of None \<Rightarrow> [] | Some x \<Rightarrow> es_fp x),
       pd_cur_fp = row_fingerprint (en_spec e) mapped, pd_prev_payload = prev, pd_es = es,
       pd_plan = p, pd_first_seen = (es = None),
       pd_changed = map fst (diff_compute prev mapped)\<rparr>)"

definition process_row ::
  "('st, 'w) run_env \<Rightarrow> row \<Rightarrow> ('st, 'w) run_state \<Rightarrow> ('st, 'w) run_state" where
  "process_row e r s0 =
     (let s1 = note_watermark r (upd_stats add_extracted s0); spec = en_spec e in
      if missing_required (row_data r) (sp_required spec) \<noteq> [] then upd_stats (add_skipped 1) s1
      else
        let mapped = mapped_row spec (row_data r);
            key = sprint_v (get_or_nil (row_data r) (so_entity_key (sp_source spec))) in
        if key = [] \<or> key = ''<nil>'' then upd_stats (add_skipped 1) s1
        else
          let s2 = s1\<lparr>rn_seen := insert_key key (rn_seen s1)\<rparr> in
          case st_get (en_ops e) (sp_name spec) (en_dest e) key (rn_store s2) of
            Inl _ \<Rightarrow> upd_stats add_errored s2
          | Inr es \<Rightarrow>
              (case decide e key mapped es (rn_store s2) of
                 Inl _ \<Rightarrow> upd_stats add_errored s2
               | Inr p \<Rightarrow>
                   let ev = decision_event_of e key p;
                       s3 = do_store (st_record (en_ops e) (en_now e) ev) s2;
                       s4 = s3\<lparr>rn_art := art_decision ev (rn_art s3)\<rparr> in
                   if plan_skipped p then
                     (upd_stats (add_skipped 1) s4)\<lparr>rn_art := art_skip key (rn_art s4)\<rparr>
                   else
                     let pd = pending_of e r key mapped es p in
                     s4\<lparr>rn_changes := foldl bump (rn_changes s4) (pd_changed pd),
                        rn_pending := rn_pending s4 @ [pd]\<rparr>))"

text \<open>The loop over the channel; it stops when the context is found done.\<close>

fun phase1 :: "('st, 'w) run_env \<Rightarrow> row list \<Rightarrow> ('st, 'w) run_state \<Rightarrow> ('st, 'w) run_state" where
  "phase1 e [] s = s"
| "phase1 e (r # rs) s =
     (case run_poll s of (stop, s1) \<Rightarrow> if stop then s1 else phase1 e rs (process_row e r s1))"

subsection \<open>The safety gates between the phases\<close>

definition pending_counts :: "pending_delivery list \<Rightarrow> run_counts" where
  "pending_counts pds = foldl (\<lambda>c pd. record_action (pl_action (pd_plan pd)) c) counts_zero pds"

definition fail_run :: "string \<Rightarrow> run_stats \<Rightarrow> run_stats" where
  "fail_run msg st = st\<lparr>rs_status := ''failed'', rs_error := msg\<rparr>"

definition approval_message :: "string \<Rightarrow> string \<Rightarrow> string" where
  "approval_message reason hash =
     ''approval required: '' @ reason @ '' '' @ em_dash @ '' re-run with --approve-snapshot '' @ hash"

definition safety_gate ::
  "('st, 'w) run_env \<Rightarrow> ('st, 'w) run_state \<Rightarrow> go_error option \<times> ('st, 'w) run_state" where
  "safety_gate e s0 =
     (let spec = en_spec e;
          s = upd_stats (\<lambda>st. st\<lparr>rs_watermark := rn_max_wm s0, rs_changes := rn_changes s0\<rparr>) s0 in
      case check_field_ratios (sp_safety spec) (rn_changes s) (rs_extracted (rn_stats s)) of
        Inl err \<Rightarrow> (Some err, upd_stats (fail_run (err_text err)) (do_store (st_rollback (en_ops e)) s))
      | Inr _ \<Rightarrow>
          let c = pending_counts (rn_pending s); (needed, reason) = approval_required (sp_safety spec) c;
              hash = approval_hash (sp_name spec) (en_dest e) c in
          if needed \<and> en_approval e \<noteq> hash then
            (Some (ErrMsg (approval_message reason hash)),
             upd_stats (\<lambda>st. (fail_run (approval_message reason hash) st)
                 \<lparr>rs_approval := True, rs_approval_hash := hash\<rparr>)
               (do_store (st_rollback (en_ops e)) s))
          else (None, s))"

subsection \<open>Phase 2: deliveries\<close>

definition delivery_row :: "('st, 'w) run_env \<Rightarrow> pending_delivery \<Rightarrow> row" where
  "delivery_row e pd = row_zero\<lparr>
     row_id := delivery_op_key (sp_name (en_spec e)) (en_dest e) (pd_key pd)
                 (pl_action (pd_plan pd)) (pd_cur_fp pd),
     row_key := pd_key pd, row_data := pd_mapped pd, row_watermark := row_watermark (pd_row pd)\<rparr>"

definition new_state_of ::
  "('st, 'w) run_env \<Rightarrow> pending_delivery \<Rightarrow> string \<Rightarrow> string \<Rightarrow> entity_state" where
  "new_state_of e pd status dest_id =
     (build_entity_state (sp_name (en_spec e)) (en_dest e) (pd_key pd) (pd_prev_fp pd)
        (pd_cur_fp pd) (pd_prev_payload pd) (pd_mapped pd) (pd_es pd) (pd_plan pd) status)
     \<lparr>es_dest_id := dest_id\<rparr>"

definition old_dest_id :: "pending_delivery \<Rightarrow> string" where
  "old_dest_id pd = (case pd_es pd of None \<Rightarrow> [] | Some es \<Rightarrow> es_dest_id es)"

definition save_failed ::
  "('st, 'w) run_env \<Rightarrow> pending_delivery \<Rightarrow> ('st, 'w) run_state \<Rightarrow> ('st, 'w) run_state" where
  "save_failed e pd s =
     (if en_dry_run e then s
      else do_store (st_save (en_ops e) (en_now e) (new_state_of e pd ''failed'' (old_dest_id pd))) s)"

definition write_dlq ::
  "('st, 'w) run_env \<Rightarrow> row \<Rightarrow> string \<Rightarrow> go_error \<Rightarrow> ('st, 'w) run_state \<Rightarrow> ('st, 'w) run_state" where
  "write_dlq e r key err s = s\<lparr>rn_dlq := dlq_write (en_now e) r key err (rn_dlq s)\<rparr>"

text \<open>The load as a whole failed.\<close>

definition load_failed ::
  "('st, 'w) run_env \<Rightarrow> pending_delivery \<Rightarrow> go_error \<Rightarrow> ('st, 'w) run_state \<Rightarrow> ('st, 'w) run_state" where
  "load_failed e pd err s0 =
     (let s1 = upd_stats add_errored s0;
          s2 = (if dlq_enabled (rn_dlq s1) then write_dlq e (delivery_row e pd) (pd_key pd) err s1
                else if rn_error s1 = None \<and> to_lower (er_on_error (sp_errors (en_spec e))) \<noteq> ''skip''
                then s1\<lparr>rn_error := Some err\<rparr> else s1)
      in save_failed e pd s2)"

text \<open>One row error of a load that returned.\<close>

definition row_failed ::
  "('st, 'w) run_env \<Rightarrow> pending_delivery \<Rightarrow> ('st, 'w) run_state \<Rightarrow> row_error \<Rightarrow> ('st, 'w) run_state" where
  "row_failed e pd s0 re =
     (let s1 = upd_stats add_errored s0;
          s2 = (if dlq_enabled (rn_dlq s1)
                then write_dlq e (delivery_row e pd) (pd_key pd) (re_err re) s1 else s1)
      in save_failed e pd s2)"

definition once_rules :: "sync_spec \<Rightarrow> plan \<Rightarrow> string list" where
  "once_rules spec p =
     concat (map (\<lambda>name. map (\<lambda>_. name)
       (filter (\<lambda>rc. ru_name rc = name \<and> ru_once rc) (dc_rules (sp_decisions spec)))) (pl_rules p))"

definition persist_delivery ::
  "('st, 'w) run_env \<Rightarrow> pending_delivery \<Rightarrow> string \<Rightarrow> ('st, 'w) run_state \<Rightarrow> ('st, 'w) run_state" where
  "persist_delivery e pd returned_id s =
     (if en_dry_run e then s
      else
        let dest_id = (if returned_id = [] then old_dest_id pd else returned_id);
            s1 = do_store (st_save (en_ops e) (en_now e) (new_state_of e pd ''success'' dest_id)) s
        in foldl (\<lambda>s rule. do_store (st_mark_fired (en_ops e) (en_now e) (sp_name (en_spec e))
                    (en_dest e) (pd_key pd) rule) s) s1 (once_rules (en_spec e) (pd_plan pd)))"

definition record_sample ::
  "('st, 'w) run_env \<Rightarrow> pending_delivery \<Rightarrow> ('st, 'w) run_state \<Rightarrow> ('st, 'w) run_state" where
  "record_sample e pd s =
     (let sample = redact_payload (pd_mapped pd) (redacted_fields (sp_mapping (en_spec e))) in
      s\<lparr>rn_art := (if pd_first_seen pd then art_create (pd_key pd) sample (rn_art s)
                   else art_update (pd_key pd) sample (pd_changed pd) (rn_art s))\<rparr>)"

definition delivered_ok ::
  "('st, 'w) run_env \<Rightarrow> pending_delivery \<Rightarrow> string \<Rightarrow> ('st, 'w) run_state \<Rightarrow> ('st, 'w) run_state" where
  "delivered_ok e pd returned_id s =
     (let s1 = record_sample e pd (persist_delivery e pd returned_id s)
      in s1\<lparr>rn_counts := record_action (pl_action (pd_plan pd)) (rn_counts s1)\<rparr>)"

definition deliver_one ::
  "('st, 'w) run_env \<Rightarrow> pending_delivery \<Rightarrow> ('st, 'w) run_state \<Rightarrow> ('st, 'w) run_state" where
  "deliver_one e pd s0 =
     (case allow (sp_safety (en_spec e)) (pl_action (pd_plan pd)) (rn_counts s0) of
        Inl _ \<Rightarrow> upd_stats (add_skipped 1) s0
      | Inr _ \<Rightarrow>
          (case en_load e of
             None \<Rightarrow> delivered_ok e pd [] (upd_stats (add_loaded 1) s0)
           | Some load \<Rightarrow>
               (case load [delivery_row e pd] (sp_name (en_spec e)) (en_dest e) (rn_sys s0) of
                  ((res, err), y) \<Rightarrow>
                    let s1 = upd_stats (add_skipped (lr_skipped res))
                               (upd_stats (add_loaded (lr_loaded res)) (s0\<lparr>rn_sys := y\<rparr>)) in
                    (case err of
                       Some x \<Rightarrow> load_failed e pd x s1
                     | None \<Rightarrow>
                         if lr_loaded res = 0 \<and> lr_skipped res > 0 \<and> lr_errors res = [] then s1
                         else
                           let s2 = foldl (row_failed e pd) s1 (lr_errors res) in
                           if lr_errors res \<noteq> [] \<and> lr_loaded res = 0 then s2
                           else delivered_ok e pd
                                  (get_opt (lr_dest_ids res) (row_id (delivery_row e pd))) s2))))"

fun phase2 ::
  "('st, 'w) run_env \<Rightarrow> pending_delivery list \<Rightarrow> ('st, 'w) run_state \<Rightarrow> ('st, 'w) run_state" where
  "phase2 e [] s = s"
| "phase2 e (pd # pds) s =
     (case run_poll s of (stop, s1) \<Rightarrow> if stop then s1 else phase2 e pds (deliver_one e pd s1))"

definition store_counts :: "('st, 'w) run_state \<Rightarrow> ('st, 'w) run_state" where
  "store_counts s = upd_stats (\<lambda>st. st\<lparr>rs_creates := rc_creates (rn_counts s),
     rs_updates := rc_updates (rn_counts s), rs_deletes := rc_deletes (rn_counts s)\<rparr>) s"

subsection \<open>Entities missing from the source: processMissingEntities\<close>

definition missing_threshold :: "sync_spec \<Rightarrow> int" where
  "missing_threshold spec = (if om_after (sp_missing spec) \<le> 0 then 1 else om_after (sp_missing spec))"

definition save_missing ::
  "('st, 'w) run_env \<Rightarrow> entity_state \<Rightarrow> ('st, 'w) run_state \<Rightarrow> ('st, 'w) run_state" where
  "save_missing e es s =
     do_store (st_save (en_ops e) (en_now e) (es\<lparr>es_updated := en_now e\<rparr>)) s"

definition missing_event :: "('st, 'w) run_env \<Rightarrow> string \<Rightarrow> string \<Rightarrow> decision_event" where
  "missing_event e key action =
     \<lparr>ev_id = 0, ev_sync = sp_name (en_spec e), ev_dest = en_dest e, ev_key = key,
      ev_run = en_run e, ev_decision = action, ev_rules = [],
      ev_reasons = [''missing from source''], ev_created = time_zero\<rparr>"

text \<open>One load for a missing entity; the row errors of the result are not looked at.\<close>

definition load_missing ::
  "('st, 'w) run_env \<Rightarrow> row \<Rightarrow> ('st, 'w) loader \<Rightarrow> ('st, 'w) run_state \<Rightarrow> bool \<times> ('st, 'w) run_state" where
  "load_missing e r load s =
     (case load [r] (sp_name (en_spec e)) (en_dest e) (rn_sys s) of
        ((res, err), y) \<Rightarrow>
          let s1 = upd_stats (add_loaded (lr_loaded res)) (s\<lparr>rn_sys := y\<rparr>) in
          (case err of
             None \<Rightarrow> (True, s1)
           | Some x \<Rightarrow>
               let s2 = upd_stats add_errored s1 in
               (False, if dlq_enabled (rn_dlq s2) then write_dlq e r (row_key r) x s2 else s2)))"

definition delete_row :: "entity_state \<Rightarrow> row" where
  "delete_row es = row_zero\<lparr>row_id := es_key es, row_key := es_key es, row_data := es_payload es,
     row_meta := [(''_action'', GStr ''delete'')]\<rparr>"

definition clear_row :: "string list \<Rightarrow> entity_state \<Rightarrow> row" where
  "clear_row fs es = row_zero\<lparr>row_id := es_key es, row_key := es_key es,
     row_data := foldl (\<lambda>m f. aput f GNil m) (es_payload es) fs\<rparr>"

text \<open>The counter of deletes is threaded with the state of the run.\<close>

definition missing_delete ::
  "('st, 'w) run_env \<Rightarrow> entity_state \<Rightarrow> int \<times> ('st, 'w) run_state \<Rightarrow> int \<times> ('st, 'w) run_state" where
  "missing_delete e es ns =
     (let (n, s) = ns; spec = en_spec e; cap = sf_max_deletes (sp_safety spec) in
      if \<not> om_allow (sp_missing spec) then (n, save_missing e es s)
      else if cap > 0 \<and> n \<ge> cap then (n, save_missing e es s)
      else
        let (ok, s1) = (case en_load e of None \<Rightarrow> (False, s) | Some load \<Rightarrow> load_missing e (delete_row es) load s);
            s2 = do_store (st_record (en_ops e) (en_now e) (missing_event e (es_key es) ''delete'')) s1
        in (if ok then n + 1 else n,
            save_missing e (es\<lparr>es_decision := ''delete'', es_missing := 0\<rparr>) s2))"

definition missing_clear ::
  "('st, 'w) run_env \<Rightarrow> entity_state \<Rightarrow> int \<times> ('st, 'w) run_state \<Rightarrow> int \<times> ('st, 'w) run_state" where
  "missing_clear e es ns =
     (let (n, s) = ns; fs = om_fields (sp_missing (en_spec e));
          s1 = (case en_load e of None \<Rightarrow> s
                | Some load \<Rightarrow> if fs = [] then s else snd (load_missing e (clear_row fs es) load s));
          s2 = do_store (st_record (en_ops e) (en_now e) (missing_event e (es_key es) ''clear_fields'')) s1
      in (n, save_missing e (es\<lparr>es_decision := ''clear_fields''\<rparr>) s2))"

definition missing_one ::
  "('st, 'w) run_env \<Rightarrow> int \<times> ('st, 'w) run_state \<Rightarrow> entity_state \<Rightarrow> int \<times> ('st, 'w) run_state" where
  "missing_one e ns es0 =
     (if es_key es0 \<in> set (rn_seen (snd ns)) then ns
      else
        let es = es0\<lparr>es_missing := es_missing es0 + 1\<rparr>; spec = en_spec e;
            action = to_lower (om_action (sp_missing spec)) in
        if es_missing es < missing_threshold spec then (fst ns, save_missing e es (snd ns))
        else if action = ''delete'' then missing_delete e es ns
        else if action = ''clear_fields'' then missing_clear e es ns
        else (fst ns, save_missing e es (snd ns)))"

definition missing_page_size :: int where
  "missing_page_size = 500"

text \<open>
  The loop over the pages, one unit of fuel per page. A page that is not full is the last one.
  The answer is the error of the listing, if any.
\<close>

fun missing_pages ::
  "nat \<Rightarrow> ('st, 'w) run_env \<Rightarrow> int \<Rightarrow> int \<times> ('st, 'w) run_state
     \<Rightarrow> (go_error option \<times> ('st, 'w) run_state) option" where
  "missing_pages 0 e off ns = None"
| "missing_pages (Suc fuel) e off ns =
     (case st_list (en_ops e) (sp_name (en_spec e)) (en_dest e) missing_page_size off (rn_store (snd ns)) of
        Inl err \<Rightarrow> Some (Some (ErrWrap ''list entity states'' err), snd ns)
      | Inr page \<Rightarrow>
          let ns1 = foldl (missing_one e) ns page in
          if int (length page) < missing_page_size then Some (None, snd ns1)
          else missing_pages fuel e (off + missing_page_size) ns1)"

definition process_missing ::
  "nat \<Rightarrow> ('st, 'w) run_env \<Rightarrow> ('st, 'w) run_state \<Rightarrow> (go_error option \<times> ('st, 'w) run_state) option" where
  "process_missing fuel e s = missing_pages fuel e 0 (0, s)"

subsection \<open>The end of a run\<close>

text \<open>
  After the deliveries: missing entities when an action is configured and the context is live,
  the commit of the batch, the error of the extraction, the final status and the failure alert.
\<close>

definition missing_phase ::
  "nat \<Rightarrow> ('st, 'w) run_env \<Rightarrow> ('st, 'w) run_state \<Rightarrow> ('st, 'w) run_state option" where
  "missing_phase fuel e s =
     (if om_action (sp_missing (en_spec e)) = [] then Some s
      else case run_poll s of
             (stop, s1) \<Rightarrow> if stop then Some s1 else map_option snd (process_missing fuel e s1))"

definition final_status :: "bool \<Rightarrow> go_error option \<Rightarrow> run_stats \<Rightarrow> run_stats" where
  "final_status cancelled err st =
     (if cancelled then st\<lparr>rs_status := ''timeout''\<rparr>
      else case err of None \<Rightarrow> st | Some x \<Rightarrow> fail_run (err_text x) st)"

definition send_alert ::
  "('st, 'w) run_env \<Rightarrow> go_error option \<Rightarrow> ('st, 'w) run_state \<Rightarrow> ('st, 'w) run_state" where
  "send_alert e err s =
     (case err of
        None \<Rightarrow> s
      | Some x \<Rightarrow>
          if er_webhook (sp_errors (en_spec e)) = [] then s
          else s\<lparr>rn_sys := (rn_sys s)\<lparr>sy_world := en_alert e x (rn_world s)\<rparr>\<rparr>)"

definition first_error :: "go_error option \<Rightarrow> go_error option \<Rightarrow> go_error option" where
  "first_error load_err extract_err =
     (case load_err of Some x \<Rightarrow> Some x
      | None \<Rightarrow> (case extract_err of None \<Rightarrow> None
                 | Some x \<Rightarrow> if is_ctx_error x then None else Some x))"

definition close_run ::
  "('st, 'w) run_env \<Rightarrow> go_error option \<Rightarrow> ('st, 'w) run_state \<Rightarrow> go_error option \<times> ('st, 'w) run_state" where
  "close_run e extract_err s =
     (case st_commit (en_ops e) (rn_store s) of
        (Inl err, st) \<Rightarrow>
          (Some err, upd_stats (fail_run (err_text err)) (do_store (st_rollback (en_ops e)) (set_store st s)))
      | (Inr _, st) \<Rightarrow>
          let first = first_error (rn_error s) extract_err;
              (cancelled, s1) = run_poll (set_store st s);
              s2 = upd_stats (final_status cancelled first) (s1\<lparr>rn_error := first\<rparr>)
          in (first, send_alert e first s2))"

definition run_phases ::
  "nat \<Rightarrow> ('st, 'w) run_env \<Rightarrow> row list \<Rightarrow> go_error option \<Rightarrow> ('st, 'w) run_state
     \<Rightarrow> (go_error option \<times> ('st, 'w) run_state) option" where
  "run_phases fuel e rows extract_err s =
     (case safety_gate e (phase1 e rows s) of
        (Some err, s1) \<Rightarrow> Some (Some err, s1)
      | (None, s1) \<Rightarrow>
          (case missing_phase fuel e (store_counts (phase2 e (rn_pending s1) s1)) of
             None \<Rightarrow> None
           | Some s2 \<Rightarrow> Some (close_run e extract_err s2)))"

subsection \<open>A whole run: runOnce\<close>

text \<open>
  \<open>eg_override\<close> is the dry-run destination. Opening the connectors is the registry's and the
  connectors' business, and a parameter; so is the extraction, from the watermark on, and the
  delivery of the failure alert.
\<close>

record ('st, 'w) engine =
  eg_ops :: "'st store_ops"
  eg_override :: "('st, 'w) loader option"
  eg_dry_run :: bool
  eg_approval :: string
  eg_open_dest :: "sync_spec \<Rightarrow> ('st, 'w) loader res"
  eg_open_source :: "sync_spec \<Rightarrow> (go_time \<Rightarrow> row list \<times> go_error option) res"
  eg_owner :: string
  eg_now :: go_time
  eg_dlq_fault :: "go_error option"
  eg_alert :: "string \<Rightarrow> string \<Rightarrow> go_error \<Rightarrow> 'w \<Rightarrow> 'w"

definition set_dry_run_destination :: "('st, 'w) loader \<Rightarrow> ('st, 'w) engine \<Rightarrow> ('st, 'w) engine" where
  "set_dry_run_destination l g = g\<lparr>eg_override := Some l, eg_dry_run := True\<rparr>"

definition set_approval_hash :: "string \<Rightarrow> ('st, 'w) engine \<Rightarrow> ('st, 'w) engine" where
  "set_approval_hash h g = g\<lparr>eg_approval := h\<rparr>"

definition open_dest :: "('st, 'w) engine \<Rightarrow> sync_spec \<Rightarrow> ('st, 'w) loader res" where
  "open_dest g s = (case eg_override g of Some l \<Rightarrow> Inr l | None \<Rightarrow> eg_open_dest g s)"

text \<open>The high watermark of the last successful run that saw one; a failing query reads as none.\<close>

definition previous_watermark :: "'st store_ops \<Rightarrow> sync_spec \<Rightarrow> 'st \<Rightarrow> go_time" where
  "previous_watermark ops s st =
     (if so_watermark (sp_source s) = None then time_zero
      else case st_run_history ops (sp_name s) 10 st of
             Inl _ \<Rightarrow> time_zero
           | Inr hist \<Rightarrow>
               (case List.find (\<lambda>r. rl_status r = ''success'' \<and> \<not> is_zero (rl_watermark r)) hist of
                  None \<Rightarrow> time_zero | Some r \<Rightarrow> rl_watermark r))"

definition stats_init :: run_stats where
  "stats_init = \<lparr>rs_extracted = 0, rs_loaded = 0, rs_skipped = 0, rs_errored = 0,
     rs_watermark = time_zero, rs_status = ''success'', rs_error = [], rs_creates = 0,
     rs_updates = 0, rs_deletes = 0, rs_changes = [], rs_approval = False, rs_approval_hash = []\<rparr>"

definition run_init ::
  "('st, 'w) engine \<Rightarrow> sync_spec \<Rightarrow> int \<Rightarrow> ('st, 'w) sys \<Rightarrow> ('st, 'w) run_state" where
  "run_init g s run y =
     \<lparr>rn_sys = y, rn_stats = stats_init,
      rn_art = art_new \<lparr>ar_base = ac_path (sp_artifacts s), ar_sync = sp_name s, ar_run = run,
                 ar_max_samples = ac_max_samples (sp_artifacts s)\<rparr>,
      rn_dlq = new_dlq (sp_name s) (resolved_dlq_path (sp_errors s)) (eg_dlq_fault g),
      rn_seen = [], rn_pending = [], rn_changes = [], rn_max_wm = time_zero,
      rn_counts = counts_zero, rn_error = None\<rparr>"

definition env_of :: "('st, 'w) engine \<Rightarrow> sync_spec \<Rightarrow> ('st, 'w) loader \<Rightarrow> int \<Rightarrow> ('st, 'w) run_env" where
  "env_of g s load run =
     \<lparr>en_ops = eg_ops g, en_load = Some load, en_spec = s, en_dest = de_type (sp_dest s),
      en_dry_run = eg_dry_run g, en_approval = eg_approval g, en_now = eg_now g, en_run = run,
      en_alert = eg_alert g (sp_name s) (er_webhook (sp_errors s))\<rparr>"

text \<open>The deferred calls: the run log is finished, then the lock released, whatever happened.\<close>

definition finish_deferred ::
  "('st, 'w) engine \<Rightarrow> sync_spec \<Rightarrow> int \<Rightarrow> ('st, 'w) run_state \<Rightarrow> ('st, 'w) run_state" where
  "finish_deferred g s run st =
     do_store (st_unlock (eg_ops g) (sp_name s))
       (do_store (st_finish_run (eg_ops g) (eg_now g) run (rn_stats st)) st)"

record ('st, 'w) run_result =
  rr_error :: "go_error option"
  rr_stats :: "run_stats option"
  rr_sys :: "('st, 'w) sys"

definition early :: "go_error \<Rightarrow> ('st, 'w) sys \<Rightarrow> ('st, 'w) run_result option" where
  "early err y = Some \<lparr>rr_error = Some err, rr_stats = None, rr_sys = y\<rparr>"

definition lock_ttl :: int where
  "lock_ttl = 600 * second_ns"

definition dry_run_required_error :: go_error where
  "dry_run_required_error = ErrMsg (''safety: dry_run_required is set '' @ em_dash
     @ '' use 'dry-run' instead of 'run'' @ [CHR 0x27])"

text \<open>The part between \<open>StartRun\<close> and the deferred calls.\<close>

definition run_body ::
  "nat \<Rightarrow> ('st, 'w) engine \<Rightarrow> sync_spec \<Rightarrow> ('st, 'w) loader
     \<Rightarrow> (go_time \<Rightarrow> row list \<times> go_error option) \<Rightarrow> int \<Rightarrow> ('st, 'w) sys
     \<Rightarrow> (go_error option \<times> ('st, 'w) run_state) option" where
  "run_body fuel g s load extract run y =
     (let r0 = run_init g s run y in
      case st_begin (eg_ops g) (rn_store r0) of
        (Inl err, st) \<Rightarrow> Some (Some err, upd_stats (fail_run (err_text err)) (set_store st r0))
      | (Inr _, st) \<Rightarrow>
          let r1 = set_store st r0;
              (rows, extract_err) = extract (previous_watermark (eg_ops g) s (rn_store r1))
          in run_phases fuel (env_of g s load run) rows extract_err r1)"

definition run_once ::
  "nat \<Rightarrow> ('st, 'w) engine \<Rightarrow> sync_spec \<Rightarrow> ('st, 'w) sys \<Rightarrow> ('st, 'w) run_result option" where
  "run_once fuel g s y =
     (case open_dest g s of
        Inl err \<Rightarrow> early err y
      | Inr load \<Rightarrow>
          if sf_dry_run_required (sp_safety s) \<and> eg_override g = None then early dry_run_required_error y
          else case eg_open_source g s of
            Inl err \<Rightarrow> early err y
          | Inr extract \<Rightarrow>
              (case st_lock (eg_ops g) (eg_now g) (sp_name s) (eg_owner g) lock_ttl (sy_store y) of
                 (Inl err, st) \<Rightarrow> early err (y\<lparr>sy_store := st\<rparr>)
               | (Inr _, st) \<Rightarrow>
                   (case st_start_run (eg_ops g) (eg_now g) (sp_name s) ''batch'' st of
                      (Inl err, st1) \<Rightarrow>
                        early err (y\<lparr>sy_store := snd (st_unlock (eg_ops g) (sp_name s) st1)\<rparr>)
                    | (Inr run, st1) \<Rightarrow>
                        map_option (\<lambda>(err, r).
                            \<lparr>rr_error = err, rr_stats = Some (rn_stats r),
                             rr_sys = rn_sys (finish_deferred g s run r)\<rparr>)
                          (run_body fuel g s load extract run (y\<lparr>sy_store := st1\<rparr>)))))"

end
