(* ===== verification/Http_Request.thy ===== *)
theory Http_Request
  imports Http Delivery
begin

section \<open>Requests and their credentials: net/http as the destinations use it, auth.go\<close>

text \<open>
  The request a destination builds (method, URL, headers, query parameters set by the
  authentication, body), what the authenticators do to it, and the environment the HTTP
  destinations run in: the client, the clock, the timers, the parser of URLs.
\<close>

record http_request =
  hq_method :: string
  hq_url :: string
  hq_headers :: "(string \<times> string) list"
  hq_query :: "(string \<times> string) list"
  hq_body :: string

text \<open>
  The canonical form of a header name, by which \<open>Header.Set\<close> stores: upper case at the start
  and after a hyphen, lower case elsewhere; a name with a byte no token has is left alone.
\<close>

definition token_char :: "char \<Rightarrow> bool" where
  "token_char c \<longleftrightarrow> (let n = of_char c :: nat in
     (48 \<le> n \<and> n \<le> 57) \<or> (65 \<le> n \<and> n \<le> 90) \<or> (97 \<le> n \<and> n \<le> 122)
     \<or> c \<in> set ''!#$%&*+-.^_`|~'' \<or> n = 39)"

fun canonical_from :: "bool \<Rightarrow> string \<Rightarrow> string" where
  "canonical_from up [] = []"
| "canonical_from up (c # cs) =
     (if up then upper_char c else lower_char c) # canonical_from (c = CHR ''-'') cs"

definition canonical_header :: "string \<Rightarrow> string" where
  "canonical_header k = (if k \<noteq> [] \<and> list_all token_char k then canonical_from True k else k)"

definition set_header :: "string \<Rightarrow> string \<Rightarrow> http_request \<Rightarrow> http_request" where
  "set_header k v q = q\<lparr>hq_headers := aput (canonical_header k) v (hq_headers q)\<rparr>"

subsection \<open>Base64, for basic authentication\<close>

definition base64_char :: "nat \<Rightarrow> char" where
  "base64_char n =
     (''ABCDEFGHIJKLMNOPQRSTUVWXYZabcdefghijklmnopqrstuvwxyz0123456789+/'' ! n)"

fun base64 :: "string \<Rightarrow> string" where
  "base64 [] = []"
| "base64 [a] =
     (let x = of_char a :: nat in
      [base64_char (x div 4), base64_char (x mod 4 * 16), CHR ''='', CHR ''=''])"
| "base64 [a, b] =
     (let x = of_char a :: nat; y = of_char b :: nat in
      [base64_char (x div 4), base64_char (x mod 4 * 16 + y div 16),
       base64_char (y mod 16 * 4), CHR ''=''])"
| "base64 (a # b # c # s) =
     (let x = of_char a :: nat; y = of_char b :: nat; z = of_char c :: nat in
      base64_char (x div 4) # base64_char (x mod 4 * 16 + y div 16)
        # base64_char (y mod 16 * 4 + z div 64) # base64_char (z mod 64) # base64 s)"

lemma length_base64: "length (base64 s) = 4 * ((length s + 2) div 3)"
proof (induction s rule: base64.induct)
  case (4 a b c s)
  have "(length (a # b # c # s) + 2) div 3 = Suc ((length s + 2) div 3)" by simp
  then show ?case by (simp add: Let_def 4)
qed (simp_all add: Let_def)

subsection \<open>The environment of the HTTP destinations\<close>

text \<open>
  The client answers a status and a body, or a transport error. The token server is asked with
  the credentials of the authenticator. A response body that cannot be read reads as empty.
\<close>

record 'w http_env =
  hx_send :: "http_request \<Rightarrow> 'w \<Rightarrow> (int \<times> string) res \<times> 'w"
  hx_now :: "'w \<Rightarrow> go_time"
  hx_sleep :: "int \<Rightarrow> 'w \<Rightarrow> 'w"
  hx_wait_token :: "'w \<Rightarrow> 'w"
  hx_token :: "authenticator \<Rightarrow> 'w token_server"
  hx_request_error :: "string \<Rightarrow> string \<Rightarrow> go_error option"
  hx_parse_uri :: "string \<Rightarrow> go_error option"
  hx_parse_duration :: "string \<Rightarrow> int res"

definition new_request ::
  "'w http_env \<Rightarrow> string \<Rightarrow> string \<Rightarrow> string \<Rightarrow> http_request res" where
  "new_request x meth url body =
     (case hx_request_error x meth url of
        Some e \<Rightarrow> Inl e
      | None \<Rightarrow> Inr \<lparr>hq_method = meth, hq_url = url, hq_headers = [], hq_query = [], hq_body = body\<rparr>)"

text \<open>\<open>Apply\<close>: a failed token request fails the whole application and leaves the cache alone.\<close>

definition apply_auth ::
  "'w http_env \<Rightarrow> authenticator \<Rightarrow> http_request \<Rightarrow> token_cache \<Rightarrow> 'w
     \<Rightarrow> http_request res \<times> token_cache \<times> 'w" where
  "apply_auth x a q tc w =
     (case a of
        BearerAuth t \<Rightarrow> (Inr (set_header ''Authorization'' (''Bearer '' @ t) q), tc, w)
      | APIKeyAuth k v in_header \<Rightarrow>
          (Inr (if in_header then set_header k v q else q\<lparr>hq_query := aput k v (hq_query q)\<rparr>), tc, w)
      | BasicAuth u p \<Rightarrow>
          (Inr (set_header ''Authorization'' (''Basic '' @ base64 (u @ '':'' @ p)) q), tc, w)
      | OAuth2 _ _ _ _ \<Rightarrow>
          (case get_token (hx_token x a) (hx_now x w) tc w of
             (Inl e, tc', w') \<Rightarrow> (Inl e, tc', w')
           | (Inr t, tc', w') \<Rightarrow> (Inr (set_header ''Authorization'' (''Bearer '' @ t) q), tc', w')))"

subsection \<open>Waiting\<close>

text \<open>
  The select of the retry loop and that of the rate limiter: the context wins when it is done.
\<close>

definition sleep_ctx :: "('w \<Rightarrow> 'w) \<Rightarrow> ('st, 'w) sys \<Rightarrow> go_error option \<times> ('st, 'w) sys" where
  "sleep_ctx advance s =
     (case poll s of
        (True, s1) \<Rightarrow> (Some ErrCanceled, s1)
      | (False, s1) \<Rightarrow> (None, s1\<lparr>sy_world := advance (sy_world s1)\<rparr>))"

lemma sleep_ctx_live:
  "sy_ctx s = None \<Longrightarrow> sleep_ctx f s = (None, s\<lparr>sy_world := f (sy_world s)\<rparr>)"
  by (simp add: sleep_ctx_def poll_never)

lemma sleep_ctx_store [simp]: "sy_store (snd (sleep_ctx f s)) = sy_store s"
  by (simp add: sleep_ctx_def split: prod.splits bool.splits)
     (metis poll_frame(1) snd_conv)+

text \<open>A retry loop keeps whatever its requests and its sleeps keep.\<close>

lemma retry_loop_keeps:
  assumes "\<And>w. P w \<Longrightarrow> P (snd (request w))" "\<And>d w. P w \<Longrightarrow> P (snd (sleep d w))"
  shows "P w \<Longrightarrow> P (snd (retry_loop c request sleep a left code w))"
proof (induction left arbitrary: a code w)
  case (Suc left)
  obtain cd err w1 where r: "request w = ((cd, err), w1)" by (metis surj_pair)
  have p1: "P w1" using assms(1) [OF Suc.prems] r by simp
  obtain e w2 where s: "sleep (backoff_ns (rt_backoff_ms c) a) w1 = (e, w2)" by fastforce
  have p2: "P w2" using assms(2) [OF p1, of "backoff_ns (rt_backoff_ms c) a"] s by simp
  show ?case using p1 p2 Suc.IH by (auto simp: r s split: option.splits)
qed simp

lemma retry_loop_no_ctx_error:
  assumes "\<And>w. P w \<Longrightarrow> P (snd (request w))" "\<And>d w. P w \<Longrightarrow> P (snd (sleep d w)) \<and> fst (sleep d w) = None"
  shows "P w \<Longrightarrow> retry_loop c request sleep a left code w = (Some e, w') \<Longrightarrow> \<not> is_ctx_error e"
proof (induction left arbitrary: a code w)
  case (Suc left)
  obtain cd err w1 where r: "request w = ((cd, err), w1)" by (metis surj_pair)
  have p1: "P w1" using assms(1) [OF Suc.prems(1)] r by simp
  obtain w2 where s: "sleep (backoff_ns (rt_backoff_ms c) a) w1 = (None, w2)"
    using assms(2) [OF p1, of "backoff_ns (rt_backoff_ms c) a"] by (metis prod.collapse)
  have p2: "P w2" using assms(2) [OF p1, of "backoff_ns (rt_backoff_ms c) a"] s by simp
  show ?case using Suc.prems(2) Suc.IH [OF p1] Suc.IH [OF p2]
    by (auto simp: r s is_circuit_open_def is_ctx_error_def permanent_failure_def exhausted_def
        dest: error_is_circuit split: option.splits if_splits)
qed (auto simp: is_ctx_error_def)

lemma do_with_retry_keeps:
  assumes "\<And>w. P w \<Longrightarrow> P (snd (request w))" "\<And>d w. P w \<Longrightarrow> P (snd (sleep d w))" "P w"
  shows "P (snd (do_with_retry c request sleep w))"
  unfolding do_with_retry_def Let_def by (rule retry_loop_keeps) (use assms in auto)

end
