(* ===== verification/Rest_Api.thy ===== *)
theory Rest_Api
  imports Http_Request Sqlite_Store
begin

section \<open>The REST API destination: internal/connector/destination/restapi.go\<close>

text \<open>
  \<open>Connect\<close>, \<open>Load\<close> and \<open>sendWithRetry\<close>. The world of the connector holds the breaker, the
  cached token and the remote side. The rows that are not delivered yet are sent one after the
  other (the code sends up to \<open>WriteParallelism\<close> of them at once; the engine loads one row at a
  time). The connector keeps the contract of a destination over both stores.
\<close>

record rest_conn =
  rc_cfg :: conn_dest
  rc_auth :: "authenticator option"
  rc_limiter :: "(bucket \<times> int) option"
  rc_breaker :: "breaker option"

record 'w rest_world =
  rw_breaker :: "breaker option"
  rw_token :: token_cache
  rw_remote :: 'w

definition rest_connect :: "'w http_env \<Rightarrow> conn_dest \<Rightarrow> rest_conn res" where
  "rest_connect x cfg =
     (if trim_space (cd_url cfg) = [] then Inl (ErrMsg ''rest api destination: url is required'')
      else case hx_parse_uri x (cd_url cfg) of
        Some e \<Rightarrow> Inl e
      | None \<Rightarrow>
          (case new_authenticator (cd_auth cfg) of
             Inl e \<Rightarrow> Inl e
           | Inr auth \<Rightarrow>
               (case new_rate_limiter (hx_parse_duration x) (cd_rate_limit cfg) of
                  Inl e \<Rightarrow> Inl e
                | Inr rl \<Rightarrow>
                    let c1 = (if trim_space (cd_method cfg) = [] then cfg\<lparr>cd_method := ''POST''\<rparr> else cfg);
                        c2 = (if cd_parallelism c1 \<le> 0 then c1\<lparr>cd_parallelism := 3\<rparr> else c1)
                    in Inr \<lparr>rc_cfg = c2, rc_auth = auth, rc_limiter = rl,
                            rc_breaker = new_breaker (cd_breaker cfg)\<rparr>)))"

definition rest_world_init :: "rest_conn \<Rightarrow> 'w \<Rightarrow> 'w rest_world" where
  "rest_world_init c w =
     \<lparr>rw_breaker = rc_breaker c, rw_token = \<lparr>tc_token = [], tc_expires = time_zero\<rparr>, rw_remote = w\<rparr>"

subsection \<open>One request\<close>

type_synonym ('st, 'w) rest_sys = "('st, 'w rest_world) sys"

definition set_world :: "'w \<Rightarrow> ('st, 'w) sys \<Rightarrow> ('st, 'w) sys" where
  "set_world w s = s\<lparr>sy_world := w\<rparr>"

definition allow_request :: "'w http_env \<Rightarrow> 'w rest_world \<Rightarrow> go_error option \<times> 'w rest_world" where
  "allow_request x w =
     (case rw_breaker w of
        None \<Rightarrow> (None, w)
      | Some b \<Rightarrow> (case breaker_allow (hx_now x (rw_remote w)) b of
                    (r, b') \<Rightarrow> (r, w\<lparr>rw_breaker := Some b'\<rparr>)))"

definition record_circuit_failure :: "'w http_env \<Rightarrow> 'w rest_world \<Rightarrow> 'w rest_world" where
  "record_circuit_failure x w =
     w\<lparr>rw_breaker := map_option (record_failure (hx_now x (rw_remote w))) (rw_breaker w)\<rparr>"

definition record_circuit_response :: "'w http_env \<Rightarrow> int \<Rightarrow> 'w rest_world \<Rightarrow> 'w rest_world" where
  "record_circuit_response x status w =
     (if status \<ge> 500 then record_circuit_failure x w
      else w\<lparr>rw_breaker := map_option record_success (rw_breaker w)\<rparr>)"

definition rest_wait ::
  "'w http_env \<Rightarrow> rest_conn \<Rightarrow> ('st, 'w) rest_sys \<Rightarrow> go_error option \<times> ('st, 'w) rest_sys" where
  "rest_wait x c s =
     (if rc_limiter c = None then (None, s)
      else sleep_ctx (\<lambda>w. w\<lparr>rw_remote := hx_wait_token x (rw_remote w)\<rparr>) s)"

definition rest_headers :: "rest_conn \<Rightarrow> string \<Rightarrow> http_request \<Rightarrow> http_request" where
  "rest_headers c rid q =
     foldl (\<lambda>q (k, v). set_header k v q)
       (set_header ''X-Idempotency-Key'' rid (set_header ''Content-Type'' ''application/json'' q))
       (cd_headers (rc_cfg c))"

definition rest_auth ::
  "'w http_env \<Rightarrow> rest_conn \<Rightarrow> http_request \<Rightarrow> 'w rest_world \<Rightarrow> http_request res \<times> 'w rest_world" where
  "rest_auth x c q w =
     (case rc_auth c of
        None \<Rightarrow> (Inr q, w)
      | Some a \<Rightarrow> (case apply_auth x a q (rw_token w) (rw_remote w) of
                    (r, tc, w') \<Rightarrow> (r, w\<lparr>rw_token := tc, rw_remote := w'\<rparr>)))"

definition rest_do ::
  "'w http_env \<Rightarrow> http_request \<Rightarrow> 'w rest_world \<Rightarrow> (int \<times> go_error option) \<times> 'w rest_world" where
  "rest_do x q w =
     (case hx_send x q (rw_remote w) of
        (Inl e, r) \<Rightarrow> ((0, Some e), record_circuit_failure x (w\<lparr>rw_remote := r\<rparr>))
      | (Inr (status, body), r) \<Rightarrow>
          ((status, None), record_circuit_response x status (w\<lparr>rw_remote := r\<rparr>)))"

text \<open>Building the request, once the context, the breaker and the rate limiter let it through.\<close>

definition rest_build ::
  "'w http_env \<Rightarrow> rest_conn \<Rightarrow> string \<Rightarrow> string \<Rightarrow> 'w rest_world \<Rightarrow> (int \<times> go_error option) \<times> 'w rest_world" where
  "rest_build x c rid body w =
     (case new_request x (cd_method (rc_cfg c)) (cd_url (rc_cfg c)) body of
        Inl e \<Rightarrow> ((0, Some e), w)
      | Inr q \<Rightarrow>
          (case rest_auth x c (rest_headers c rid q) w of
             (Inl e, w1) \<Rightarrow> ((0, Some e), w1)
           | (Inr q', w1) \<Rightarrow> rest_do x q' w1))"

definition rest_attempt ::
  "'w http_env \<Rightarrow> rest_conn \<Rightarrow> string \<Rightarrow> string \<Rightarrow> ('st, 'w) rest_sys request" where
  "rest_attempt x c rid body s =
     (case poll s of
        (True, s1) \<Rightarrow> ((0, Some ErrCanceled), s1)
      | (False, s1) \<Rightarrow>
          (case allow_request x (sy_world s1) of
             (Some e, w) \<Rightarrow> ((0, Some e), set_world w s1)
           | (None, w) \<Rightarrow>
               (case rest_wait x c (set_world w s1) of
                  (Some e, s2) \<Rightarrow> ((0, Some e), s2)
                | (None, s2) \<Rightarrow>
                    (case rest_build x c rid body (sy_world s2) of
                       (r, w2) \<Rightarrow> (r, set_world w2 s2)))))"

definition rest_sleep :: "'w http_env \<Rightarrow> ('st, 'w) rest_sys sleeper" where
  "rest_sleep x d = sleep_ctx (\<lambda>w. w\<lparr>rw_remote := hx_sleep x d (rw_remote w)\<rparr>)"

definition rest_send ::
  "'w http_env \<Rightarrow> rest_conn \<Rightarrow> string \<Rightarrow> string \<Rightarrow> ('st, 'w) rest_sys \<Rightarrow> go_error option \<times> ('st, 'w) rest_sys" where
  "rest_send x c rid body = do_with_retry (cd_retry (rc_cfg c)) (rest_attempt x c rid body) (rest_sleep x)"

subsection \<open>Load\<close>

text \<open>The first loop: which rows are still to be sent. The text of an encoding error is shortened.\<close>

definition marshal_error :: go_error where
  "marshal_error = ErrMsg ''json: unsupported value''"

fun rest_scan ::
  "'st store_ops \<Rightarrow> string \<Rightarrow> string \<Rightarrow> row list \<Rightarrow> load_result \<Rightarrow> row list \<Rightarrow> ('st, 'w) sys
     \<Rightarrow> (load_result \<times> row list \<times> go_error option) \<times> ('st, 'w) sys" where
  "rest_scan ops sy d [] res pend s = ((res, pend, None), s)"
| "rest_scan ops sy d (r # rs) res pend s =
     (case poll s of
        (True, s1) \<Rightarrow> ((res, pend, Some ErrCanceled), s1)
      | (False, s1) \<Rightarrow>
          (case st_is_delivered ops (row_id r) sy d (sy_store s1) of
             Inl e \<Rightarrow> rest_scan ops sy d rs (lr_add_error r e res) pend s1
           | Inr True \<Rightarrow> rest_scan ops sy d rs (lr_add_skip res) pend s1
           | Inr False \<Rightarrow> rest_scan ops sy d rs res (pend @ [r]) s1))"

definition rest_row ::
  "'w http_env \<Rightarrow> rest_conn \<Rightarrow> 'st store_ops \<Rightarrow> go_time \<Rightarrow> string \<Rightarrow> string
     \<Rightarrow> load_result \<times> ('st, 'w) rest_sys \<Rightarrow> row \<Rightarrow> load_result \<times> ('st, 'w) rest_sys" where
  "rest_row x c ops now sy d rs0 r =
     (let (res, s) = rs0 in
      case json_marshal (GMap (row_data r)) of
        None \<Rightarrow> (lr_add_error r marshal_error res, s)
      | Some body \<Rightarrow>
          (case rest_send x c (row_id r) body s of
             (Some e, s1) \<Rightarrow> (if is_ctx_error e then res else lr_add_error r e res, s1)
           | (None, s1) \<Rightarrow>
               (case st_mark_delivered ops now (row_id r) sy d (sy_store s1) of
                  (Inl e, st) \<Rightarrow> (lr_add_error r e res, s1\<lparr>sy_store := st\<rparr>)
                | (Inr _, st) \<Rightarrow> (lr_add_loaded res, s1\<lparr>sy_store := st\<rparr>))))"

definition rest_load ::
  "'w http_env \<Rightarrow> rest_conn \<Rightarrow> 'st store_ops \<Rightarrow> go_time \<Rightarrow> ('st, 'w rest_world) loader" where
  "rest_load x c ops now rows sy d s =
     (case poll s of
        (True, s1) \<Rightarrow> ((lr_empty, Some ErrCanceled), s1)
      | (False, s1) \<Rightarrow>
          (case rest_scan ops sy d rows lr_empty [] s1 of
             ((res, pend, Some e), s2) \<Rightarrow> ((res, Some e), s2)
           | ((res, pend, None), s2) \<Rightarrow>
               if pend = [] then ((res, None), s2)
               else case foldl (rest_row x c ops now sy d) (res, s2) pend of
                 (res', s3) \<Rightarrow> (case poll s3 of (stop, s4) \<Rightarrow>
                                 ((res', if stop then Some ErrCanceled else None), s4))))"

subsection \<open>What a send leaves alone\<close>

lemma set_world_store [simp]:
  "sy_store (set_world w s) = sy_store s" "sy_world (set_world w s) = w" "sy_ctx (set_world w s) = sy_ctx s"
  by (simp_all add: set_world_def)

lemma rest_wait_store [simp]: "sy_store (snd (rest_wait x c s)) = sy_store s"
  by (simp add: rest_wait_def)

lemma rest_attempt_store [simp]: "sy_store (snd (rest_attempt x c i b s)) = sy_store s"
proof -
  obtain stop s1 where p: "poll s = (stop, s1)" by fastforce
  obtain e w where a: "allow_request x (sy_world s1) = (e, w)" by fastforce
  obtain e2 s2 where q: "rest_wait x c (set_world w s1) = (e2, s2)" by fastforce
  obtain r w2 where b: "rest_build x c i b (sy_world s2) = (r, w2)" by fastforce
  have "sy_store s1 = sy_store s" using poll_frameD [OF p] by simp
  moreover have "sy_store s2 = sy_store (set_world w s1)" using rest_wait_store [of x c "set_world w s1"] q by simp
  ultimately show ?thesis
    by (simp add: rest_attempt_def p a q b split: bool.splits option.splits)
qed

lemma rest_send_store [simp]: "sy_store (snd (rest_send x c i b s)) = sy_store s"
  unfolding rest_send_def
  by (rule do_with_retry_keeps [where P = "\<lambda>t. sy_store t = sy_store s"])
     (simp_all add: rest_sleep_def)

lemma rest_scan_store: "rest_scan ops sy d rs res pend s = (out, s') \<Longrightarrow> sy_store s' = sy_store s"
proof (induction rs arbitrary: res pend s)
  case (Cons r rs)
  obtain stop s1 where p: "poll s = (stop, s1)" by fastforce
  have "sy_store s1 = sy_store s" using poll_frameD [OF p] by simp
  with Cons show ?case by (auto simp: p split: bool.splits sum.splits)
qed simp

text \<open>A delivered row: the loop over it alone ends with one skip, or with the context's error.\<close>

lemma rest_scan_delivered:
  assumes "st_is_delivered ops (row_id r) sy d (sy_store s) = Inr True"
    "rest_scan ops sy d [r] lr_empty [] s = ((res, pend, err), s')"
  shows "pend = [] \<and> sy_store s' = sy_store s \<and> sy_world s' = sy_world s
    \<and> res = (if err = None then lr_add_skip lr_empty else lr_empty)"
proof -
  obtain stop s1 where p: "poll s = (stop, s1)" by fastforce
  have "sy_store s1 = sy_store s \<and> sy_world s1 = sy_world s" using poll_frameD [OF p] .
  with assms show ?thesis by (auto simp: p split: bool.splits)
qed

lemma rest_load_delivered:
  assumes "st_is_delivered ops (row_id r) sy d (sy_store s) = Inr True"
    "rest_load x c ops now [r] sy d s = ((res, err), s')"
  shows "sy_store s' = sy_store s \<and> sy_world s' = sy_world s \<and> lr_loaded res = 0 \<and> lr_errors res = []
    \<and> (err = None \<longrightarrow> lr_skipped res = 1) \<and> (sy_ctx s = None \<longrightarrow> err = None)"
proof -
  obtain stop s1 where p: "poll s = (stop, s1)" by fastforce
  have f: "sy_store s1 = sy_store s" "sy_world s1 = sy_world s" using poll_frameD [OF p] by simp_all
  obtain res1 pend err1 s2 where q: "rest_scan ops sy d [r] lr_empty [] s1 = ((res1, pend, err1), s2)"
    by (metis surj_pair)
  have d: "st_is_delivered ops (row_id r) sy d (sy_store s1) = Inr True" using assms(1) f by simp
  have live: "sy_ctx s = None \<Longrightarrow> err1 = None \<and> \<not> stop"
    using p q d by (auto simp: poll_never)
  show ?thesis
    using assms(2) rest_scan_delivered [OF d q] f live
    by (auto simp: rest_load_def p q simp del: rest_scan.simps split: bool.splits option.splits if_splits)
qed

text \<open>Under a context that is never done a row counts exactly once.\<close>

lemma rest_wait_live: "sy_ctx s = None \<Longrightarrow> \<exists>s'. rest_wait x c s = (None, s') \<and> sy_ctx s' = None"
  by (simp add: rest_wait_def sleep_ctx_live)

lemma rest_attempt_live: "sy_ctx s = None \<Longrightarrow> sy_ctx (snd (rest_attempt x c i b s)) = None"
proof -
  assume live: "sy_ctx s = None"
  obtain e w where a: "allow_request x (sy_world s) = (e, w)" by fastforce
  obtain s2 where q: "rest_wait x c (set_world w s) = (None, s2)" "sy_ctx s2 = None"
    using rest_wait_live [of "set_world w s" x c] live by auto
  obtain r w2 where b: "rest_build x c i b (sy_world s2) = (r, w2)" by fastforce
  show ?thesis
    by (simp add: rest_attempt_def poll_never [OF live] a q b live split: option.splits)
qed

lemma rest_send_live:
  assumes "sy_ctx s = None" "rest_send x c i b s = (r, s')"
  shows "sy_ctx s' = None \<and> (\<forall>e. r = Some e \<longrightarrow> \<not> is_ctx_error e)"
proof -
  let ?P = "\<lambda>t. sy_ctx t = None"
  have sleep: "?P t \<Longrightarrow> ?P (snd (rest_sleep x d t)) \<and> fst (rest_sleep x d t) = None" for d t
    by (simp add: rest_sleep_def sleep_ctx_live)
  have "?P (snd (rest_send x c i b s))"
    unfolding rest_send_def
    by (rule do_with_retry_keeps [where P = ?P]) (rule rest_attempt_live sleep [THEN conjunct1] assms(1), assumption?)+
  moreover have "\<not> is_ctx_error e" if "r = Some e" for e
    using assms(2) that unfolding rest_send_def do_with_retry_def Let_def
    by (intro retry_loop_no_ctx_error [where P = ?P, OF rest_attempt_live sleep assms(1)]) auto
  ultimately show ?thesis using assms(2) by simp
qed

lemma rest_load_counts:
  assumes "sy_ctx s = None" "rest_load x c ops now [r] sy d s = ((res, err), s')"
  shows "sy_ctx s' = None \<and> counts_once res err"
proof -
  obtain res' s1 where q: "rest_row x c ops now sy d (lr_empty, s) r = (res', s1)" by fastforce
  have "sy_ctx s1 = None \<and> counts_once res' None"
  proof (cases "json_marshal (GMap (row_data r))")
    case None
    then show ?thesis using q assms(1)
      by (auto simp: rest_row_def counts_once_def simp del: json_marshal.simps)
  next
    case (Some body)
    obtain e s2 where t: "rest_send x c (row_id r) body s = (e, s2)" by fastforce
    show ?thesis using q rest_send_live [OF assms(1) t]
      by (auto simp: rest_row_def Some t counts_once_def simp del: json_marshal.simps
          split: option.splits prod.splits sum.splits)
  qed
  then show ?thesis
    using assms by (auto simp: rest_load_def poll_never q counts_once_def split: sum.splits bool.splits)
qed

text \<open>A load keeps of the store whatever marking a delivery keeps.\<close>

lemma rest_load_keeps:
  assumes mark: "\<And>now rid sy d st. P st \<Longrightarrow> P (snd (st_mark_delivered ops now rid sy d st))"
    and start: "P (sy_store s)"
  shows "P (sy_store (snd (rest_load x c ops now rs sy d s)))"
proof -
  have row: "P (sy_store (snd (rest_row x c ops now sy d (res, s) r)))" if "P (sy_store s)" for res s r
  proof (cases "json_marshal (GMap (row_data r))")
    case (Some body)
    obtain e s1 where q: "rest_send x c (row_id r) body s = (e, s1)" by fastforce
    have "sy_store s1 = sy_store s" using rest_send_store [of x c "row_id r" body s] q by simp
    moreover obtain m st where m: "st_mark_delivered ops now (row_id r) sy d (sy_store s) = (m, st)" by fastforce
    ultimately show ?thesis using mark [OF that, of now "row_id r" sy d] that
      by (auto simp: rest_row_def Some q m simp del: json_marshal.simps split: option.splits sum.splits)
  qed (use that in \<open>simp add: rest_row_def del: json_marshal.simps\<close>)
  have rows: "P (sy_store (snd p)) \<Longrightarrow> P (sy_store (snd (foldl (rest_row x c ops now sy d) p rs)))" for p rs
  proof (induction rs arbitrary: p)
    case (Cons r rs)
    then show ?case using row [of "snd p" "fst p" r] by simp
  qed simp
  obtain stop s1 where p: "poll s = (stop, s1)" by fastforce
  obtain res pend e s2 where q: "rest_scan ops sy d rs lr_empty [] s1 = ((res, pend, e), s2)" by (metis surj_pair)
  obtain res3 s3 where t: "foldl (rest_row x c ops now sy d) (res, s2) pend = (res3, s3)" by fastforce
  obtain stop2 s4 where u: "poll s3 = (stop2, s4)" by fastforce
  have eqs: "sy_store s1 = sy_store s" "sy_store s2 = sy_store s1" "sy_store s4 = sy_store s3"
    using poll_frameD [OF p] rest_scan_store [OF q] poll_frameD [OF u] by simp_all
  have "P (sy_store s3)" using rows [of "(res, s2)" pend] t eqs start by simp
  then show ?thesis
    using eqs start by (simp add: rest_load_def p q t u split: bool.splits option.splits)
qed

subsection \<open>The contract\<close>

text \<open>What the two loops do to the store, over any store that keeps its own contract.\<close>

context state_store
begin

lemma rest_row_frame:
  assumes "inv (sy_store s)" "nul_free sy" "nul_free d" "rest_row x c ops now sy d (res, s) r = (res', s')"
  shows "inv (sy_store s') \<and> ab_entities (abs (sy_store s')) = ab_entities (abs (sy_store s))
    \<and> ab_fired (abs (sy_store s')) = ab_fired (abs (sy_store s))
    \<and> (lr_loaded res' > lr_loaded res \<longrightarrow> ab_is_delivered (abs (sy_store s')) (row_id r, sy, d))"
proof (cases "json_marshal (GMap (row_data r))")
  case None
  then show ?thesis using assms by (auto simp: rest_row_def)
next
  case (Some body)
  obtain e s1 where q: "rest_send x c (row_id r) body s = (e, s1)" by fastforce
  have s1: "sy_store s1 = sy_store s" using rest_send_store [of x c "row_id r" body s] q by simp
  obtain m st where m: "st_mark_delivered ops now (row_id r) sy d (sy_store s) = (m, st)" by fastforce
  show ?thesis
  proof (cases m)
    case (Inl err)
    then show ?thesis using assms Some q m s1 mark_delivered_error [OF assms(1) m [unfolded Inl]]
      by (auto simp: rest_row_def split: option.splits if_splits)
  next
    case (Inr u)
    then have "inv st \<and> abs st = ab_mark_delivered (row_id r, sy, d) (abs (sy_store s))"
      using mark_delivered_law [OF assms(1-3)] m by simp
    then show ?thesis using assms Some q m s1 Inr
      by (auto simp: rest_row_def ab_mark_delivered_def
          ab_is_delivered_def split: option.splits if_splits)
  qed
qed

lemma rest_rows_frame:
  assumes "inv (sy_store s)" "nul_free sy" "nul_free d"
    "foldl (rest_row x c ops now sy d) (res, s) rs = (res', s')"
  shows "inv (sy_store s') \<and> ab_entities (abs (sy_store s')) = ab_entities (abs (sy_store s))
    \<and> ab_fired (abs (sy_store s')) = ab_fired (abs (sy_store s))"
  using assms
proof (induction rs arbitrary: res s)
  case (Cons r rs)
  obtain res1 s1 where q: "rest_row x c ops now sy d (res, s) r = (res1, s1)" by fastforce
  show ?case
    using Cons.IH [of s1 res1] Cons.prems q rest_row_frame [OF Cons.prems(1-3) q] by simp
qed simp

lemma rest_load_frame:
  assumes "inv (sy_store s)" "nul_free sy" "nul_free d" "rest_load x c ops now rs sy d s = ((res, err), s')"
  shows "inv (sy_store s') \<and> ab_entities (abs (sy_store s')) = ab_entities (abs (sy_store s))
    \<and> ab_fired (abs (sy_store s')) = ab_fired (abs (sy_store s))"
proof -
  obtain stop s1 where p: "poll s = (stop, s1)" by fastforce
  have f: "sy_store s1 = sy_store s" using poll_frameD [OF p] by simp
  obtain res1 pend err1 s2 where q: "rest_scan ops sy d rs lr_empty [] s1 = ((res1, pend, err1), s2)"
    by (metis surj_pair)
  have g: "sy_store s2 = sy_store s" using rest_scan_store [OF q] f by simp
  obtain res2 s3 where r: "foldl (rest_row x c ops now sy d) (res1, s2) pend = (res2, s3)" by fastforce
  obtain stop2 s4 where t: "poll s3 = (stop2, s4)" by fastforce
  have h: "sy_store s4 = sy_store s3" using poll_frameD [OF t] by simp
  have i: "inv (sy_store s3) \<and> ab_entities (abs (sy_store s3)) = ab_entities (abs (sy_store s2))
      \<and> ab_fired (abs (sy_store s3)) = ab_fired (abs (sy_store s2))"
    using rest_rows_frame [OF _ assms(2,3) r] assms(1) g by simp
  show ?thesis
    using assms(4) f g h i assms(1)
    by (auto simp: rest_load_def p q r t split: bool.splits option.splits if_splits)
qed

lemma rest_load_marks:
  assumes "inv (sy_store s)" "nul_free sy" "nul_free d"
    "rest_load x c ops now [r] sy d s = ((res, err), s')" "lr_loaded res > 0"
  shows "ab_is_delivered (abs (sy_store s')) (row_id r, sy, d)"
proof -
  obtain stop s1 where p: "poll s = (stop, s1)" by fastforce
  have f: "sy_store s1 = sy_store s" using poll_frameD [OF p] by simp
  obtain res1 pend err1 s2 where q: "rest_scan ops sy d [r] lr_empty [] s1 = ((res1, pend, err1), s2)"
    by (metis surj_pair)
  have g: "sy_store s2 = sy_store s" using rest_scan_store [OF q] f by simp
  have z: "lr_loaded res1 = 0 \<and> (pend = [] \<or> pend = [r])"
    using q by (auto split: prod.splits bool.splits sum.splits)
  obtain res2 s3 where r: "rest_row x c ops now sy d (res1, s2) r = (res2, s3)" by fastforce
  have i: "lr_loaded res2 > lr_loaded res1 \<longrightarrow> ab_is_delivered (abs (sy_store s3)) (row_id r, sy, d)"
    using rest_row_frame [OF _ assms(2,3) r] assms(1) g by simp
  obtain stop2 s4 where t: "poll s3 = (stop2, s4)" by fastforce
  have h: "sy_store s4 = sy_store s3" using poll_frameD [OF t] by simp
  show ?thesis
    using assms(4,5) z h i
    by (auto simp: rest_load_def p q r t simp del: rest_scan.simps split: bool.splits option.splits if_splits)
qed

lemma rest_contract:
  fixes x :: "'w http_env"
  shows "counting_destination ops inv abs stored (rest_load x c ops now)"
proof unfold_locales
  fix s s' :: "('st, 'w rest_world) sys" and sy d r res err
  assume "st_is_delivered ops (row_id r) sy d (sy_store s) = Inr True"
    "rest_load x c ops now [r] sy d s = ((res, err), s')"
  then show "sy_store s' = sy_store s \<and> sy_world s' = sy_world s \<and> lr_loaded res = 0
      \<and> lr_errors res = [] \<and> (err = None \<longrightarrow> lr_skipped res = 1)
      \<and> (sy_ctx s = None \<longrightarrow> err = None)"
    by (rule rest_load_delivered)
next
  fix s s' :: "('st, 'w rest_world) sys" and sy d r res err
  assume "inv (sy_store s)" "nul_free sy" "nul_free d"
    "rest_load x c ops now [r] sy d s = ((res, err), s')" "0 < lr_loaded res"
  then show "ab_is_delivered (abs (sy_store s')) (row_id r, sy, d)" by (rule rest_load_marks)
next
  fix s s' :: "('st, 'w rest_world) sys" and sy d rs res err
  assume "inv (sy_store s)" "nul_free sy" "nul_free d" "rest_load x c ops now rs sy d s = ((res, err), s')"
  then show "inv (sy_store s') \<and> ab_entities (abs (sy_store s')) = ab_entities (abs (sy_store s))
      \<and> ab_fired (abs (sy_store s')) = ab_fired (abs (sy_store s))"
    by (rule rest_load_frame)
next
  fix s s' :: "('st, 'w rest_world) sys" and sy d r res err
  assume "sy_ctx s = None" "rest_load x c ops now [r] sy d s = ((res, err), s')"
  then show "sy_ctx s' = None \<and> counts_once res err" by (rule rest_load_counts)
qed

end

interpretation rest_mem: counting_destination mem_ops mem_inv mem_abs "\<lambda>p. p" "rest_load x c mem_ops now"
  for x c now by (rule mem.rest_contract)

interpretation rest_sqlite: counting_destination sqlite_ops sq_inv sq_abs json_reload "rest_load x c sqlite_ops now"
  for x c now by (rule sqlite.rest_contract)

end
