(* ===== verification/Slack.thy ===== *)
theory Slack
  imports Http_Request Sqlite_Store Diff
begin

section \<open>The Slack destination (slack.go) and the dry-run destination (cmd/dry_run.go)\<close>

text \<open>
  One message per row: the template with its placeholders filled in, posted to a webhook. It
  keeps the contract of a destination over both stores. The destination of a dry run prints its
  rows; it reports all of them as loaded, looks at no mark and sets none.
\<close>

subsection \<open>Connect\<close>

record slack_conn =
  sl_webhook :: string
  sl_template :: string
  sl_limiter :: "(bucket \<times> int) option"

definition slack_connect :: "'w http_env \<Rightarrow> conn_dest \<Rightarrow> slack_conn res" where
  "slack_connect x cfg =
     (let w = trim_space (get_opt (cd_options cfg) ''webhook'');
          webhook = (if w = [] then trim_space (cd_url cfg) else w);
          message = trim_space (get_opt (cd_options cfg) ''message'') in
      if webhook = [] then Inl (ErrMsg ''slack destination: webhook is required'')
      else case hx_parse_uri x webhook of
        Some e \<Rightarrow> Inl (ErrWrap ''slack destination: invalid webhook url'' e)
      | None \<Rightarrow>
          if message = [] then Inl (ErrMsg ''slack destination: message template is required'')
          else case new_rate_limiter (hx_parse_duration x) (cd_rate_limit cfg) of
                 Inl e \<Rightarrow> Inl e
               | Inr rl \<Rightarrow> Inr \<lparr>sl_webhook = webhook, sl_template = message, sl_limiter = rl\<rparr>)"

subsection \<open>The template\<close>

text \<open>
  A match of \<open>slackFieldPattern\<close> at the start of the text: the field and what follows. The
  classes of the pattern do not overlap, so the first way to match is the only one.
\<close>

definition re_space :: "char \<Rightarrow> bool" where
  "re_space c \<longleftrightarrow> c \<in> {CHR '' '', CHR 0x09, CHR 0x0A, CHR 0x0C, CHR 0x0D}"

definition word_char :: "char \<Rightarrow> bool" where
  "word_char c \<longleftrightarrow> (let n = of_char c :: nat in
     (48 \<le> n \<and> n \<le> 57) \<or> (65 \<le> n \<and> n \<le> 90) \<or> (97 \<le> n \<and> n \<le> 122) \<or> n = 95)"

definition slack_match :: "string \<Rightarrow> (string \<times> string) option" where
  "slack_match s =
     (if \<not> has_prefix s ''{{'' then None
      else let s1 = dropWhile re_space (drop 2 s) in
        if \<not> has_prefix s1 ''row.'' then None
        else let s2 = drop 4 s1; f = takeWhile word_char s2;
                 s3 = dropWhile re_space (dropWhile word_char s2) in
          if f = [] \<or> \<not> has_prefix s3 ''}}'' then None else Some (f, drop 2 s3))"

lemma has_prefix_length: "has_prefix s p \<Longrightarrow> length p \<le> length s"
  by (auto simp: has_prefix_iff)

lemma slack_match_shorter: "slack_match s = Some (f, rest) \<Longrightarrow> length rest < length s"
proof -
  assume m: "slack_match s = Some (f, rest)"
  define s1 where "s1 = dropWhile re_space (drop 2 s)"
  define s3 where "s3 = dropWhile re_space (dropWhile word_char (drop 4 s1))"
  have r: "rest = drop 2 s3" and p: "has_prefix s ''{{''"
    using m by (auto simp: slack_match_def Let_def s1_def s3_def split: if_splits)
  have "length s3 \<le> length (drop 4 s1)"
    unfolding s3_def by (rule order_trans [OF length_dropWhile_le length_dropWhile_le])
  moreover have "length s1 \<le> length (drop 2 s)" unfolding s1_def by (rule length_dropWhile_le)
  ultimately show ?thesis using has_prefix_length [OF p] r by auto
qed

function render_message :: "string \<Rightarrow> payload \<Rightarrow> string" where
  "render_message [] data = []"
| "render_message (c # cs) data =
     (case slack_match (c # cs) of
        Some (f, rest) \<Rightarrow>
          (let v = get_or_nil data f in if v = GNil then [] else sprint_v v) @ render_message rest data
      | None \<Rightarrow> c # render_message cs data)"
  by pat_completeness auto
termination
  by (relation "measure (\<lambda>(s, d). length s)") (auto dest: slack_match_shorter)

text \<open>A template without an opening brace is sent as it is.\<close>

lemma render_message_plain: "CHR ''{'' \<notin> set s \<Longrightarrow> render_message s data = s"
  by (induction s) (auto simp: slack_match_def)

subsection \<open>Posting\<close>

definition slack_post :: "'w http_env \<Rightarrow> slack_conn \<Rightarrow> string \<Rightarrow> 'w \<Rightarrow> go_error option \<times> 'w" where
  "slack_post x c text w =
     (let body = ''{'' @ json_string ''text'' @ '':'' @ json_string text @ ''}'' in
      case new_request x ''POST'' (sl_webhook c) body of
        Inl e \<Rightarrow> (Some e, w)
      | Inr q \<Rightarrow>
          (case hx_send x (set_header ''Content-Type'' ''application/json'' q) w of
             (Inl e, w1) \<Rightarrow> (Some e, w1)
           | (Inr (status, answer), w1) \<Rightarrow>
               (if status \<ge> 300
                then Some (ErrMsg (''slack webhook returned '' @ dec_int status @ '': ''
                       @ trim_space (take 512 answer)))
                else None, w1)))"

definition slack_wait ::
  "'w http_env \<Rightarrow> slack_conn \<Rightarrow> ('st, 'w) sys \<Rightarrow> go_error option \<times> ('st, 'w) sys" where
  "slack_wait x c s = (if sl_limiter c = None then (None, s) else sleep_ctx (hx_wait_token x) s)"

definition slack_deliver ::
  "'w http_env \<Rightarrow> slack_conn \<Rightarrow> 'st store_ops \<Rightarrow> go_time \<Rightarrow> string \<Rightarrow> string \<Rightarrow> row
     \<Rightarrow> load_result \<Rightarrow> ('st, 'w) sys \<Rightarrow> load_result \<times> ('st, 'w) sys" where
  "slack_deliver x c ops now sy d r res s =
     (case slack_post x c (render_message (sl_template c) (row_data r)) (sy_world s) of
        (Some e, w) \<Rightarrow> (lr_add_error r e res, s\<lparr>sy_world := w\<rparr>)
      | (None, w) \<Rightarrow>
          (case st_mark_delivered ops now (row_id r) sy d (sy_store s) of
             (Inl e, st) \<Rightarrow> (lr_add_error r e res, s\<lparr>sy_world := w, sy_store := st\<rparr>)
           | (Inr _, st) \<Rightarrow> (lr_add_loaded res, s\<lparr>sy_world := w, sy_store := st\<rparr>)))"

text \<open>The loop of \<open>Load\<close>; an error of the context ends it with what was done so far.\<close>

fun slack_rows ::
  "'w http_env \<Rightarrow> slack_conn \<Rightarrow> 'st store_ops \<Rightarrow> go_time \<Rightarrow> string \<Rightarrow> string \<Rightarrow> row list
     \<Rightarrow> load_result \<Rightarrow> ('st, 'w) sys \<Rightarrow> (load_result \<times> go_error option) \<times> ('st, 'w) sys" where
  "slack_rows x c ops now sy d [] res s = ((res, None), s)"
| "slack_rows x c ops now sy d (r # rs) res s =
     (case poll s of
        (True, s1) \<Rightarrow> ((res, Some ErrCanceled), s1)
      | (False, s1) \<Rightarrow>
          (case st_is_delivered ops (row_id r) sy d (sy_store s1) of
             Inl e \<Rightarrow> slack_rows x c ops now sy d rs (lr_add_error r e res) s1
           | Inr True \<Rightarrow> slack_rows x c ops now sy d rs (lr_add_skip res) s1
           | Inr False \<Rightarrow>
               (case slack_wait x c s1 of
                  (Some e, s2) \<Rightarrow> ((res, Some e), s2)
                | (None, s2) \<Rightarrow>
                    (case slack_deliver x c ops now sy d r res s2 of
                       (res1, s3) \<Rightarrow> slack_rows x c ops now sy d rs res1 s3))))"

definition slack_load ::
  "'w http_env \<Rightarrow> slack_conn \<Rightarrow> 'st store_ops \<Rightarrow> go_time \<Rightarrow> ('st, 'w) loader" where
  "slack_load x c ops now rows sy d s =
     (case poll s of
        (True, s1) \<Rightarrow> ((lr_empty, Some ErrCanceled), s1)
      | (False, s1) \<Rightarrow> slack_rows x c ops now sy d rows lr_empty s1)"

lemma slack_wait_store [simp]: "sy_store (snd (slack_wait x c s)) = sy_store s"
  by (simp add: slack_wait_def)

lemma slack_load_delivered:
  assumes "st_is_delivered ops (row_id r) sy d (sy_store s) = Inr True"
    "slack_load x c ops now [r] sy d s = ((res, err), s')"
  shows "sy_store s' = sy_store s \<and> sy_world s' = sy_world s \<and> lr_loaded res = 0 \<and> lr_errors res = []
    \<and> (err = None \<longrightarrow> lr_skipped res = 1) \<and> (sy_ctx s = None \<longrightarrow> err = None)"
proof -
  obtain b1 s1 where p: "poll s = (b1, s1)" by fastforce
  obtain b2 s2 where q: "poll s1 = (b2, s2)" by fastforce
  have live: "sy_ctx s = None \<Longrightarrow> \<not> b1 \<and> \<not> b2"
    using p q by (auto simp: poll_never)
  show ?thesis
    using assms poll_frameD [OF p] poll_frameD [OF q] live
    by (auto simp: slack_load_def p q split: bool.splits)
qed

lemma slack_load_counts:
  assumes "sy_ctx s = None" "slack_load x c ops now [r] sy d s = ((res, err), s')"
  shows "sy_ctx s' = None \<and> counts_once res err"
proof -
  have w: "\<exists>s1. slack_wait x c s = (None, s1) \<and> sy_ctx s1 = None"
    using assms(1) by (simp add: slack_wait_def sleep_ctx_live)
  then obtain s1 where w: "slack_wait x c s = (None, s1)" "sy_ctx s1 = None" by blast
  obtain res2 s2 where l: "slack_deliver x c ops now sy d r lr_empty s1 = (res2, s2)" by fastforce
  have "sy_ctx s2 = None \<and> counts_once res2 None"
    using l w(2) by (auto simp: slack_deliver_def counts_once_def split: prod.splits option.splits sum.splits)
  then show ?thesis
    using assms w l
    by (auto simp: slack_load_def poll_never counts_once_def split: sum.splits bool.splits)
qed

context state_store
begin

lemma slack_deliver_frame:
  assumes "inv (sy_store s)" "nul_free sy" "nul_free d"
    "slack_deliver x c ops now sy d r res s = (res', s')"
  shows "inv (sy_store s') \<and> ab_entities (abs (sy_store s')) = ab_entities (abs (sy_store s))
    \<and> ab_fired (abs (sy_store s')) = ab_fired (abs (sy_store s))
    \<and> (lr_loaded res' > lr_loaded res \<longrightarrow> ab_is_delivered (abs (sy_store s')) (row_id r, sy, d))"
proof -
  obtain m st where m: "st_mark_delivered ops now (row_id r) sy d (sy_store s) = (m, st)" by fastforce
  show ?thesis
  proof (cases m)
    case (Inl err)
    then show ?thesis using assms m mark_delivered_error [OF assms(1) m [unfolded Inl]]
      by (auto simp: slack_deliver_def split: prod.splits option.splits)
  next
    case (Inr u)
    then have "inv st \<and> abs st = ab_mark_delivered (row_id r, sy, d) (abs (sy_store s))"
      using mark_delivered_law [OF assms(1-3)] m by simp
    then show ?thesis using assms m Inr
      by (auto simp: slack_deliver_def ab_mark_delivered_def ab_is_delivered_def
          split: prod.splits option.splits)
  qed
qed

lemma slack_rows_frame:
  assumes "inv (sy_store s)" "nul_free sy" "nul_free d"
    "slack_rows x c ops now sy d rs res s = ((res', err), s')"
  shows "inv (sy_store s') \<and> ab_entities (abs (sy_store s')) = ab_entities (abs (sy_store s))
    \<and> ab_fired (abs (sy_store s')) = ab_fired (abs (sy_store s))"
  using assms
proof (induction rs arbitrary: res s)
  case (Cons r rs)
  obtain b s1 where p: "poll s = (b, s1)" by fastforce
  obtain e s2 where w: "slack_wait x c s1 = (e, s2)" by fastforce
  obtain res3 s3 where l: "slack_deliver x c ops now sy d r res s2 = (res3, s3)" by fastforce
  have f: "sy_store s1 = sy_store s" "sy_store s2 = sy_store s"
    using poll_frameD [OF p] slack_wait_store [of x c s1] w by simp_all
  have i: "inv (sy_store s3) \<and> ab_entities (abs (sy_store s3)) = ab_entities (abs (sy_store s))
      \<and> ab_fired (abs (sy_store s3)) = ab_fired (abs (sy_store s))"
    using slack_deliver_frame [OF _ _ _ l] Cons.prems f by simp
  show ?case
    using Cons.prems Cons.IH [of s1] Cons.IH [of s3 res3] f i
    by (auto simp: p w l split: bool.splits sum.splits option.splits)
qed simp

lemma slack_load_frame:
  assumes "inv (sy_store s)" "nul_free sy" "nul_free d" "slack_load x c ops now rs sy d s = ((res, err), s')"
  shows "inv (sy_store s') \<and> ab_entities (abs (sy_store s')) = ab_entities (abs (sy_store s))
    \<and> ab_fired (abs (sy_store s')) = ab_fired (abs (sy_store s))"
proof -
  obtain b s1 where p: "poll s = (b, s1)" by fastforce
  show ?thesis
    using assms poll_frameD [OF p] slack_rows_frame [of s1 sy d x c now rs lr_empty res err s']
    by (auto simp: slack_load_def p split: bool.splits)
qed

lemma slack_load_marks:
  assumes "inv (sy_store s)" "nul_free sy" "nul_free d"
    "slack_load x c ops now [r] sy d s = ((res, err), s')" "lr_loaded res > 0"
  shows "ab_is_delivered (abs (sy_store s')) (row_id r, sy, d)"
proof -
  obtain b s1 where p: "poll s = (b, s1)" by fastforce
  obtain b' s2 where q: "poll s1 = (b', s2)" by fastforce
  obtain e s3 where w: "slack_wait x c s2 = (e, s3)" by fastforce
  obtain res4 s4 where l: "slack_deliver x c ops now sy d r lr_empty s3 = (res4, s4)" by fastforce
  have f: "sy_store s3 = sy_store s"
    using poll_frameD [OF p] poll_frameD [OF q] slack_wait_store [of x c s2] w by simp
  have "lr_loaded res4 > 0 \<longrightarrow> ab_is_delivered (abs (sy_store s4)) (row_id r, sy, d)"
    using slack_deliver_frame [OF _ assms(2,3) l] assms(1) f by simp
  then show ?thesis
    using assms(4,5) by (auto simp: slack_load_def p q w l split: bool.splits sum.splits option.splits)
qed

lemma slack_contract:
  fixes x :: "'w http_env"
  shows "counting_destination ops inv abs stored (slack_load x c ops now)"
proof unfold_locales
  fix s s' :: "('st, 'w) sys" and sy d r res err
  assume "st_is_delivered ops (row_id r) sy d (sy_store s) = Inr True"
    "slack_load x c ops now [r] sy d s = ((res, err), s')"
  then show "sy_store s' = sy_store s \<and> sy_world s' = sy_world s \<and> lr_loaded res = 0
      \<and> lr_errors res = [] \<and> (err = None \<longrightarrow> lr_skipped res = 1)
      \<and> (sy_ctx s = None \<longrightarrow> err = None)"
    by (rule slack_load_delivered)
next
  fix s s' :: "('st, 'w) sys" and sy d r res err
  assume "inv (sy_store s)" "nul_free sy" "nul_free d"
    "slack_load x c ops now [r] sy d s = ((res, err), s')" "0 < lr_loaded res"
  then show "ab_is_delivered (abs (sy_store s')) (row_id r, sy, d)" by (rule slack_load_marks)
next
  fix s s' :: "('st, 'w) sys" and sy d rs res err
  assume "inv (sy_store s)" "nul_free sy" "nul_free d" "slack_load x c ops now rs sy d s = ((res, err), s')"
  then show "inv (sy_store s') \<and> ab_entities (abs (sy_store s')) = ab_entities (abs (sy_store s))
      \<and> ab_fired (abs (sy_store s')) = ab_fired (abs (sy_store s))"
    by (rule slack_load_frame)
next
  fix s s' :: "('st, 'w) sys" and sy d r res err
  assume "sy_ctx s = None" "slack_load x c ops now [r] sy d s = ((res, err), s')"
  then show "sy_ctx s' = None \<and> counts_once res err" by (rule slack_load_counts)
qed

end

interpretation slack_mem: counting_destination mem_ops mem_inv mem_abs "\<lambda>p. p" "slack_load x c mem_ops now"
  for x c now by (rule mem.slack_contract)

interpretation slack_sqlite: counting_destination sqlite_ops sq_inv sq_abs json_reload "slack_load x c sqlite_ops now"
  for x c now by (rule sqlite.slack_contract)

subsection \<open>The destination of a dry run\<close>

text \<open>The world is what was printed: one entry per row, its entity key and its data.\<close>

definition print_load :: "string \<Rightarrow> ('st, (string \<times> string \<times> payload) list) loader" where
  "print_load name rows sy d s =
     ((lr_empty\<lparr>lr_loaded := int (length rows)\<rparr>, None),
      s\<lparr>sy_world := sy_world s @ map (\<lambda>r. (name, row_key r, row_data r)) rows\<rparr>)"

lemma print_load_store: "sy_store (snd (print_load name rows sy d s)) = sy_store s"
  by (simp add: print_load_def)

end
