(* ===== verification/Store_Laws.thy ===== *)
theory Store_Laws
  imports Sqlite_Store Diff
begin

section \<open>What the engine can rely on in both stores\<close>

text \<open>
  Sequences of store operations, their abstract counterpart, and the agreement of the two
  backends: after the same successful operations they hold the same deliveries, the same rule
  firings and, up to the JSON columns of SQLite, the same entity states. Then the properties of
  batches, of saved states and of locks.
\<close>

text \<open>A new database file, whose statements are all accepted.\<close>

definition new_sq_store :: sq_store where
  "new_sq_store = \<lparr>sq_entities = [], sq_firings = [], sq_events = [], sq_runs = [], sq_last_run = 0,
     sq_deliveries = [], sq_locks = [], sq_pending = [], sq_seen = None, sq_fail = (\<lambda>_. None)\<rparr>"

lemma new_sq_store_inv [simp]: "sq_inv new_sq_store"
  by (simp add: sq_inv_def new_sq_store_def go_map_def)

lemma new_mem_store_inv [simp]: "mem_inv new_mem_store"
  by (simp add: mem_inv_def new_mem_store_def)

subsection \<open>Sequences of operations\<close>

datatype store_op =
    OpSave entity_state
  | OpReset string string string
  | OpFire string string string string
  | OpMark string string string
  | OpBegin
  | OpCommit
  | OpRollback

fun op_names_ok :: "store_op \<Rightarrow> bool" where
  "op_names_ok (OpSave es) = (nul_free (es_sync es) \<and> nul_free (es_dest es))"
| "op_names_ok (OpReset sy d k) = (nul_free sy \<and> nul_free d)"
| "op_names_ok (OpFire sy d k r) = (nul_free sy \<and> nul_free d \<and> nul_free r)"
| "op_names_ok (OpMark i sy d) = (nul_free sy \<and> nul_free d)"
| "op_names_ok x = True"

fun do_op :: "'st store_ops \<Rightarrow> go_time \<Rightarrow> store_op \<Rightarrow> 'st \<Rightarrow> unit res \<times> 'st" where
  "do_op ops now (OpSave es) = st_save ops now es"
| "do_op ops now (OpReset sy d k) = st_reset ops sy d k"
| "do_op ops now (OpFire sy d k r) = st_mark_fired ops now sy d k r"
| "do_op ops now (OpMark i sy d) = st_mark_delivered ops now i sy d"
| "do_op ops now OpBegin = st_begin ops"
| "do_op ops now OpCommit = st_commit ops"
| "do_op ops now OpRollback = st_rollback ops"

fun run_ops :: "'st store_ops \<Rightarrow> go_time \<Rightarrow> store_op list \<Rightarrow> 'st \<Rightarrow> 'st option" where
  "run_ops ops now [] st = Some st"
| "run_ops ops now (x # xs) st =
     (case do_op ops now x st of (Inl e, st') \<Rightarrow> None | (Inr _, st') \<Rightarrow> run_ops ops now xs st')"

fun ab_op :: "(payload \<Rightarrow> payload) \<Rightarrow> store_op \<Rightarrow> abs_store \<Rightarrow> abs_store" where
  "ab_op f (OpSave es) a = ab_save (es_stored f es) a"
| "ab_op f (OpReset sy d k) a = ab_reset (sy, d, k) a"
| "ab_op f (OpFire sy d k r) a = ab_fire (sy, d, k, r) a"
| "ab_op f (OpMark i sy d) a = ab_mark_delivered (i, sy, d) a"
| "ab_op f OpBegin a = a\<lparr>ab_batch := Some {}\<rparr>"
| "ab_op f OpCommit a = ab_commit a"
| "ab_op f OpRollback a = a\<lparr>ab_batch := None\<rparr>"

context state_store
begin

lemma do_op_refines:
  assumes "inv st" "op_names_ok x" "do_op ops now x st = (Inr (), st')"
  shows "inv st' \<and> abs st' = ab_op stored x (abs st)"
  using assms
  by (cases x) (auto dest: save_law reset_law mark_fired_law mark_delivered_law begin_law commit_law rollback_law)

lemma run_ops_refines:
  assumes "inv st" "list_all op_names_ok xs" "run_ops ops now xs st = Some st'"
  shows "inv st' \<and> abs st' = foldl (\<lambda>a x. ab_op stored x a) (abs st) xs"
  using assms
proof (induction xs arbitrary: st)
  case (Cons x xs)
  obtain st1 where d: "do_op ops now x st = (Inr (), st1)" "run_ops ops now xs st1 = Some st'"
    using Cons.prems(3) by (auto split: prod.splits sum.splits)
  have "inv st1 \<and> abs st1 = ab_op stored x (abs st)"
    using do_op_refines [OF Cons.prems(1) _ d(1)] Cons.prems(2) by simp
  then show ?case using Cons.IH [of st1] Cons.prems(2) d(2) by simp
qed simp

end

text \<open>The two abstract runs differ only in what storing does to payloads.\<close>

definition same_up_to :: "(payload \<Rightarrow> payload) \<Rightarrow> abs_store \<Rightarrow> abs_store \<Rightarrow> bool" where
  "same_up_to f a b \<longleftrightarrow> ab_fired a = ab_fired b \<and> ab_delivered a = ab_delivered b \<and> ab_batch a = ab_batch b
     \<and> ab_entities b = map_option (es_stored f) \<circ> ab_entities a"

lemma es_core_stored: "es_core (es_stored f es) = es_stored f (es_core es)"
  by (simp add: es_core_def es_stored_def)

lemma ab_op_same_up_to: "same_up_to f a b \<Longrightarrow> same_up_to f (ab_op (\<lambda>p. p) x a) (ab_op f x b)"
  by (cases x)
     (auto simp: same_up_to_def ab_save_def ab_reset_def ab_fire_def ab_mark_delivered_def ab_commit_def
       fun_eq_iff es_core_stored, auto simp: es_stored_def es_core_def split: option.splits)

lemma ab_ops_same_up_to:
  "same_up_to f a b \<Longrightarrow>
   same_up_to f (foldl (\<lambda>a x. ab_op (\<lambda>p. p) x a) a xs) (foldl (\<lambda>a x. ab_op f x a) b xs)"
  by (induction xs arbitrary: a b) (auto intro: ab_op_same_up_to)

lemma new_stores_same: "same_up_to f (mem_abs new_mem_store) (sq_abs new_sq_store)"
  by (simp add: same_up_to_def mem_abs_def sq_abs_def new_mem_store_def new_sq_store_def
      fired_set_def entity_map_def sq_entity_map_def fun_eq_iff has_key_def del: has_key_iff)

subsection \<open>Two stores side by side\<close>

text \<open>
  A store that keeps payloads as they are next to one that changes them by \<open>f\<close>, run through the
  same operations: they answer alike, up to \<open>f\<close>.
\<close>

locale store_pair = a: state_store ops inv abs "\<lambda>p. p" + b: state_store ops' inv' abs' f
  for ops :: "'a store_ops" and inv and abs and ops' :: "'b store_ops" and inv' and abs' and f
begin

lemma agree:
  assumes "inv s0" "inv' t0" "same_up_to f (abs s0) (abs' t0)" "list_all op_names_ok xs"
    and "run_ops ops now xs s0 = Some s" "run_ops ops' now xs t0 = Some t"
    and "nul_free sy" "nul_free d" "nul_free ru"
    and "st_is_delivered ops i sy d s = Inr p" "st_is_delivered ops' i sy d t = Inr p'"
    and "st_has_fired ops sy d k ru s = Inr c" "st_has_fired ops' sy d k ru t = Inr c'"
    and "st_get ops sy d k s = Inr e" "st_get ops' sy d k t = Inr e'"
  shows "p = p' \<and> c = c' \<and> map_option es_core e' = map_option (es_stored f \<circ> es_core) e"
proof -
  note s = a.run_ops_refines [OF assms(1,4,5)]
  note t = b.run_ops_refines [OF assms(2,4,6)]
  have "same_up_to f (abs s) (abs' t)" using ab_ops_same_up_to [OF assms(3)] s t by simp
  then have same: "ab_fired (abs s) = ab_fired (abs' t)"
      "ab_is_delivered (abs s) (i, sy, d) = ab_is_delivered (abs' t) (i, sy, d)"
      "ab_entities (abs' t) (sy, d, k) = map_option (es_stored f) (ab_entities (abs s) (sy, d, k))"
    by (simp_all add: same_up_to_def ab_is_delivered_def)
  have iv: "inv s" "inv' t" using s t by simp_all
  have "p = p'"
    using a.is_delivered_law [OF iv(1) assms(7,8,10)] b.is_delivered_law [OF iv(2) assms(7,8,11)] same(2) by simp
  moreover have "c = c'"
    using a.has_fired_law [OF iv(1) assms(7-9,12)] b.has_fired_law [OF iv(2) assms(7-9,13)] same(1) by simp
  moreover have "map_option es_core e' = map_option (es_stored f) (map_option es_core e)"
    using a.get_law [OF iv(1) assms(7,8,14)] b.get_law [OF iv(2) assms(7,8,15)] same(3) by simp
  ultimately show ?thesis by (simp add: option.map_comp)
qed

end

interpretation mem_sqlite: store_pair mem_ops mem_inv mem_abs sqlite_ops sq_inv sq_abs json_reload ..

lemma ab_delivered_sq_abs: "ab_delivered (sq_abs s) = set (sq_deliveries s)"
  by (simp add: sq_abs_def)

subsection \<open>Properties\<close>

text \<open>
  Property C11. The two stores agree: started empty, the memory store and the SQLite store answer
  every delivery question and every rule-firing question alike after the same sequence of
  successful operations, batches included, and an entity read from SQLite is the one read from
  memory with its payloads passed through JSON.
\<close>

theorem stores_agree:
  assumes "list_all op_names_ok xs"
    and "run_ops mem_ops now xs new_mem_store = Some m" "run_ops sqlite_ops now xs new_sq_store = Some s"
    and "nul_free sy" "nul_free d" "nul_free ru"
    and "st_is_delivered mem_ops i sy d m = Inr b" "st_is_delivered sqlite_ops i sy d s = Inr b'"
    and "st_has_fired mem_ops sy d k ru m = Inr c" "st_has_fired sqlite_ops sy d k ru s = Inr c'"
    and "st_get mem_ops sy d k m = Inr e" "st_get sqlite_ops sy d k s = Inr e'"
  shows "b = b' \<and> c = c' \<and> map_option es_core e' = map_option (es_stored json_reload \<circ> es_core) e"
  by (rule mem_sqlite.agree [OF new_mem_store_inv new_sq_store_inv new_stores_same assms])

text \<open>
  Property C12. A delivery marked in a batch of the SQLite store counts as delivered at once. A
  commit keeps it; a rollback forgets it, unless it was delivered before the batch; and a commit
  whose transaction fails forgets it in the same way, for the batch is emptied before the
  transaction starts and is not kept for another attempt.
\<close>

theorem sqlite_batch:
  assumes "sq_inv s" "nul_free sy" "nul_free d" "st_begin sqlite_ops s = (Inr (), s1)"
    and "st_mark_delivered sqlite_ops now i sy d s1 = (Inr (), s2)"
    and "st_is_delivered sqlite_ops i sy d s2 = Inr b"
    and "st_commit sqlite_ops s2 = (r, s3)" "st_is_delivered sqlite_ops i sy d s3 = Inr b3"
    and "st_rollback sqlite_ops s2 = (r', s4)" "st_is_delivered sqlite_ops i sy d s4 = Inr b4"
  shows "b \<and> (b3 \<longleftrightarrow> r = Inr () \<or> (i, sy, d) \<in> set (sq_deliveries s))
    \<and> (b4 \<longleftrightarrow> (i, sy, d) \<in> set (sq_deliveries s))"
proof -
  have s1: "sq_inv s1" "sq_abs s1 = (sq_abs s)\<lparr>ab_batch := Some {}\<rparr>"
    using sqlite.begin_law [OF assms(1,4)] by simp_all
  have s2: "sq_inv s2" "sq_abs s2 = ab_mark_delivered (i, sy, d) (sq_abs s1)"
    using sqlite.mark_delivered_law [OF s1(1) assms(2,3,5)] by simp_all
  have b: b
    by (rule sqlite.mark_then_delivered [OF s1(1) assms(2,3,5,6)])
  have b4: "b4 \<longleftrightarrow> (i, sy, d) \<in> set (sq_deliveries s)"
    using sqlite.rollback_drops_marks [OF assms(1-5,9,10)] by (simp add: sq_abs_def)
  have "b3 \<longleftrightarrow> r = Inr () \<or> (i, sy, d) \<in> set (sq_deliveries s)"
  proof (cases r)
    case (Inr u)
    then show ?thesis
      using sqlite.commit_keeps_marks [OF s2(1) assms(2,3) _ _ assms(8)] assms(6,7) b by simp
  next
    case (Inl err)
    then have s3: "sq_inv s3" "sq_abs s3 = (sq_abs s2)\<lparr>ab_batch := None\<rparr>"
      using sqlite.commit_error [OF s2(1)] assms(7) by simp_all
    have "ab_delivered (sq_abs s3) = ab_delivered (sq_abs s)" "ab_batch (sq_abs s3) = None"
      by (simp_all add: s3(2) s2(2) s1(2) ab_mark_delivered_def)
    then show ?thesis
      using Inl sqlite.is_delivered_law [OF s3(1) assms(2,3,8)]
      by (simp add: ab_is_delivered_def ab_delivered_sq_abs)
  qed
  with b b4 show ?thesis by simp
qed

text \<open>
  A state saved in SQLite reads back with its fingerprint, counters and names as
  they were and its payloads as \<open>encoding/json\<close> returns them; the other entities are as before.
\<close>

theorem sqlite_save_get:
  assumes "sq_inv s" "nul_free (es_sync es)" "nul_free (es_dest es)" "nul_free sy" "nul_free d"
    and "st_save sqlite_ops now es s = (Inr (), s')"
    and "st_get sqlite_ops (es_sync es) (es_dest es) (es_key es) s' = Inr found"
    and "(sy, d, k) \<noteq> (es_sync es, es_dest es, es_key es)"
    and "st_get sqlite_ops sy d k s = Inr other" "st_get sqlite_ops sy d k s' = Inr other'"
  shows "map_option es_core found = Some (es_core (es_stored json_reload es))
    \<and> map_option es_core other' = map_option es_core other"
  using sqlite.save_then_get [OF assms(1-3,6,7)]
    sqlite.save_then_get_other [OF assms(1-6,8)] assms(9,10)
  by auto

lemma sq_is_delivered_answers:
  assumes "\<forall>q. q \<noteq> ''commit_tx'' \<longrightarrow> sq_fail s q = None"
  shows "\<exists>b. st_is_delivered sqlite_ops i sy d s = Inr b"
  using assms by (auto simp: sq_defs split: option.splits)

lemma mem_is_delivered_answers: "\<exists>b. st_is_delivered mem_ops i sy d m = Inr b"
  by (auto simp: mem_defs Let_def)

lemma sqlite_answers:
  assumes "sq_fail s = (\<lambda>_. None)"
  shows "\<exists>c. st_has_fired sqlite_ops sy d k ru s = Inr c" "\<exists>e. st_get sqlite_ops sy d k s = Inr e"
    "\<exists>b. st_is_delivered sqlite_ops i sy d s = Inr b"
  using assms by (auto simp: sq_defs)

lemma mem_answers:
  "\<exists>c. st_has_fired mem_ops sy d k ru m = Inr c" "\<exists>e. st_get mem_ops sy d k m = Inr e"
  by (simp_all add: mem_defs)

lemma es_payload_core [simp]: "es_payload (es_core es) = es_payload es"
  by (simp add: es_core_def)

text \<open>
  While a lock on a sync has not expired, no second owner gets it from the SQLite
  store, and the expired lock is granted to whoever asks first.
\<close>

theorem sqlite_lock_exclusive:
  assumes "sq_inv s" "st_lock sqlite_ops now sy owner ttl s = (Inr (), s1)"
    and "st_lock sqlite_ops now' sy owner' ttl' s1 = (r, s2)" "\<forall>stmt. sq_fail s1 stmt = None"
  shows "r = Inr () \<longleftrightarrow> now + ttl \<le> now'"
proof (cases "now + ttl \<le> now'")
  case True
  have s1: "sq_locks s1 = (sy, \<lparr>sl_owner = owner, sl_acquired = now, sl_heartbeat = now,
        sl_expires = now + ttl\<rparr>) # filter (\<lambda>(k, l). \<not> (k = sy \<and> sl_expires l \<le> now)) (sq_locks s)"
      "alookup (filter (\<lambda>(k, l). \<not> (k = sy \<and> sl_expires l \<le> now)) (sq_locks s)) sy = None"
    using assms(2) by (auto simp: sq_defs Let_def split: option.splits)
  then have "alookup (filter (\<lambda>(k, l). \<not> (k = sy \<and> sl_expires l \<le> now')) (sq_locks s1)) sy = None"
    using True by (auto simp: map_of_eq_None_iff image_iff)
  then show ?thesis
    using True assms(3,4) by (auto simp: sq_defs Let_def)
next
  case False
  have "sq_inv s1" "ab_locked (sq_abs s1) now' sy"
    using sq_lock_run_ok [OF assms(1)] assms(2) False
    by (auto simp: sqlite_ops_def ab_lock_def ab_locked_def)
  then have "r \<noteq> Inr ()" using sqlite.lock_law assms(3) by blast
  with False show ?thesis by simp
qed

theorem sqlite_lock_exclusive_witness:
  "(let s1 = snd (st_lock sqlite_ops 0 ''crm'' ''a'' 600 new_sq_store)
    in fst (st_lock sqlite_ops 599 ''crm'' ''b'' 600 s1) \<noteq> Inr ()
       \<and> fst (st_lock sqlite_ops 600 ''crm'' ''b'' 600 s1) = Inr ())"
proof -
  obtain s1 where l: "st_lock sqlite_ops 0 ''crm'' ''a'' 600 new_sq_store = (Inr (), s1)"
      "\<forall>stmt. sq_fail s1 stmt = None"
    by (simp add: sq_defs new_sq_store_def)
  obtain r t where a: "st_lock sqlite_ops 599 ''crm'' ''b'' 600 s1 = (r, t)"
    by (cases "st_lock sqlite_ops 599 ''crm'' ''b'' 600 s1")
  obtain r' t' where b: "st_lock sqlite_ops 600 ''crm'' ''b'' 600 s1 = (r', t')"
    by (cases "st_lock sqlite_ops 600 ''crm'' ''b'' 600 s1")
  show ?thesis
    using sqlite_lock_exclusive [OF new_sq_store_inv l(1) a l(2)]
      sqlite_lock_exclusive [OF new_sq_store_inv l(1) b l(2)] l(1) a b by simp
qed

text \<open>
  What SQLite gives back is not always what the next extraction gives: an integer
  of a million or more comes back as a float that prints in exponent form, so the diff of an
  unchanged row lists the field as changed; below a million there is no difference.
\<close>

theorem json_column_spurious_change:
  "diff_contains (diff_compute (json_reload [(''n'', GInt 1000000)]) [(''n'', GInt 1000000)]) ''n''
   \<and> diff_is_empty (diff_compute (json_reload [(''n'', GInt 999999)]) [(''n'', GInt 999999)])"
  by code_simp

theorem stores_agree_witness:
  "(let xs = [OpBegin, OpMark ''r1'' ''crm'' ''slack'', OpCommit, OpFire ''crm'' ''slack'' ''7'' ''new''];
        ms = run_ops mem_ops 5 xs new_mem_store; ss = run_ops sqlite_ops 5 xs new_sq_store
    in map_option (st_is_delivered mem_ops ''r1'' ''crm'' ''slack'') ms
         = map_option (st_is_delivered sqlite_ops ''r1'' ''crm'' ''slack'') ss)"
proof -
  let ?xs = "[OpBegin, OpMark ''r1'' ''crm'' ''slack'', OpCommit, OpFire ''crm'' ''slack'' ''7'' ''new'']"
  obtain m s where ms: "run_ops mem_ops 5 ?xs new_mem_store = Some m"
      "run_ops sqlite_ops 5 ?xs new_sq_store = Some s" "sq_fail s = (\<lambda>_. None)"
    by (simp add: sq_defs mem_defs new_sq_store_def new_mem_store_def)
  have "nul_free ''crm''" "nul_free ''slack''" "nul_free ''new''"
    by (simp_all add: nul_free_def nul_def)
  moreover obtain b b' c c' e e' where
    "st_is_delivered mem_ops ''r1'' ''crm'' ''slack'' m = Inr b"
    "st_is_delivered sqlite_ops ''r1'' ''crm'' ''slack'' s = Inr b'"
    "st_has_fired mem_ops ''crm'' ''slack'' ''7'' ''new'' m = Inr c"
    "st_has_fired sqlite_ops ''crm'' ''slack'' ''7'' ''new'' s = Inr c'"
    "st_get mem_ops ''crm'' ''slack'' ''7'' m = Inr e"
    "st_get sqlite_ops ''crm'' ''slack'' ''7'' s = Inr e'"
    using mem_is_delivered_answers sqlite_answers [OF ms(3)] mem_answers by meson
  ultimately show ?thesis
    using stores_agree [of ?xs 5 m s "''crm''" "''slack''" "''new''" "''r1''" b b' "''7''" c c' e e'] ms by simp
qed

theorem sqlite_batch_witness:
  "(let s = new_sq_store\<lparr>sq_fail := \<lambda>q. if q = ''commit_tx'' then Some (ErrMsg ''disk full'') else None\<rparr>;
        s2 = snd (st_mark_delivered sqlite_ops 5 ''r1'' ''crm'' ''slack'' (snd (st_begin sqlite_ops s)))
    in st_is_delivered sqlite_ops ''r1'' ''crm'' ''slack'' s2 = Inr True
       \<and> st_is_delivered sqlite_ops ''r1'' ''crm'' ''slack'' (snd (st_commit sqlite_ops s2)) = Inr False)"
proof -
  let ?s = "new_sq_store\<lparr>sq_fail := \<lambda>q. if q = ''commit_tx'' then Some (ErrMsg ''disk full'') else None\<rparr>"
  have inv: "sq_inv ?s" by (simp add: sq_inv_def new_sq_store_def go_map_def)
  have nf: "nul_free ''crm''" "nul_free ''slack''" by (simp_all add: nul_free_def nul_def)
  obtain s1 where s1: "st_begin sqlite_ops ?s = (Inr (), s1)"
    by (simp add: sq_defs)
  obtain s2 where s2: "st_mark_delivered sqlite_ops 5 ''r1'' ''crm'' ''slack'' s1 = (Inr (), s2)"
    using s1 by (auto simp: sq_defs)
  obtain e s3 where s3: "st_commit sqlite_ops s2 = (Inl e, s3)"
    using s1 s2 by (auto simp: sq_defs new_sq_store_def Let_def)
  obtain s4 where s4: "st_rollback sqlite_ops s2 = (Inr (), s4)"
    by (simp add: sq_defs)
  have fails: "\<forall>t \<in> {s2, s3, s4}. \<forall>q. q \<noteq> ''commit_tx'' \<longrightarrow> sq_fail t q = None"
    using s1 s2 s3 s4 by (auto simp: sq_defs new_sq_store_def Let_def)
  obtain b where b: "st_is_delivered sqlite_ops ''r1'' ''crm'' ''slack'' s2 = Inr b"
    using sq_is_delivered_answers fails by blast
  obtain b3 where b3: "st_is_delivered sqlite_ops ''r1'' ''crm'' ''slack'' s3 = Inr b3"
    using sq_is_delivered_answers fails by blast
  obtain b4 where b4: "st_is_delivered sqlite_ops ''r1'' ''crm'' ''slack'' s4 = Inr b4"
    using sq_is_delivered_answers fails by blast
  show ?thesis
    using sqlite_batch [OF inv nf s1 s2 b s3 b3 s4 b4] s1 s2 s3 b b3
    by (simp add: new_sq_store_def)
qed

definition sample_entity :: entity_state where
  "sample_entity = \<lparr>es_sync = ''crm'', es_dest = ''slack'', es_key = ''7'', es_dest_id = [], es_fp = ''f'',
     es_prev_fp = [], es_payload = [(''n'', GBool True)], es_prev_payload = [], es_remembered = [],
     es_decision = ''create'', es_status = ''success'', es_missing = 0, es_version = 1, es_created = 0,
     es_updated = 0\<rparr>"

theorem sqlite_save_get_witness:
  "(let s = snd (st_save sqlite_ops 5 sample_entity new_sq_store)
    in map_sum id (map_option es_payload) (st_get sqlite_ops ''crm'' ''slack'' ''7'' s)
         = Inr (Some (json_reload (es_payload sample_entity)))
       \<and> st_get sqlite_ops ''crm'' ''slack'' ''8'' s = Inr None)"
proof -
  have nf: "nul_free (es_sync sample_entity)" "nul_free (es_dest sample_entity)"
      "nul_free ''crm''" "nul_free ''slack''"
    by (simp_all add: nul_free_def nul_def sample_entity_def)
  obtain s where s: "st_save sqlite_ops 5 sample_entity new_sq_store = (Inr (), s)"
    by (simp add: sq_defs new_sq_store_def)
  obtain found where f: "st_get sqlite_ops (es_sync sample_entity) (es_dest sample_entity) (es_key sample_entity) s
      = Inr found"
    using s by (auto simp: sq_defs new_sq_store_def sq_upsert_entity_def Let_def)
  obtain other where o: "st_get sqlite_ops ''crm'' ''slack'' ''8'' s = Inr other"
    using s by (auto simp: sq_defs new_sq_store_def sq_upsert_entity_def Let_def)
  have n: "st_get sqlite_ops ''crm'' ''slack'' ''8'' new_sq_store = Inr None"
    by (simp add: sq_defs new_sq_store_def)
  have ne: "(''crm'', ''slack'', ''8'') \<noteq> (es_sync sample_entity, es_dest sample_entity, es_key sample_entity)"
    by (simp add: sample_entity_def)
  have "map_option es_core found = Some (es_core (es_stored json_reload sample_entity))" "other = None"
    using sqlite_save_get [OF new_sq_store_inv nf s f ne n o] by auto
  then show ?thesis
    using s f o by (cases found)
      (auto simp: es_stored_def sample_entity_def dest: arg_cong [where f = es_payload])
qed

end
