(* ===== verification/Engine_Decide.thy ===== *)
theory Engine_Decide
  imports Engine
begin

section \<open>The decision pass and the gates of a run: what holds of them\<close>

text \<open>
  Frame facts (the decision pass sends nothing and, on the store, only records decisions), the
  accounting of the rows, the watermark, and the gates between the passes.
\<close>

lemmas run_defs = set_store_def do_store_def upd_stats_def

lemmas stat_defs = add_extracted_def add_skipped_def add_errored_def add_loaded_def

lemma run_poll_frame [simp]:
  "rn_store (snd (run_poll s)) = rn_store s" "rn_world (snd (run_poll s)) = rn_world s"
  "rn_stats (snd (run_poll s)) = rn_stats s" "rn_pending (snd (run_poll s)) = rn_pending s"
  "rn_counts (snd (run_poll s)) = rn_counts s" "rn_max_wm (snd (run_poll s)) = rn_max_wm s"
  "rn_seen (snd (run_poll s)) = rn_seen s" "rn_changes (snd (run_poll s)) = rn_changes s"
  "rn_error (snd (run_poll s)) = rn_error s" "rn_dlq (snd (run_poll s)) = rn_dlq s"
  by (simp_all add: run_poll_def split: prod.splits) (metis poll_frame snd_conv)+

lemma run_poll_live: "sy_ctx (rn_sys s) = None \<Longrightarrow> run_poll s = (False, s)"
  by (simp add: run_poll_def poll_never)

lemma note_watermark_frame [simp]:
  "rn_sys (note_watermark r s) = rn_sys s" "rn_stats (note_watermark r s) = rn_stats s"
  "rn_pending (note_watermark r s) = rn_pending s" "rn_counts (note_watermark r s) = rn_counts s"
  "rn_error (note_watermark r s) = rn_error s" "rn_dlq (note_watermark r s) = rn_dlq s"
  "rn_seen (note_watermark r s) = rn_seen s"
  by (simp_all add: note_watermark_def)

text \<open>
  What a step of the decision pass may change on the store is what recording a decision may
  change: \<open>P\<close> is any predicate that recording keeps.
\<close>

lemma process_row_frame [simp]:
  "rn_world (process_row e r s) = rn_world s"
  "sy_ctx (rn_sys (process_row e r s)) = sy_ctx (rn_sys s)"
  "rn_counts (process_row e r s) = rn_counts s"
  "rn_error (process_row e r s) = rn_error s"
  "rn_dlq (process_row e r s) = rn_dlq s"
  "rs_loaded (rn_stats (process_row e r s)) = rs_loaded (rn_stats s)"
  by (simp_all add: process_row_def Let_def run_defs stat_defs split: sum.splits)

lemma process_row_store:
  assumes "\<And>now ev st. P st \<Longrightarrow> P (snd (st_record (en_ops e) now ev st))" "P (rn_store s)"
  shows "P (rn_store (process_row e r s))"
  using assms by (simp add: process_row_def Let_def run_defs stat_defs split: sum.splits)

lemma phase1_frame:
  "rn_world (phase1 e rows s) = rn_world s \<and> rn_counts (phase1 e rows s) = rn_counts s
   \<and> rn_error (phase1 e rows s) = rn_error s \<and> rn_dlq (phase1 e rows s) = rn_dlq s
   \<and> rs_loaded (rn_stats (phase1 e rows s)) = rs_loaded (rn_stats s)"
proof (induction rows arbitrary: s)
  case (Cons r rows)
  obtain stop s1 where p: "run_poll s = (stop, s1)" by fastforce
  show ?case using run_poll_frame [of s] p Cons.IH [of "process_row e r s1"] by simp
qed simp

lemma phase1_store:
  assumes "\<And>now ev st. P st \<Longrightarrow> P (snd (st_record (en_ops e) now ev st))"
  shows "P (rn_store s) \<Longrightarrow> P (rn_store (phase1 e rows s))"
proof (induction rows arbitrary: s)
  case (Cons r rows)
  obtain stop s1 where p: "run_poll s = (stop, s1)" by fastforce
  have "P (rn_store s1)" using run_poll_frame(1) [of s] p Cons.prems by simp
  then show ?case using p Cons.IH [of "process_row e r s1"] process_row_store [where P = P and e = e and r = r and s = s1, OF assms] by simp
qed simp

subsection \<open>Accounting\<close>

text \<open>Rows extracted minus those accounted for; what a run starts with is what it ends with.\<close>

definition unaccounted :: "('st, 'w) run_state \<Rightarrow> int" where
  "unaccounted s = rs_extracted (rn_stats s) - rs_loaded (rn_stats s) - rs_skipped (rn_stats s)
     - rs_errored (rn_stats s) - int (length (rn_pending s))"

lemma process_row_unaccounted: "unaccounted (process_row e r s) = unaccounted s"
  by (simp add: process_row_def unaccounted_def Let_def run_defs stat_defs split: sum.splits)

lemma process_row_extracted:
  "rs_extracted (rn_stats (process_row e r s)) = rs_extracted (rn_stats s) + 1"
  by (simp add: process_row_def Let_def run_defs stat_defs split: sum.splits)

lemma phase1_unaccounted: "unaccounted (phase1 e rows s) = unaccounted s"
proof (induction rows arbitrary: s)
  case (Cons r rows)
  obtain stop s1 where p: "run_poll s = (stop, s1)" by fastforce
  have "unaccounted s1 = unaccounted s" using run_poll_frame [of s] p by (simp add: unaccounted_def)
  then show ?case using p Cons.IH [of "process_row e r s1"] process_row_unaccounted [of e r s1] by simp
qed simp

lemma phase1_live:
  assumes "sy_ctx (rn_sys s) = None"
  shows "phase1 e rows s = foldl (\<lambda>s r. process_row e r s) s rows"
  using assms
proof (induction rows arbitrary: s)
  case (Cons r rows)
  show ?case using Cons.IH [of "process_row e r s"] Cons.prems by (simp add: run_poll_live)
qed simp

lemma foldl_process_extracted:
  "rs_extracted (rn_stats (foldl (\<lambda>s r. process_row e r s) s rows))
     = rs_extracted (rn_stats s) + int (length rows)"
  by (induction rows arbitrary: s) (auto simp: process_row_extracted)

subsection \<open>The watermark\<close>

text \<open>The highest watermark of the rows, whatever becomes of them.\<close>

lemma process_row_wm: "rn_max_wm (process_row e r s) = rn_max_wm (note_watermark r s)"
  by (simp add: process_row_def Let_def run_defs stat_defs note_watermark_def split: sum.splits)

definition max_watermark :: "go_time \<Rightarrow> row list \<Rightarrow> go_time" where
  "max_watermark = foldl (\<lambda>m r. if \<not> is_zero (row_watermark r) then max m (row_watermark r) else m)"

lemma phase1_watermark:
  "sy_ctx (rn_sys s) = None \<Longrightarrow> rn_max_wm (phase1 e rows s) = max_watermark (rn_max_wm s) rows"
proof (induction rows arbitrary: s)
  case (Cons r rows)
  then show ?case using Cons.IH [of "process_row e r s"]
    by (simp add: run_poll_live process_row_wm max_watermark_def note_watermark_def max_def)
qed (simp add: max_watermark_def)

lemma max_watermark_upper:
  "r \<in> set rows \<Longrightarrow> \<not> is_zero (row_watermark r) \<Longrightarrow> row_watermark r \<le> max_watermark m rows"
  "m \<le> max_watermark m rows"
proof -
  have mono: "m \<le> max_watermark m rows" for m rows
    by (induction rows arbitrary: m) (auto simp: max_watermark_def intro: order_trans [OF max.cobounded1])
  show "m \<le> max_watermark m rows" by (rule mono)
  show "r \<in> set rows \<Longrightarrow> \<not> is_zero (row_watermark r) \<Longrightarrow> row_watermark r \<le> max_watermark m rows"
  proof (induction rows arbitrary: m)
    case (Cons a rows)
    then show ?case using mono [of "max m (row_watermark a)" rows]
      by (auto simp: max_watermark_def)
  qed simp
qed

subsection \<open>The gates\<close>

lemma safety_gate_frame:
  assumes "safety_gate e s = (err, s')"
  shows "rn_world s' = rn_world s" "rn_pending s' = rn_pending s" "rn_counts s' = rn_counts s"
    "sy_ctx (rn_sys s') = sy_ctx (rn_sys s)" "rs_watermark (rn_stats s') = rn_max_wm s"
    "rs_loaded (rn_stats s') = rs_loaded (rn_stats s)" "unaccounted s' = unaccounted s"
    "err = None \<Longrightarrow> rn_store s' = rn_store s"
    "err \<noteq> None \<Longrightarrow> rn_store s' = snd (st_rollback (en_ops e) (rn_store s))"
    "err \<noteq> None \<Longrightarrow> rs_status (rn_stats s') = ''failed''"
    "err = None \<Longrightarrow> rs_status (rn_stats s') = rs_status (rn_stats s)"
    "rn_error s' = rn_error s" "rn_dlq s' = rn_dlq s" "rn_seen s' = rn_seen s"
    "rs_extracted (rn_stats s') = rs_extracted (rn_stats s)"
  using assms
  by (auto simp: safety_gate_def Let_def run_defs fail_run_def unaccounted_def
      split: sum.splits prod.splits if_splits)

text \<open>A run that a gate stops ends there: nothing was sent, and the batch was rolled back.\<close>

lemma run_phases_blocked:
  assumes "fst (safety_gate e (phase1 e rows s)) = Some err"
  shows "run_phases fuel e rows ex s = Some (Some err, snd (safety_gate e (phase1 e rows s)))"
  using assms by (auto simp: run_phases_def split: prod.splits)

text \<open>When the gates let a run through.\<close>

lemma safety_gate_passes:
  "fst (safety_gate e s) = None \<longleftrightarrow>
     check_field_ratios (sp_safety (en_spec e)) (rn_changes s) (rs_extracted (rn_stats s)) = Inr ()
     \<and> (fst (approval_required (sp_safety (en_spec e)) (pending_counts (rn_pending s)))
        \<longrightarrow> en_approval e = approval_hash (sp_name (en_spec e)) (en_dest e) (pending_counts (rn_pending s)))"
  by (auto simp: safety_gate_def Let_def run_defs split: sum.splits prod.splits)

subsection \<open>When a row is skipped\<close>

text \<open>A row whose required field is missing or whose key is empty changes nothing but the counters.\<close>

lemma process_row_invalid:
  assumes "missing_required (row_data r) (sp_required (en_spec e)) \<noteq> []
     \<or> sprint_v (get_or_nil (row_data r) (so_entity_key (sp_source (en_spec e)))) \<in> {[], ''<nil>''}"
  shows "process_row e r s = upd_stats (add_skipped 1) (note_watermark r (upd_stats add_extracted s))"
  using assms by (auto simp: process_row_def Let_def)

text \<open>
  A row for which no rule fires, under a default action that is left out or \<open>skip\<close>, is not sent:
  the pass records the decision and counts a skip.
\<close>

lemma decide_default:
  assumes "\<forall>rule \<in> set (dc_rules (sp_decisions (en_spec e))). \<exists>b. fired_before (firing_checker e key st) rule = Inr b"
    "first_match (firing_checker e key st) (input_of (en_spec e) mapped es) (dc_rules (sp_decisions (en_spec e))) = None"
  shows "decide e key mapped es st = Inr (default_plan (sp_decisions (en_spec e)) plan_init)"
  using eval_rules_total [OF assms(1)] assms(2) by (simp add: decide_def evaluate_def plan_for_def)

lemma process_row_no_rule:
  assumes "missing_required (row_data r) (sp_required (en_spec e)) = []"
    "sprint_v (get_or_nil (row_data r) (so_entity_key (sp_source (en_spec e)))) = key"
    "key \<noteq> []" "key \<noteq> ''<nil>''"
    "st_get (en_ops e) (sp_name (en_spec e)) (en_dest e) key (rn_store s) = Inr es"
    "decide e key (mapped_row (en_spec e) (row_data r)) es (rn_store s)
       = Inr (default_plan (sp_decisions (en_spec e)) plan_init)"
    "dc_default (sp_decisions (en_spec e)) \<in> {[], ''skip''}"
  shows "rn_pending (process_row e r s) = rn_pending s
    \<and> rs_skipped (rn_stats (process_row e r s)) = rs_skipped (rn_stats s) + 1"
proof -
  have "plan_skipped (default_plan (sp_decisions (en_spec e)) plan_init)"
    using assms(7) by (auto simp: default_plan_def plan_skipped_def plan_init_def)
  then show ?thesis
    using assms(1-6) by (simp add: process_row_def Let_def run_defs stat_defs)
qed

end
