(* ===== verification/Engine_Deliver.thy ===== *)
theory Engine_Deliver
  imports Engine_Decide Rest_Api Slack
begin

section \<open>The delivery pass: what holds of it\<close>

text \<open>
  The caps, the dry run, and, for any destination that keeps its contract over any store that
  keeps its own: a row already delivered changes nothing, a delivered row is remembered, rows
  are counted once, the store stays well formed. The last group is proved in the locale of
  destinations and reaches the program through its interpretations.
\<close>

subsection \<open>Caps\<close>

lemma save_failed_frame [simp]:
  "rn_world (save_failed e pd s) = rn_world s" "rn_counts (save_failed e pd s) = rn_counts s"
  "rn_stats (save_failed e pd s) = rn_stats s" "rn_pending (save_failed e pd s) = rn_pending s"
  "sy_ctx (rn_sys (save_failed e pd s)) = sy_ctx (rn_sys s)"
  by (simp_all add: save_failed_def run_defs)

lemma write_dlq_frame [simp]:
  "rn_sys (write_dlq e r k x s) = rn_sys s" "rn_counts (write_dlq e r k x s) = rn_counts s"
  "rn_stats (write_dlq e r k x s) = rn_stats s" "rn_pending (write_dlq e r k x s) = rn_pending s"
  by (simp_all add: write_dlq_def)

lemma row_failed_frame [simp]:
  "rn_world (row_failed e pd s re) = rn_world s" "rn_counts (row_failed e pd s re) = rn_counts s"
  "rn_stats (row_failed e pd s re) = add_errored (rn_stats s)"
  "rn_pending (row_failed e pd s re) = rn_pending s"
  "sy_ctx (rn_sys (row_failed e pd s re)) = sy_ctx (rn_sys s)"
  by (simp_all add: row_failed_def Let_def run_defs)

lemma load_failed_frame [simp]:
  "rn_world (load_failed e pd x s) = rn_world s" "rn_counts (load_failed e pd x s) = rn_counts s"
  "rn_stats (load_failed e pd x s) = add_errored (rn_stats s)"
  "rn_pending (load_failed e pd x s) = rn_pending s"
  "sy_ctx (rn_sys (load_failed e pd x s)) = sy_ctx (rn_sys s)"
  by (simp_all add: load_failed_def Let_def run_defs)

lemma foldl_row_failed_frame:
  "rn_world (foldl (row_failed e pd) s es) = rn_world s
   \<and> rn_counts (foldl (row_failed e pd) s es) = rn_counts s
   \<and> rn_pending (foldl (row_failed e pd) s es) = rn_pending s
   \<and> sy_ctx (rn_sys (foldl (row_failed e pd) s es)) = sy_ctx (rn_sys s)
   \<and> rs_errored (rn_stats (foldl (row_failed e pd) s es)) = rs_errored (rn_stats s) + int (length es)
   \<and> rs_loaded (rn_stats (foldl (row_failed e pd) s es)) = rs_loaded (rn_stats s)
   \<and> rs_skipped (rn_stats (foldl (row_failed e pd) s es)) = rs_skipped (rn_stats s)
   \<and> rs_extracted (rn_stats (foldl (row_failed e pd) s es)) = rs_extracted (rn_stats s)"
  by (induction es arbitrary: s) (auto simp: add_errored_def)

lemma foldl_fired_frame:
  "rn_world (foldl (\<lambda>s rule. do_store (f rule) s) s rules) = rn_world s
   \<and> rn_counts (foldl (\<lambda>s rule. do_store (f rule) s) s rules) = rn_counts s
   \<and> rn_stats (foldl (\<lambda>s rule. do_store (f rule) s) s rules) = rn_stats s
   \<and> rn_pending (foldl (\<lambda>s rule. do_store (f rule) s) s rules) = rn_pending s
   \<and> sy_ctx (rn_sys (foldl (\<lambda>s rule. do_store (f rule) s) s rules)) = sy_ctx (rn_sys s)"
  by (induction rules arbitrary: s) (auto simp: run_defs)

lemma persist_delivery_frame [simp]:
  "rn_world (persist_delivery e pd i s) = rn_world s" "rn_counts (persist_delivery e pd i s) = rn_counts s"
  "rn_stats (persist_delivery e pd i s) = rn_stats s" "rn_pending (persist_delivery e pd i s) = rn_pending s"
  "sy_ctx (rn_sys (persist_delivery e pd i s)) = sy_ctx (rn_sys s)"
  by (simp_all add: persist_delivery_def foldl_fired_frame) (simp_all add: run_defs)

lemma record_sample_frame [simp]:
  "rn_sys (record_sample e pd s) = rn_sys s" "rn_counts (record_sample e pd s) = rn_counts s"
  "rn_stats (record_sample e pd s) = rn_stats s" "rn_pending (record_sample e pd s) = rn_pending s"
  by (simp_all add: record_sample_def Let_def)

lemma delivered_ok_frame [simp]:
  "rn_world (delivered_ok e pd i s) = rn_world s"
  "rn_counts (delivered_ok e pd i s) = record_action (pl_action (pd_plan pd)) (rn_counts s)"
  "rn_stats (delivered_ok e pd i s) = rn_stats s" "rn_pending (delivered_ok e pd i s) = rn_pending s"
  "sy_ctx (rn_sys (delivered_ok e pd i s)) = sy_ctx (rn_sys s)"
  by (simp_all add: delivered_ok_def Let_def)

lemma deliver_one_counts:
  "rn_counts (deliver_one e pd s) = rn_counts s
   \<or> (allow (sp_safety (en_spec e)) (pl_action (pd_plan pd)) (rn_counts s) = Inr ()
      \<and> rn_counts (deliver_one e pd s) = record_action (pl_action (pd_plan pd)) (rn_counts s))"
  by (auto simp: deliver_one_def Let_def foldl_row_failed_frame upd_stats_def
      split: sum.splits option.splits prod.splits)

lemma deliver_one_caps:
  "caps_ok (sp_safety (en_spec e)) (rn_counts s) \<Longrightarrow>
   caps_ok (sp_safety (en_spec e)) (rn_counts (deliver_one e pd s))"
  using deliver_one_counts [of e pd s] allow_record_caps by auto

lemma phase2_caps:
  "caps_ok (sp_safety (en_spec e)) (rn_counts s) \<Longrightarrow>
   caps_ok (sp_safety (en_spec e)) (rn_counts (phase2 e pds s))"
proof (induction pds arbitrary: s)
  case (Cons pd pds)
  obtain stop s1 where p: "run_poll s = (stop, s1)" by fastforce
  have "rn_counts s1 = rn_counts s" using run_poll_frame [of s] p by simp
  then show ?case using p Cons.IH [of "deliver_one e pd s1"] Cons.prems deliver_one_caps [of e s1 pd] by simp
qed simp

text \<open>A delivery over its cap is not tried.\<close>

lemma deliver_one_capped:
  "allow (sp_safety (en_spec e)) (pl_action (pd_plan pd)) (rn_counts s) = Inl err \<Longrightarrow>
   deliver_one e pd s = upd_stats (add_skipped 1) s"
  by (simp add: deliver_one_def)

subsection \<open>The dry run\<close>

text \<open>In a dry run a delivery changes the store only through the load.\<close>

lemma deliver_one_dry:
  assumes "en_dry_run e" "en_load e = Some load"
    "load [delivery_row e pd] (sp_name (en_spec e)) (en_dest e) (rn_sys s) = ((res, err), y)"
    "sy_store y = rn_store s"
  shows "rn_store (deliver_one e pd s) = rn_store s"
proof -
  have fails: "rn_store (foldl (row_failed e pd) t es) = rn_store t" for t es
    using assms(1) by (induction es arbitrary: t) (auto simp: row_failed_def save_failed_def Let_def run_defs)
  show ?thesis
    using assms
    by (auto simp: deliver_one_def Let_def run_defs load_failed_def save_failed_def fails
        delivered_ok_def persist_delivery_def split: sum.splits option.splits)
qed

lemma phase2_dry:
  assumes "en_dry_run e" "en_load e = Some load" "\<And>rows sy d y. sy_store (snd (load rows sy d y)) = sy_store y"
  shows "rn_store (phase2 e pds s) = rn_store s"
proof (induction pds arbitrary: s)
  case (Cons pd pds)
  obtain stop s1 where p: "run_poll s = (stop, s1)" by fastforce
  obtain res err y where l: "load [delivery_row e pd] (sp_name (en_spec e)) (en_dest e) (rn_sys s1) = ((res, err), y)"
    by (metis surj_pair)
  have "sy_store y = rn_store s1"
    using assms(3) [of "[delivery_row e pd]" "sp_name (en_spec e)" "en_dest e" "rn_sys s1"] l by simp
  then have "rn_store (deliver_one e pd s1) = rn_store s1" by (rule deliver_one_dry [OF assms(1,2) l])
  then show ?case using run_poll_frame(1) [of s] p Cons.IH by simp
qed simp

subsection \<open>Over a destination\<close>

text \<open>The environment of a run whose names are free of NUL bytes and whose store and load are given.\<close>

definition env_over :: "'st store_ops \<Rightarrow> ('st, 'w) loader \<Rightarrow> ('st, 'w) run_env \<Rightarrow> bool" where
  "env_over ops load e \<longleftrightarrow> en_ops e = ops \<and> en_load e = Some load \<and> nul_free (sp_name (en_spec e))
     \<and> nul_free (en_dest e) \<and> (\<forall>r \<in> set (dc_rules (sp_decisions (en_spec e))). nul_free (ru_name r))"

lemma once_rules_names:
  "rule \<in> set (once_rules spec p) \<Longrightarrow> \<exists>r \<in> set (dc_rules (sp_decisions spec)). ru_name r = rule"
  by (auto simp: once_rules_def)

lemma new_state_of_names [simp]:
  "es_sync (new_state_of e pd st i) = sp_name (en_spec e)"
  "es_dest (new_state_of e pd st i) = en_dest e" "es_key (new_state_of e pd st i) = pd_key pd"
  "es_fp (new_state_of e pd st i) = pd_cur_fp pd"
  by (simp_all add: new_state_of_def build_entity_state_def)

definition writes_succeed :: "'st store_ops \<Rightarrow> bool" where
  "writes_succeed ops \<longleftrightarrow> (\<forall>now es st. fst (st_save ops now es st) = Inr ())
     \<and> (\<forall>now sy d k ru st. fst (st_mark_fired ops now sy d k ru st) = Inr ())"

definition run_key :: "('st, 'w) run_env \<Rightarrow> pending_delivery \<Rightarrow> string \<times> string \<times> string" where
  "run_key e pd = (sp_name (en_spec e), en_dest e, pd_key pd)"

context destination
begin

text \<open>A row already delivered: nothing is sent and no state is saved; one skip is counted.\<close>

lemma deliver_one_delivered:
  assumes "env_over ops load e" "inv (rn_store s)" "sy_ctx (rn_sys s) = None"
    "st_is_delivered ops (row_id (delivery_row e pd)) (sp_name (en_spec e)) (en_dest e) (rn_store s) = Inr True"
  shows "rn_store (deliver_one e pd s) = rn_store s \<and> rn_world (deliver_one e pd s) = rn_world s
    \<and> rn_counts (deliver_one e pd s) = rn_counts s
    \<and> rs_skipped (rn_stats (deliver_one e pd s)) = rs_skipped (rn_stats s) + 1"
proof -
  obtain res err y where l: "load [delivery_row e pd] (sp_name (en_spec e)) (en_dest e) (rn_sys s) = ((res, err), y)"
    by (metis surj_pair)
  have n: "nul_free (sp_name (en_spec e))" "nul_free (en_dest e)" "en_load e = Some load"
    using assms(1) by (auto simp: env_over_def)
  have d: "sy_store y = rn_store s" "sy_world y = rn_world s" "lr_loaded res = 0" "lr_errors res = []"
      "err = None" "lr_skipped res = 1"
    using load_delivered [OF assms(2) n(1,2) assms(4) l] assms(3) by auto
  then show ?thesis
    using d l n(3) by (auto simp: deliver_one_def Let_def upd_stats_def add_skipped_def add_loaded_def split: sum.splits)
qed

text \<open>The store stays well formed whatever the delivery does.\<close>

lemma save_inv:
  assumes "inv st" "nul_free (es_sync es)" "nul_free (es_dest es)"
  shows "inv (snd (st_save ops now es st))"
proof -
  obtain r st' where q: "st_save ops now es st = (r, st')" by fastforce
  show ?thesis using q assms save_law [of st es now st'] save_error [of st now es _ st'] by (cases r) auto
qed

lemma mark_fired_inv:
  assumes "inv st" "nul_free sy" "nul_free d" "nul_free ru"
  shows "inv (snd (st_mark_fired ops now sy d k ru st))"
proof -
  obtain r st' where q: "st_mark_fired ops now sy d k ru st = (r, st')" by fastforce
  show ?thesis
    using q assms mark_fired_law [of st sy d ru now k st'] mark_fired_error [of st now sy d k ru _ st']
    by (cases r) auto
qed

lemma env_overD:
  assumes "env_over ops load e"
  shows "en_ops e = ops" "nul_free (sp_name (en_spec e))" "nul_free (en_dest e)"
  using assms by (simp_all add: env_over_def)

lemma save_failed_inv:
  assumes "env_over ops load e" "inv (rn_store s)"
  shows "inv (rn_store (save_failed e pd s))"
  using env_overD [OF assms(1)] save_inv assms(2) by (simp add: save_failed_def run_defs)

lemma row_failed_inv:
  "env_over ops load e \<Longrightarrow> inv (rn_store s) \<Longrightarrow> inv (rn_store (foldl (row_failed e pd) s es))"
proof (induction es arbitrary: s)
  case (Cons re es)
  have "inv (rn_store (row_failed e pd s re))"
    unfolding row_failed_def Let_def
    by (rule save_failed_inv [OF Cons.prems(1)]) (use Cons.prems(2) in \<open>simp add: upd_stats_def\<close>)
  then show ?case using Cons by simp
qed simp

lemma load_failed_inv:
  assumes "env_over ops load e" "inv (rn_store s)"
  shows "inv (rn_store (load_failed e pd x s))"
  unfolding load_failed_def Let_def
  by (rule save_failed_inv [OF assms(1)]) (use assms(2) in \<open>simp add: upd_stats_def\<close>)

lemma fired_inv:
  assumes "env_over ops load e" "\<forall>r \<in> set rules. nul_free r"
  shows "inv (rn_store s) \<Longrightarrow> inv (rn_store (foldl (\<lambda>s rule. do_store (st_mark_fired ops now
      (sp_name (en_spec e)) (en_dest e) k rule) s) s rules))"
  using assms(2)
proof (induction rules arbitrary: s)
  case (Cons r rules)
  have "inv (rn_store (do_store (st_mark_fired ops now (sp_name (en_spec e)) (en_dest e) k r) s))"
    using Cons.prems env_overD [OF assms(1)] mark_fired_inv by (simp add: run_defs)
  then show ?case using Cons by simp
qed simp

lemma delivered_ok_inv:
  assumes "env_over ops load e" "inv (rn_store s)"
  shows "inv (rn_store (delivered_ok e pd i s))"
proof -
  have names: "\<forall>r \<in> set (once_rules (en_spec e) (pd_plan pd)). nul_free r"
    using assms(1) once_rules_names by (fastforce simp: env_over_def)
  have saved: "inv (rn_store (do_store (st_save ops now (new_state_of e pd st j)) s))" for now st j
    using assms(2) env_overD [OF assms(1)] save_inv by (simp add: run_defs)
  have "inv (rn_store (persist_delivery e pd i s))"
    unfolding persist_delivery_def Let_def env_overD(1) [OF assms(1)]
    using assms(2) fired_inv [OF assms(1) names saved] by simp
  then show ?thesis by (simp add: delivered_ok_def Let_def)
qed

lemma deliver_one_inv:
  assumes "env_over ops load e" "inv (rn_store s)"
  shows "inv (rn_store (deliver_one e pd s))"
proof -
  obtain res err y where l: "load [delivery_row e pd] (sp_name (en_spec e)) (en_dest e) (rn_sys s) = ((res, err), y)"
    by (metis surj_pair)
  have n: "nul_free (sp_name (en_spec e))" "nul_free (en_dest e)" "en_load e = Some load"
    using assms(1) by (auto simp: env_over_def)
  define s1 where "s1 = upd_stats (add_skipped (lr_skipped res)) (upd_stats (add_loaded (lr_loaded res)) (s\<lparr>rn_sys := y\<rparr>))"
  have i: "inv (rn_store s1)" using load_frame [OF assms(2) n(1,2) l] by (simp add: s1_def upd_stats_def)
  have skip: "inv (rn_store (upd_stats (add_skipped 1) s))" using assms(2) by (simp add: upd_stats_def)
  have "deliver_one e pd s = (case allow (sp_safety (en_spec e)) (pl_action (pd_plan pd)) (rn_counts s) of
      Inl _ \<Rightarrow> upd_stats (add_skipped 1) s
    | Inr _ \<Rightarrow> (case err of Some x \<Rightarrow> load_failed e pd x s1
        | None \<Rightarrow> if lr_loaded res = 0 \<and> lr_skipped res > 0 \<and> lr_errors res = [] then s1
            else let s2 = foldl (row_failed e pd) s1 (lr_errors res) in
              if lr_errors res \<noteq> [] \<and> lr_loaded res = 0 then s2
              else delivered_ok e pd (get_opt (lr_dest_ids res) (row_id (delivery_row e pd))) s2))"
    by (simp only: deliver_one_def n(3) l s1_def Let_def option.case prod.case)
  then show ?thesis
    using skip i row_failed_inv [OF assms(1) i] load_failed_inv [OF assms(1) i]
      delivered_ok_inv [OF assms(1) row_failed_inv [OF assms(1) i]]
    by (simp add: Let_def split: sum.splits option.splits)
qed

lemma phase2_inv:
  "env_over ops load e \<Longrightarrow> inv (rn_store s) \<Longrightarrow> inv (rn_store (phase2 e pds s))"
proof (induction pds arbitrary: s)
  case (Cons pd pds)
  obtain stop s1 where p: "run_poll s = (stop, s1)" by fastforce
  have "inv (rn_store s1)" using run_poll_frame(1) [of s] p Cons.prems by simp
  then show ?case using p Cons.IH [OF Cons.prems(1)] deliver_one_inv [OF Cons.prems(1)] by simp
qed simp

text \<open>
  A row that was loaded is remembered: its state is saved under the new fingerprint, its mark is
  set, the once-rules that fired for it are recorded. A row whose load failed is remembered as
  well, with the new fingerprint and the status \<open>failed\<close>. Both over a store whose writes
  succeed.
\<close>

lemma do_save:
  assumes "inv (rn_store s)" "writes_succeed ops" "nul_free (es_sync es)" "nul_free (es_dest es)"
  shows "abs (rn_store (do_store (st_save ops now es) s)) = ab_save (es_stored stored es) (abs (rn_store s))
    \<and> inv (rn_store (do_store (st_save ops now es) s))"
proof -
  obtain st' where q: "st_save ops now es (rn_store s) = (Inr (), st')"
    using assms(2) by (metis writes_succeed_def prod.collapse)
  show ?thesis using save_law [OF assms(1,3,4) q] q by (simp add: run_defs)
qed

lemma do_fire:
  assumes "inv (rn_store s)" "writes_succeed ops" "nul_free sy" "nul_free d" "nul_free ru"
  shows "abs (rn_store (do_store (st_mark_fired ops now sy d k ru) s)) = ab_fire (sy, d, k, ru) (abs (rn_store s))
    \<and> inv (rn_store (do_store (st_mark_fired ops now sy d k ru) s))"
proof -
  obtain st' where q: "st_mark_fired ops now sy d k ru (rn_store s) = (Inr (), st')"
    using assms(2) by (metis writes_succeed_def prod.collapse)
  show ?thesis using mark_fired_law [OF assms(1,3,4,5) q] q by (simp add: run_defs)
qed

lemma fire_all:
  assumes "writes_succeed ops" "nul_free sy" "nul_free d"
  shows "inv (rn_store s) \<Longrightarrow> \<forall>r \<in> set rules. nul_free r \<Longrightarrow>
    abs (rn_store (foldl (\<lambda>s ru. do_store (st_mark_fired ops now sy d k ru) s) s rules))
      = (abs (rn_store s))\<lparr>ab_fired := ab_fired (abs (rn_store s)) \<union> {(sy, d, k, ru) | ru. ru \<in> set rules}\<rparr>"
proof (induction rules arbitrary: s)
  case (Cons r rules)
  have q: "abs (rn_store (do_store (st_mark_fired ops now sy d k r) s)) = ab_fire (sy, d, k, r) (abs (rn_store s))
      \<and> inv (rn_store (do_store (st_mark_fired ops now sy d k r) s))"
    by (rule do_fire) (use Cons.prems assms in auto)
  have "{(sy, d, k, ru) | ru. ru \<in> set (r # rules)}
      = insert (sy, d, k, r) {(sy, d, k, ru) | ru. ru \<in> set rules}" by auto
  then show ?case using Cons.IH [of "do_store (st_mark_fired ops now sy d k r) s"] Cons.prems q
    by (simp add: ab_fire_def)
qed simp

lemma deliver_one_saved:
  assumes "env_over ops load e" "inv (rn_store s)" "writes_succeed ops" "\<not> en_dry_run e"
    "allow (sp_safety (en_spec e)) (pl_action (pd_plan pd)) (rn_counts s) = Inr ()"
    "load [delivery_row e pd] (sp_name (en_spec e)) (en_dest e) (rn_sys s) = ((res, None), y)"
    "\<not> (lr_loaded res = 0 \<and> lr_skipped res > 0)" "lr_errors res = []"
  shows "\<exists>i. ab_entities (abs (rn_store (deliver_one e pd s))) (run_key e pd)
      = Some (es_core (es_stored stored (new_state_of e pd ''success'' i)))"
    and "ab_is_delivered (abs (rn_store (deliver_one e pd s))) k \<longleftrightarrow> ab_is_delivered (abs (sy_store y)) k"
    and "\<forall>ru \<in> set (once_rules (en_spec e) (pd_plan pd)).
      (sp_name (en_spec e), en_dest e, pd_key pd, ru) \<in> ab_fired (abs (rn_store (deliver_one e pd s)))"
    and "rn_stats (deliver_one e pd s)
      = add_skipped (lr_skipped res) (add_loaded (lr_loaded res) (rn_stats s))"
proof -
  note n = env_overD [OF assms(1)]
  have le: "en_load e = Some load" using assms(1) by (simp add: env_over_def)
  define s1 where "s1 = upd_stats (add_skipped (lr_skipped res)) (upd_stats (add_loaded (lr_loaded res)) (s\<lparr>rn_sys := y\<rparr>))"
  have s1: "rn_store s1 = sy_store y" by (simp add: s1_def upd_stats_def)
  have iy: "inv (rn_store s1)" using load_frame [OF assms(2) n(2,3) assms(6)] s1 by simp
  define i where "i = get_opt (lr_dest_ids res) (row_id (delivery_row e pd))"
  define i' where "i' = (if i = [] then old_dest_id pd else i)"
  define s2 where "s2 = do_store (st_save ops (en_now e) (new_state_of e pd ''success'' i')) s1"
  have s2: "abs (rn_store s2) = ab_save (es_stored stored (new_state_of e pd ''success'' i')) (abs (rn_store s1))
      \<and> inv (rn_store s2)"
    unfolding s2_def by (rule do_save [OF iy assms(3)]) (use n in auto)
  have names: "\<forall>r \<in> set (once_rules (en_spec e) (pd_plan pd)). nul_free r"
    using assms(1) once_rules_names by (fastforce simp: env_over_def)
  have one: "deliver_one e pd s = delivered_ok e pd i s1"
    using assms(5,6,8) le assms(7) by (auto simp: deliver_one_def Let_def s1_def i_def)
  have eq: "rn_store (deliver_one e pd s) = rn_store (foldl (\<lambda>s ru. do_store (st_mark_fired ops (en_now e)
      (sp_name (en_spec e)) (en_dest e) (pd_key pd) ru) s) s2 (once_rules (en_spec e) (pd_plan pd)))"
    unfolding one using assms(4) n(1) by (simp add: Let_def delivered_ok_def persist_delivery_def s2_def i'_def)
  note fired = fire_all [OF assms(3) n(2,3) conjunct2 [OF s2] names, of "en_now e" "pd_key pd"]
  show "\<exists>i. ab_entities (abs (rn_store (deliver_one e pd s))) (run_key e pd)
      = Some (es_core (es_stored stored (new_state_of e pd ''success'' i)))"
    unfolding eq fired using s2 by (auto simp: ab_save_def es_stored_def run_key_def)
  show "ab_is_delivered (abs (rn_store (deliver_one e pd s))) k \<longleftrightarrow> ab_is_delivered (abs (sy_store y)) k"
    unfolding eq fired using s2 s1 by (simp add: ab_save_def ab_is_delivered_def)
  show "\<forall>ru \<in> set (once_rules (en_spec e) (pd_plan pd)).
      (sp_name (en_spec e), en_dest e, pd_key pd, ru) \<in> ab_fired (abs (rn_store (deliver_one e pd s)))"
    unfolding eq fired by auto
  show "rn_stats (deliver_one e pd s) = add_skipped (lr_skipped res) (add_loaded (lr_loaded res) (rn_stats s))"
    unfolding one by (simp add: s1_def upd_stats_def)
qed

lemma deliver_one_success:
  assumes "env_over ops load e" "inv (rn_store s)" "writes_succeed ops" "\<not> en_dry_run e"
    "allow (sp_safety (en_spec e)) (pl_action (pd_plan pd)) (rn_counts s) = Inr ()"
    "load [delivery_row e pd] (sp_name (en_spec e)) (en_dest e) (rn_sys s) = ((res, None), y)"
    "lr_loaded res > 0" "lr_errors res = []"
  shows "\<exists>i. ab_entities (abs (rn_store (deliver_one e pd s))) (run_key e pd)
      = Some (es_core (es_stored stored (new_state_of e pd ''success'' i)))"
    and "ab_is_delivered (abs (rn_store (deliver_one e pd s)))
      (row_id (delivery_row e pd), sp_name (en_spec e), en_dest e)"
    and "\<forall>ru \<in> set (once_rules (en_spec e) (pd_plan pd)).
      (sp_name (en_spec e), en_dest e, pd_key pd, ru) \<in> ab_fired (abs (rn_store (deliver_one e pd s)))"
proof -
  note n = env_overD [OF assms(1)]
  have "\<not> (lr_loaded res = 0 \<and> lr_skipped res > 0)" using assms(7) by simp
  note saved = deliver_one_saved [OF assms(1-6) this assms(8)]
  show "\<exists>i. ab_entities (abs (rn_store (deliver_one e pd s))) (run_key e pd)
      = Some (es_core (es_stored stored (new_state_of e pd ''success'' i)))" by (rule saved(1))
  show "ab_is_delivered (abs (rn_store (deliver_one e pd s)))
      (row_id (delivery_row e pd), sp_name (en_spec e), en_dest e)"
    unfolding saved(2) by (rule load_marks [OF assms(2) n(2,3) assms(6,7)])
  show "\<forall>ru \<in> set (once_rules (en_spec e) (pd_plan pd)).
      (sp_name (en_spec e), en_dest e, pd_key pd, ru) \<in> ab_fired (abs (rn_store (deliver_one e pd s)))"
    by (rule saved(3))
qed

text \<open>One row error, no row loaded: the failed state is saved.\<close>

lemma deliver_one_failure:
  assumes "env_over ops load e" "inv (rn_store s)" "writes_succeed ops" "\<not> en_dry_run e"
    "allow (sp_safety (en_spec e)) (pl_action (pd_plan pd)) (rn_counts s) = Inr ()"
    "load [delivery_row e pd] (sp_name (en_spec e)) (en_dest e) (rn_sys s) = ((res, None), y)"
    "lr_loaded res = 0" "lr_errors res = [re]"
  shows "ab_entities (abs (rn_store (deliver_one e pd s))) (run_key e pd)
      = Some (es_core (es_stored stored (new_state_of e pd ''failed'' (old_dest_id pd))))"
proof -
  note n = env_overD [OF assms(1)]
  have le: "en_load e = Some load" using assms(1) by (simp add: env_over_def)
  define s1 where "s1 = upd_stats (add_skipped (lr_skipped res)) (upd_stats (add_loaded (lr_loaded res)) (s\<lparr>rn_sys := y\<rparr>))"
  have iy: "inv (rn_store s1)" using load_frame [OF assms(2) n(2,3) assms(6)] by (simp add: s1_def upd_stats_def)
  have eq: "deliver_one e pd s = row_failed e pd s1 re"
    using assms(4-8) le by (simp add: deliver_one_def Let_def s1_def)
  define s2 where "s2 = (if dlq_enabled (rn_dlq (upd_stats add_errored s1))
      then write_dlq e (delivery_row e pd) (pd_key pd) (re_err re) (upd_stats add_errored s1)
      else upd_stats add_errored s1)"
  have i2: "inv (rn_store s2)" using iy by (simp add: s2_def upd_stats_def)
  have "deliver_one e pd s = do_store (st_save ops (en_now e) (new_state_of e pd ''failed'' (old_dest_id pd))) s2"
    unfolding eq row_failed_def Let_def save_failed_def s2_def n(1) using assms(4) by simp
  then show ?thesis
    using do_save [OF i2 assms(3), of "new_state_of e pd ''failed'' (old_dest_id pd)" "en_now e"] n
    by (simp add: ab_save_def es_stored_def run_key_def)
qed

end

context counting_destination
begin

text \<open>Every delivery is counted once; so is every extracted row at the end of the pass.\<close>

lemma deliver_one_counted:
  assumes "env_over ops load e" "sy_ctx (rn_sys s) = None"
  shows "sy_ctx (rn_sys (deliver_one e pd s)) = None
    \<and> rs_loaded (rn_stats (deliver_one e pd s)) + rs_skipped (rn_stats (deliver_one e pd s))
        + rs_errored (rn_stats (deliver_one e pd s))
      = rs_loaded (rn_stats s) + rs_skipped (rn_stats s) + rs_errored (rn_stats s) + 1
    \<and> rs_extracted (rn_stats (deliver_one e pd s)) = rs_extracted (rn_stats s)"
proof -
  obtain res err y where l: "load [delivery_row e pd] (sp_name (en_spec e)) (en_dest e) (rn_sys s) = ((res, err), y)"
    by (metis surj_pair)
  have n: "en_load e = Some load" using assms(1) by (auto simp: env_over_def)
  have c: "sy_ctx y = None" "counts_once res err" using load_counts [OF assms(2) l] by auto
  show ?thesis
  proof (cases "allow (sp_safety (en_spec e)) (pl_action (pd_plan pd)) (rn_counts s)")
    case (Inl x)
    then show ?thesis using assms(2) by (simp add: deliver_one_def upd_stats_def add_skipped_def)
  next
    case (Inr u)
    then show ?thesis
      using n l c
      by (auto simp: deliver_one_def Let_def upd_stats_def stat_defs foldl_row_failed_frame counts_once_def
          split: option.splits)
  qed
qed

lemma phase2_counted:
  "env_over ops load e \<Longrightarrow> sy_ctx (rn_sys s) = None \<Longrightarrow>
   rs_loaded (rn_stats (phase2 e pds s)) + rs_skipped (rn_stats (phase2 e pds s))
     + rs_errored (rn_stats (phase2 e pds s))
   = rs_loaded (rn_stats s) + rs_skipped (rn_stats s) + rs_errored (rn_stats s) + int (length pds)
   \<and> rs_extracted (rn_stats (phase2 e pds s)) = rs_extracted (rn_stats s)
   \<and> sy_ctx (rn_sys (phase2 e pds s)) = None"
proof (induction pds arbitrary: s)
  case (Cons pd pds)
  have p: "run_poll s = (False, s)" using Cons.prems(2) by (rule run_poll_live)
  show ?case using p Cons.IH [of "deliver_one e pd s"] deliver_one_counted [OF Cons.prems, of pd] Cons.prems
    by simp
qed simp

end

lemma mem_writes_succeed: "writes_succeed mem_ops"
  by (simp add: writes_succeed_def mem_defs)

end
