(* ===== verification/Engine_Missing.thy ===== *)
theory Engine_Missing
  imports Engine_Deliver
begin

section \<open>Entities missing from the source: what holds of the pass\<close>

text \<open>
  Which entities the pass leaves alone, what it sends, the cap on deletes, its blindness to the
  dry run, and its termination over the memory store.
\<close>

lemmas missing_defs = missing_one_def missing_delete_def missing_clear_def save_missing_def
  load_missing_def missing_event_def write_dlq_def run_defs

text \<open>The pass does not look at whether the run is a dry one.\<close>

lemma missing_one_dry_blind: "missing_one (e\<lparr>en_dry_run := b\<rparr>) = missing_one e"
  by (rule ext)+ (cases e, simp only: missing_defs missing_threshold_def run_env.simps)

lemma missing_pages_dry_blind: "missing_pages fuel (e\<lparr>en_dry_run := b\<rparr>) off ns = missing_pages fuel e off ns"
proof (induction fuel arbitrary: off ns)
  case (Suc fuel)
  then show ?case by (simp add: missing_one_dry_blind Let_def split: sum.split)
qed simp

text \<open>An entity seen in this run is left alone; one below the threshold is only counted.\<close>

lemma missing_one_seen: "es_key es \<in> set (rn_seen (snd ns)) \<Longrightarrow> missing_one e ns es = ns"
  by (simp add: missing_one_def)

lemma missing_one_below:
  assumes "es_key es \<notin> set (rn_seen (snd ns))" "es_missing es + 1 < missing_threshold (en_spec e)"
  shows "missing_one e ns es = (fst ns, save_missing e (es\<lparr>es_missing := es_missing es + 1\<rparr>) (snd ns))"
  using assms by (simp add: missing_one_def Let_def)

lemma save_missing_frame [simp]:
  "rn_world (save_missing e es s) = rn_world s" "rn_seen (save_missing e es s) = rn_seen s"
  "rn_stats (save_missing e es s) = rn_stats s" "sy_ctx (rn_sys (save_missing e es s)) = sy_ctx (rn_sys s)"
  by (simp_all add: save_missing_def run_defs)

text \<open>Without permission nothing is deleted, and the number of deletes stays within its cap.\<close>

lemma missing_delete_forbidden:
  "\<not> om_allow (sp_missing (en_spec e)) \<Longrightarrow> missing_delete e es (n, s) = (n, save_missing e es s)"
  by (simp add: missing_delete_def Let_def)

lemma missing_delete_within:
  assumes "within_cap (sf_max_deletes (sp_safety (en_spec e))) n"
  shows "within_cap (sf_max_deletes (sp_safety (en_spec e))) (fst (missing_delete e es (n, s)))"
  using assms by (auto simp: missing_delete_def within_cap_def Let_def split: prod.splits)

lemma missing_one_within:
  assumes "within_cap (sf_max_deletes (sp_safety (en_spec e))) (fst ns)"
  shows "within_cap (sf_max_deletes (sp_safety (en_spec e))) (fst (missing_one e ns es))"
proof (cases ns)
  case (Pair n s)
  then show ?thesis
    using assms missing_delete_within [of e n _ s]
    by (simp add: missing_one_def missing_clear_def Let_def)
qed

lemma missing_page_within:
  "within_cap (sf_max_deletes (sp_safety (en_spec e))) (fst ns) \<Longrightarrow>
   within_cap (sf_max_deletes (sp_safety (en_spec e))) (fst (foldl (missing_one e) ns page))"
  by (induction page arbitrary: ns) (simp_all add: missing_one_within)

text \<open>
  What the pass may send: nothing unless an action is due. \<open>sends_nothing\<close> compares the world.
\<close>

lemma missing_one_quiet:
  assumes "to_lower (om_action (sp_missing (en_spec e))) = ''delete'' \<longrightarrow> \<not> om_allow (sp_missing (en_spec e))"
    "to_lower (om_action (sp_missing (en_spec e))) = ''clear_fields'' \<longrightarrow> om_fields (sp_missing (en_spec e)) = []"
  shows "rn_world (snd (missing_one e ns es)) = rn_world (snd ns)"
proof (cases ns)
  case (Pair n s)
  show ?thesis
    using assms
    by (auto simp: Pair missing_one_def missing_delete_def missing_clear_def Let_def run_defs
        split: option.splits)
qed

lemma missing_page_quiet:
  assumes "to_lower (om_action (sp_missing (en_spec e))) = ''delete'' \<longrightarrow> \<not> om_allow (sp_missing (en_spec e))"
    "to_lower (om_action (sp_missing (en_spec e))) = ''clear_fields'' \<longrightarrow> om_fields (sp_missing (en_spec e)) = []"
  shows "rn_world (snd (foldl (missing_one e) ns page)) = rn_world (snd ns)"
  by (induction page arbitrary: ns) (simp_all add: missing_one_quiet [OF assms])

lemma missing_pages_quiet:
  assumes "to_lower (om_action (sp_missing (en_spec e))) = ''delete'' \<longrightarrow> \<not> om_allow (sp_missing (en_spec e))"
    "to_lower (om_action (sp_missing (en_spec e))) = ''clear_fields'' \<longrightarrow> om_fields (sp_missing (en_spec e)) = []"
  shows "missing_pages fuel e off ns = Some (err, s') \<Longrightarrow> rn_world s' = rn_world (snd ns)"
proof (induction fuel arbitrary: off ns)
  case (Suc fuel)
  then show ?case
    by (auto simp: Let_def missing_page_quiet [OF assms] split: sum.splits if_splits)
qed simp

subsection \<open>A second delete of the same entity\<close>

text \<open>
  The row of a delete is identified by the entity key alone. Once it is marked as delivered, a
  later delete of the entity sends nothing, and yet counts as a delete and is recorded as one.
\<close>

context destination
begin

lemma missing_delete_again:
  assumes "env_over ops load e" "inv (rn_store s)" "sy_ctx (rn_sys s) = None"
    "om_allow (sp_missing (en_spec e))" "sf_max_deletes (sp_safety (en_spec e)) \<le> 0"
    "st_is_delivered ops (es_key es) (sp_name (en_spec e)) (en_dest e) (rn_store s) = Inr True"
  shows "rn_world (snd (missing_delete e es (n, s))) = rn_world s \<and> fst (missing_delete e es (n, s)) = n + 1
    \<and> rs_loaded (rn_stats (snd (missing_delete e es (n, s)))) = rs_loaded (rn_stats s)"
proof -
  obtain res err y where l: "load [delete_row es] (sp_name (en_spec e)) (en_dest e) (rn_sys s) = ((res, err), y)"
    by (metis surj_pair)
  have k: "row_id (delete_row es) = es_key es" by (simp add: delete_row_def)
  have le: "en_load e = Some load" using assms(1) by (simp add: env_over_def)
  have d: "sy_world y = rn_world s" "lr_loaded res = 0" "err = None"
    using load_delivered [OF assms(2) env_overD(2,3) [OF assms(1)] _ l] assms(3,6) k by auto
  have "load_missing e (delete_row es) load s = (True, upd_stats (add_loaded 0) (s\<lparr>rn_sys := y\<rparr>))"
    using d(2,3) by (simp add: load_missing_def l)
  then show ?thesis
    using assms(4,5) d(1) le
    by (simp add: missing_delete_def Let_def run_defs add_loaded_def)
qed

end

subsection \<open>Termination over the memory store\<close>

text \<open>
  The entities of a memory store are filed under their own key. Saving an entity that is listed
  then replaces it, so the store does not grow while its pages are gone through, and the pass
  ends after one page more than there are full pages.
\<close>

definition mem_keyed :: "nat \<Rightarrow> mem_store \<Rightarrow> bool" where
  "mem_keyed n st \<longleftrightarrow> length (ms_entities st) = n
     \<and> (\<forall>(k, es) \<in> set (ms_entities st). k = entity_state_key (es_sync es) (es_dest es) (es_key es))"

definition mem_files :: "string \<Rightarrow> mem_store \<Rightarrow> bool" where
  "mem_files k st \<longleftrightarrow> k \<in> fst ` set (ms_entities st)"

lemma aput_present: "k \<in> fst ` set m \<Longrightarrow> length (aput k v m) = length m"
  by (induction m) auto

lemma set_aput: "(k', v') \<in> set (aput k v m) \<Longrightarrow> (k', v') = (k, v) \<or> (k', v') \<in> set m"
  by (induction m) (auto split: if_splits)

lemma mem_save_keyed:
  assumes "mem_keyed n st" "mem_files (entity_state_key (es_sync es) (es_dest es) (es_key es)) st"
  shows "mem_keyed n (snd (mem_save now es st))"
  using assms set_aput [of _ _ "entity_state_key (es_sync es) (es_dest es) (es_key es)" es "ms_entities st"]
  by (fastforce simp: mem_keyed_def mem_files_def mem_save_def aput_present)

lemma mem_save_files: "mem_files k st \<Longrightarrow> mem_files k (snd (mem_save now es st))"
  by (auto simp: mem_files_def mem_save_def keys_aput)

lemma mem_record_entities [simp]: "ms_entities (snd (mem_record now ev st)) = ms_entities st"
  by (simp add: mem_record_def)

lemma page_of_short: "int (length (page_of 500 off xs)) < 500 \<or> off + 500 \<le> int (length xs)"
  if "0 \<le> off"
  using that by (auto simp: page_of_def Let_def)

lemma set_page_of: "set (page_of lmt off xs) \<subseteq> set xs"
  by (auto simp: page_of_def Let_def dest: in_set_takeD in_set_dropD)

lemma mem_list_files:
  assumes "mem_keyed n st" "mem_list sy d lmt off st = Inr page" "es \<in> set page"
  shows "mem_files (entity_state_key (es_sync es) (es_dest es) (es_key es)) st"
proof -
  have "es \<in> snd ` set (ms_entities st)"
    using assms(2,3) set_page_of [of lmt off] by (fastforce simp: mem_list_def)
  then show ?thesis using assms(1) by (force simp: mem_keyed_def mem_files_def)
qed

text \<open>A load keeps what marking a row as delivered keeps.\<close>

definition load_keeps_entities :: "(mem_store, 'w) loader \<Rightarrow> bool" where
  "load_keeps_entities load \<longleftrightarrow>
     (\<forall>rs sy d s. ms_entities (sy_store (snd (load rs sy d s))) = ms_entities (sy_store s))"

definition keeps_entities :: "nat \<Rightarrow> mem_store \<Rightarrow> mem_store \<Rightarrow> bool" where
  "keeps_entities n st st' \<longleftrightarrow> mem_keyed n st' \<and> (\<forall>k. mem_files k st \<longrightarrow> mem_files k st')"

lemma keeps_refl: "mem_keyed n st \<Longrightarrow> keeps_entities n st st"
  by (simp add: keeps_entities_def)

lemma keeps_trans: "keeps_entities n a b \<Longrightarrow> keeps_entities n b c \<Longrightarrow> keeps_entities n a c"
  by (simp add: keeps_entities_def)

lemma keeps_same: "keeps_entities n st st1 \<Longrightarrow> ms_entities st2 = ms_entities st1 \<Longrightarrow> keeps_entities n st st2"
  by (simp add: keeps_entities_def mem_keyed_def mem_files_def)

lemma keeps_save:
  assumes "en_ops e = mem_ops" "mem_files (entity_state_key (es_sync es) (es_dest es) (es_key es)) st"
    "keeps_entities n st (rn_store t)"
  shows "keeps_entities n st (rn_store (save_missing e es t))"
  using assms mem_save_keyed [of n "rn_store t" "es\<lparr>es_updated := en_now e\<rparr>" "en_now e"]
    mem_save_files [of _ "rn_store t" "en_now e" "es\<lparr>es_updated := en_now e\<rparr>"]
  by (simp add: save_missing_def run_defs mem_ops_def keeps_entities_def)

lemma keeps_load:
  assumes "load_keeps_entities load" "keeps_entities n st (rn_store t)"
  shows "keeps_entities n st (rn_store (snd (load_missing e r load t)))"
proof -
  obtain res err y where l: "load [r] (sp_name (en_spec e)) (en_dest e) (rn_sys t) = ((res, err), y)"
    by (metis surj_pair)
  have "ms_entities (sy_store y) = ms_entities (rn_store t)"
    using assms(1) l unfolding load_keeps_entities_def by (metis snd_conv)
  then have "ms_entities (rn_store (snd (load_missing e r load t))) = ms_entities (rn_store t)"
    by (simp add: load_missing_def l run_defs Let_def write_dlq_def split: option.splits)
  then show ?thesis by (rule keeps_same [OF assms(2)])
qed

lemma keeps_record:
  assumes "en_ops e = mem_ops" "keeps_entities n st (rn_store t)"
  shows "keeps_entities n st (rn_store (do_store (st_record (en_ops e) now ev) t))"
  by (rule keeps_same [OF assms(2)]) (simp add: run_defs assms(1), simp add: mem_ops_def)

lemma missing_one_entities:
  assumes "en_ops e = mem_ops" "\<And>load. en_load e = Some load \<Longrightarrow> load_keeps_entities load"
    "mem_keyed n (rn_store s)" "mem_files (entity_state_key (es_sync es) (es_dest es) (es_key es)) (rn_store s)"
  shows "keeps_entities n (rn_store s) (rn_store (snd (missing_one e (m, s) es)))"
proof -
  let ?Q = "\<lambda>t. keeps_entities n (rn_store s) (rn_store t)"
  have start: "?Q s" using assms(3) by (rule keeps_refl)
  have save: "?Q t \<Longrightarrow> ?Q (save_missing e (es\<lparr>es_missing := i\<rparr>) t)"
    "?Q t \<Longrightarrow> ?Q (save_missing e (es\<lparr>es_missing := i, es_decision := d\<rparr>) t)"
    "?Q t \<Longrightarrow> ?Q (save_missing e (es\<lparr>es_missing := i, es_decision := d, es_missing := j\<rparr>) t)" for t i j d
    by (rule keeps_save [OF assms(1)]; simp add: assms(4))+
  have load: "?Q t \<Longrightarrow> en_load e = Some l \<Longrightarrow> ?Q (snd (load_missing e r l t))" for t l r
    by (rule keeps_load [OF assms(2)])
  have rec: "?Q t \<Longrightarrow> ?Q (do_store (st_record (en_ops e) now ev) t)" for t now ev
    by (rule keeps_record [OF assms(1)])
  have load_eq: "?Q t'" if "load_missing e r l s = (ok, t')" "en_load e = Some l" for r l ok t'
    using load [OF start that(2), of r] that(1) by simp
  have delete: "?Q (snd (missing_delete e (es\<lparr>es_missing := i\<rparr>) (m, s)))" for i
    unfolding missing_delete_def Let_def
    by (auto intro!: save [simplified] rec start elim: load_eq split: option.splits prod.splits)
  have clear: "?Q (snd (missing_clear e (es\<lparr>es_missing := i\<rparr>) (m, s)))" for i
    unfolding missing_clear_def Let_def
    by (auto intro!: save [simplified] rec start load split: option.splits)
  show ?thesis
    using start save(1) delete clear by (simp add: missing_one_def Let_def)
qed

lemma missing_page_entities:
  assumes "en_ops e = mem_ops" "\<And>load. en_load e = Some load \<Longrightarrow> load_keeps_entities load"
    "mem_keyed n (rn_store (snd ns))"
    "\<forall>es \<in> set page. mem_files (entity_state_key (es_sync es) (es_dest es) (es_key es)) (rn_store (snd ns))"
  shows "keeps_entities n (rn_store (snd ns)) (rn_store (snd (foldl (missing_one e) ns page)))"
  using assms(3,4)
proof (induction page arbitrary: ns)
  case Nil
  then show ?case by (simp add: keeps_refl)
next
  case (Cons es page)
  obtain m s where ns: "ns = (m, s)" by fastforce
  have k: "keeps_entities n (rn_store s) (rn_store (snd (missing_one e (m, s) es)))"
    by (rule missing_one_entities [OF assms(1,2)]) (use Cons.prems ns in auto)
  have "keeps_entities n (rn_store (snd (missing_one e (m, s) es)))
      (rn_store (snd (foldl (missing_one e) (missing_one e (m, s) es) page)))"
    by (rule Cons.IH) (use k Cons.prems ns in \<open>auto simp: keeps_entities_def\<close>)
  then show ?case using keeps_trans [OF k] by (simp add: ns)
qed

lemma missing_pages_returns:
  assumes "en_ops e = mem_ops" "\<And>load. en_load e = Some load \<Longrightarrow> load_keeps_entities load"
  shows "mem_keyed n (rn_store (snd ns)) \<Longrightarrow> 0 \<le> off \<Longrightarrow> n < fuel * 500 + nat off \<Longrightarrow> 0 < fuel \<Longrightarrow>
    \<exists>s'. missing_pages fuel e off ns = Some (None, s')"
proof (induction fuel arbitrary: off ns)
  case (Suc fuel)
  let ?st = "rn_store (snd ns)"
  obtain xs where xs: "mem_list (sp_name (en_spec e)) (en_dest e) missing_page_size off ?st
      = Inr (page_of missing_page_size off xs)" and len: "length xs \<le> length (ms_entities ?st)"
    by (auto simp: mem_list_def intro: order_trans [OF length_filter_le])
  let ?page = "page_of missing_page_size off xs"
  have list: "st_list (en_ops e) (sp_name (en_spec e)) (en_dest e) missing_page_size off ?st = Inr ?page"
    using xs by (simp add: assms(1)) (simp add: mem_ops_def)
  show ?case
  proof (cases "int (length ?page) < missing_page_size")
    case True
    then show ?thesis using list by (simp add: Let_def)
  next
    case False
    have files: "\<forall>es \<in> set ?page. mem_files (entity_state_key (es_sync es) (es_dest es) (es_key es)) ?st"
      using mem_list_files [OF Suc.prems(1) xs] by blast
    have keep: "mem_keyed n (rn_store (snd (foldl (missing_one e) ns ?page)))"
      using missing_page_entities [OF assms Suc.prems(1) files] by (simp add: keeps_entities_def)
    have "off + 500 \<le> int (length xs)"
      using False page_of_short [OF Suc.prems(2), of xs] by (auto simp: missing_page_size_def)
    then have room: "off + 500 \<le> int n" using len Suc.prems(1) by (simp add: mem_keyed_def)
    have "0 < fuel" using room Suc.prems(2,3) by (cases fuel) auto
    moreover have "n < fuel * 500 + nat (off + missing_page_size)"
      using Suc.prems(2,3) by (simp add: missing_page_size_def nat_add_distrib)
    ultimately show ?thesis
      using Suc.IH [OF keep, of "off + missing_page_size"] False list Suc.prems(2)
      by (simp add: Let_def missing_page_size_def)
  qed
qed simp

end
