(* ===== verification/Engine_Run.thy ===== *)
theory Engine_Run
  imports Engine_Missing
begin

section \<open>A whole run: what holds of it\<close>

text \<open>
  Over the memory store: a run returns, whatever the rows, the rules and the destination; it
  ends with the lock of its sync released; it does nothing while another run holds the lock.
  And, over any store, what a blocked run leaves.
\<close>

subsection \<open>What the delivery pass keeps of the store\<close>

lemma foldl_fired_store:
  assumes "\<And>now sy d k ru st. P st \<Longrightarrow> P (snd (st_mark_fired ops now sy d k ru st))"
  shows "P (rn_store s) \<Longrightarrow> P (rn_store (foldl (\<lambda>s ru. do_store (st_mark_fired ops now sy d k ru) s) s rules))"
  by (induction rules arbitrary: s) (simp_all add: run_defs assms)

lemma deliver_one_store:
  assumes save: "\<And>now es st. P st \<Longrightarrow> P (snd (st_save (en_ops e) now es st))"
    and fire: "\<And>now sy d k ru st. P st \<Longrightarrow> P (snd (st_mark_fired (en_ops e) now sy d k ru st))"
    and load: "\<And>load rs sy d y. en_load e = Some load \<Longrightarrow> P (sy_store y) \<Longrightarrow> P (sy_store (snd (load rs sy d y)))"
    and start: "P (rn_store s)"
  shows "P (rn_store (deliver_one e pd s))"
proof -
  have failed: "P (rn_store (save_failed e pd t))" if "P (rn_store t)" for t
    using save that by (simp add: save_failed_def run_defs)
  have fails: "P (rn_store (foldl (row_failed e pd) t es))" if "P (rn_store t)" for t es
    using that
  proof (induction es arbitrary: t)
    case (Cons re es)
    have "P (rn_store (row_failed e pd t re))"
      unfolding row_failed_def Let_def by (rule failed) (simp add: upd_stats_def Cons.prems)
    then show ?case using Cons.IH by simp
  qed simp
  have whole: "P (rn_store (load_failed e pd x t))" if "P (rn_store t)" for t x
    unfolding load_failed_def Let_def by (rule failed) (simp add: upd_stats_def that)
  have ok: "P (rn_store (delivered_ok e pd i t))" if "P (rn_store t)" for t i
  proof -
    have saved: "P (rn_store (do_store (st_save (en_ops e) now es) t))" for now es
      using save that by (simp add: run_defs)
    have "P (rn_store (persist_delivery e pd i t))"
      unfolding persist_delivery_def Let_def using that foldl_fired_store [of P, OF fire saved] by simp
    then show ?thesis by (simp add: delivered_ok_def Let_def)
  qed
  show ?thesis
  proof (cases "en_load e")
    case None
    then show ?thesis using start ok by (auto simp: deliver_one_def upd_stats_def split: sum.splits)
  next
    case (Some l)
    obtain res err y where l: "l [delivery_row e pd] (sp_name (en_spec e)) (en_dest e) (rn_sys s) = ((res, err), y)"
      by (metis surj_pair)
    have y: "P (sy_store y)"
      using load [OF Some start, of "[delivery_row e pd]" "sp_name (en_spec e)" "en_dest e"] l by simp
    define s1 where "s1 = upd_stats (add_skipped (lr_skipped res)) (upd_stats (add_loaded (lr_loaded res)) (s\<lparr>rn_sys := y\<rparr>))"
    have s1: "P (rn_store s1)" using y by (simp add: s1_def upd_stats_def)
    have skip: "P (rn_store (upd_stats (add_skipped 1) s))" using start by (simp add: upd_stats_def)
    have "deliver_one e pd s = (case allow (sp_safety (en_spec e)) (pl_action (pd_plan pd)) (rn_counts s) of
        Inl _ \<Rightarrow> upd_stats (add_skipped 1) s
      | Inr _ \<Rightarrow> (case err of Some x \<Rightarrow> load_failed e pd x s1
          | None \<Rightarrow> if lr_loaded res = 0 \<and> lr_skipped res > 0 \<and> lr_errors res = [] then s1
              else let s2 = foldl (row_failed e pd) s1 (lr_errors res) in
                if lr_errors res \<noteq> [] \<and> lr_loaded res = 0 then s2
                else delivered_ok e pd (get_opt (lr_dest_ids res) (row_id (delivery_row e pd))) s2))"
      by (simp only: deliver_one_def Some l s1_def Let_def option.case prod.case)
    then show ?thesis
      using skip s1 fails [OF s1] whole [OF s1] ok [OF fails [OF s1]]
      by (simp add: Let_def split: sum.splits option.splits)
  qed
qed

lemma phase2_store:
  assumes save: "\<And>now es st. P st \<Longrightarrow> P (snd (st_save (en_ops e) now es st))"
    and fire: "\<And>now sy d k ru st. P st \<Longrightarrow> P (snd (st_mark_fired (en_ops e) now sy d k ru st))"
    and load: "\<And>load rs sy d y. en_load e = Some load \<Longrightarrow> P (sy_store y) \<Longrightarrow> P (sy_store (snd (load rs sy d y)))"
  shows "P (rn_store s) \<Longrightarrow> P (rn_store (phase2 e pds s))"
proof (induction pds arbitrary: s)
  case (Cons pd pds)
  obtain stop s1 where p: "run_poll s = (stop, s1)" by fastforce
  have s1: "P (rn_store s1)" using run_poll_frame(1) [of s] p Cons.prems by simp
  have "P (rn_store (deliver_one e pd s1))" by (rule deliver_one_store [where P = P]) (erule save, erule fire, erule load, assumption, rule s1)
  then show ?case using p s1 Cons.IH by simp
qed simp

subsection \<open>Filed entities\<close>

definition mem_filed :: "mem_store \<Rightarrow> bool" where
  "mem_filed st \<longleftrightarrow> (\<forall>(k, es) \<in> set (ms_entities st). k = entity_state_key (es_sync es) (es_dest es) (es_key es))"

lemma mem_filed_new [simp]: "mem_filed new_mem_store"
  by (simp add: mem_filed_def new_mem_store_def)

lemma mem_filed_keyed: "mem_filed st \<Longrightarrow> mem_keyed (length (ms_entities st)) st"
  by (simp add: mem_filed_def mem_keyed_def)

lemma mem_filed_same: "ms_entities st' = ms_entities st \<Longrightarrow> mem_filed st' = mem_filed st"
  by (simp add: mem_filed_def)

lemma mem_filed_save: "mem_filed st \<Longrightarrow> mem_filed (snd (mem_save now es st))"
  by (auto simp: mem_filed_def mem_save_def dest!: set_aput)

lemma mem_other_entities:
  "ms_entities (snd (st_record mem_ops now ev st)) = ms_entities st"
  "ms_entities (snd (st_mark_fired mem_ops now sy d k ru st)) = ms_entities st"
  "ms_entities (snd (st_mark_delivered mem_ops now rid sy d st)) = ms_entities st"
  "ms_entities (snd (st_begin mem_ops st)) = ms_entities st"
  "ms_entities (snd (st_start_run mem_ops now sy mode st)) = ms_entities st"
  "ms_entities (snd (st_lock mem_ops now sy owner ttl st)) = ms_entities st"
  by (simp_all add: mem_defs Let_def split: option.splits)

lemmas mem_filed_other [simp] = mem_other_entities [THEN mem_filed_same]

lemma rest_keeps_entities: "load_keeps_entities (rest_load x c mem_ops now)"
  unfolding load_keeps_entities_def
proof (intro allI)
  fix rs sy d and s :: "(mem_store, 'a rest_world) sys"
  show "ms_entities (sy_store (snd (rest_load x c mem_ops now rs sy d s))) = ms_entities (sy_store s)"
    by (rule rest_load_keeps [where P = "\<lambda>st. ms_entities st = ms_entities (sy_store s)"])
      (simp_all add: mem_other_entities)
qed

lemma print_keeps_entities: "load_keeps_entities (print_load name)"
  by (simp add: load_keeps_entities_def print_load_store)

lemma load_keeps_filed:
  "load_keeps_entities load \<Longrightarrow> mem_filed (sy_store y) \<Longrightarrow> mem_filed (sy_store (snd (load rs sy d y)))"
  unfolding load_keeps_entities_def using mem_filed_same by blast

subsection \<open>A run returns\<close>

lemma run_phases_returns:
  assumes ops: "en_ops e = mem_ops" and load: "\<And>load. en_load e = Some load \<Longrightarrow> load_keeps_entities load"
    and filed: "mem_filed (rn_store s)"
  shows "\<exists>n. \<forall>fuel \<ge> n. \<exists>r. run_phases fuel e rows ex s = Some r"
proof -
  obtain err s1 where g: "safety_gate e (phase1 e rows s) = (err, s1)" by fastforce
  show ?thesis
  proof (cases err)
    case (Some x)
    then show ?thesis by (simp add: run_phases_def g)
  next
    case None
    have f1: "mem_filed (rn_store s1)"
      using phase1_store [of mem_filed e s rows] safety_gate_frame(8) [OF g None] filed
      by (simp add: ops)
    define s2 where "s2 = store_counts (phase2 e (rn_pending s1) s1)"
    have save: "mem_filed (snd (st_save (en_ops e) now es st))" if "mem_filed st" for now es st
      using mem_filed_save [OF that] by (simp add: ops) (simp add: mem_ops_def)
    have "mem_filed (rn_store (phase2 e (rn_pending s1) s1))"
      by (rule phase2_store [where P = mem_filed])
        (erule save, simp add: ops, erule load_keeps_filed [OF load], assumption, rule f1)
    then have f2: "mem_filed (rn_store s2)" by (simp add: s2_def store_counts_def upd_stats_def)
    obtain stop s3 where p: "run_poll s2 = (stop, s3)" by fastforce
    have f3: "mem_filed (rn_store s3)" using run_poll_frame(1) [of s2] p f2 by simp
    have "\<exists>r. missing_phase fuel e s2 = Some r" if "fuel \<ge> Suc (length (ms_entities (rn_store s3)))" for fuel
    proof -
      have "\<exists>s'. missing_pages fuel e 0 (0, s3) = Some (None, s')"
        using that mem_filed_keyed [OF f3]
        by (intro missing_pages_returns [OF ops load]) auto
      then show ?thesis by (auto simp: missing_phase_def p process_missing_def)
    qed
    then have "\<exists>r. run_phases fuel e rows ex s = Some r" if "fuel \<ge> Suc (length (ms_entities (rn_store s3)))" for fuel
      using that by (fastforce simp: run_phases_def g None s2_def)
    then show ?thesis by blast
  qed
qed

lemma run_body_returns:
  assumes ops: "eg_ops g = mem_ops" and load: "load_keeps_entities load" and filed: "mem_filed (sy_store y)"
  shows "\<exists>n. \<forall>fuel \<ge> n. \<exists>r. run_body fuel g s load extract run y = Some r"
proof -
  obtain b st where b: "st_begin mem_ops (sy_store y) = (b, st)" by fastforce
  have st: "mem_filed st" using mem_filed_other(4) [of "sy_store y"] b filed by simp
  define r1 where "r1 = set_store st (run_init g s run y)"
  obtain rows ex where x: "extract (previous_watermark mem_ops s (rn_store r1)) = (rows, ex)" by fastforce
  have "\<exists>n. \<forall>fuel \<ge> n. \<exists>r. run_phases fuel (env_of g s load run) rows ex r1 = Some r"
    by (rule run_phases_returns) (use ops load st in \<open>auto simp: env_of_def r1_def run_defs\<close>)
  then show ?thesis
    using b x by (cases b) (auto simp: run_body_def ops run_init_def r1_def Let_def)
qed

lemma run_once_returns:
  assumes ops: "eg_ops g = mem_ops" and load: "\<And>load. open_dest g s = Inr load \<Longrightarrow> load_keeps_entities load"
    and filed: "mem_filed (sy_store y)"
  shows "\<exists>n. \<forall>fuel \<ge> n. \<exists>r. run_once fuel g s y = Some r"
proof -
  obtain l st where l: "st_lock mem_ops (eg_now g) (sp_name s) (eg_owner g) lock_ttl (sy_store y) = (l, st)"
    by fastforce
  obtain i st1 where i: "st_start_run mem_ops (eg_now g) (sp_name s) ''batch'' st = (i, st1)" by fastforce
  have "mem_filed st"
    using mem_filed_other(6) [of "eg_now g" "sp_name s" "eg_owner g" lock_ttl "sy_store y"] l filed by simp
  then have st1: "mem_filed st1"
    using mem_filed_other(5) [of "eg_now g" "sp_name s" "''batch''" st] i by simp
  show ?thesis
  proof (cases "open_dest g s")
    case (Inr load')
    have "\<exists>n. \<forall>fuel \<ge> n. \<exists>r. run_body fuel g s load' ext run (y\<lparr>sy_store := st1\<rparr>) = Some r" for ext run
      by (rule run_body_returns [OF ops load [OF Inr]]) (simp add: st1)
    then show ?thesis
      by (cases "eg_open_source g s"; cases l; cases i)
         (fastforce simp: run_once_def Inr early_def ops l i)+
  qed (simp add: run_once_def early_def)
qed

subsection \<open>The lock\<close>

lemma finish_deferred_unlocks:
  assumes "eg_ops g = mem_ops"
  shows "alookup (ms_locks (rn_store (finish_deferred g s run st))) (sp_name s) = None"
  using assms by (simp add: finish_deferred_def run_defs mem_defs delete_conv')

text \<open>While the lock is held a run answers its error and touches neither the store nor the world.\<close>

lemma run_once_locked:
  assumes "eg_ops g = mem_ops" "open_dest g s = Inr load" "eg_open_source g s = Inr extract"
    "\<not> (sf_dry_run_required (sp_safety s) \<and> eg_override g = None)"
    "alookup (ms_locks (sy_store y)) (sp_name s) = Some l" "eg_now g < ml_expires l"
  shows "run_once fuel g s y = Some \<lparr>rr_error = Some (lock_error (sp_name s) (ml_owner l)),
     rr_stats = None, rr_sys = y\<rparr>"
  using assms by (auto simp: run_once_def mem_defs early_def Let_def)

text \<open>Every run that got as far as its run log ends with the lock released.\<close>

lemma run_once_unlocks:
  assumes "eg_ops g = mem_ops" "run_once fuel g s y = Some r" "rr_stats r \<noteq> None"
  shows "alookup (ms_locks (sy_store (rr_sys r))) (sp_name s) = None"
  using assms finish_deferred_unlocks [OF assms(1)]
  by (auto simp: run_once_def early_def split: sum.splits prod.splits if_splits)

end
