(* ===== verification/Sample.thy ===== *)
theory Sample
  imports Rest_Api Slack Engine
begin

section \<open>Concrete inputs\<close>

text \<open>
  A small sync, its environment, a row and a destination that answers 200 and remembers what it
  was sent: the inputs on which the properties are applied. The rules create an entity that is
  new and update one that changed.
\<close>

definition sample_source :: source_config where
  "sample_source = \<lparr>so_type = ''postgres'', so_url = ''db'', so_table = ''users'', so_query = [],
     so_entity_key = ''id'', so_watermark = None, so_batch_size = 1000, so_auth = None\<rparr>"

definition sample_dest :: dest_config where
  "sample_dest = \<lparr>de_type = ''restapi'', de_url = ''http://crm'', de_auth = None, de_object = [],
     de_table = [], de_match_on = [''id''], de_method = [], de_options = []\<rparr>"

definition sample_rules :: "rule_config list" where
  "sample_rules =
     [\<lparr>ru_name = ''new'', ru_when = When True False None [] [] [] None, ru_once = True,
       ru_action = ''create'', ru_remember = []\<rparr>,
      \<lparr>ru_name = ''changed'', ru_when = When False True None [] [] [] None, ru_once = False,
       ru_action = ''update'', ru_remember = []\<rparr>]"

definition no_safety :: safety_config where
  "no_safety = \<lparr>sf_max_creates = 0, sf_max_updates = 0, sf_max_deletes = 0, sf_approval_above = FFin 0,
     sf_dry_run_required = False, sf_ratios = [], sf_approval_for = []\<rparr>"

definition sample_spec :: sync_spec where
  "sample_spec = \<lparr>sp_name = ''crm'', sp_source = sample_source, sp_mapping = [], sp_required = [],
     sp_dest = sample_dest,
     sp_state = \<lparr>sc_backend = ''sqlite'', sc_path = ''s.db'', sc_connection = [], sc_key_prefix = [],
       sc_fingerprint = \<lparr>fc_include = [], fc_exclude = []\<rparr>\<rparr>,
     sp_decisions = \<lparr>dc_default = ''skip'', dc_rules = sample_rules\<rparr>,
     sp_missing = \<lparr>om_action = ''delete'', om_fields = [], om_after = 1, om_allow = False\<rparr>,
     sp_safety = no_safety,
     sp_errors = \<lparr>er_on_error = ''skip'', er_max_retries = 3, er_dlq_path = [], er_webhook = [],
       er_dlq2_path = []\<rparr>,
     sp_artifacts = \<lparr>ac_path = [], ac_max_samples = 0\<rparr>, sp_metrics_path = [], sp_cron = []\<rparr>"

subsection \<open>A destination\<close>

definition ok_http :: "http_request list http_env" where
  "ok_http = \<lparr>hx_send = (\<lambda>q w. (Inr (200, []), w @ [q])), hx_now = (\<lambda>_. 1000), hx_sleep = (\<lambda>_ w. w),
     hx_wait_token = (\<lambda>w. w), hx_token = (\<lambda>_ w. (Inl (ErrMsg ''no token server''), w)),
     hx_request_error = (\<lambda>_ _. None), hx_parse_uri = (\<lambda>_. None), hx_parse_duration = (\<lambda>_. Inr 0)\<rparr>"

text \<open>The same server with the status of its answers given.\<close>

definition status_http :: "int \<Rightarrow> http_request list http_env" where
  "status_http code = ok_http\<lparr>hx_send := (\<lambda>q w. (Inr (code, []), w @ [q]))\<rparr>"

definition sample_conn :: rest_conn where
  "sample_conn = \<lparr>rc_cfg = (sync_dest_to_conn sample_dest)\<lparr>cd_method := ''POST''\<rparr>, rc_auth = None,
     rc_limiter = None, rc_breaker = None\<rparr>"

definition sample_load :: "int \<Rightarrow> (mem_store, http_request list rest_world) loader" where
  "sample_load code = rest_load (status_http code) sample_conn mem_ops 1000"

definition sample_world :: "http_request list rest_world" where
  "sample_world = rest_world_init sample_conn []"

definition sample_env :: "int \<Rightarrow> (mem_store, http_request list rest_world) run_env" where
  "sample_env code = \<lparr>en_ops = mem_ops, en_load = Some (sample_load code), en_spec = sample_spec,
     en_dest = ''restapi'', en_dry_run = False, en_approval = [], en_now = 1000, en_run = 1,
     en_alert = (\<lambda>_ w. w)\<rparr>"

subsection \<open>A run\<close>

definition sample_row :: row where
  "sample_row = row_zero\<lparr>row_id := ''r1'', row_data := [(''id'', GInt 7), (''plan'', GStr ''pro'')],
     row_watermark := 900\<rparr>"

definition sample_engine :: "int \<Rightarrow> row list \<Rightarrow> (mem_store, http_request list rest_world) engine" where
  "sample_engine code rows = \<lparr>eg_ops = mem_ops, eg_override = None, eg_dry_run = False, eg_approval = [],
     eg_open_dest = (\<lambda>_. Inr (sample_load code)), eg_open_source = (\<lambda>_. Inr (\<lambda>_. (rows, None))),
     eg_owner = ''me'', eg_now = 1000, eg_dlq_fault = None, eg_alert = (\<lambda>_ _ _ w. w)\<rparr>"

definition sample_sys :: "(mem_store, http_request list rest_world) sys" where
  "sample_sys = \<lparr>sy_ctx = None, sy_store = new_mem_store, sy_world = sample_world\<rparr>"

definition sample_state :: "(mem_store, http_request list rest_world) run_state" where
  "sample_state = run_init (sample_engine 200 []) sample_spec 1 sample_sys"

definition sample_plan :: plan where
  "sample_plan = \<lparr>pl_action = ''create'', pl_rules = [''new''], pl_reasons = [''first_seen()''], pl_remember = []\<rparr>"

definition sample_pending :: pending_delivery where
  "sample_pending = \<lparr>pd_row = sample_row, pd_key = ''7'', pd_mapped = row_data sample_row, pd_prev_fp = [],
     pd_cur_fp = ''f'', pd_prev_payload = [], pd_es = None, pd_plan = sample_plan, pd_first_seen = True,
     pd_changed = [''id'', ''plan'']\<rparr>"

lemmas sample_defs = sample_source_def sample_dest_def sample_rules_def no_safety_def sample_spec_def
  sample_row_def sample_plan_def sample_pending_def sample_state_def sample_sys_def sample_engine_def
  sample_env_def sample_world_def rest_world_init_def sample_conn_def sync_dest_to_conn_def

end
