(* ===== verification/Engine_Props.thy ===== *)
theory Engine_Props
  imports Engine_Run Sample Store_Laws
begin

section \<open>The properties of a run\<close>

text \<open>
  What a user of the engine relies on, stated of the whole run or of a whole delivery, over the
  memory store or the SQLite store and the REST destination; and the places where the run does
  less than one would expect. The lemmas are those of the previous theories, applied through
  the interpretations of the store and destination contracts.
\<close>

subsection \<open>The end of a run keeps the counters\<close>

definition tally :: "run_stats \<Rightarrow> int \<times> int \<times> int \<times> int" where
  "tally st = (rs_extracted st, rs_loaded st, rs_skipped st, rs_errored st)"

lemma tally_fields:
  "tally st = tally st' \<longleftrightarrow> rs_extracted st = rs_extracted st' \<and> rs_loaded st = rs_loaded st'
     \<and> rs_skipped st = rs_skipped st' \<and> rs_errored st = rs_errored st'"
  by (simp add: tally_def)

lemma final_status_tally [simp]: "tally (final_status c err st) = tally st"
  by (simp add: final_status_def fail_run_def tally_def split: option.splits)

lemma send_alert_stats [simp]: "rn_stats (send_alert e err s) = rn_stats s"
  by (simp add: send_alert_def split: option.splits)

lemma run_poll_stats: "run_poll s = (b, s') \<Longrightarrow> rn_stats s' = rn_stats s"
  using run_poll_frame(3) [of s] by simp

lemma fail_run_tally [simp]: "tally (fail_run msg st) = tally st"
  by (simp add: fail_run_def tally_def)

lemma close_run_tally: "close_run e ex s = (err, s') \<Longrightarrow> tally (rn_stats s') = tally (rn_stats s)"
  by (auto simp: close_run_def Let_def run_defs dest!: run_poll_stats split: prod.splits sum.splits)

lemma store_counts_frame [simp]:
  "tally (rn_stats (store_counts s)) = tally (rn_stats s)"
  "rn_world (store_counts s) = rn_world s" "rn_store (store_counts s) = rn_store s"
  by (simp_all add: store_counts_def run_defs tally_def)

lemma run_phases_passed:
  assumes "safety_gate e (phase1 e rows s) = (None, s1)" "om_action (sp_missing (en_spec e)) = []"
  shows "run_phases fuel e rows ex s
    = Some (close_run e ex (store_counts (phase2 e (rn_pending s1) s1)))"
  using assms by (simp add: run_phases_def missing_phase_def)

lemma run_init_start [simp]:
  "unaccounted (run_init g spec run y) = 0" "rn_pending (run_init g spec run y) = []"
  "rn_sys (run_init g spec run y) = y" "rs_extracted (rn_stats (run_init g spec run y)) = 0"
  "rn_counts (run_init g spec run y) = counts_zero"
  "rn_max_wm (run_init g spec run y) = time_zero"
  by (simp_all add: run_init_def unaccounted_def stats_init_def)

lemma phase1_extracted_live:
  "sy_ctx (rn_sys s) = None \<Longrightarrow>
   rs_extracted (rn_stats (phase1 e rows s)) = rs_extracted (rn_stats s) + int (length rows)"
  by (simp add: phase1_live foldl_process_extracted)

lemma phase1_ctx_live: "sy_ctx (rn_sys s) = None \<Longrightarrow> sy_ctx (rn_sys (phase1 e rows s)) = None"
proof -
  have "sy_ctx (rn_sys (foldl (\<lambda>s r. process_row e r s) s rows)) = sy_ctx (rn_sys s)" for s
    by (induction rows arbitrary: s) simp_all
  then show "sy_ctx (rn_sys s) = None \<Longrightarrow> ?thesis" by (simp add: phase1_live)
qed

lemma safety_gate_tally: "safety_gate e s = (err, s') \<Longrightarrow> unaccounted s' = unaccounted s"
  by (rule safety_gate_frame(7))

subsection \<open>Properties\<close>

text \<open>
  Property C1. Every row is accounted for: after a run over a context that is never cancelled,
  whose gates let it through and which handles no missing entities, the rows extracted are the
  rows of the source, and each was counted exactly once, as loaded, skipped or errored. The
  answers of the destination do not matter.
\<close>

theorem run_counts_every_row:
  assumes "env_over mem_ops (rest_load x c mem_ops now) e" "sy_ctx y = None"
    and "fst (safety_gate e (phase1 e rows (run_init g spec run y))) = None"
    and "om_action (sp_missing (en_spec e)) = []"
    and "run_phases fuel e rows ex (run_init g spec run y) = Some (err, s')"
  shows "rs_extracted (rn_stats s') = int (length rows)
    \<and> rs_loaded (rn_stats s') + rs_skipped (rn_stats s') + rs_errored (rn_stats s') = int (length rows)"
proof -
  let ?s0 = "run_init g spec run y"
  obtain s1 where g: "safety_gate e (phase1 e rows ?s0) = (None, s1)"
    using assms(3) by (cases "safety_gate e (phase1 e rows ?s0)") simp
  note frame = safety_gate_frame [OF g]
  have live: "sy_ctx (rn_sys s1) = None"
    using frame(4) phase1_ctx_live [of ?s0] assms(2) by simp
  have ex: "rs_extracted (rn_stats s1) = int (length rows)"
    using frame(15) phase1_extracted_live [of ?s0] assms(2) by simp
  have un: "unaccounted s1 = 0" using frame(7) phase1_unaccounted [of e rows ?s0] by simp
  note p2 = rest_mem.phase2_counted [OF assms(1) live, of "rn_pending s1"]
  have t: "tally (rn_stats s') = tally (rn_stats (phase2 e (rn_pending s1) s1))"
    using assms(5) close_run_tally by (fastforce simp: run_phases_passed [OF g assms(4)])
  show ?thesis using t p2 un ex by (auto simp: tally_fields unaccounted_def)
qed


lemma no_safety_passes: "sp_safety (en_spec e) = no_safety \<Longrightarrow> fst (safety_gate e s) = None"
  by (simp add: safety_gate_passes no_safety_def check_field_ratios_def approval_required_def Let_def)

lemma sample_over: "env_over mem_ops (sample_load code) (sample_env code)"
  by (simp add: env_over_def sample_env_def sample_spec_def sample_rules_def nul_free_def nul_def)

definition plain_env :: "int \<Rightarrow> (mem_store, http_request list rest_world) run_env" where
  "plain_env code = (sample_env code)\<lparr>en_spec := sample_spec\<lparr>sp_missing := (sp_missing sample_spec)\<lparr>om_action := []\<rparr>\<rparr>\<rparr>"

lemma plain_over: "env_over mem_ops (rest_load (status_http code) sample_conn mem_ops 1000) (plain_env code)"
  by (simp add: env_over_def plain_env_def sample_env_def sample_load_def sample_spec_def sample_rules_def nul_free_def nul_def)

text \<open>The same sync with other safety settings.\<close>

definition gated_env :: "safety_config \<Rightarrow> (mem_store, http_request list rest_world) run_env" where
  "gated_env sf = (sample_env 200)\<lparr>en_spec := sample_spec\<lparr>sp_safety := sf\<rparr>\<rparr>"

lemma sample_decide:
  "map_sum id pl_action (decide (gated_env sf) key m None new_mem_store) = Inr ''create''"
  by (simp add: decide_def evaluate_def gated_env_def sample_env_def sample_spec_def sample_rules_def fired_before_def
      firing_checker_def mem_defs new_mem_store_def input_of_def Let_def plan_of_rule_def default_plan_def)

lemma sample_decides:
  "map (\<lambda>pd. pl_action (pd_plan pd)) (rn_pending (phase1 (gated_env sf) [sample_row] sample_state)) = [''create'']"
proof -
  obtain p where p: "decide (gated_env sf) ''7'' (mapped_row (sample_spec\<lparr>sp_safety := sf\<rparr>) (row_data sample_row)) None new_mem_store = Inr p"
      "pl_action p = ''create''"
    using sample_decide [of sf "''7''" "mapped_row (sample_spec\<lparr>sp_safety := sf\<rparr>) (row_data sample_row)"]
    by (cases "decide (gated_env sf) ''7'' (mapped_row (sample_spec\<lparr>sp_safety := sf\<rparr>) (row_data sample_row)) None new_mem_store") auto
  have k: "sprint_v (get_or_nil (row_data sample_row) (so_entity_key (sp_source sample_spec))) = ''7''"
    by (simp add: sample_row_def sample_spec_def sample_source_def get_or_nil_def dec_int_def dec_pos.simps digit_char_def char_of_eq_iff)
  have r: "missing_required (row_data sample_row) (sp_required sample_spec) = []"
    by (simp add: sample_spec_def missing_required_def)
  have en: "en_spec (gated_env sf) = sample_spec\<lparr>sp_safety := sf\<rparr>" "en_ops (gated_env sf) = mem_ops"
    "en_dest (gated_env sf) = ''restapi''"
    by (simp_all add: gated_env_def sample_env_def)
  have st: "rn_store sample_state = new_mem_store" "sy_ctx (rn_sys sample_state) = None" "rn_pending sample_state = []"
    by (simp_all add: sample_state_def sample_sys_def)
  have g: "st_get mem_ops sy d k new_mem_store = Inr None" for sy d k
    by (simp add: mem_defs new_mem_store_def)
  have sk: "\<not> plan_skipped p" using p by (simp add: plan_skipped_def)
  show ?thesis
    using p sk by (simp add: run_poll_live st process_row_def Let_def en r k g run_defs stat_defs pending_of_def)
qed
theorem run_counts_every_row_witness:
  "\<exists>err s'. run_phases 0 (plain_env 404) [sample_row, row_zero] None sample_state = Some (err, s')
     \<and> rs_loaded (rn_stats s') + rs_skipped (rn_stats s') + rs_errored (rn_stats s') = 2"
proof -
  let ?s = "run_init (sample_engine 200 []) sample_spec 1 sample_sys"
  have g: "fst (safety_gate (plain_env 404) (phase1 (plain_env 404) [sample_row, row_zero] ?s)) = None"
    by (rule no_safety_passes) (simp add: plain_env_def sample_spec_def)
  obtain s1 where s1: "safety_gate (plain_env 404) (phase1 (plain_env 404) [sample_row, row_zero] ?s) = (None, s1)"
    using g by (metis prod.collapse)
  have m: "om_action (sp_missing (en_spec (plain_env 404))) = []" by (simp add: plain_env_def)
  obtain err s' where r: "run_phases 0 (plain_env 404) [sample_row, row_zero] None ?s = Some (err, s')"
    using run_phases_passed [OF s1 m] by (metis prod.collapse)
  show ?thesis
    using run_counts_every_row [OF plain_over _ g m r] r by (simp add: sample_sys_def sample_state_def)
qed

text \<open>An approval is required for every create, and none is given.\<close>

definition approval_env :: "(mem_store, http_request list rest_world) run_env" where
  "approval_env = gated_env (no_safety\<lparr>sf_approval_for := [''create'']\<rparr>)"

lemma approval_counts:
  "pending_counts (rn_pending (phase1 approval_env [sample_row] sample_state)) = counts_zero\<lparr>rc_creates := 1\<rparr>"
proof -
  obtain pd where "rn_pending (phase1 approval_env [sample_row] sample_state) = [pd]"
      "pl_action (pd_plan pd) = ''create''"
    using sample_decides by (auto simp: approval_env_def simp del: phase1.simps)
  then show ?thesis
    by (simp add: pending_counts_def record_action_def counts_zero_def del: phase1.simps)
qed


subsection \<open>Caps\<close>

definition capped :: "run_stats \<Rightarrow> int \<times> int \<times> int" where
  "capped st = (rs_creates st, rs_updates st, rs_deletes st)"

lemma missing_one_capped: "capped (rn_stats (snd (missing_one e ns es))) = capped (rn_stats (snd ns))"
  by (cases ns) (auto simp: missing_one_def missing_delete_def missing_clear_def save_missing_def load_missing_def
      write_dlq_def run_defs stat_defs capped_def Let_def split: option.splits prod.splits)

lemma missing_page_capped:
  "capped (rn_stats (snd (foldl (missing_one e) ns page))) = capped (rn_stats (snd ns))"
  by (induction page arbitrary: ns) (simp_all add: missing_one_capped)

lemma missing_pages_capped:
  "missing_pages fuel e off ns = Some (err, s') \<Longrightarrow> capped (rn_stats s') = capped (rn_stats (snd ns))"
proof (induction fuel e off ns rule: missing_pages.induct)
  case (2 fuel e off ns)
  then show ?case
    by (auto simp: Let_def missing_page_capped split: sum.splits if_splits)
qed simp

lemma missing_phase_capped:
  "missing_phase fuel e s = Some s' \<Longrightarrow> capped (rn_stats s') = capped (rn_stats s)"
  by (auto simp: missing_phase_def process_missing_def dest!: run_poll_stats missing_pages_capped
      split: if_splits prod.splits)

lemma close_run_capped: "close_run e ex s = (err, s') \<Longrightarrow> capped (rn_stats s') = capped (rn_stats s)"
  by (auto simp: close_run_def Let_def run_defs final_status_def fail_run_def capped_def dest!: run_poll_stats
      split: prod.splits sum.splits option.splits)

text \<open>
  Property C6. The caps on creates, updates and deletes bind: a run that passed the gates reports
  as many creates, updates and deletes as its deliveries made, and never more than the
  configured maximum of each (a maximum of zero is none). An action that would exceed its
  maximum is counted as skipped and nothing is sent for it.
\<close>

theorem caps_bind:
  assumes "run_phases fuel e rows ex (run_init g spec run y) = Some (err, s')"
    and "fst (safety_gate e (phase1 e rows (run_init g spec run y))) = None"
    and "allow (sp_safety (en_spec e)) (pl_action (pd_plan pd)) (rn_counts t) = Inl refused"
  shows "caps_ok (sp_safety (en_spec e))
      \<lparr>rc_creates = rs_creates (rn_stats s'), rc_updates = rs_updates (rn_stats s'),
       rc_deletes = rs_deletes (rn_stats s')\<rparr>
    \<and> deliver_one e pd t = upd_stats (add_skipped 1) t"
proof -
  let ?s0 = "run_init g spec run y"
  obtain s1 where g: "safety_gate e (phase1 e rows ?s0) = (None, s1)"
    using assms(2) by (cases "safety_gate e (phase1 e rows ?s0)") simp
  let ?s2 = "phase2 e (rn_pending s1) s1"
  have "rn_counts s1 = counts_zero"
    using safety_gate_frame(3) [OF g] phase1_frame [of e rows ?s0] by simp
  then have ok: "caps_ok (sp_safety (en_spec e)) (rn_counts ?s2)"
    using phase2_caps [of e s1] by simp
  obtain s3 where s3: "missing_phase fuel e (store_counts ?s2) = Some s3" "close_run e ex s3 = (err, s')"
    using assms(1) g by (auto simp: run_phases_def split: option.splits)
  have "capped (rn_stats s') = capped (rn_stats (store_counts ?s2))"
    using missing_phase_capped [OF s3(1)] close_run_capped [OF s3(2)] by simp
  then have "rs_creates (rn_stats s') = rc_creates (rn_counts ?s2)"
      "rs_updates (rn_stats s') = rc_updates (rn_counts ?s2)"
      "rs_deletes (rn_stats s') = rc_deletes (rn_counts ?s2)"
    by (simp_all add: capped_def store_counts_def run_defs)
  with ok show ?thesis
    using deliver_one_capped [OF assms(3)] by (simp add: caps_ok_def)
qed

subsection \<open>The sample destination answers\<close>

definition quiet_sys :: "(mem_store, http_request list rest_world) sys \<Rightarrow> bool" where
  "quiet_sys s \<longleftrightarrow> sy_ctx s = None \<and> rw_breaker (sy_world s) = None"

lemma sample_attempt:
  assumes "quiet_sys s"
  shows "\<exists>s'. rest_attempt (status_http code) sample_conn i b s = ((code, None), s')
    \<and> quiet_sys s' \<and> sy_store s' = sy_store s"
  using assms
  by (auto simp: quiet_sys_def rest_attempt_def poll_never allow_request_def rest_wait_def sample_conn_def set_world_def
      rest_build_def new_request_def status_http_def ok_http_def rest_auth_def rest_do_def
      record_circuit_response_def record_circuit_failure_def)

lemma sample_send:
  assumes "quiet_sys s"
  shows "\<exists>s'. rest_send (status_http 200) sample_conn i b s = (None, s') \<and> quiet_sys s' \<and> sy_store s' = sy_store s"
    and "\<exists>x s'. rest_send (status_http 404) sample_conn i b s = (Some x, s') \<and> \<not> is_ctx_error x
      \<and> quiet_sys s' \<and> sy_store s' = sy_store s"
proof -
  have rt: "cd_retry (rc_cfg sample_conn) = \<lparr>rt_attempts = 0, rt_backoff_ms = 0, rt_backoff_on = [], rt_drop_on = []\<rparr>"
    by (simp add: sample_conn_def sync_dest_to_conn_def)
  show "\<exists>s'. rest_send (status_http 200) sample_conn i b s = (None, s') \<and> quiet_sys s' \<and> sy_store s' = sy_store s"
    using sample_attempt [OF assms, of 200 i b]
    by (auto simp: rest_send_def do_with_retry_def default_retry_def rt numeral_3_eq_3 is_2xx_def)
  show "\<exists>x s'. rest_send (status_http 404) sample_conn i b s = (Some x, s') \<and> \<not> is_ctx_error x
      \<and> quiet_sys s' \<and> sy_store s' = sy_store s"
    using sample_attempt [OF assms, of 404 i b]
    by (auto simp: rest_send_def do_with_retry_def default_retry_def rt numeral_3_eq_3 is_2xx_def
        permanent_failure_def is_ctx_error_def)
qed

lemma sample_load_one:
  assumes "quiet_sys s" "ms_deliveries (sy_store s) = []" "ms_pending (sy_store s) = []"
    and "json_marshal (GMap (row_data r)) = Some body"
  shows "\<exists>res y. rest_load (status_http 200) sample_conn mem_ops 1000 [r] sy d s = ((res, None), y)
      \<and> lr_loaded res = 1 \<and> lr_errors res = []"
    and "\<exists>res y re. rest_load (status_http 404) sample_conn mem_ops 1000 [r] sy d s = ((res, None), y)
      \<and> lr_loaded res = 0 \<and> lr_errors res = [re]"
proof -
  have live: "poll t = (False, t)" if "quiet_sys t" for t :: "(mem_store, http_request list rest_world) sys"
    using that by (simp add: quiet_sys_def poll_never)
  have new: "st_is_delivered mem_ops (row_id r) sy d (sy_store s) = Inr False"
    using assms(2,3) by (simp add: mem_defs Let_def)
  obtain s' where s': "rest_send (status_http 200) sample_conn (row_id r) body s = (None, s')" "quiet_sys s'"
    using sample_send(1) [OF assms(1)] by blast
  obtain x t where t: "rest_send (status_http 404) sample_conn (row_id r) body s = (Some x, t)" "\<not> is_ctx_error x" "quiet_sys t"
    using sample_send(2) [OF assms(1)] by blast
  obtain st where st: "st_mark_delivered mem_ops 1000 (row_id r) sy d (sy_store s') = (Inr (), st)"
    by (cases "ms_in_batch (sy_store s')") (simp_all add: mem_defs Let_def)
  have q: "quiet_sys (s'\<lparr>sy_store := st\<rparr>)" using s'(2) by (simp add: quiet_sys_def)
  show "\<exists>res y. rest_load (status_http 200) sample_conn mem_ops 1000 [r] sy d s = ((res, None), y)
      \<and> lr_loaded res = 1 \<and> lr_errors res = []"
    using live [OF assms(1)] live [OF q] new assms(4) s'(1) st by (simp add: rest_load_def rest_row_def del: json_marshal.simps)
  show "\<exists>res y re. rest_load (status_http 404) sample_conn mem_ops 1000 [r] sy d s = ((res, None), y)
      \<and> lr_loaded res = 0 \<and> lr_errors res = [re]"
    using live [OF assms(1)] live [OF t(3)] new assms(4) t(1,2)
    by (simp add: rest_load_def rest_row_def lr_add_error_def del: json_marshal.simps)
qed

lemma quiet_sample [simp]: "quiet_sys sample_sys"
  by (simp add: quiet_sys_def sample_sys_def sample_world_def rest_world_init_def sample_conn_def)

lemma sample_marshals: "\<exists>body. json_marshal (GMap (row_data (delivery_row e sample_pending))) = Some body"
  by (simp add: delivery_row_def sample_pending_def sample_row_def)

subsection \<open>Deliveries\<close>

lemma es_core_eqD:
  assumes "es_core a = es_core b"
  shows "es_fp a = es_fp b" "es_payload a = es_payload b" "es_status a = es_status b" "es_version a = es_version b"
    "es_dest_id a = es_dest_id b"
proof -
  have "es_fp (es_core a) = es_fp (es_core b)" "es_payload (es_core a) = es_payload (es_core b)"
    "es_status (es_core a) = es_status (es_core b)" "es_version (es_core a) = es_version (es_core b)"
    "es_dest_id (es_core a) = es_dest_id (es_core b)"
    using assms by simp_all
  then show "es_fp a = es_fp b" "es_payload a = es_payload b" "es_status a = es_status b" "es_version a = es_version b"
    "es_dest_id a = es_dest_id b"
    by (simp_all add: es_core_def)
qed

text \<open>What the next run sees of an entity: the same values are neither new nor changed.\<close>

definition seen_unchanged :: "sync_spec \<Rightarrow> payload \<Rightarrow> entity_state \<Rightarrow> bool" where
  "seen_unchanged spec mapped es \<longleftrightarrow> \<not> in_first_seen (input_of spec mapped (Some es))
     \<and> \<not> in_fp_changed (input_of spec mapped (Some es))"

lemma mem_found:
  assumes "env_over mem_ops load e" "mem_inv st" "ab_entities (mem_abs st) (run_key e pd) = Some (es_core new)"
  obtains es where "st_get mem_ops (sp_name (en_spec e)) (en_dest e) (pd_key pd) st = Inr (Some es)"
    "es_core es = es_core new"
proof -
  obtain found where f: "st_get mem_ops (sp_name (en_spec e)) (en_dest e) (pd_key pd) st = Inr found"
    using mem_answers by blast
  have "map_option es_core found = Some (es_core new)"
    using mem.get_law [OF assms(2) _ _ f] assms(1,3) by (simp add: env_over_def run_key_def)
  then show thesis using f that by auto
qed

lemma new_state_fields:
  "es_fp (new_state_of e pd st i) = pd_cur_fp pd" "es_payload (new_state_of e pd st i) = pd_mapped pd"
  "es_status (new_state_of e pd st i) = st" "es_dest_id (new_state_of e pd st i) = i"
  "es_version (new_state_of e pd st i) = (case pd_es pd of None \<Rightarrow> 1 | Some old \<Rightarrow> es_version old + 1)"
  by (simp_all add: new_state_of_def build_entity_state_def)

lemma unchanged_next_time:
  "es_fp es = row_fingerprint spec mapped \<Longrightarrow> seen_unchanged spec mapped es"
  by (simp add: seen_unchanged_def input_of_def Let_def)

text \<open>
  Property C4. A delivered row is remembered: over the memory store, after a successful delivery
  the entity holds the new fingerprint and payload with the status success, the operation counts
  as delivered, and every once-rule of the plan has fired; the next run that extracts the same
  values sees neither a new nor a changed entity.
\<close>

theorem delivered_row_remembered:
  assumes "env_over mem_ops (rest_load x c mem_ops now) e" "mem_inv (rn_store s)" "\<not> en_dry_run e"
    and "allow (sp_safety (en_spec e)) (pl_action (pd_plan pd)) (rn_counts s) = Inr ()"
    and "rest_load x c mem_ops now [delivery_row e pd] (sp_name (en_spec e)) (en_dest e) (rn_sys s) = ((res, None), y)"
    and "lr_loaded res > 0" "lr_errors res = []"
    and "pd_cur_fp pd = row_fingerprint (en_spec e) (pd_mapped pd)"
    and "st = rn_store (deliver_one e pd s)"
  shows "(\<exists>es. st_get mem_ops (sp_name (en_spec e)) (en_dest e) (pd_key pd) st = Inr (Some es)
      \<and> es_fp es = pd_cur_fp pd \<and> es_payload es = pd_mapped pd \<and> es_status es = ''success''
      \<and> es_version es = (case pd_es pd of None \<Rightarrow> 1 | Some old \<Rightarrow> es_version old + 1)
      \<and> seen_unchanged (en_spec e) (pd_mapped pd) es)
    \<and> st_is_delivered mem_ops (row_id (delivery_row e pd)) (sp_name (en_spec e)) (en_dest e) st = Inr True
    \<and> (\<forall>ru \<in> set (once_rules (en_spec e) (pd_plan pd)).
        st_has_fired mem_ops (sp_name (en_spec e)) (en_dest e) (pd_key pd) ru st = Inr True)"
proof -
  note ok = rest_mem.deliver_one_success [OF assms(1,2) mem_writes_succeed assms(3-7)]
  have inv: "mem_inv st" unfolding assms(9) by (rule rest_mem.deliver_one_inv [OF assms(1,2)])
  have n: "nul_free (sp_name (en_spec e))" "nul_free (en_dest e)"
    using assms(1) by (simp_all add: env_over_def)
  obtain i where "ab_entities (mem_abs st) (run_key e pd) = Some (es_core (new_state_of e pd ''success'' i))"
    using ok(1) assms(9) by auto
  from mem_found [OF assms(1) inv this] obtain es where
    es: "st_get mem_ops (sp_name (en_spec e)) (en_dest e) (pd_key pd) st = Inr (Some es)"
      "es_core es = es_core (new_state_of e pd ''success'' i)"
    by blast
  note f = es_core_eqD [OF es(2)]
  have entity: "es_fp es = pd_cur_fp pd" "es_payload es = pd_mapped pd" "es_status es = ''success''"
      "es_version es = (case pd_es pd of None \<Rightarrow> 1 | Some old \<Rightarrow> es_version old + 1)"
    by (simp_all only: f new_state_fields)
  obtain b where b: "st_is_delivered mem_ops (row_id (delivery_row e pd)) (sp_name (en_spec e)) (en_dest e) st = Inr b"
    using mem_is_delivered_answers by blast
  have "b" using mem.is_delivered_law [OF inv n b] ok(2) assms(9) by simp
  moreover have "st_has_fired mem_ops (sp_name (en_spec e)) (en_dest e) (pd_key pd) ru st = Inr True"
    if ru: "ru \<in> set (once_rules (en_spec e) (pd_plan pd))" for ru
  proof -
    have "nul_free ru" using once_rules_names [OF ru] assms(1) by (auto simp: env_over_def)
    moreover obtain c where c: "st_has_fired mem_ops (sp_name (en_spec e)) (en_dest e) (pd_key pd) ru st = Inr c"
      using mem_answers by blast
    ultimately show ?thesis using mem.has_fired_law [OF inv n _ c] ok(3) ru assms(9) by simp
  qed
  ultimately show ?thesis
    using es(1) entity unchanged_next_time [of es "en_spec e" "pd_mapped pd"] assms(8) b by auto
qed

text \<open>
  Property C5. A failed delivery is remembered too, under the new fingerprint: when the
  destination rejects the row, the entity is saved with the values that never arrived and the
  status failed. The next run that extracts the same values sees neither a new nor a changed
  entity, so no rule on changes sends it again.
\<close>

theorem failed_row_looks_unchanged:
  assumes "env_over mem_ops (rest_load x c mem_ops now) e" "mem_inv (rn_store s)" "\<not> en_dry_run e"
    and "allow (sp_safety (en_spec e)) (pl_action (pd_plan pd)) (rn_counts s) = Inr ()"
    and "rest_load x c mem_ops now [delivery_row e pd] (sp_name (en_spec e)) (en_dest e) (rn_sys s) = ((res, None), y)"
    and "lr_loaded res = 0" "lr_errors res = [re]"
    and "pd_cur_fp pd = row_fingerprint (en_spec e) (pd_mapped pd)"
  shows "\<exists>es. st_get mem_ops (sp_name (en_spec e)) (en_dest e) (pd_key pd) (rn_store (deliver_one e pd s)) = Inr (Some es)
      \<and> es_status es = ''failed'' \<and> es_payload es = pd_mapped pd
      \<and> seen_unchanged (en_spec e) (pd_mapped pd) es"
proof -
  have inv: "mem_inv (rn_store (deliver_one e pd s))" by (rule rest_mem.deliver_one_inv [OF assms(1,2)])
  have "ab_entities (mem_abs (rn_store (deliver_one e pd s))) (run_key e pd)
      = Some (es_core (new_state_of e pd ''failed'' (old_dest_id pd)))"
    using rest_mem.deliver_one_failure [OF assms(1,2) mem_writes_succeed assms(3-7)] by simp
  from mem_found [OF assms(1) inv this] obtain es where
    es: "st_get mem_ops (sp_name (en_spec e)) (en_dest e) (pd_key pd) (rn_store (deliver_one e pd s)) = Inr (Some es)"
      "es_core es = es_core (new_state_of e pd ''failed'' (old_dest_id pd))"
    by blast
  note f = es_core_eqD [OF es(2)]
  have "es_fp es = pd_cur_fp pd" "es_payload es = pd_mapped pd" "es_status es = ''failed''"
    by (simp_all only: f new_state_fields)
  then show ?thesis
    using es(1) unchanged_next_time [of es "en_spec e" "pd_mapped pd"] assms(8) by auto
qed

text \<open>The sample delivery with the fingerprint the run computes.\<close>

definition real_pending :: pending_delivery where
  "real_pending = sample_pending\<lparr>pd_cur_fp := row_fingerprint sample_spec (pd_mapped sample_pending)\<rparr>"

lemma sample_over': "env_over mem_ops (rest_load (status_http code) sample_conn mem_ops 1000) (sample_env code)"
  using sample_over [of code] by (simp only: sample_load_def)

lemma sample_state_sys [simp]: "rn_sys sample_state = sample_sys" "sy_store sample_sys = new_mem_store"
    "rn_counts sample_state = counts_zero"
  by (simp_all add: sample_state_def sample_sys_def)

lemma sample_pending_facts:
  "mem_inv (rn_store sample_state)" "\<not> en_dry_run (sample_env code)"
  "allow (sp_safety (en_spec (sample_env code))) (pl_action (pd_plan real_pending)) (rn_counts sample_state) = Inr ()"
  "pd_cur_fp real_pending = row_fingerprint (en_spec (sample_env code)) (pd_mapped real_pending)"
  "quiet_sys (rn_sys sample_state)"
  "ms_deliveries (rn_store sample_state) = []" "ms_pending (rn_store sample_state) = []"
  by (simp_all add: sample_env_def real_pending_def sample_pending_def
      sample_plan_def sample_spec_def no_safety_def allow_def)
    (simp_all add: new_mem_store_def)

lemma real_marshals: "\<exists>body. json_marshal (GMap (row_data (delivery_row e real_pending))) = Some body"
  by (simp add: delivery_row_def real_pending_def sample_pending_def sample_row_def)

theorem delivered_row_remembered_witness:
  "\<exists>es. st_get mem_ops ''crm'' ''restapi'' ''7'' (rn_store (deliver_one (sample_env 200) real_pending sample_state))
       = Inr (Some es) \<and> es_status es = ''success'' \<and> seen_unchanged sample_spec (pd_mapped sample_pending) es"
proof -
  obtain body where b: "json_marshal (GMap (row_data (delivery_row (sample_env 200) real_pending))) = Some body"
    using real_marshals by blast
  obtain res y where l: "rest_load (status_http 200) sample_conn mem_ops 1000 [delivery_row (sample_env 200) real_pending]
        (sp_name (en_spec (sample_env 200))) (en_dest (sample_env 200)) (rn_sys sample_state) = ((res, None), y)"
      "lr_loaded res > 0" "lr_errors res = []"
    using sample_load_one(1) [OF sample_pending_facts(5-7) b] by fastforce
  have names: "sp_name sample_spec = ''crm''" "sp_name (en_spec (sample_env 200)) = ''crm''" "en_dest (sample_env 200) = ''restapi''"
    "pd_key real_pending = ''7''" "en_spec (sample_env 200) = sample_spec" "pd_mapped real_pending = pd_mapped sample_pending"
    by (simp_all add: sample_env_def sample_spec_def real_pending_def sample_pending_def)
  show ?thesis
    using delivered_row_remembered [OF sample_over' sample_pending_facts(1-3) l sample_pending_facts(4) refl]
    unfolding names by blast
qed

theorem failed_row_looks_unchanged_witness:
  "\<exists>es. st_get mem_ops ''crm'' ''restapi'' ''7'' (rn_store (deliver_one (sample_env 404) real_pending sample_state))
       = Inr (Some es) \<and> es_status es = ''failed'' \<and> seen_unchanged sample_spec (pd_mapped sample_pending) es"
proof -
  obtain body where b: "json_marshal (GMap (row_data (delivery_row (sample_env 404) real_pending))) = Some body"
    using real_marshals by blast
  obtain res y re where l: "rest_load (status_http 404) sample_conn mem_ops 1000 [delivery_row (sample_env 404) real_pending]
        (sp_name (en_spec (sample_env 404))) (en_dest (sample_env 404)) (rn_sys sample_state) = ((res, None), y)"
      "lr_loaded res = 0" "lr_errors res = [re]"
    using sample_load_one(2) [OF sample_pending_facts(5-7) b] by fastforce
  have names: "sp_name sample_spec = ''crm''" "sp_name (en_spec (sample_env 404)) = ''crm''" "en_dest (sample_env 404) = ''restapi''"
    "pd_key real_pending = ''7''" "en_spec (sample_env 404) = sample_spec" "pd_mapped real_pending = pd_mapped sample_pending"
    by (simp_all add: sample_env_def sample_spec_def real_pending_def sample_pending_def)
  show ?thesis
    using failed_row_looks_unchanged [OF sample_over' sample_pending_facts(1-3) l sample_pending_facts(4)]
    unfolding names by blast
qed

definition capped_env :: "(mem_store, http_request list rest_world) run_env" where
  "capped_env = (plain_env 200)\<lparr>en_spec := (en_spec (plain_env 200))\<lparr>sp_safety := no_safety\<lparr>sf_max_creates := 1\<rparr>\<rparr>\<rparr>"

theorem caps_bind_witness:
  "\<exists>err s'. run_phases 0 capped_env [sample_row, sample_row] None sample_state = Some (err, s')
     \<and> rs_creates (rn_stats s') \<le> 1"
proof -
  let ?s = "run_init (sample_engine 200 []) sample_spec 1 sample_sys"
  have g: "fst (safety_gate capped_env (phase1 capped_env [sample_row, sample_row] ?s)) = None"
    by (simp add: safety_gate_passes capped_env_def no_safety_def check_field_ratios_def approval_required_def Let_def
        del: phase1.simps)
  obtain s1 where s1: "safety_gate capped_env (phase1 capped_env [sample_row, sample_row] ?s) = (None, s1)"
    using g by (metis prod.collapse)
  have m: "om_action (sp_missing (en_spec capped_env)) = []" by (simp add: capped_env_def plain_env_def)
  obtain err s' where r: "run_phases 0 capped_env [sample_row, sample_row] None ?s = Some (err, s')"
    using run_phases_passed [OF s1 m] by (metis prod.collapse)
  obtain refused where a: "allow (sp_safety (en_spec capped_env)) (pl_action (pd_plan sample_pending))
      (rn_counts (sample_state\<lparr>rn_counts := counts_zero\<lparr>rc_creates := 1\<rparr>\<rparr>)) = Inl refused"
    by (simp add: allow_def capped_env_def no_safety_def counts_zero_def sample_pending_def sample_plan_def)
  show ?thesis
    using caps_bind [OF r g a] r
    by (auto simp: caps_ok_def within_cap_def capped_env_def no_safety_def sample_state_def)
qed

subsection \<open>Idempotency\<close>

text \<open>
  Property C3. A delivery that was made is never made again: over the SQLite store, when the
  operation of a pending row (its sync, destination, key, action and fingerprint) is marked, the
  delivery sends nothing, counts a skip and leaves the store as it is. This holds also when the
  entity has moved on: a row that returns to values delivered earlier under the same action is
  not sent, and the store keeps the fingerprint of the values in between, run after run.
\<close>

theorem delivered_not_resent:
  assumes "env_over sqlite_ops (rest_load x c sqlite_ops now) e" "sq_inv (rn_store s)" "sy_ctx (rn_sys s) = None"
    and "st_is_delivered sqlite_ops (delivery_op_key (sp_name (en_spec e)) (en_dest e) (pd_key pd)
      (pl_action (pd_plan pd)) (pd_cur_fp pd)) (sp_name (en_spec e)) (en_dest e) (rn_store s) = Inr True"
  shows "rn_store (deliver_one e pd s) = rn_store s \<and> rn_world (deliver_one e pd s) = rn_world s
    \<and> rs_skipped (rn_stats (deliver_one e pd s)) = rs_skipped (rn_stats s) + 1
    \<and> st_get sqlite_ops (sp_name (en_spec e)) (en_dest e) (pd_key pd) (rn_store (deliver_one e pd s))
      = st_get sqlite_ops (sp_name (en_spec e)) (en_dest e) (pd_key pd) (rn_store s)"
  using rest_sqlite.deliver_one_delivered [OF assms(1-3)] assms(4) by (simp add: delivery_row_def)

definition sq_load :: "(sq_store, http_request list rest_world) loader" where
  "sq_load = rest_load (status_http 200) sample_conn sqlite_ops 1000"

definition sq_engine :: "(sq_store, http_request list rest_world) engine" where
  "sq_engine = \<lparr>eg_ops = sqlite_ops, eg_override = None, eg_dry_run = False, eg_approval = [],
     eg_open_dest = (\<lambda>_. Inr sq_load), eg_open_source = (\<lambda>_. Inr (\<lambda>_. ([], None))),
     eg_owner = ''me'', eg_now = 1000, eg_dlq_fault = None, eg_alert = (\<lambda>_ _ _ w. w)\<rparr>"

text \<open>A store that knows the operations with these keys.\<close>

definition sq_knowing :: "string list \<Rightarrow> sq_store" where
  "sq_knowing ids = new_sq_store\<lparr>sq_deliveries := map (\<lambda>i. (i, ''crm'', ''restapi'')) ids\<rparr>"

definition sq_state :: "string list \<Rightarrow> (sq_store, http_request list rest_world) run_state" where
  "sq_state ids = run_init sq_engine sample_spec 1
     \<lparr>sy_ctx = None, sy_store = sq_knowing ids, sy_world = sample_world\<rparr>"

lemma sq_over: "env_over sqlite_ops (rest_load (status_http 200) sample_conn sqlite_ops 1000)
    (env_of sq_engine sample_spec sq_load 1)"
  by (simp add: env_over_def env_of_def sq_engine_def sq_load_def sample_spec_def sample_dest_def sample_rules_def
      nul_free_def nul_def)

lemma sq_knowing_facts: "sq_inv (sq_knowing ids)"
    "i \<in> set ids \<Longrightarrow> st_is_delivered sqlite_ops i ''crm'' ''restapi'' (sq_knowing ids) = Inr True"
  by (auto simp: sq_knowing_def new_sq_store_def sq_inv_def go_map_def sq_defs)

theorem delivered_not_resent_witness:
  "(let e = env_of sq_engine sample_spec sq_load 1;
        i = delivery_op_key ''crm'' ''restapi'' ''7'' ''create'' ''f'';
        s = sq_state [i]
    in rn_world (deliver_one e sample_pending s) = sample_world)"
proof -
  let ?i = "delivery_op_key ''crm'' ''restapi'' ''7'' ''create'' ''f''"
  let ?e = "env_of sq_engine sample_spec sq_load 1"
  have s: "rn_store (sq_state [?i]) = sq_knowing [?i]" "sy_ctx (rn_sys (sq_state [?i])) = None"
      "rn_world (sq_state [?i]) = sample_world"
    by (simp_all add: sq_state_def)
  have n: "sp_name (en_spec ?e) = ''crm''" "en_dest ?e = ''restapi''" "pd_key sample_pending = ''7''"
      "pl_action (pd_plan sample_pending) = ''create''" "pd_cur_fp sample_pending = ''f''"
    by (simp_all add: env_of_def sample_spec_def sample_dest_def sample_pending_def sample_plan_def)
  have "st_is_delivered sqlite_ops (delivery_op_key (sp_name (en_spec ?e)) (en_dest ?e) (pd_key sample_pending)
      (pl_action (pd_plan sample_pending)) (pd_cur_fp sample_pending)) (sp_name (en_spec ?e)) (en_dest ?e)
      (rn_store (sq_state [?i])) = Inr True"
    unfolding n s by (rule sq_knowing_facts(2)) simp
  from delivered_not_resent [OF sq_over _ _ this] show ?thesis
    using s sq_knowing_facts(1) by simp
qed

text \<open>
  The key of an operation separates its parts only as far as they are free of
  colons: without colons in the sync, the destination and the key two operations with the same
  text are the same operation, but a colon can move between neighbours: the operation on a key
  \<open>a:b\<close> of one destination has the text of one on the key \<open>b\<close> of a destination that ends in \<open>:a\<close>.
\<close>

theorem operation_keys:
  assumes "CHR '':'' \<notin> set sync" "CHR '':'' \<notin> set dest" "CHR '':'' \<notin> set key" "CHR '':'' \<notin> set act"
    and "CHR '':'' \<notin> set sync'" "CHR '':'' \<notin> set dest'" "CHR '':'' \<notin> set key'" "CHR '':'' \<notin> set act'"
    and "op_key_text sync dest key act fp = op_key_text sync' dest' key' act' fp'"
  shows "sync = sync' \<and> dest = dest' \<and> key = key' \<and> act = act' \<and> fp = fp'
    \<and> delivery_op_key s0 d0 (''a:'' @ k) a f = delivery_op_key s0 (d0 @ '':a'') k a f"
proof -
  have t: "op_key_text a b c d f = a @ CHR '':'' # b @ CHR '':'' # c @ CHR '':'' # d @ CHR '':'' # f" for a b c d f
    by (simp add: op_key_text_def)
  have "sync = sync' \<and> dest = dest' \<and> key = key' \<and> act = act' \<and> fp = fp'"
    using assms by (simp add: t append_sep_inj)
  then show ?thesis by (simp add: delivery_op_key_def t)
qed

theorem operation_keys_witness:
  "delivery_op_key ''crm'' ''rest'' ''a:7'' ''create'' ''f'' = delivery_op_key ''crm'' ''rest:a'' ''7'' ''create'' ''f''"
proof -
  have "CHR '':'' \<notin> set ''crm''" "CHR '':'' \<notin> set ''rest''" "CHR '':'' \<notin> set ''7''" "CHR '':'' \<notin> set ''create''"
    by simp_all
  from operation_keys [OF this this refl, of "''f''" "''crm''" "''rest''" "''7''" "''create''" "''f''"]
  show ?thesis by simp
qed

subsection \<open>Dry runs\<close>

text \<open>
  The deliveries of a dry run leave the store as it was: nothing is saved, marked or
  fired, whatever is pending.
\<close>

theorem dry_run_deliveries_keep_store:
  assumes "en_dry_run e" "en_load e = Some (print_load name)"
  shows "rn_store (phase2 e pds s) = rn_store s"
  by (rule phase2_dry [OF assms]) (rule print_load_store)

definition dry_env :: "(mem_store, (string \<times> string \<times> payload) list) run_env" where
  "dry_env = \<lparr>en_ops = mem_ops, en_load = Some (print_load ''crm''), en_spec = sample_spec\<lparr>sp_missing :=
       \<lparr>om_action = ''skip'', om_fields = [], om_after = 3, om_allow = False\<rparr>\<rparr>,
     en_dest = ''restapi'', en_dry_run = True, en_approval = [], en_now = 1000, en_run = 1,
     en_alert = (\<lambda>_ w. w)\<rparr>"

definition dry_state :: "mem_store \<Rightarrow> (mem_store, (string \<times> string \<times> payload) list) run_state" where
  "dry_state st = \<lparr>rn_sys = \<lparr>sy_ctx = None, sy_store = st, sy_world = []\<rparr>, rn_stats = stats_init,
     rn_art = rn_art sample_state, rn_dlq = None, rn_seen = [], rn_pending = [], rn_changes = [],
     rn_max_wm = time_zero, rn_counts = counts_zero, rn_error = None\<rparr>"

theorem dry_run_deliveries_keep_store_witness:
  "rn_store (phase2 dry_env [sample_pending, real_pending] (dry_state new_mem_store)) = new_mem_store"
proof -
  have "en_dry_run dry_env" "en_load dry_env = Some (print_load ''crm'')" by (simp_all add: dry_env_def)
  from dry_run_deliveries_keep_store [OF this] show ?thesis by (simp add: dry_state_def del: phase2.simps)
qed

text \<open>
  The treatment of missing entities does not ask whether the run is a dry one: what
  it does is the same in both, and an entity that the source did not give is saved with its
  missing counter incremented, in a dry run too.
\<close>

theorem dry_run_counts_missing:
  assumes "en_dry_run e"
    and "st_list (en_ops e) (sp_name (en_spec e)) (en_dest e) missing_page_size 0 (rn_store s) = Inr [es]"
    and "es_key es \<notin> set (rn_seen s)" "es_missing es + 1 < missing_threshold (en_spec e)"
  shows "process_missing (Suc fuel) e s
      = process_missing (Suc fuel) (e\<lparr>en_dry_run := False\<rparr>) s
    \<and> map_option (\<lambda>r. rn_store (snd r)) (process_missing (Suc fuel) e s)
      = Some (snd (st_save (en_ops e) (en_now e)
          (es\<lparr>es_missing := es_missing es + 1, es_updated := en_now e\<rparr>) (rn_store s)))"
proof -
  have "missing_one e (0, s) es = (0, save_missing e (es\<lparr>es_missing := es_missing es + 1\<rparr>) s)"
    using missing_one_below [of es "(0, s)" e] assms(3,4) by simp
  then have "map_option (\<lambda>r. rn_store (snd r)) (process_missing (Suc fuel) e s)
      = Some (snd (st_save (en_ops e) (en_now e)
          (es\<lparr>es_missing := es_missing es + 1, es_updated := en_now e\<rparr>) (rn_store s)))"
    using assms(2) by (simp add: process_missing_def missing_page_size_def Let_def save_missing_def run_defs)
  moreover have "process_missing (Suc fuel) e s = process_missing (Suc fuel) (e\<lparr>en_dry_run := False\<rparr>) s"
    by (simp only: process_missing_def missing_pages_dry_blind [where b = False])
  ultimately show ?thesis by blast
qed

definition orphan :: entity_state where
  "orphan = sample_entity\<lparr>es_dest := ''restapi''\<rparr>"

theorem dry_run_counts_missing_witness:
  "(let st = snd (mem_save 5 orphan new_mem_store);
        r = process_missing 1 dry_env (dry_state st)
    in map_option (\<lambda>r. map_sum id (map_option es_missing)
         (st_get mem_ops ''crm'' ''restapi'' ''7'' (rn_store (snd r)))) r = Some (Inr (Some 1)))"
proof -
  let ?st = "snd (mem_save 5 orphan new_mem_store)"
  have d: "en_dry_run dry_env" by (simp add: dry_env_def)
  have l: "st_list (en_ops dry_env) (sp_name (en_spec dry_env)) (en_dest dry_env) missing_page_size 0
      (rn_store (dry_state ?st)) = Inr [orphan]"
    by (simp add: dry_env_def dry_state_def mem_ops_def mem_list_def page_of_def mem_save_def new_mem_store_def
        orphan_def sample_entity_def sample_spec_def missing_page_size_def)
  have n: "es_key orphan \<notin> set (rn_seen (dry_state ?st))" "es_missing orphan + 1 < missing_threshold (en_spec dry_env)"
    by (simp_all add: dry_state_def orphan_def sample_entity_def missing_threshold_def dry_env_def)
  have "map_option (\<lambda>r. rn_store (snd r)) (process_missing 1 dry_env (dry_state ?st))
      = Some (snd (st_save (en_ops dry_env) (en_now dry_env)
          (orphan\<lparr>es_missing := es_missing orphan + 1, es_updated := en_now dry_env\<rparr>) (rn_store (dry_state ?st))))"
    using dry_run_counts_missing [OF d l n, of 0] unfolding One_nat_def by (rule conjunct2)
  then obtain r where r: "process_missing 1 dry_env (dry_state ?st) = Some r"
      "rn_store (snd r) = snd (mem_save 1000 (orphan\<lparr>es_missing := 1, es_updated := 1000\<rparr>) ?st)"
    by (auto simp: dry_env_def mem_ops_def dry_state_def orphan_def sample_entity_def)
  have "map_sum id (map_option es_missing) (st_get mem_ops ''crm'' ''restapi'' ''7'' (rn_store (snd r))) = Inr (Some 1)"
    by (simp add: r(2) mem_defs orphan_def sample_entity_def update_conv')
  then show ?thesis by (cases r) (simp add: r(1) Let_def del: One_nat_def)
qed
subsection \<open>Entities missing from the source\<close>



text \<open>
  The second archive of an entity is lost: the delete of a missing entity is sent
  under the entity key itself, so once a delete (or any operation with that identifier) was
  marked, a later delete of the same entity sends nothing, and still counts as a delete and
  resets the missing counter.
\<close>

theorem second_archive_suppressed:
  assumes "env_over sqlite_ops (rest_load x c sqlite_ops now) e" "sq_inv (rn_store s)" "sy_ctx (rn_sys s) = None"
    and "om_allow (sp_missing (en_spec e))" "sf_max_deletes (sp_safety (en_spec e)) \<le> 0"
    and "st_is_delivered sqlite_ops (es_key es) (sp_name (en_spec e)) (en_dest e) (rn_store s) = Inr True"
  shows "rn_world (snd (missing_delete e es (n, s))) = rn_world s \<and> fst (missing_delete e es (n, s)) = n + 1"
  using rest_sqlite.missing_delete_again [OF assms] by simp

definition archive_env :: "(sq_store, http_request list rest_world) run_env" where
  "archive_env = (env_of sq_engine sample_spec sq_load 1)\<lparr>en_spec := sample_spec\<lparr>sp_missing :=
     \<lparr>om_action = ''delete'', om_fields = [], om_after = 1, om_allow = True\<rparr>\<rparr>\<rparr>"

theorem second_archive_suppressed_witness:
  "rn_world (snd (missing_delete archive_env orphan (0, sq_state [''7'']))) = sample_world
   \<and> fst (missing_delete archive_env orphan (0, sq_state [''7''])) = 1"
proof -
  have o: "env_over sqlite_ops (rest_load (status_http 200) sample_conn sqlite_ops 1000) archive_env"
    by (simp add: env_over_def archive_env_def env_of_def sq_engine_def sq_load_def sample_spec_def sample_dest_def
        sample_rules_def nul_free_def nul_def)
  have s: "rn_store (sq_state [''7'']) = sq_knowing [''7'']" "sy_ctx (rn_sys (sq_state [''7''])) = None"
      "rn_world (sq_state [''7'']) = sample_world"
    by (simp_all add: sq_state_def)
  have a: "om_allow (sp_missing (en_spec archive_env))" "sf_max_deletes (sp_safety (en_spec archive_env)) \<le> 0"
      "sp_name (en_spec archive_env) = ''crm''" "en_dest archive_env = ''restapi''" "es_key orphan = ''7''"
    by (simp_all add: archive_env_def sample_spec_def no_safety_def env_of_def sample_dest_def orphan_def sample_entity_def)
  have d: "st_is_delivered sqlite_ops (es_key orphan) (sp_name (en_spec archive_env)) (en_dest archive_env)
      (rn_store (sq_state [''7''])) = Inr True"
    unfolding a s by (rule sq_knowing_facts(2)) simp
  show ?thesis
    using second_archive_suppressed [OF o _ s(2) a(1,2) d, of 0] s sq_knowing_facts(1) by simp
qed

subsection \<open>The whole run\<close>

text \<open>
  Property C7. A run returns: over the memory store and the REST destination, whatever the rows,
  the rules and the answers, the pages of the missing-entity pass come to an end, so enough fuel
  gives a result, and more fuel gives one too.
\<close>

theorem run_terminates:
  assumes "eg_ops g = mem_ops" "mem_filed (sy_store y)"
    and "\<And>load. open_dest g spec = Inr load \<Longrightarrow> load = rest_load x c mem_ops now"
  shows "\<exists>n. \<forall>fuel \<ge> n. \<exists>r. run_once fuel g spec y = Some r"
  using run_once_returns [OF assms(1) _ assms(2)] assms(3) rest_keeps_entities by metis

lemma sample_engine_facts: "eg_ops (sample_engine code rows) = mem_ops"
    "open_dest (sample_engine code rows) spec = Inr load \<Longrightarrow> load = rest_load (status_http code) sample_conn mem_ops 1000"
  by (auto simp: sample_engine_def open_dest_def sample_load_def)

theorem run_terminates_witness:
  "\<exists>fuel r. run_once fuel (sample_engine 500 [sample_row]) sample_spec sample_sys = Some r"
proof -
  have f: "mem_filed (sy_store sample_sys)" by simp
  have p: "load = rest_load (status_http 500) sample_conn mem_ops 1000"
    if "open_dest (sample_engine 500 [sample_row]) sample_spec = Inr load" for load
    using that by (rule sample_engine_facts(2))
  from run_terminates [OF sample_engine_facts(1) f p] show ?thesis by blast
qed

text \<open>
  Property C8. Runs of a sync exclude each other: while the lock of another run has not expired,
  a run returns the lock error and leaves the store and the destination as they were; a run that
  got as far as its statistics ends with the lock released, whatever happened in between.
\<close>

theorem runs_exclude_each_other:
  assumes "eg_ops g = mem_ops" "open_dest g spec = Inr load" "eg_open_source g spec = Inr extract"
    and "\<not> (sf_dry_run_required (sp_safety spec) \<and> eg_override g = None)"
    and "alookup (ms_locks (sy_store y)) (sp_name spec) = Some l" "eg_now g < ml_expires l"
    and "eg_ops g' = mem_ops" "run_once fuel g' spec' y' = Some r" "rr_stats r \<noteq> None"
  shows "run_once fuel g spec y = Some \<lparr>rr_error = Some (lock_error (sp_name spec) (ml_owner l)),
       rr_stats = None, rr_sys = y\<rparr>
    \<and> alookup (ms_locks (sy_store (rr_sys r))) (sp_name spec') = None"
  using run_once_locked [OF assms(1-6)] run_once_unlocks [OF assms(7-9)] by blast

lemma unlocked_run_has_stats:
  assumes "eg_ops g = mem_ops" "open_dest g spec = Inr load" "eg_open_source g spec = Inr extract"
    "ms_locks (sy_store y) = []" "\<not> (sf_dry_run_required (sp_safety spec) \<and> eg_override g = None)"
    "run_once fuel g spec y = Some r"
  shows "rr_stats r \<noteq> None"
  using assms by (auto simp: run_once_def mem_ops_def mem_lock_run_def mem_start_run_def Let_def)

lemma locked_sample:
  "alookup (ms_locks (snd (mem_lock_run 900 ''crm'' ''you'' lock_ttl new_mem_store))) ''crm''
     = Some \<lparr>ml_owner = ''you'', ml_expires = 900 + lock_ttl\<rparr>"
  by (simp add: mem_lock_run_def new_mem_store_def)

theorem runs_exclude_each_other_witness:
  "\<exists>fuel. map_option rr_error (run_once fuel (sample_engine 200 []) sample_spec
       (sample_sys\<lparr>sy_store := snd (mem_lock_run 900 ''crm'' ''you'' lock_ttl new_mem_store)\<rparr>))
     = Some (Some (lock_error ''crm'' ''you''))"
proof -
  let ?y = "sample_sys\<lparr>sy_store := snd (mem_lock_run 900 ''crm'' ''you'' lock_ttl new_mem_store)\<rparr>"
  let ?g = "sample_engine 200 []"
  have o: "open_dest ?g sample_spec = Inr (sample_load 200)" "eg_open_source ?g sample_spec = Inr (\<lambda>_. ([], None))"
    by (simp_all add: open_dest_def sample_engine_def)
  have n: "sp_name sample_spec = ''crm''" by (simp add: sample_spec_def)
  have r': "\<not> (sf_dry_run_required (sp_safety sample_spec) \<and> eg_override ?g = None)"
    by (simp add: sample_spec_def no_safety_def)
  have l: "alookup (ms_locks (sy_store ?y)) (sp_name sample_spec) = Some \<lparr>ml_owner = ''you'', ml_expires = 900 + lock_ttl\<rparr>"
    using locked_sample by (simp add: n)
  have t: "eg_now ?g < ml_expires \<lparr>ml_owner = ''you'', ml_expires = 900 + lock_ttl\<rparr>"
    by (simp add: sample_engine_def lock_ttl_def second_ns_def)
  have p: "load = rest_load (status_http 200) sample_conn mem_ops 1000" if "open_dest ?g sample_spec = Inr load" for load
    using that by (rule sample_engine_facts(2))
  have f0: "mem_filed (sy_store sample_sys)" by simp
  obtain k where k: "\<forall>fuel \<ge> k. \<exists>r. run_once fuel ?g sample_spec sample_sys = Some r"
    using run_terminates [OF sample_engine_facts(1) f0 p] by blast
  then obtain r where f: "run_once (Suc k) ?g sample_spec sample_sys = Some r" by (meson le_SucI le_refl)
  have rs: "rr_stats r \<noteq> None" by (rule unlocked_run_has_stats [OF sample_engine_facts(1) o _ r' f]) (simp add: new_mem_store_def)
  have "map_option rr_error (run_once (Suc k) ?g sample_spec ?y) = Some (Some (lock_error ''crm'' ''you''))"
    using runs_exclude_each_other [OF sample_engine_facts(1) o r' l t sample_engine_facts(1) f rs] n by simp
  then show ?thesis by blast
qed

lemma foldl_row_failed_wm:
  "rs_watermark (rn_stats (foldl (row_failed e pd) s es)) = rs_watermark (rn_stats s)"
  by (induction es arbitrary: s) (simp_all add: stat_defs)

lemma deliver_one_wm [simp]: "rs_watermark (rn_stats (deliver_one e pd s)) = rs_watermark (rn_stats s)"
  by (auto simp: deliver_one_def Let_def foldl_row_failed_wm run_defs stat_defs split: sum.splits option.splits prod.splits)

lemma phase2_wm: "rs_watermark (rn_stats (phase2 e pds s)) = rs_watermark (rn_stats s)"
proof (induction pds arbitrary: s)
  case (Cons pd pds)
  obtain stop s1 where p: "run_poll s = (stop, s1)" by fastforce
  show ?case using run_poll_stats [OF p] p Cons.IH [of "deliver_one e pd s1"] by simp
qed simp

lemma close_run_wm: "close_run e ex s = (err, s') \<Longrightarrow> rs_watermark (rn_stats s') = rs_watermark (rn_stats s)"
  by (auto simp: close_run_def Let_def run_defs final_status_def fail_run_def dest!: run_poll_stats
      split: prod.splits sum.splits option.splits)

text \<open>
  Property C9. The watermark of a run is the highest watermark of its rows, whatever became of
  them: rows that were skipped, capped or rejected lie below it, and the next incremental
  extraction does not see them.
\<close>

theorem watermark_ignores_outcome:
  assumes "sy_ctx y = None" "run_phases fuel e rows ex (run_init g spec run y) = Some (err, s')"
    and "fst (safety_gate e (phase1 e rows (run_init g spec run y))) = None"
    and "om_action (sp_missing (en_spec e)) = []"
    and "r \<in> set rows" "\<not> is_zero (row_watermark r)"
  shows "rs_watermark (rn_stats s') = max_watermark time_zero rows \<and> row_watermark r \<le> rs_watermark (rn_stats s')"
proof -
  let ?s0 = "run_init g spec run y"
  obtain s1 where g: "safety_gate e (phase1 e rows ?s0) = (None, s1)"
    using assms(3) by (cases "safety_gate e (phase1 e rows ?s0)") simp
  have "close_run e ex (store_counts (phase2 e (rn_pending s1) s1)) = (err, s')"
    using assms(2) by (simp add: run_phases_passed [OF g assms(4)])
  then have "rs_watermark (rn_stats s') = rs_watermark (rn_stats s1)"
    using close_run_wm phase2_wm [of e "rn_pending s1" s1] by (fastforce simp: store_counts_def run_defs)
  also have "\<dots> = max_watermark time_zero rows"
    using safety_gate_frame(5) [OF g] phase1_watermark [of ?s0 e rows] assms(1) by simp
  finally show ?thesis using max_watermark_upper(1) [OF assms(5,6)] by simp
qed

theorem watermark_ignores_outcome_witness:
  "\<exists>err s'. run_phases 0 (plain_env 404) [sample_row, row_zero] None sample_state = Some (err, s')
     \<and> 900 \<le> rs_watermark (rn_stats s')"
proof -
  let ?s = "run_init (sample_engine 200 []) sample_spec 1 sample_sys"
  have g: "fst (safety_gate (plain_env 404) (phase1 (plain_env 404) [sample_row, row_zero] ?s)) = None"
    by (rule no_safety_passes) (simp add: plain_env_def sample_spec_def)
  obtain s1 where s1: "safety_gate (plain_env 404) (phase1 (plain_env 404) [sample_row, row_zero] ?s) = (None, s1)"
    using g by (metis prod.collapse)
  have m: "om_action (sp_missing (en_spec (plain_env 404))) = []" by (simp add: plain_env_def)
  obtain err s' where r: "run_phases 0 (plain_env 404) [sample_row, row_zero] None ?s = Some (err, s')"
    using run_phases_passed [OF s1 m] by (metis prod.collapse)
  have w: "sample_row \<in> set [sample_row, row_zero]" "\<not> is_zero (row_watermark sample_row)"
    by (simp_all add: sample_row_def is_zero_def time_zero_def second_ns_def)
  show ?thesis
    using watermark_ignores_outcome [OF _ r g m w] r
    by (simp add: sample_sys_def sample_state_def sample_row_def)
qed

text \<open>
  A row is left alone when nothing calls for it: a required field that is missing or
  nil, or an entity key that is empty, makes the row a skip that leaves no other trace; and when
  no rule fires, under a default action that is left out or \<open>skip\<close>, the row is not sent but
  recorded as a decision and counted as a skip.
\<close>

theorem rows_left_alone:
  assumes "missing_required (row_data r) (sp_required (en_spec e)) \<noteq> []
     \<or> sprint_v (get_or_nil (row_data r) (so_entity_key (sp_source (en_spec e)))) \<in> {[], ''<nil>''}"
    and "missing_required (row_data q) (sp_required (en_spec e)) = []"
    and "sprint_v (get_or_nil (row_data q) (so_entity_key (sp_source (en_spec e)))) = key" "key \<noteq> []" "key \<noteq> ''<nil>''"
    and "st_get (en_ops e) (sp_name (en_spec e)) (en_dest e) key (rn_store s) = Inr es"
    and "\<forall>rule \<in> set (dc_rules (sp_decisions (en_spec e))).
      \<exists>b. fired_before (firing_checker e key (rn_store s)) rule = Inr b"
    and "first_match (firing_checker e key (rn_store s))
      (input_of (en_spec e) (mapped_row (en_spec e) (row_data q)) es) (dc_rules (sp_decisions (en_spec e))) = None"
    and "dc_default (sp_decisions (en_spec e)) \<in> {[], ''skip''}"
  shows "process_row e r s = upd_stats (add_skipped 1) (note_watermark r (upd_stats add_extracted s))
    \<and> rn_pending (process_row e q s) = rn_pending s
    \<and> rs_skipped (rn_stats (process_row e q s)) = rs_skipped (rn_stats s) + 1"
  using process_row_invalid [OF assms(1), of s]
    process_row_no_rule [OF assms(2-6) decide_default [OF assms(7,8)] assms(9)] by blast

definition idle_entity :: entity_state where
  "idle_entity = orphan\<lparr>es_fp := row_fingerprint sample_spec (mapped_row sample_spec (row_data sample_row))\<rparr>"

definition idle_state :: "(mem_store, http_request list rest_world) run_state" where
  "idle_state = sample_state\<lparr>rn_sys := sample_sys\<lparr>sy_store := snd (mem_save 5 idle_entity new_mem_store)\<rparr>\<rparr>"

theorem rows_left_alone_witness:
  "rn_pending (process_row (sample_env 200) sample_row idle_state) = []
   \<and> rs_skipped (rn_stats (process_row (sample_env 200) sample_row idle_state)) = 1"
proof -
  have en: "en_spec (sample_env 200) = sample_spec" "en_ops (sample_env 200) = mem_ops" "en_dest (sample_env 200) = ''restapi''"
      "sp_name sample_spec = ''crm''" "sp_decisions sample_spec = \<lparr>dc_default = ''skip'', dc_rules = sample_rules\<rparr>"
    by (simp_all add: sample_env_def sample_spec_def)
  have st: "rn_store idle_state = snd (mem_save 5 idle_entity new_mem_store)"
    by (simp add: idle_state_def)
  have i: "sprint_v (get_or_nil (row_data row_zero) (so_entity_key (sp_source (en_spec (sample_env 200))))) \<in> {[], ''<nil>''}"
    by (simp add: en row_zero_def get_or_nil_def)
  have m: "missing_required (row_data sample_row) (sp_required (en_spec (sample_env 200))) = []"
    by (simp add: en missing_required_def) (simp add: sample_spec_def)
  have k: "sprint_v (get_or_nil (row_data sample_row) (so_entity_key (sp_source (en_spec (sample_env 200))))) = ''7''"
    by (simp add: en) (simp add: sample_spec_def sample_row_def sample_source_def get_or_nil_def dec_int_def dec_pos.simps
        digit_char_def char_of_eq_iff)
  have g: "st_get (en_ops (sample_env 200)) (sp_name (en_spec (sample_env 200))) (en_dest (sample_env 200)) ''7''
      (rn_store idle_state) = Inr (Some idle_entity)"
    unfolding en st by (simp add: mem_defs idle_entity_def orphan_def sample_entity_def update_conv')
  have f: "\<forall>rule \<in> set (dc_rules (sp_decisions (en_spec (sample_env 200)))).
      \<exists>b. fired_before (firing_checker (sample_env 200) ''7'' (rn_store idle_state)) rule = Inr b"
    by (auto simp: fired_before_def firing_checker_def en mem_defs)
  have n: "first_match (firing_checker (sample_env 200) ''7'' (rn_store idle_state))
      (input_of (en_spec (sample_env 200)) (mapped_row (en_spec (sample_env 200)) (row_data sample_row)) (Some idle_entity))
      (dc_rules (sp_decisions (en_spec (sample_env 200)))) = None"
    by (simp add: en first_match_def sample_rules_def input_of_def Let_def idle_entity_def)
  have d: "dc_default (sp_decisions (en_spec (sample_env 200))) \<in> {[], ''skip''}" by (simp add: en)
  have z: "rn_pending idle_state = []" "rs_skipped (rn_stats idle_state) = 0"
    by (simp_all add: idle_state_def sample_state_def run_init_def stats_init_def)
  show ?thesis
    using rows_left_alone [OF disjI2 [OF i] m k _ _ g f n d] z by simp
qed

end
