(* ===== verification/Postgres_Store.thy ===== *)
theory Postgres_Store
  imports Store_Laws Rest_Api Slack
begin

section \<open>The PostgreSQL store: internal/state/postgres.go\<close>

text \<open>
  The tables of all stores of one database are kept by their full names, the prefix of the store
  in front: stores with different prefixes share the database and nothing else. The effect of
  each SQL statement the code sends is written out, with the rows of a table in the order of
  their insertion, which is also the order of rows that the ORDER BY of a query leaves equal;
  \<open>pg_fail\<close> says which statements the server currently rejects. A column of type TIMESTAMPTZ
  holds microseconds: the driver cuts a time down to them. \<open>now\<close> is the clock of the server and
  of the process alike. Payload columns are JSON text, as in the SQLite store.
\<close>

definition micros :: "go_time \<Rightarrow> go_time" where
  "micros t = t div 1000 * 1000"

lemma micros_le: "micros t \<le> t"
  by (simp add: micros_def)

lemma micros_idem [simp]: "micros (micros t) = micros t"
  by (simp add: micros_def)

lemma micros_mono: "s \<le> t \<Longrightarrow> micros s \<le> micros t"
  by (simp add: micros_def zdiv_mono1)

subsection \<open>Tables\<close>

record pg_store =
  pg_entities :: "string \<Rightarrow> ((string \<times> string \<times> string) \<times> entity_state) list"
  pg_firings :: "string \<Rightarrow> (string \<times> string \<times> string \<times> string) list"
  pg_events :: "string \<Rightarrow> decision_event list"
  pg_runs :: "string \<Rightarrow> run_log list"
  pg_last_run :: "string \<Rightarrow> int"
  pg_deliveries :: "string \<Rightarrow> (string \<times> string \<times> string) list"
  pg_locks :: "string \<Rightarrow> (string \<times> sq_lock) list"
  pg_pending :: "delivery_entry list"
  pg_seen :: "string list option"
  pg_fail :: "string \<Rightarrow> go_error option"

definition pg_tbl :: "string \<Rightarrow> string \<Rightarrow> string" where
  "pg_tbl prefix name = prefix @ ''_'' @ name"

definition pg_prefix :: "string \<Rightarrow> string" where
  "pg_prefix prefix = (if prefix = [] then ''v'' else prefix)"

lemma pg_tbl_inj [simp]: "pg_tbl p n = pg_tbl q n \<longleftrightarrow> p = q"
  by (simp add: pg_tbl_def)

text \<open>The store of a connection with its schema in place; the server accepts all statements.\<close>

definition new_pg_store :: pg_store where
  "new_pg_store = \<lparr>pg_entities = (\<lambda>_. []), pg_firings = (\<lambda>_. []), pg_events = (\<lambda>_. []),
     pg_runs = (\<lambda>_. []), pg_last_run = (\<lambda>_. 0), pg_deliveries = (\<lambda>_. []), pg_locks = (\<lambda>_. []),
     pg_pending = [], pg_seen = None, pg_fail = (\<lambda>_. None)\<rparr>"

definition pg_exec :: "string \<Rightarrow> (pg_store \<Rightarrow> pg_store) \<Rightarrow> pg_store \<Rightarrow> unit res \<times> pg_store" where
  "pg_exec stmt f s = (case pg_fail s stmt of Some e \<Rightarrow> (Inl e, s) | None \<Rightarrow> (Inr (), f s))"

definition pg_query :: "string \<Rightarrow> (pg_store \<Rightarrow> 'a) \<Rightarrow> pg_store \<Rightarrow> 'a res" where
  "pg_query stmt f s = (case pg_fail s stmt of Some e \<Rightarrow> Inl e | None \<Rightarrow> Inr (f s))"

subsection \<open>Entity state\<close>

definition pg_get :: "string \<Rightarrow> string \<Rightarrow> string \<Rightarrow> string \<Rightarrow> pg_store \<Rightarrow> entity_state option res" where
  "pg_get p sy d k s =
     map_sum (ErrWrap ''state: get entity'') id
       (pg_query ''get'' (\<lambda>s. alookup (pg_entities s (pg_tbl p ''entity_state'')) (sy, d, k)) s)"

text \<open>The upsert keeps the creation time of an existing row.\<close>

definition pg_upsert_entity :: "string \<Rightarrow> go_time \<Rightarrow> entity_state \<Rightarrow> pg_store \<Rightarrow> pg_store" where
  "pg_upsert_entity p now es s =
     (let t = pg_tbl p ''entity_state''; key = (es_sync es, es_dest es, es_key es);
          created = (case alookup (pg_entities s t) key of None \<Rightarrow> micros now | Some old \<Rightarrow> es_created old);
          row = (es_stored json_reload es)\<lparr>es_created := created, es_updated := micros now\<rparr>
      in s\<lparr>pg_entities := (pg_entities s)(t := aput key row (pg_entities s t))\<rparr>)"

definition pg_save :: "string \<Rightarrow> go_time \<Rightarrow> entity_state \<Rightarrow> pg_store \<Rightarrow> unit res \<times> pg_store" where
  "pg_save p now es s = pg_exec ''save'' (pg_upsert_entity p now es) s"

text \<open>The server rejects a negative offset.\<close>

definition pg_list ::
  "string \<Rightarrow> string \<Rightarrow> string \<Rightarrow> int \<Rightarrow> int \<Rightarrow> pg_store \<Rightarrow> entity_state list res" where
  "pg_list p sy d lmt off s =
     (let n = (if lmt \<le> 0 then 100 else lmt) in
      if off < 0 then Inl (ErrMsg ''OFFSET must not be negative'')
      else pg_query ''list'' (\<lambda>s. take (nat n) (drop (nat off) (sort_key (\<lambda>es. - es_updated es)
        (map snd (filter (\<lambda>((sy', d', k), es). sy' = sy \<and> d' = d) (pg_entities s (pg_tbl p ''entity_state''))))))) s)"

definition pg_reset :: "string \<Rightarrow> string \<Rightarrow> string \<Rightarrow> string \<Rightarrow> pg_store \<Rightarrow> unit res \<times> pg_store" where
  "pg_reset p sy d k s =
     (let t = pg_tbl p ''entity_state'' in
      pg_exec ''reset'' (\<lambda>s. s\<lparr>pg_entities := (pg_entities s)(t := adel (sy, d, k) (pg_entities s t))\<rparr>) s)"

subsection \<open>Rule firings and decision events\<close>

definition pg_has_fired ::
  "string \<Rightarrow> string \<Rightarrow> string \<Rightarrow> string \<Rightarrow> string \<Rightarrow> pg_store \<Rightarrow> bool res" where
  "pg_has_fired p sy d k r s =
     pg_query ''has_fired'' (\<lambda>s. (sy, d, k, r) \<in> set (pg_firings s (pg_tbl p ''rule_firings''))) s"

definition pg_mark_fired ::
  "string \<Rightarrow> go_time \<Rightarrow> string \<Rightarrow> string \<Rightarrow> string \<Rightarrow> string \<Rightarrow> pg_store \<Rightarrow> unit res \<times> pg_store" where
  "pg_mark_fired p now sy d k r s =
     (let t = pg_tbl p ''rule_firings'' in
      pg_exec ''mark_fired''
        (\<lambda>s. s\<lparr>pg_firings := (pg_firings s)(t := insert_ignore (sy, d, k, r) (pg_firings s t))\<rparr>) s)"

text \<open>The creation time is the server's, whatever the event says.\<close>

definition pg_record :: "string \<Rightarrow> go_time \<Rightarrow> decision_event \<Rightarrow> pg_store \<Rightarrow> unit res \<times> pg_store" where
  "pg_record p now ev s =
     (let t = pg_tbl p ''decision_events'' in
      pg_exec ''record'' (\<lambda>s. s\<lparr>pg_events := (pg_events s)(t := pg_events s t
         @ [ev\<lparr>ev_id := int (length (pg_events s t)) + 1, ev_created := micros now\<rparr>])\<rparr>) s)"

definition pg_decisions ::
  "string \<Rightarrow> string \<Rightarrow> string \<Rightarrow> string \<Rightarrow> int \<Rightarrow> pg_store \<Rightarrow> decision_event list res" where
  "pg_decisions p sy d k lmt s =
     (let n = (if lmt \<le> 0 then 20 else lmt) in
      pg_query ''decisions'' (\<lambda>s. take (nat n) (sort_key (\<lambda>ev. - ev_created ev)
        (filter (\<lambda>ev. ev_sync ev = sy \<and> ev_dest ev = d \<and> ev_key ev = k)
          (pg_events s (pg_tbl p ''decision_events''))))) s)"

subsection \<open>Run log\<close>

definition pg_start_run :: "string \<Rightarrow> go_time \<Rightarrow> string \<Rightarrow> string \<Rightarrow> pg_store \<Rightarrow> int res \<times> pg_store" where
  "pg_start_run p now sy mode s =
     (let t = pg_tbl p ''run_log'' in
      case pg_fail s ''start_run'' of
        Some e \<Rightarrow> (Inl e, s)
      | None \<Rightarrow> (let i = pg_last_run s t + 1 in
          (Inr i, s\<lparr>pg_last_run := (pg_last_run s)(t := i),
             pg_runs := (pg_runs s)(t := pg_runs s t @ [run_log_new i sy mode (micros now)])\<rparr>)))"

text \<open>A zero watermark is stored as NULL and reads back as zero.\<close>

definition pg_finish_row :: "go_time \<Rightarrow> run_stats \<Rightarrow> run_log \<Rightarrow> run_log" where
  "pg_finish_row now st r =
     (run_log_finish (micros now) st r)
     \<lparr>rl_watermark := (if is_zero (rs_watermark st) then time_zero else micros (rs_watermark st))\<rparr>"

definition pg_finish_run :: "string \<Rightarrow> go_time \<Rightarrow> int \<Rightarrow> run_stats \<Rightarrow> pg_store \<Rightarrow> unit res \<times> pg_store" where
  "pg_finish_run p now i st s =
     (let t = pg_tbl p ''run_log'' in
      pg_exec ''finish_run'' (\<lambda>s. s\<lparr>pg_runs := (pg_runs s)(t :=
         map (\<lambda>r. if rl_id r = i then pg_finish_row now st r else r) (pg_runs s t))\<rparr>) s)"

definition pg_run_history :: "string \<Rightarrow> string \<Rightarrow> int \<Rightarrow> pg_store \<Rightarrow> run_log list res" where
  "pg_run_history p sy lmt s =
     (let n = (if lmt \<le> 0 then 20 else lmt) in
      pg_query ''run_history'' (\<lambda>s. take (nat n) (sort_key (\<lambda>r. - rl_started r)
        (filter (\<lambda>r. rl_sync r = sy) (pg_runs s (pg_tbl p ''run_log''))))) s)"

definition pg_last_run_of :: "string \<Rightarrow> string \<Rightarrow> pg_store \<Rightarrow> run_log res" where
  "pg_last_run_of p sy s =
     (case pg_run_history p sy 1 s of
        Inl e \<Rightarrow> Inl e
      | Inr [] \<Rightarrow> Inl (ErrMsg (''no runs found for '' @ quote_q sy))
      | Inr (r # _) \<Rightarrow> Inr r)"

subsection \<open>Delivery idempotency\<close>

definition pg_is_delivered :: "string \<Rightarrow> string \<Rightarrow> string \<Rightarrow> string \<Rightarrow> pg_store \<Rightarrow> bool res" where
  "pg_is_delivered p r sy d s =
     (if (case pg_seen s of None \<Rightarrow> False | Some ks \<Rightarrow> delivery_key r sy d \<in> set ks) then Inr True
      else pg_query ''is_delivered'' (\<lambda>s. (r, sy, d) \<in> set (pg_deliveries s (pg_tbl p ''delivery_log''))) s)"

definition pg_mark_delivered ::
  "string \<Rightarrow> go_time \<Rightarrow> string \<Rightarrow> string \<Rightarrow> string \<Rightarrow> pg_store \<Rightarrow> unit res \<times> pg_store" where
  "pg_mark_delivered p now r sy d s =
     (let t = pg_tbl p ''delivery_log'' in
      case pg_seen s of
        Some ks \<Rightarrow>
          (if delivery_key r sy d \<in> set ks then (Inr (), s)
           else (Inr (), s\<lparr>pg_seen := Some (delivery_key r sy d # ks),
                  pg_pending := pg_pending s
                    @ [\<lparr>dl_row = r, dl_sync = sy, dl_dest = d, dl_at = now\<rparr>]\<rparr>))
      | None \<Rightarrow>
          pg_exec ''mark_delivered''
            (\<lambda>s. s\<lparr>pg_deliveries := (pg_deliveries s)(t := insert_ignore (r, sy, d) (pg_deliveries s t))\<rparr>) s)"

definition pg_begin :: "pg_store \<Rightarrow> unit res \<times> pg_store" where
  "pg_begin s = (Inr (), s\<lparr>pg_pending := [], pg_seen := Some []\<rparr>)"

fun pg_first_failure :: "pg_store \<Rightarrow> string list \<Rightarrow> go_error option" where
  "pg_first_failure s [] = None"
| "pg_first_failure s (stmt # stmts) =
     (case pg_fail s stmt of Some e \<Rightarrow> Some e | None \<Rightarrow> pg_first_failure s stmts)"

definition pg_commit :: "string \<Rightarrow> pg_store \<Rightarrow> unit res \<times> pg_store" where
  "pg_commit p s =
     (let t = pg_tbl p ''delivery_log''; pending = pg_pending s; s1 = s\<lparr>pg_pending := [], pg_seen := None\<rparr> in
      if pending = [] then (Inr (), s1)
      else case pg_first_failure s1 [''begin_tx'', ''prepare'', ''insert_delivery'', ''commit_tx''] of
             Some e \<Rightarrow> (Inl e, s1)
           | None \<Rightarrow> (Inr (), s1\<lparr>pg_deliveries := (pg_deliveries s1)(t :=
               foldl (\<lambda>ds e. insert_ignore (entry_key e) ds) (pg_deliveries s1 t) pending)\<rparr>))"

definition pg_rollback :: "pg_store \<Rightarrow> unit res \<times> pg_store" where
  "pg_rollback s = (Inr (), s\<lparr>pg_pending := [], pg_seen := None\<rparr>)"

subsection \<open>Locks\<close>

text \<open>
  The clean-up of the expired lock and the insertion are one transaction: a lock that is refused,
  or a statement or a commit that fails, leaves the table as it was.
\<close>

definition pg_lock_run ::
  "string \<Rightarrow> go_time \<Rightarrow> string \<Rightarrow> string \<Rightarrow> int \<Rightarrow> pg_store \<Rightarrow> unit res \<times> pg_store" where
  "pg_lock_run p now sy owner ttl s =
     (let t = pg_tbl p ''pipeline_locks'';
          live = filter (\<lambda>(k, l). \<not> (k = sy \<and> sl_expires l \<le> micros now)) (pg_locks s t) in
      case pg_fail s ''lock_tx'' of Some e \<Rightarrow> (Inl (ErrWrap ''state: lock tx'' e), s) | None \<Rightarrow>
      case pg_fail s ''lock_cleanup'' of Some e \<Rightarrow> (Inl (ErrWrap ''state: lock cleanup'' e), s) | None \<Rightarrow>
      case pg_fail s ''lock_insert'' of Some e \<Rightarrow> (Inl (ErrWrap ''state: acquire lock'' e), s) | None \<Rightarrow>
      case alookup live sy of
        Some l \<Rightarrow>
          (Inl (lock_error sy (case pg_fail s ''lock_owner'' of None \<Rightarrow> sl_owner l | Some _ \<Rightarrow> [])), s)
      | None \<Rightarrow>
          pg_exec ''lock_commit'' (\<lambda>s. s\<lparr>pg_locks := (pg_locks s)(t :=
             (sy, \<lparr>sl_owner = owner, sl_acquired = micros now, sl_heartbeat = micros now,
                   sl_expires = micros (now + ttl)\<rparr>) # live)\<rparr>) s)"

definition pg_unlock_run :: "string \<Rightarrow> string \<Rightarrow> pg_store \<Rightarrow> unit res \<times> pg_store" where
  "pg_unlock_run p sy s =
     (let t = pg_tbl p ''pipeline_locks'' in
      pg_exec ''unlock'' (\<lambda>s. s\<lparr>pg_locks := (pg_locks s)(t := adel sy (pg_locks s t))\<rparr>) s)"

definition pg_heartbeat_run ::
  "string \<Rightarrow> go_time \<Rightarrow> string \<Rightarrow> string \<Rightarrow> int \<Rightarrow> pg_store \<Rightarrow> unit res \<times> pg_store" where
  "pg_heartbeat_run p now sy owner ttl s =
     (let t = pg_tbl p ''pipeline_locks'' in
      pg_exec ''heartbeat'' (\<lambda>s. s\<lparr>pg_locks := (pg_locks s)(t := map (\<lambda>(k, l).
        (k, if k = sy \<and> sl_owner l = owner
            then l\<lparr>sl_heartbeat := micros now, sl_expires := micros (now + ttl)\<rparr> else l)) (pg_locks s t))\<rparr>) s)"

definition postgres_ops :: "string \<Rightarrow> pg_store store_ops" where
  "postgres_ops p = \<lparr>st_get = pg_get p, st_save = pg_save p, st_list = pg_list p, st_reset = pg_reset p,
     st_has_fired = pg_has_fired p, st_mark_fired = pg_mark_fired p, st_record = pg_record p,
     st_decisions = pg_decisions p, st_start_run = pg_start_run p, st_finish_run = pg_finish_run p,
     st_run_history = pg_run_history p, st_is_delivered = pg_is_delivered p,
     st_mark_delivered = pg_mark_delivered p, st_begin = pg_begin, st_commit = pg_commit p,
     st_rollback = pg_rollback, st_lock = pg_lock_run p, st_unlock = pg_unlock_run p,
     st_heartbeat = pg_heartbeat_run p\<rparr>"

subsection \<open>The PostgreSQL store keeps the contract\<close>

definition pg_abs :: "string \<Rightarrow> pg_store \<Rightarrow> abs_store" where
  "pg_abs p s = \<lparr>ab_entities = sq_entity_map (pg_entities s (pg_tbl p ''entity_state'')),
     ab_fired = set (pg_firings s (pg_tbl p ''rule_firings'')),
     ab_delivered = set (pg_deliveries s (pg_tbl p ''delivery_log'')),
     ab_batch = map_option seen_set (pg_seen s),
     ab_locks = (\<lambda>sy. map_option (\<lambda>l. (sl_owner l, sl_expires l))
       (alookup (pg_locks s (pg_tbl p ''pipeline_locks'')) sy))\<rparr>"

definition pg_inv :: "string \<Rightarrow> pg_store \<Rightarrow> bool" where
  "pg_inv p s \<longleftrightarrow>
     (case pg_seen s of None \<Rightarrow> pg_pending s = []
      | Some ks \<Rightarrow> seen_set ks = entry_key ` set (pg_pending s))
     \<and> go_map (pg_locks s (pg_tbl p ''pipeline_locks''))"

lemma new_pg_store_inv [simp]: "pg_inv p new_pg_store"
  by (simp add: pg_inv_def new_pg_store_def go_map_def)

lemmas pg_defs = postgres_ops_def pg_get_def pg_save_def pg_reset_def pg_has_fired_def
  pg_mark_fired_def pg_record_def pg_start_run_def pg_finish_run_def pg_is_delivered_def
  pg_mark_delivered_def pg_begin_def pg_commit_def pg_rollback_def pg_lock_run_def
  pg_unlock_run_def pg_exec_def pg_query_def

text \<open>
  Cutting the expiry down to microseconds: an entry that the clean-up removes has expired, and
  the new expiry is less than a microsecond early.
\<close>

lemma micros_near: "t - 1000 < micros t \<and> micros t \<le> t"
  unfolding micros_def by presburger

lemma pg_lock_run_ok:
  assumes "pg_inv p s" "pg_lock_run p now sy owner ttl s = (Inr (), s')"
  shows "\<not> ab_locked (pg_abs p s) now sy \<and> pg_inv p s'
    \<and> pg_abs p s' = ab_lock sy (owner, micros (now + ttl)) (pg_abs p s)"
proof -
  let ?t = "pg_tbl p ''pipeline_locks''"
  let ?ls = "filter (\<lambda>(k, l). \<not> (k = sy \<and> sl_expires l \<le> micros now)) (pg_locks s ?t)"
  let ?l = "\<lparr>sl_owner = owner, sl_acquired = micros now, sl_heartbeat = micros now, sl_expires = micros (now + ttl)\<rparr>"
  have none: "alookup ?ls sy = None" and s': "s' = s\<lparr>pg_locks := (pg_locks s)(?t := (sy, ?l) # ?ls)\<rparr>"
    using assms(2) by (auto simp: pg_lock_run_def pg_exec_def Let_def split: option.splits)
  have gm: "go_map (pg_locks s ?t)" using assms(1) by (simp add: pg_inv_def)
  have other: "alookup ?ls x = alookup (pg_locks s ?t) x" if "x \<noteq> sy" for x
    using that by (rule map_of_filter_other)
  have "now \<ge> sl_expires l" if "alookup (pg_locks s ?t) sy = Some l" for l
  proof -
    have "(sy, l) \<in> set (pg_locks s ?t)" using that by (rule map_of_SomeD)
    then have "sl_expires l \<le> micros now" using none by (force simp: map_of_eq_None_iff)
    then show ?thesis using micros_le [of now] by simp
  qed
  then have "\<not> ab_locked (pg_abs p s) now sy"
    by (auto simp: ab_locked_def pg_abs_def split: option.splits)
  moreover have "pg_inv p s'"
    using assms(1) none gm by (auto simp: s' pg_inv_def go_map_def map_of_eq_None_iff distinct_map_filter
        split: option.splits)
  moreover have "pg_abs p s' = ab_lock sy (owner, micros (now + ttl)) (pg_abs p s)"
    using other by (auto simp: s' pg_abs_def ab_lock_def fun_eq_iff)
  ultimately show ?thesis by blast
qed

lemma pg_mark_delivered_ok:
  assumes "pg_inv p s" "nul_free sy" "nul_free d" "pg_mark_delivered p now rid sy d s = (Inr (), s')"
  shows "pg_inv p s' \<and> pg_abs p s' = ab_mark_delivered (rid, sy, d) (pg_abs p s)"
proof (cases "pg_seen s")
  case None
  with assms show ?thesis
    by (auto simp: pg_defs pg_abs_def ab_mark_delivered_def pg_inv_def Let_def split: option.splits)
next
  case (Some ks)
  show ?thesis
  proof (cases "delivery_key rid sy d \<in> set ks")
    case True
    then have "(rid, sy, d) \<in> seen_set ks" using assms by (simp add: seen_set_mem)
    with True Some assms show ?thesis
      by (auto simp: pg_defs pg_abs_def ab_mark_delivered_def insert_absorb Let_def)
  next
    case False
    with Some assms show ?thesis
      by (auto simp: pg_defs pg_abs_def ab_mark_delivered_def pg_inv_def seen_set_Cons entry_key_def Let_def)
  qed
qed

interpretation postgres: state_store "postgres_ops p" "pg_inv p" "pg_abs p" json_reload
  for p :: string
proof
  fix s s' :: pg_store and sy d k :: string and found
  assume "nul_free sy" "nul_free d" "st_get (postgres_ops p) sy d k s = Inr found"
  then show "map_option es_core found = ab_entities (pg_abs p s) (sy, d, k)"
    by (auto simp: pg_defs pg_abs_def sq_entity_map_def split: option.splits)
next
  fix s s' :: pg_store and es now
  assume "pg_inv p s" "nul_free (es_sync es)" "nul_free (es_dest es)"
    "st_save (postgres_ops p) now es s = (Inr (), s')"
  then have s': "s' = pg_upsert_entity p now es s" "pg_inv p s"
    by (auto simp: pg_defs split: option.splits)
  then show "pg_inv p s' \<and> pg_abs p s' = ab_save (es_stored json_reload es) (pg_abs p s)"
    by (auto simp: pg_abs_def ab_save_def pg_inv_def pg_upsert_entity_def Let_def sq_entity_map_aput
        es_core_def es_stored_def split: option.splits)
next
  fix s s' :: pg_store and sy d k
  assume "pg_inv p s" "nul_free sy" "nul_free d" "st_reset (postgres_ops p) sy d k s = (Inr (), s')"
  then show "pg_inv p s' \<and> pg_abs p s' = ab_reset (sy, d, k) (pg_abs p s)"
    by (auto simp: pg_defs pg_abs_def ab_reset_def pg_inv_def sq_entity_map_adel Let_def split: option.splits)
next
  fix s :: pg_store and sy d k ru b
  assume "st_has_fired (postgres_ops p) sy d k ru s = Inr b"
  then show "b \<longleftrightarrow> (sy, d, k, ru) \<in> ab_fired (pg_abs p s)"
    by (auto simp: pg_defs pg_abs_def split: option.splits)
next
  fix s s' :: pg_store and sy d k ru now
  assume "pg_inv p s" "st_mark_fired (postgres_ops p) now sy d k ru s = (Inr (), s')"
  then show "pg_inv p s' \<and> pg_abs p s' = ab_fire (sy, d, k, ru) (pg_abs p s)"
    by (auto simp: pg_defs pg_abs_def ab_fire_def pg_inv_def Let_def split: option.splits)
next
  fix s :: pg_store and sy d rid b
  assume "nul_free sy" "nul_free d" "st_is_delivered (postgres_ops p) rid sy d s = Inr b"
  then show "b \<longleftrightarrow> ab_is_delivered (pg_abs p s) (rid, sy, d)"
    by (auto simp: pg_defs pg_abs_def ab_is_delivered_def seen_set_mem split: option.splits if_splits)
next
  fix s s' :: pg_store and sy d rid now
  assume "pg_inv p s" "nul_free sy" "nul_free d" "st_mark_delivered (postgres_ops p) now rid sy d s = (Inr (), s')"
  then show "pg_inv p s' \<and> pg_abs p s' = ab_mark_delivered (rid, sy, d) (pg_abs p s)"
    using pg_mark_delivered_ok by (simp add: postgres_ops_def)
next
  fix s s' :: pg_store
  assume "pg_inv p s" "st_commit (postgres_ops p) s = (Inr (), s')"
  then show "pg_inv p s' \<and> pg_abs p s' = ab_commit (pg_abs p s)"
    by (auto simp: pg_defs pg_abs_def ab_commit_def pg_inv_def Let_def set_foldl_insert_ignore
        split: option.splits if_splits)
next
  fix s s' :: pg_store and now sy owner ttl
  assume "pg_inv p s" "st_lock (postgres_ops p) now sy owner ttl s = (Inr (), s')"
  then show "\<not> ab_locked (pg_abs p s) now sy \<and> pg_inv p s' \<and>
      (\<exists>until. now + ttl - 1000 < until \<and> until \<le> now + ttl \<and> pg_abs p s' = ab_lock sy (owner, until) (pg_abs p s))"
    using pg_lock_run_ok [of p s now sy owner ttl s'] micros_near [of "now + ttl"] by (auto simp: postgres_ops_def)
next
  fix s s' :: pg_store and sy
  assume "pg_inv p s" "st_unlock (postgres_ops p) sy s = (Inr (), s')"
  then show "pg_inv p s' \<and> pg_abs p s' = (pg_abs p s)\<lparr>ab_locks := (ab_locks (pg_abs p s))(sy := None)\<rparr>"
    by (auto simp: pg_defs pg_abs_def pg_inv_def delete_conv' fun_eq_iff Let_def split: option.splits)
qed (auto simp: pg_defs pg_abs_def pg_inv_def Let_def split: option.splits if_splits)

subsection \<open>Properties\<close>

lemma new_mem_pg_same: "same_up_to f (mem_abs new_mem_store) (pg_abs p new_pg_store)"
  by (simp add: same_up_to_def mem_abs_def pg_abs_def new_mem_store_def new_pg_store_def
      fired_set_def entity_map_def sq_entity_map_def fun_eq_iff has_key_def del: has_key_iff)

interpretation mem_postgres: store_pair mem_ops mem_inv mem_abs "postgres_ops p" "pg_inv p" "pg_abs p" json_reload
  for p :: string ..

text \<open>
  The PostgreSQL store agrees with the memory store: started empty, after the same
  successful operations under any table prefix it answers every delivery and every rule-firing
  question alike, and an entity read from it is the one read from memory with its payloads
  passed through JSON.
\<close>

theorem postgres_agrees:
  assumes "list_all op_names_ok xs"
    and "run_ops mem_ops now xs new_mem_store = Some m" "run_ops (postgres_ops p) now xs new_pg_store = Some s"
    and "nul_free sy" "nul_free d" "nul_free ru"
    and "st_is_delivered mem_ops i sy d m = Inr b" "st_is_delivered (postgres_ops p) i sy d s = Inr b'"
    and "st_has_fired mem_ops sy d k ru m = Inr c" "st_has_fired (postgres_ops p) sy d k ru s = Inr c'"
    and "st_get mem_ops sy d k m = Inr e" "st_get (postgres_ops p) sy d k s = Inr e'"
  shows "b = b' \<and> c = c' \<and> map_option es_core e' = map_option (es_stored json_reload \<circ> es_core) e"
  by (rule mem_postgres.agree [OF new_mem_store_inv new_pg_store_inv new_mem_pg_same assms])

text \<open>The tables of one prefix.\<close>

definition pg_tables :: "string \<Rightarrow> pg_store \<Rightarrow> _" where
  "pg_tables p s = (pg_entities s (pg_tbl p ''entity_state''), pg_firings s (pg_tbl p ''rule_firings''),
     pg_events s (pg_tbl p ''decision_events''), pg_runs s (pg_tbl p ''run_log''),
     pg_deliveries s (pg_tbl p ''delivery_log''), pg_locks s (pg_tbl p ''pipeline_locks''))"

lemma pg_do_op_other: "p \<noteq> q \<Longrightarrow> do_op (postgres_ops p) now x s = (r, s') \<Longrightarrow> pg_tables q s' = pg_tables q s"
  by (cases x) (auto simp: pg_defs pg_upsert_entity_def pg_tables_def Let_def split: option.splits if_splits)

lemma pg_run_ops_other: "p \<noteq> q \<Longrightarrow> run_ops (postgres_ops p) now xs s = Some s' \<Longrightarrow> pg_tables q s' = pg_tables q s"
proof (induction xs arbitrary: s)
  case (Cons x xs)
  obtain r s1 where d: "do_op (postgres_ops p) now x s = (r, s1)" by fastforce
  then show ?case using Cons pg_do_op_other [OF Cons.prems(1) d] by (auto split: sum.splits)
qed simp

text \<open>
  Stores with different prefixes share a database without seeing each other: no
  sequence of operations of one, no lock and no unlock changes a table of the other.
\<close>

theorem postgres_prefixes_isolated:
  assumes "p \<noteq> q" "run_ops (postgres_ops p) now xs s = Some s1"
    and "st_lock (postgres_ops p) now sy owner ttl s1 = (r, s2)" "st_unlock (postgres_ops p) sy' s2 = (r', s3)"
  shows "pg_tables q s3 = pg_tables q s \<and> pg_abs q s3 = (pg_abs q s)\<lparr>ab_batch := map_option seen_set (pg_seen s3)\<rparr>"
proof -
  have "pg_tables q s2 = pg_tables q s1" "pg_tables q s3 = pg_tables q s2"
    using assms(1,3,4) by (auto simp: pg_defs pg_tables_def Let_def split: option.splits if_splits)
  then have t: "pg_tables q s3 = pg_tables q s" using pg_run_ops_other [OF assms(1,2)] by simp
  then show ?thesis by (simp add: pg_tables_def pg_abs_def)
qed

text \<open>
  The watermark of a run comes back from the run log cut down to microseconds: less
  than a microsecond below what the run saw, so that the rows of that last microsecond are
  extracted again, and never above it, so that none is passed over.
\<close>

theorem postgres_watermark:
  assumes "st_finish_run (postgres_ops p) now i st s = (Inr (), s')" "\<not> is_zero (rs_watermark st)"
    and "st_run_history (postgres_ops p) sy n s' = Inr runs" "r \<in> set runs" "rl_id r = i"
  shows "rs_watermark st - 1000 < rl_watermark r \<and> rl_watermark r \<le> rs_watermark st \<and> rl_status r = rs_status st"
proof -
  have "r \<in> set (pg_runs s' (pg_tbl p ''run_log''))"
    using assms(3,4) by (auto simp: postgres_ops_def pg_run_history_def pg_query_def Let_def
        dest!: in_set_takeD split: option.splits)
  moreover have "pg_runs s' (pg_tbl p ''run_log'') = map (\<lambda>r. if rl_id r = i then pg_finish_row now st r else r)
      (pg_runs s (pg_tbl p ''run_log''))"
    using assms(1) by (auto simp: pg_defs Let_def split: option.splits)
  ultimately have "r \<in> (\<lambda>r. if rl_id r = i then pg_finish_row now st r else r) ` set (pg_runs s (pg_tbl p ''run_log''))"
    by (simp only: set_map)
  then obtain r0 where "r = (if rl_id r0 = i then pg_finish_row now st r0 else r0)" by (rule imageE)
  then have "r = pg_finish_row now st r0"
    using assms(5) by (auto split: if_splits)
  then show ?thesis
    using assms(2) micros_near [of "rs_watermark st"] by (simp add: pg_finish_row_def run_log_finish_def)
qed

lemma pg_answers:
  assumes "pg_fail s = (\<lambda>_. None)"
  shows "\<exists>c. st_has_fired (postgres_ops p) sy d k ru s = Inr c" "\<exists>e. st_get (postgres_ops p) sy d k s = Inr e"
    "\<exists>b. st_is_delivered (postgres_ops p) i sy d s = Inr b"
  using assms by (auto simp: pg_defs)

theorem postgres_agrees_witness:
  "(let xs = [OpBegin, OpMark ''r1'' ''crm'' ''slack'', OpCommit, OpFire ''crm'' ''slack'' ''7'' ''new''];
        ms = run_ops mem_ops 5 xs new_mem_store; ps = run_ops (postgres_ops ''v'') 5 xs new_pg_store
    in map_option (st_is_delivered mem_ops ''r1'' ''crm'' ''slack'') ms
         = map_option (st_is_delivered (postgres_ops ''v'') ''r1'' ''crm'' ''slack'') ps)"
proof -
  let ?xs = "[OpBegin, OpMark ''r1'' ''crm'' ''slack'', OpCommit, OpFire ''crm'' ''slack'' ''7'' ''new'']"
  obtain m s where ms: "run_ops mem_ops 5 ?xs new_mem_store = Some m"
      "run_ops (postgres_ops ''v'') 5 ?xs new_pg_store = Some s" "pg_fail s = (\<lambda>_. None)"
    by (simp add: pg_defs mem_defs new_pg_store_def new_mem_store_def)
  have "nul_free ''crm''" "nul_free ''slack''" "nul_free ''new''"
    by (simp_all add: nul_free_def nul_def)
  moreover obtain b b' c c' e e' where
    "st_is_delivered mem_ops ''r1'' ''crm'' ''slack'' m = Inr b"
    "st_is_delivered (postgres_ops ''v'') ''r1'' ''crm'' ''slack'' s = Inr b'"
    "st_has_fired mem_ops ''crm'' ''slack'' ''7'' ''new'' m = Inr c"
    "st_has_fired (postgres_ops ''v'') ''crm'' ''slack'' ''7'' ''new'' s = Inr c'"
    "st_get mem_ops ''crm'' ''slack'' ''7'' m = Inr e"
    "st_get (postgres_ops ''v'') ''crm'' ''slack'' ''7'' s = Inr e'"
    using mem_is_delivered_answers pg_answers [OF ms(3)] mem_answers by meson
  ultimately show ?thesis
    using postgres_agrees [of ?xs 5 m "''v''" s "''crm''" "''slack''" "''new''" "''r1''" b b' "''7''" c c' e e'] ms by simp
qed

theorem postgres_prefixes_isolated_witness:
  "(let s1 = the (run_ops (postgres_ops ''a'') 5 [OpMark ''r1'' ''crm'' ''slack''] new_pg_store);
        s2 = snd (st_lock (postgres_ops ''a'') 5 ''crm'' ''me'' 600 s1);
        s3 = snd (st_unlock (postgres_ops ''a'') ''crm'' s2)
    in pg_tables ''b'' s3 = pg_tables ''b'' new_pg_store)"
proof -
  obtain s1 where s1: "run_ops (postgres_ops ''a'') 5 [OpMark ''r1'' ''crm'' ''slack''] new_pg_store = Some s1"
    by (simp add: pg_defs new_pg_store_def Let_def)
  obtain r s2 where s2: "st_lock (postgres_ops ''a'') 5 ''crm'' ''me'' 600 s1 = (r, s2)" by fastforce
  obtain r' s3 where s3: "st_unlock (postgres_ops ''a'') ''crm'' s2 = (r', s3)" by fastforce
  show ?thesis
    using postgres_prefixes_isolated [OF _ s1 s2 s3, of "''b''"] s1 s2 s3 by simp
qed

theorem postgres_watermark_witness:
  "(let st = \<lparr>rs_extracted = 0, rs_loaded = 0, rs_skipped = 0, rs_errored = 0, rs_watermark = 1234567,
          rs_status = ''success'', rs_error = [], rs_creates = 0, rs_updates = 0, rs_deletes = 0,
          rs_changes = [], rs_approval = False, rs_approval_hash = []\<rparr>;
        s1 = snd (st_start_run (postgres_ops ''v'') 5 ''crm'' ''batch'' new_pg_store);
        s2 = snd (st_finish_run (postgres_ops ''v'') 9 1 st s1)
    in \<forall>r \<in> set (case st_run_history (postgres_ops ''v'') ''crm'' 10 s2 of Inr rs \<Rightarrow> rs | Inl _ \<Rightarrow> []).
         rl_id r = 1 \<longrightarrow> 1233567 < rl_watermark r \<and> rl_watermark r \<le> 1234567)"
proof -
  let ?st = "\<lparr>rs_extracted = 0, rs_loaded = 0, rs_skipped = 0, rs_errored = 0, rs_watermark = 1234567,
          rs_status = ''success'', rs_error = [], rs_creates = 0, rs_updates = 0, rs_deletes = 0,
          rs_changes = [], rs_approval = False, rs_approval_hash = []\<rparr>"
  let ?s1 = "snd (st_start_run (postgres_ops ''v'') 5 ''crm'' ''batch'' new_pg_store)"
  obtain s2 where s2: "st_finish_run (postgres_ops ''v'') 9 1 ?st ?s1 = (Inr (), s2)"
    by (simp add: pg_defs new_pg_store_def Let_def)
  have z: "\<not> is_zero (rs_watermark ?st)" by (simp add: is_zero_def time_zero_def second_ns_def)
  have "1233567 < rl_watermark r \<and> rl_watermark r \<le> 1234567"
    if "st_run_history (postgres_ops ''v'') ''crm'' 10 s2 = Inr rs" "r \<in> set rs" "rl_id r = 1" for rs r
    using postgres_watermark [OF s2 z that] by simp
  then show ?thesis
    using s2 by (cases "st_run_history (postgres_ops ''v'') ''crm'' 10 s2") (auto simp: Let_def)
qed

subsection \<open>The destinations over the PostgreSQL store\<close>

interpretation rest_postgres: counting_destination "postgres_ops p" "pg_inv p" "pg_abs p" json_reload "rest_load x c (postgres_ops p) now"
  for p x c now by (rule postgres.rest_contract)

interpretation slack_postgres: counting_destination "postgres_ops p" "pg_inv p" "pg_abs p" json_reload "slack_load x c (postgres_ops p) now"
  for p x c now by (rule postgres.slack_contract)

end
