(* ===== verification/Registry.thy ===== *)
theory Registry
  imports Go_Value
begin

section \<open>Registries of connectors and of state backends\<close>

text \<open>
  \<open>internal/registry/registry.go\<close> and \<open>internal/state/registry.go\<close>. A registry maps a type name to
  a factory; a panic is an error value. The package's lock makes each operation atomic. What a
  factory makes of its configuration is a parameter; the three backends register themselves with
  the factories written out here.
\<close>

type_synonym 'f factories = "(string \<times> 'f) list"

definition reg_list :: "'f factories \<Rightarrow> string list" where
  "reg_list fs = sort (map fst fs)"

subsection \<open>Connectors\<close>

definition reg_register :: "string \<Rightarrow> 'f factories \<Rightarrow> string \<Rightarrow> 'f option \<Rightarrow> 'f factories res" where
  "reg_register kind fs name factory =
     (if name = [] then Inl (ErrMsg (kind @ '' type name is required''))
      else case factory of
             None \<Rightarrow> Inl (ErrMsg (kind @ '' factory is nil''))
           | Some f \<Rightarrow>
               if has_key fs name then Inl (ErrMsg (kind @ '' '' @ quote_q name @ '' already registered''))
               else Inr (aput name f fs))"

record 'f connectors =
  rg_batch :: "'f factories"
  rg_streaming :: "'f factories"
  rg_dests :: "'f factories"

definition register_batch :: "string \<Rightarrow> 'f option \<Rightarrow> 'f connectors \<Rightarrow> 'f connectors res" where
  "register_batch name f c = map_sum id (\<lambda>fs. c\<lparr>rg_batch := fs\<rparr>) (reg_register ''batch source'' (rg_batch c) name f)"

definition register_streaming :: "string \<Rightarrow> 'f option \<Rightarrow> 'f connectors \<Rightarrow> 'f connectors res" where
  "register_streaming name f c =
     map_sum id (\<lambda>fs. c\<lparr>rg_streaming := fs\<rparr>) (reg_register ''streaming source'' (rg_streaming c) name f)"

definition register_destination :: "string \<Rightarrow> 'f option \<Rightarrow> 'f connectors \<Rightarrow> 'f connectors res" where
  "register_destination name f c =
     map_sum id (\<lambda>fs. c\<lparr>rg_dests := fs\<rparr>) (reg_register ''destination'' (rg_dests c) name f)"

definition get_batch_source :: "string \<Rightarrow> 'f connectors \<Rightarrow> 'f res" where
  "get_batch_source name c =
     (case alookup (rg_batch c) name of
        Some f \<Rightarrow> Inr f
      | None \<Rightarrow> Inl (ErrMsg (''unknown batch source type '' @ quote_q name @ '', registered types: ''
                  @ join '', '' (reg_list (rg_batch c)))))"

definition get_streaming_source :: "string \<Rightarrow> 'f connectors \<Rightarrow> 'f res" where
  "get_streaming_source name c =
     (case alookup (rg_streaming c) name of
        Some f \<Rightarrow> Inr f
      | None \<Rightarrow> Inl (ErrMsg (''unknown streaming source type '' @ quote_q name @ '', registered types: ''
                  @ join '', '' (reg_list (rg_streaming c)))))"

definition get_destination :: "string \<Rightarrow> 'f connectors \<Rightarrow> 'f res" where
  "get_destination name c =
     (case alookup (rg_dests c) name of
        Some f \<Rightarrow> Inr f
      | None \<Rightarrow> Inl (ErrMsg (''unknown destination type '' @ quote_q name @ '', registered types: ''
                  @ join '', '' (reg_list (rg_dests c)))))"

definition reg_get :: "string \<Rightarrow> 'f factories \<Rightarrow> string \<Rightarrow> 'f res" where
  "reg_get kind fs name =
     (case alookup fs name of
        Some f \<Rightarrow> Inr f
      | None \<Rightarrow> Inl (ErrMsg (''unknown '' @ kind @ '' type '' @ quote_q name)))"

text \<open>Registering succeeds exactly for a new name with a factory, and then the name is found.\<close>

lemma reg_register_ok:
  "(\<exists>fs'. reg_register kind fs name factory = Inr fs') \<longleftrightarrow> name \<noteq> [] \<and> factory \<noteq> None \<and> name \<notin> fst ` set fs"
  by (auto simp: reg_register_def split: option.splits)

lemma register_then_get:
  assumes "register_destination name (Some f) c = Inr c'"
  shows "get_destination name c' = Inr f"
    and "name' \<noteq> name \<Longrightarrow> (\<exists>g. get_destination name' c' = Inr g) \<longleftrightarrow> (\<exists>g. get_destination name' c = Inr g)"
proof -
  have c': "c' = c\<lparr>rg_dests := aput name f (rg_dests c)\<rparr>"
    using assms by (auto simp: register_destination_def reg_register_def split: if_splits)
  show "get_destination name c' = Inr f"
    by (simp add: c' get_destination_def update_conv')
  show "name' \<noteq> name \<Longrightarrow> (\<exists>g. get_destination name' c' = Inr g) \<longleftrightarrow> (\<exists>g. get_destination name' c = Inr g)"
    by (auto simp: c' get_destination_def update_conv' split: option.splits)
qed

subsection \<open>State backends\<close>

record backend_config =
  bc_backend :: string
  bc_path :: string
  bc_connection :: string
  bc_prefix :: string

text \<open>
  \<open>Build\<close>: the configuration it hands to the factory has the backend, the path and the
  connection, and an empty prefix.
\<close>

definition state_build ::
  "(backend_config \<Rightarrow> 'st res) factories \<Rightarrow> string \<Rightarrow> string \<Rightarrow> string \<Rightarrow> 'st res" where
  "state_build fs backend path connection =
     (let b0 = trim_space backend; b = (if b0 = [] then ''sqlite'' else b0) in
      case alookup fs b of
        None \<Rightarrow> Inl (ErrMsg (''unknown state backend '' @ quote_q b @ '', valid: '' @ join '', '' (reg_list fs)))
      | Some factory \<Rightarrow> factory \<lparr>bc_backend = b, bc_path = path, bc_connection = connection, bc_prefix = []\<rparr>)"

text \<open>What the backends register: the store to open, as the constructors default it.\<close>

datatype opened = OpenMemory | OpenSqlite string | OpenPostgres string string

definition state_factories :: "(backend_config \<Rightarrow> opened res) factories" where
  "state_factories =
     [(''memory'', \<lambda>cfg. Inr OpenMemory),
      (''postgres'', \<lambda>cfg. Inr (OpenPostgres (bc_connection cfg) (if bc_prefix cfg = [] then ''v'' else bc_prefix cfg))),
      (''sqlite'', \<lambda>cfg. Inr (OpenSqlite (if bc_path cfg = [] then ''./state/sync.db'' else bc_path cfg)))]"

definition open_state_store :: "string \<Rightarrow> string \<Rightarrow> string \<Rightarrow> opened res" where
  "open_state_store backend path connection =
     map_sum (ErrWrap ''state store'') id (state_build state_factories backend path connection)"

text \<open>
  A run opens the SQLite store by default, the memory or the PostgreSQL store when
  named, and fails on any other name. The PostgreSQL store always gets the prefix \<open>v\<close>: the
  \<open>key_prefix\<close> of the configuration does not reach it.
\<close>

theorem open_state_store_cases:
  "open_state_store backend path connection =
     (if trim_space backend \<in> {[], ''sqlite''} then Inr (OpenSqlite (if path = [] then ''./state/sync.db'' else path))
      else if trim_space backend = ''postgres'' then Inr (OpenPostgres connection ''v'')
      else if trim_space backend = ''memory'' then Inr OpenMemory
      else Inl (ErrWrap ''state store'' (ErrMsg (''unknown state backend '' @ quote_q (trim_space backend)
             @ '', valid: memory, postgres, sqlite''))))"
  by (simp add: open_state_store_def state_build_def state_factories_def Let_def reg_list_def)

end
