(* ===== verification/Go_Time.thy ===== *)
theory Go_Time
  imports Go_Value
begin

section \<open>Reading times and integers: time.Parse and strconv as the sources use them\<close>

text \<open>
  \<open>time.Parse\<close> for layouts made of the elements below, \<open>strconv.ParseInt\<close>, and
  \<open>parseTimeString\<close> of the sources. The hour may have one digit, a fraction may follow the
  seconds whether or not the layout names it, a blank of the layout matches any number of
  blanks, and an offset may have 24 hours and 60 minutes, as the standard library has it.
\<close>

subsection \<open>Integers\<close>

definition int64_range :: "int \<Rightarrow> bool" where
  "int64_range i \<longleftrightarrow> - (2 ^ 63) \<le> i \<and> i < 2 ^ 63"

definition parse_uint :: "string \<Rightarrow> int option" where
  "parse_uint s = (if s \<noteq> [] \<and> list_all is_digit s then Some (read_int s) else None)"

definition parse_int64 :: "string \<Rightarrow> int option" where
  "parse_int64 s =
     (let r = (case s of
                 [] \<Rightarrow> None
               | c # ds \<Rightarrow> if c = CHR ''-'' then map_option uminus (parse_uint ds)
                           else if c = CHR ''+'' then parse_uint ds else parse_uint s)
      in case r of None \<Rightarrow> None | Some i \<Rightarrow> if int64_range i then Some i else None)"

lemma parse_uint_dec_pos [simp]: "0 \<le> n \<Longrightarrow> parse_uint (dec_pos n) = Some n"
  by (auto simp: parse_uint_def list_all_iff intro: dec_pos_digits)

lemma parse_int64_dec: "int64_range i \<Longrightarrow> parse_int64 (dec_int i) = Some i"
proof (cases "i < 0")
  case True
  then show "int64_range i \<Longrightarrow> ?thesis" by (simp add: parse_int64_def dec_int_def)
next
  case False
  obtain c cs where s: "dec_pos i = c # cs" by (cases "dec_pos i") auto
  have "is_digit c" using dec_pos_digits [of i c] False s by simp
  then have "c \<noteq> CHR ''-''" "c \<noteq> CHR ''+''" by (auto simp: is_digit_of_char)
  moreover have "parse_uint (c # cs) = Some i" using parse_uint_dec_pos [of i] False s by simp
  ultimately show "int64_range i \<Longrightarrow> ?thesis" using False s by (simp add: parse_int64_def dec_int_def)
qed

subsection \<open>Layouts\<close>

datatype layout_element =
    LLit char
  | LBlank
  | LYear
  | LMonth
  | LDay
  | LHour
  | LMinute
  | LSecond
  | LFrac
  | LZone

record date_parts =
  dp_year :: int
  dp_month :: int
  dp_day :: int
  dp_hour :: int
  dp_min :: int
  dp_sec :: int
  dp_nano :: int
  dp_offset :: int

definition date_parts_init :: date_parts where
  "date_parts_init = \<lparr>dp_year = 0, dp_month = 1, dp_day = 1, dp_hour = 0, dp_min = 0, dp_sec = 0,
     dp_nano = 0, dp_offset = 0\<rparr>"

text \<open>\<open>getnum\<close>: two digits, or one when the element is not fixed.\<close>

fun get_num :: "bool \<Rightarrow> string \<Rightarrow> (int \<times> string) option" where
  "get_num fixed [] = None"
| "get_num fixed [c] = (if is_digit c \<and> \<not> fixed then Some (char_digit c, []) else None)"
| "get_num fixed (c # d # s) =
     (if \<not> is_digit c then None
      else if is_digit d then Some (10 * char_digit c + char_digit d, s)
      else if fixed then None else Some (char_digit c, d # s))"

definition get_year :: "string \<Rightarrow> (int \<times> string) option" where
  "get_year s = (if 4 \<le> length s \<and> list_all is_digit (take 4 s)
                 then Some (read_int (take 4 s), drop 4 s) else None)"

text \<open>A fraction of the second: at most nine digits count.\<close>

definition get_frac :: "string \<Rightarrow> (int \<times> string) option" where
  "get_frac s =
     (case s of
        p # d # _ \<Rightarrow>
          if (p = CHR ''.'' \<or> p = CHR '','') \<and> is_digit d
          then let ds = takeWhile is_digit (tl s); k = take 9 ds
               in Some (read_int k * 10 ^ (9 - length k), dropWhile is_digit (tl s))
          else None
      | _ \<Rightarrow> None)"

definition get_zone :: "string \<Rightarrow> (int \<times> string) option" where
  "get_zone s =
     (if s \<noteq> [] \<and> hd s = CHR ''Z'' then Some (0, tl s)
      else if length s < 6 \<or> s ! 3 \<noteq> CHR '':'' then None
      else case (get_num True (take 2 (drop 1 s)), get_num True (take 2 (drop 4 s))) of
             (Some (h, _), Some (m, _)) \<Rightarrow>
               if h > 24 \<or> m > 60 then None
               else let off = (h * 60 + m) * 60 in
                 if hd s = CHR ''+'' then Some (off, drop 6 s)
                 else if hd s = CHR ''-'' then Some (- off, drop 6 s) else None
           | _ \<Rightarrow> None)"

definition in_range :: "int \<Rightarrow> int \<Rightarrow> (int \<times> string) option \<Rightarrow> (int \<times> string) option" where
  "in_range lo hi r = (case r of Some (n, s) \<Rightarrow> if lo \<le> n \<and> n \<le> hi then r else None | None \<Rightarrow> None)"

fun parse_layout :: "layout_element list \<Rightarrow> string \<Rightarrow> date_parts \<Rightarrow> date_parts option" where
  "parse_layout [] s p = (if s = [] then Some p else None)"
| "parse_layout (LLit c # l) s p =
     (case s of x # s' \<Rightarrow> if x = c then parse_layout l s' p else None | [] \<Rightarrow> None)"
| "parse_layout (LBlank # l) s p =
     (if s \<noteq> [] \<and> hd s \<noteq> CHR '' '' then None
      else parse_layout l (dropWhile (\<lambda>c. c = CHR '' '') s) p)"
| "parse_layout (LYear # l) s p =
     (case get_year s of Some (n, s') \<Rightarrow> parse_layout l s' (p\<lparr>dp_year := n\<rparr>) | None \<Rightarrow> None)"
| "parse_layout (LMonth # l) s p =
     (case in_range 1 12 (get_num True s) of
        Some (n, s') \<Rightarrow> parse_layout l s' (p\<lparr>dp_month := n\<rparr>) | None \<Rightarrow> None)"
| "parse_layout (LDay # l) s p =
     (case get_num True s of Some (n, s') \<Rightarrow> parse_layout l s' (p\<lparr>dp_day := n\<rparr>) | None \<Rightarrow> None)"
| "parse_layout (LHour # l) s p =
     (case in_range 0 23 (get_num False s) of
        Some (n, s') \<Rightarrow> parse_layout l s' (p\<lparr>dp_hour := n\<rparr>) | None \<Rightarrow> None)"
| "parse_layout (LMinute # l) s p =
     (case in_range 0 59 (get_num True s) of
        Some (n, s') \<Rightarrow> parse_layout l s' (p\<lparr>dp_min := n\<rparr>) | None \<Rightarrow> None)"
| "parse_layout (LSecond # l) s p =
     (case in_range 0 59 (get_num True s) of
        None \<Rightarrow> None
      | Some (n, s') \<Rightarrow>
          let p' = p\<lparr>dp_sec := n\<rparr> in
          if l \<noteq> [] \<and> hd l = LFrac then parse_layout l s' p'
          else (case get_frac s' of
                  Some (f, s2) \<Rightarrow> parse_layout l s2 (p'\<lparr>dp_nano := f\<rparr>)
                | None \<Rightarrow> parse_layout l s' p'))"
| "parse_layout (LFrac # l) s p =
     (case get_frac s of
        Some (f, s') \<Rightarrow> parse_layout l s' (p\<lparr>dp_nano := f\<rparr>) | None \<Rightarrow> parse_layout l s p)"
| "parse_layout (LZone # l) s p =
     (case get_zone s of Some (n, s') \<Rightarrow> parse_layout l s' (p\<lparr>dp_offset := n\<rparr>) | None \<Rightarrow> None)"

definition is_leap :: "int \<Rightarrow> bool" where
  "is_leap y \<longleftrightarrow> y mod 4 = 0 \<and> (y mod 100 \<noteq> 0 \<or> y mod 400 = 0)"

definition days_in :: "int \<Rightarrow> int \<Rightarrow> int" where
  "days_in m y = (if m = 2 then (if is_leap y then 29 else 28)
                  else if m \<in> {4, 6, 9, 11} then 30 else 31)"

text \<open>The number of days from 1 January 1970 to a date.\<close>

definition days_of_civil :: "int \<Rightarrow> int \<Rightarrow> int \<Rightarrow> int" where
  "days_of_civil y m d =
     (let y' = (if m \<le> 2 then y - 1 else y); era = y' div 400; yoe = y' mod 400;
          mp = (if m > 2 then m - 3 else m + 9);
          doy = (153 * mp + 2) div 5 + d - 1;
          doe = yoe * 365 + yoe div 4 - yoe div 100 + doy
      in era * 146097 + doe - 719468)"

definition time_of_parts :: "date_parts \<Rightarrow> go_time" where
  "time_of_parts p =
     ((days_of_civil (dp_year p) (dp_month p) (dp_day p) * 86400
        + dp_hour p * 3600 + dp_min p * 60 + dp_sec p - dp_offset p) * second_ns + dp_nano p)"

definition time_parse :: "layout_element list \<Rightarrow> string \<Rightarrow> go_time option" where
  "time_parse l s =
     (case parse_layout l s date_parts_init of
        None \<Rightarrow> None
      | Some p \<Rightarrow> if 1 \<le> dp_day p \<and> dp_day p \<le> days_in (dp_month p) (dp_year p)
                  then Some (time_of_parts p) else None)"

definition date_layout :: "layout_element list" where
  "date_layout = [LYear, LLit CHR ''-'', LMonth, LLit CHR ''-'', LDay]"

definition clock_layout :: "layout_element list" where
  "clock_layout = [LHour, LLit CHR '':'', LMinute, LLit CHR '':'', LSecond]"

definition rfc3339_layout :: "layout_element list" where
  "rfc3339_layout = date_layout @ LLit CHR ''T'' # clock_layout @ [LZone]"

definition rfc3339_nano_layout :: "layout_element list" where
  "rfc3339_nano_layout = date_layout @ LLit CHR ''T'' # clock_layout @ [LFrac, LZone]"

definition time_unix :: "int \<Rightarrow> go_time" where
  "time_unix s = s * second_ns"

text \<open>\<open>parseTimeString\<close>: six layouts in turn, then a number of seconds.\<close>

definition source_layouts :: "layout_element list list" where
  "source_layouts =
     [rfc3339_nano_layout, rfc3339_layout,
      date_layout @ LBlank # clock_layout @ [LFrac, LZone], date_layout @ LBlank # clock_layout @ [LZone],
      date_layout @ LBlank # clock_layout @ [LFrac], date_layout @ LBlank # clock_layout]"

fun first_some :: "('a \<Rightarrow> 'b option) \<Rightarrow> 'a list \<Rightarrow> 'b option" where
  "first_some f [] = None"
| "first_some f (x # xs) = (case f x of Some y \<Rightarrow> Some y | None \<Rightarrow> first_some f xs)"

definition parse_time_string :: "string \<Rightarrow> go_time res" where
  "parse_time_string s =
     (case first_some (\<lambda>l. time_parse l s) source_layouts of
        Some t \<Rightarrow> Inr t
      | None \<Rightarrow> (case parse_int64 s of
                  Some u \<Rightarrow> Inr (time_unix u)
                | None \<Rightarrow> Inl (ErrMsg (''postgres source: cannot parse time '' @ quote_q s))))"

subsection \<open>The calendar\<close>

text \<open>
  \<open>civil\<close> and \<open>days_of_civil\<close> are inverse: a year of the 400-year cycle starts at day
  \<open>year_start\<close>, the year of a day is found by a monotone estimate, and the months of a year
  are checked day by day.
\<close>

definition year_start :: "int \<Rightarrow> int" where
  "year_start y = 365 * y + y div 4 - y div 100 + (if y = 400 then 1 else 0)"

definition year_estimate :: "int \<Rightarrow> int" where
  "year_estimate doe = doe - doe div 1460 + doe div 36524 - doe div 146096"

definition cycle_years :: "int list" where
  "cycle_years = [0..399]"

lemma mem_cycle_years [simp]: "y \<in> set cycle_years \<longleftrightarrow> 0 \<le> y \<and> y \<le> 399"
  by (simp add: cycle_years_def)

lemma cycle_years_checked:
  "list_all (\<lambda>y. 365 * y \<le> year_estimate (year_start y)
      \<and> year_estimate (year_start (y + 1) - 1) < 365 * (y + 1)
      \<and> year_start (y + 1) - year_start y \<le> (if is_leap (y + 1) then 366 else 365)) cycle_years"
  by code_simp

lemma div_diff_le: "0 < k \<Longrightarrow> d \<le> e \<Longrightarrow> e div k \<le> d div k + (e - d)" for d e k :: int
proof -
  assume k: "0 < k" and de: "d \<le> e"
  have "e - d \<le> k * (e - d)" using k de mult_right_mono [of 1 k "e - d"] by simp
  then have "e \<le> d + k * (e - d)" by simp
  then have "e div k \<le> (d + k * (e - d)) div k" using k by (rule zdiv_mono1)
  then show ?thesis using k by simp
qed

lemma year_estimate_mono:
  assumes "d \<le> e" "0 \<le> d" "e \<le> 146096"
  shows "year_estimate d \<le> year_estimate e"
proof -
  have a: "e div 1460 \<le> d div 1460 + (e - d)" using div_diff_le [OF _ assms(1), of 1460] by simp
  have b: "d div 36524 \<le> e div 36524" using assms(1) by (rule zdiv_mono1) simp
  have c: "d div 36524 - d div 146096 \<le> e div 36524 - e div 146096"
  proof (cases "e = 146096")
    case True
    have "d div 36524 \<le> 3 \<or> d = 146096" using assms by auto
    then show ?thesis using True assms by auto
  next
    case False
    then have "e div 146096 = 0" "d div 146096 = 0" using assms by auto
    with b show ?thesis by simp
  qed
  show ?thesis using a c by (simp add: year_estimate_def)
qed

lemma year_of_day:
  assumes "0 \<le> doe" "doe < year_start (int n)" "n \<le> 400"
  shows "\<exists>y. 0 \<le> y \<and> y < int n \<and> year_start y \<le> doe \<and> doe < year_start (y + 1)"
  using assms
proof (induction n)
  case (Suc n)
  show ?case
  proof (cases "doe < year_start (int n)")
    case True
    then show ?thesis using Suc by (metis Suc_leD less_trans of_nat_less_iff lessI)
  next
    case False
    then show ?thesis using Suc.prems by (intro exI [of _ "int n"]) (auto simp: add.commute)
  qed
qed (simp add: year_start_def)

lemma year_of_estimate:
  assumes "0 \<le> doe" "doe < 146097" "y = year_estimate doe div 365"
  shows "0 \<le> y" "y \<le> 399" "year_start y \<le> doe" "doe < year_start (y + 1)"
proof -
  obtain z where z: "0 \<le> z" "z < 400" "year_start z \<le> doe" "doe < year_start (z + 1)"
    using year_of_day [of doe 400] assms by (auto simp: year_start_def)
  have chk: "365 * z \<le> year_estimate (year_start z)" "year_estimate (year_start (z + 1) - 1) < 365 * (z + 1)"
    using cycle_years_checked z(1,2) by (auto simp: list_all_iff)
  have s0: "0 \<le> year_start z" using z by (simp add: year_start_def) 
  have s1: "year_start (z + 1) \<le> 146097"
  proof (cases "z = 399")
    case False
    then show ?thesis using z by (auto simp: year_start_def)
  qed (simp add: year_start_def)
  have "365 * z \<le> year_estimate doe"
    using chk(1) year_estimate_mono [OF z(3) s0] assms(2) by simp
  moreover have "year_estimate doe < 365 * (z + 1)"
    using chk(2) year_estimate_mono [of doe "year_start (z + 1) - 1"] assms(1) z(4) s1 by simp
  ultimately have "y = z" using assms(3) by (simp add: algebra_simps)
  then show "0 \<le> y" "y \<le> 399" "year_start y \<le> doe" "doe < year_start (y + 1)" using z by simp_all
qed

text \<open>The months, for every day of a year counted from 1 March.\<close>

lemma year_days_checked:
  "list_all (\<lambda>doy. let mp = (5 * doy + 2) div 153; day = doy - (153 * mp + 2) div 5 + 1;
        m = (if mp < 10 then mp + 3 else mp - 9) in
      0 \<le> mp \<and> mp \<le> 11 \<and> 1 \<le> m \<and> m \<le> 12 \<and> 1 \<le> day
      \<and> day \<le> (if m = 2 then (if doy = 365 then 29 else 28) else if m \<in> {4, 6, 9, 11} then 30 else 31))
    [0..365]"
  by code_simp

lemma is_leap_cycle: "is_leap (y + e * 400) = is_leap y"
proof -
  have "(y + e * 400) mod 4 = y mod 4"
    using mod_mult_self1 [of y "e * 100" 4] by (simp add: algebra_simps)
  moreover have "(y + e * 400) mod 100 = y mod 100"
    using mod_mult_self1 [of y "e * 4" 100] by (simp add: algebra_simps)
  ultimately show ?thesis by (simp add: is_leap_def)
qed

lemma civil_valid:
  assumes "civil n = (y, m, d)"
  shows "days_of_civil y m d = n" "1 \<le> m" "m \<le> 12" "1 \<le> d" "d \<le> days_in m y"
proof -
  define z where "z = n + 719468"
  define era where "era = z div 146097"
  define doe where "doe = z mod 146097"
  define yoe where "yoe = year_estimate doe div 365"
  define doy where "doy = doe - (365 * yoe + yoe div 4 - yoe div 100)"
  define mp where "mp = (5 * doy + 2) div 153"
  have e: "yoe + era * 400 + (if (if mp < 10 then mp + 3 else mp - 9) \<le> 2 then 1 else 0) = y
      \<and> (if mp < 10 then mp + 3 else mp - 9) = m \<and> doy - (153 * mp + 2) div 5 + 1 = d"
    using assms
    unfolding civil_def Let_def z_def [symmetric] era_def [symmetric] doe_def [symmetric]
      year_estimate_def [symmetric] yoe_def [symmetric] doy_def [symmetric] mp_def [symmetric] prod.inject
    by assumption
  have c: "d = doy - (153 * mp + 2) div 5 + 1" "m = (if mp < 10 then mp + 3 else mp - 9)"
    using e by simp_all
  have c3: "y = yoe + era * 400 + (if m \<le> 2 then 1 else 0)" using conjunct1 [OF e, symmetric] by (simp only: c(2))
  have doe: "0 \<le> doe" "doe < 146097" by (simp_all add: doe_def)
  note yo = year_of_estimate [OF doe yoe_def]
  have st: "year_start yoe = 365 * yoe + yoe div 4 - yoe div 100" using yo(2) by (simp add: year_start_def)
  have len: "year_start (yoe + 1) - year_start yoe \<le> (if is_leap (yoe + 1) then 366 else 365)"
    using cycle_years_checked yo(1,2) by (auto simp: list_all_iff)
  have doy: "0 \<le> doy" "doy \<le> 365" "doy = 365 \<Longrightarrow> is_leap (yoe + 1)"
    using yo(3,4) st len by (auto simp: doy_def split: if_splits)
  have chk: "0 \<le> mp \<and> mp \<le> 11 \<and> 1 \<le> m \<and> m \<le> 12 \<and> 1 \<le> d
      \<and> d \<le> (if m = 2 then (if doy = 365 then 29 else 28) else if m \<in> {4, 6, 9, 11} then 30 else 31)"
  proof -
    have "doy \<in> set [0..365]" using doy(1,2) by (simp only: set_upto atLeastAtMost_iff)
    with year_days_checked show ?thesis
      unfolding list_all_iff Let_def c(1,2) mp_def by (rule bspec)
  qed
  show m: "1 \<le> m" "m \<le> 12" "1 \<le> d" using chk by simp_all
  have leap: "m = 2 \<Longrightarrow> is_leap y = is_leap (yoe + 1)"
    using is_leap_cycle [of "yoe + 1" era] by (simp add: c3 algebra_simps)
  show "d \<le> days_in m y" using chk doy(3) leap by (auto simp: days_in_def split: if_splits)
  have y': "(if m \<le> 2 then y - 1 else y) = yoe + era * 400" by (simp add: c3)
  have "(yoe + era * 400) div 400 = era" "(yoe + era * 400) mod 400 = yoe" using yo(1,2) by simp_all
  moreover have "(if m > 2 then m - 3 else m + 9) = mp" using chk by (auto simp: c(2))
  moreover have "z = era * 146097 + doe" by (simp add: era_def doe_def)
  ultimately show "days_of_civil y m d = n"
    by (simp add: days_of_civil_def Let_def y') (simp add: c(1) doy_def z_def)
qed

subsection \<open>Reading back what Go prints\<close>

lemma length_dec_pos: "0 \<le> n \<Longrightarrow> n < 10 ^ Suc w \<Longrightarrow> length (dec_pos n) \<le> Suc w"
proof (induction w arbitrary: n)
  case (Suc w)
  show ?case
  proof (cases "n < 10")
    case False
    have "n div 10 < 10 ^ Suc w" using Suc.prems by (simp add: div_less_iff_less_mult)
    then show ?thesis using Suc.IH [of "n div 10"] Suc.prems False by (simp add: dec_pos.simps [of n])
  qed (simp add: dec_pos.simps [of n])
next
  case 0
  then show ?case by (simp add: dec_pos.simps [of n])
qed

lemma read_int_zeros [simp]: "read_int (replicate k CHR ''0'' @ s) = read_int s"
  by (induction k) (simp_all add: read_int_def char_digit_def)

lemma pad_int_facts:
  assumes "0 \<le> n" "n < 10 ^ w" "0 < w"
  shows "length (pad_int w n) = w" "list_all is_digit (pad_int w n)" "read_int (pad_int w n) = n"
proof -
  obtain v where w: "w = Suc v" using assms(3) by (cases w) auto
  have "length (dec_pos n) \<le> w" using length_dec_pos [of n v] assms w by simp
  then show "length (pad_int w n) = w" by (simp add: pad_int_def Let_def)
  have "is_digit CHR ''0''" by (simp add: is_digit_of_char)
  then show "list_all is_digit (pad_int w n)"
    using dec_pos_digits [OF assms(1)] by (auto simp: pad_int_def Let_def list_all_iff)
  show "read_int (pad_int w n) = n" using assms(1) by (simp add: pad_int_def Let_def)
qed

lemma get_year_pad [simp]: "0 \<le> y \<Longrightarrow> y \<le> 9999 \<Longrightarrow> get_year (pad_int 4 y @ s) = Some (y, s)"
  using pad_int_facts [of y 4] by (simp add: get_year_def)

lemma get_num_pad [simp]: "0 \<le> n \<Longrightarrow> n \<le> 99 \<Longrightarrow> get_num b (pad_int 2 n @ s) = Some (n, s)"
proof -
  assume n: "0 \<le> n" "n \<le> 99"
  note f = pad_int_facts [of n 2, simplified]
  obtain c d where p: "pad_int 2 n = [c, d]"
    using f(1) n by (auto simp: length_Suc_conv numeral_2_eq_2)
  show ?thesis using f n p by (auto simp: read_int_def)
qed

lemma strip_zeros_pad: "\<exists>k. s = strip_zeros s @ replicate k CHR ''0''"
proof -
  define r where "r = rev s"
  have "r = replicate (length (takeWhile (\<lambda>c. c = CHR ''0'') r)) CHR ''0'' @ dropWhile (\<lambda>c. c = CHR ''0'') r"
    by (induction r) auto
  then have "s = rev (dropWhile (\<lambda>c. c = CHR ''0'') r) @ rev (replicate (length (takeWhile (\<lambda>c. c = CHR ''0'') r)) CHR ''0'')"
    by (metis r_def rev_append rev_rev_ident)
  then show ?thesis unfolding strip_zeros_def r_def [symmetric] by (metis rev_replicate)
qed

lemma read_int_shift: "read_int (s @ replicate k CHR ''0'') = read_int s * 10 ^ k"
  by (induction k) (simp_all add: replicate_append_same [symmetric] read_int_snoc char_digit_def flip: append_assoc)

lemma get_frac_fmt:
  "(case get_frac (fmt_frac t @ ''Z'') of Some (f, s) \<Rightarrow> f = t mod second_ns \<and> s = ''Z''
    | None \<Rightarrow> t mod second_ns = 0 \<and> fmt_frac t = [])"
proof -
  define n where "n = t mod second_ns"
  have n: "0 \<le> n" "n < 10 ^ 9" by (simp_all add: n_def second_ns_def)
  define f where "f = strip_zeros (pad_int 9 n)"
  note p = pad_int_facts [OF n, simplified]
  obtain k where k: "pad_int 9 n = f @ replicate k CHR ''0''" using strip_zeros_pad f_def by metis
  have len: "length f + k = 9" using p(1) k by simp
  have rd: "n = read_int f * 10 ^ k" using p(3) k by (simp add: read_int_shift)
  have dg: "list_all is_digit f" using p(2) k by simp
  have ff: "fmt_frac t = (if f = [] then [] else ''.'' @ f)"
    by (simp add: fmt_frac_def Let_def f_def n_def)
  have z: "\<not> is_digit CHR ''Z''" by (simp add: is_digit_of_char)
  show ?thesis
  proof (cases f)
    case Nil
    then show ?thesis using rd ff by (simp add: get_frac_def read_int_def n_def)
  next
    case (Cons c cs)
    have tw: "takeWhile is_digit (f @ ''Z'') = f" "dropWhile is_digit (f @ ''Z'') = ''Z''"
      using dg z by (simp_all add: list_all_iff)
    have "take 9 f = f" using len by simp
    moreover have "9 - length f = k" using len by simp
    ultimately show ?thesis
      using tw Cons dg rd ff by (simp add: get_frac_def Let_def n_def)
  qed
qed

lemma parse_zone_end:
  assumes "dp_nano p = 0" "dp_offset p = 0"
  shows "parse_layout [LFrac, LZone] (fmt_frac t @ ''Z'') p = Some (p\<lparr>dp_nano := t mod second_ns\<rparr>)"
proof (cases "get_frac (fmt_frac t @ ''Z'')")
  case None
  then have "t mod second_ns = 0" "fmt_frac t = []" using get_frac_fmt [of t] by simp_all
  then show ?thesis using None assms by (simp add: get_zone_def)
next
  case (Some r)
  then have "r = (t mod second_ns, ''Z'')" using get_frac_fmt [of t] by (cases r) simp
  then show ?thesis using Some assms by (simp add: get_zone_def)
qed

lemma parse_date_clock:
  assumes "0 \<le> y" "y \<le> 9999" "1 \<le> m" "m \<le> 12" "0 \<le> d" "d \<le> 99" "0 \<le> h" "h \<le> 23"
    "0 \<le> mi" "mi \<le> 59" "0 \<le> s" "s \<le> 59"
  shows "parse_layout rfc3339_nano_layout
      (pad_int 4 y @ CHR ''-'' # pad_int 2 m @ CHR ''-'' # pad_int 2 d @ CHR ''T''
        # pad_int 2 h @ CHR '':'' # pad_int 2 mi @ CHR '':'' # pad_int 2 s @ r) p =
    parse_layout [LFrac, LZone] r (p\<lparr>dp_year := y, dp_month := m, dp_day := d, dp_hour := h,
      dp_min := mi, dp_sec := s\<rparr>)"
proof -
  have lit: "parse_layout (LLit c # l) (c # x) q = parse_layout l x q" for c l x q by simp
  have year: "parse_layout (LYear # l) (pad_int 4 y @ x) q = parse_layout l x (q\<lparr>dp_year := y\<rparr>)" for l x q
    using assms(1,2) by simp
  have month: "parse_layout (LMonth # l) (pad_int 2 m @ x) q = parse_layout l x (q\<lparr>dp_month := m\<rparr>)" for l x q
    using assms(3,4) by (simp add: in_range_def)
  have day: "parse_layout (LDay # l) (pad_int 2 d @ x) q = parse_layout l x (q\<lparr>dp_day := d\<rparr>)" for l x q
    using assms(5,6) by simp
  have hour: "parse_layout (LHour # l) (pad_int 2 h @ x) q = parse_layout l x (q\<lparr>dp_hour := h\<rparr>)" for l x q
    using assms(7,8) by (simp add: in_range_def)
  have minute: "parse_layout (LMinute # l) (pad_int 2 mi @ x) q = parse_layout l x (q\<lparr>dp_min := mi\<rparr>)" for l x q
    using assms(9,10) by (simp add: in_range_def)
  have second: "parse_layout [LSecond, LFrac, LZone] (pad_int 2 s @ x) q
      = parse_layout [LFrac, LZone] x (q\<lparr>dp_sec := s\<rparr>)" for x q
    using assms(11,12) by (simp add: in_range_def Let_def del: parse_layout.simps(10))
  show ?thesis
    unfolding rfc3339_nano_layout_def date_layout_def clock_layout_def append_Cons append_Nil
      year lit month day hour minute second ..
qed

lemma clock_of_seconds:
  fixes sc :: int
  shows "sc div 3600 * 3600 + sc div 60 mod 60 * 60 + sc mod 60 = sc"
proof -
  have "sc div 3600 = sc div 60 div 60" using zdiv_zmult2_eq [of 60 sc 60] by simp
  then show ?thesis using div_mult_mod_eq [of "sc div 60" 60] div_mult_mod_eq [of sc 60] by linarith
qed

lemma parse_rfc3339_nano:
  assumes "civil (t div (86400 * second_ns)) = (y, m, d)" "0 \<le> y" "y \<le> 9999"
  shows "time_parse rfc3339_nano_layout (rfc3339_nano t) = Some t"
proof -
  define sc where "sc = (t div second_ns) mod 86400"
  note v = civil_valid [OF assms(1)]
  have "days_in m y \<le> 31" by (simp add: days_in_def)
  then have d0: "0 \<le> d" and d: "d \<le> 99" using v(4,5) by simp_all
  have b: "0 \<le> sc" "sc < 86400" by (simp_all add: sc_def)
  have h: "0 \<le> sc div 3600" "sc div 3600 \<le> 23" using b by simp_all
  have mi: "0 \<le> sc div 60 mod 60" "sc div 60 mod 60 \<le> 59" by simp_all
  have sr: "0 \<le> sc mod 60" "sc mod 60 \<le> 59" by simp_all
  have day: "days_of_civil y m d * 86400 + sc = t div second_ns"
  proof -
    have "t div (86400 * second_ns) = t div second_ns div 86400"
      using zdiv_zmult2_eq [of 86400 t second_ns] by (simp add: mult.commute)
    then show ?thesis using v(1) by (simp add: sc_def)
  qed
  have printed: "rfc3339_nano t = pad_int 4 y @ CHR ''-'' # pad_int 2 m @ CHR ''-'' # pad_int 2 d @ CHR ''T''
      # pad_int 2 (sc div 3600) @ CHR '':'' # pad_int 2 (sc div 60 mod 60) @ CHR '':'' # pad_int 2 (sc mod 60)
      @ fmt_frac t @ ''Z''"
    using assms by (simp add: rfc3339_nano_def fmt_date_def fmt_year_def fmt_clock_def Let_def sc_def)
  have pl: "parse_layout rfc3339_nano_layout (rfc3339_nano t) date_parts_init =
      Some (date_parts_init\<lparr>dp_year := y, dp_month := m, dp_day := d, dp_hour := sc div 3600,
        dp_min := sc div 60 mod 60, dp_sec := sc mod 60, dp_nano := t mod second_ns\<rparr>)"
    using parse_date_clock [OF assms(2,3) v(2,3) d0 d h mi sr] parse_zone_end
    by (simp add: printed date_parts_init_def del: parse_layout.simps)
  have "(days_of_civil y m d * 86400 + (sc div 3600 * 3600 + sc div 60 mod 60 * 60 + sc mod 60)) * second_ns
      + t mod second_ns = t"
    unfolding clock_of_seconds day by (rule div_mult_mod_eq)
  then show ?thesis using pl v(4,5)
    by (simp add: time_parse_def time_of_parts_def date_parts_init_def add.assoc)
qed

text \<open>
  Property C21. A time of the years 0 to 9999 that is printed in the RFC 3339 layout with
  nanoseconds is read back exactly by the parser of the sources.
\<close>

theorem parse_printed_time:
  assumes "fst (civil (t div (86400 * second_ns))) \<in> {0..9999}"
  shows "parse_time_string (rfc3339_nano t) = Inr t"
proof -
  obtain y m d where c: "civil (t div (86400 * second_ns)) = (y, m, d)" by (metis prod_cases3)
  show ?thesis
    using parse_rfc3339_nano [OF c] assms c by (simp add: parse_time_string_def source_layouts_def)
qed

theorem parse_printed_time_witness:
  "parse_time_string (rfc3339_nano 1709194272500000000) = Inr 1709194272500000000"
proof (rule parse_printed_time)
  have "fst (civil (1709194272500000000 div (86400 * second_ns))) = 2024" by code_simp
  then show "fst (civil (1709194272500000000 div (86400 * second_ns))) \<in> {0..9999}" by simp
qed

end
