(* ===== verification/Source_Sql.thy ===== *)
theory Source_Sql
  imports Go_Time Conn_Config Delivery
begin

section \<open>What the database sources share: identifiers, statements, windows, streaming\<close>

text \<open>
  Quoting of identifiers, the statements of the sources as values, and the loop that turns the
  answer of a server into rows on the output channel. The server is a parameter of the sources;
  an answer is a list of rows, some of which may fail to decode, and an error at the end. The
  channel is the list of the rows sent so far; sending polls the context, as the select does.
\<close>

subsection \<open>Identifiers\<close>

definition quote_with :: "char \<Rightarrow> string \<Rightarrow> string" where
  "quote_with q s = q # replace_char q [q, q] s @ [q]"

definition quote_identifier :: "string \<Rightarrow> string" where
  "quote_identifier = quote_with CHR 0x22"

definition quote_mysql_ident :: "string \<Rightarrow> string" where
  "quote_mysql_ident = quote_with CHR 0x60"

definition parse_table_name :: "string \<Rightarrow> string \<times> string" where
  "parse_table_name table =
     (case split_once ''.'' table of Some (a, b) \<Rightarrow> (a, b) | None \<Rightarrow> (''public'', table))"

definition quote_table_name :: "string \<Rightarrow> string" where
  "quote_table_name table =
     (case split_once ''.'' table of
        Some (a, b) \<Rightarrow> quote_identifier a @ ''.'' @ quote_identifier b
      | None \<Rightarrow> quote_identifier ''public'' @ ''.'' @ quote_identifier table)"

text \<open>
  How a server reads a quoted identifier: up to the closing quote, a doubled quote standing for
  a quote.
\<close>

fun read_quoted :: "char \<Rightarrow> string \<Rightarrow> (string \<times> string) option" where
  "read_quoted q [] = None"
| "read_quoted q [c] = (if c = q then Some ([], []) else None)"
| "read_quoted q (c # d # s) =
     (if c \<noteq> q then map_option (\<lambda>(a, r). (c # a, r)) (read_quoted q (d # s))
      else if d = q then map_option (\<lambda>(a, r). (q # a, r)) (read_quoted q s)
      else Some ([], d # s))"

definition read_identifier :: "char \<Rightarrow> string \<Rightarrow> (string \<times> string) option" where
  "read_identifier q s = (case s of c # r \<Rightarrow> if c = q then read_quoted q r else None | [] \<Rightarrow> None)"

lemma replace_char_simps [simp]:
  "replace_char q r [] = []"
  "replace_char q r (c # s) = (if c = q then r else [c]) @ replace_char q r s"
  by (simp_all add: replace_char_def)

lemma read_quoted_end: "r = [] \<or> hd r \<noteq> q \<Longrightarrow> read_quoted q (q # r) = Some ([], r)"
  by (cases r) auto

lemma read_quoted_char: "c \<noteq> q \<Longrightarrow> s \<noteq> [] \<Longrightarrow>
    read_quoted q (c # s) = map_option (\<lambda>(a, r). (c # a, r)) (read_quoted q s)"
  by (cases s) auto

lemma read_quoted_replace:
  assumes "r = [] \<or> hd r \<noteq> q"
  shows "read_quoted q (replace_char q [q, q] s @ q # r) = Some (s, r)"
proof (induction s)
  case (Cons c s)
  then show ?case by (cases "c = q") (simp_all add: read_quoted_char)
qed (simp add: read_quoted_end assms)

text \<open>
  A quoted identifier is read back as it was, whatever it contains, and the server
  goes on reading behind it: a name from the configuration cannot end the identifier early.
\<close>

theorem quoting_roundtrip:
  assumes "r = [] \<or> hd r \<noteq> q"
  shows "read_identifier q (quote_with q s @ r) = Some (s, r)"
  using read_quoted_replace [OF assms] by (simp add: read_identifier_def quote_with_def)

theorem quoting_roundtrip_witness:
  "read_identifier CHR 0x22 (quote_with CHR 0x22 [CHR ''a'', CHR 0x22, CHR '' ''] @ '' FROM t'')
     = Some ([CHR ''a'', CHR 0x22, CHR '' ''], '' FROM t'')"
  by (rule quoting_roundtrip) simp

lemma quote_identifier_inj: "quote_identifier a = quote_identifier b \<longleftrightarrow> a = b"
  using quoting_roundtrip [of "[]" "CHR 0x22"] unfolding quote_identifier_def
  by (metis append_Nil2 option.inject prod.inject)

subsection \<open>Statements\<close>

datatype sql_cmp = CmpGt | CmpLe | CmpGe

datatype sql_arg = ATime go_time | AInt int

record sql_select =
  ss_cols :: "string list"
  ss_from :: string
  ss_where :: "(string \<times> sql_cmp \<times> sql_arg) list"
  ss_order :: "string option"
  ss_limit :: "int option"
  ss_offset :: "int option"

text \<open>The half-open window of a run; a zero bound is no bound.\<close>

definition window_where :: "string \<Rightarrow> go_time \<Rightarrow> go_time \<Rightarrow> (string \<times> sql_cmp \<times> sql_arg) list" where
  "window_where col wm end_t =
     (if is_zero wm then [] else [(col, CmpGt, ATime wm)])
     @ (if is_zero end_t then [] else [(col, CmpLe, ATime end_t)])"

subsection \<open>Answers and the output channel\<close>

record 'a answer =
  an_fields :: "string list"
  an_rows :: "'a res list"
  an_err :: "go_error option"

record 'w ext =
  xs_ctx :: go_ctx
  xs_world :: 'w
  xs_made :: nat
  xs_out :: "row list"

definition ext_init :: "go_ctx \<Rightarrow> 'w \<Rightarrow> 'w ext" where
  "ext_init c w = \<lparr>xs_ctx = c, xs_world = w, xs_made = 0, xs_out = []\<rparr>"

definition ext_poll :: "'w ext \<Rightarrow> bool \<times> 'w ext" where
  "ext_poll s = (case ctx_poll (xs_ctx s) of (done, c) \<Rightarrow> (done, s\<lparr>xs_ctx := c\<rparr>))"

definition ext_send :: "row \<Rightarrow> 'w ext \<Rightarrow> go_error option \<times> 'w ext" where
  "ext_send r s =
     (case ext_poll s of
        (True, s1) \<Rightarrow> (Some ErrCanceled, s1)
      | (False, s1) \<Rightarrow> (None, s1\<lparr>xs_out := xs_out s1 @ [r]\<rparr>))"

lemma ext_poll_live: "xs_ctx s = None \<Longrightarrow> ext_poll s = (False, s)"
  by (simp add: ext_poll_def)

lemma ext_send_live: "xs_ctx s = None \<Longrightarrow> ext_send r s = (None, s\<lparr>xs_out := xs_out s @ [r]\<rparr>)"
  by (simp add: ext_send_def ext_poll_live)

text \<open>The first error of a list of results, or all of its values.\<close>

fun collect :: "'a res list \<Rightarrow> 'a list res" where
  "collect [] = Inr []"
| "collect (Inl e # rs) = Inl e"
| "collect (Inr x # rs) = (case collect rs of Inl e \<Rightarrow> Inl e | Inr xs \<Rightarrow> Inr (x # xs))"

lemma collect_Inr [simp]: "collect (map Inr xs) = Inr xs"
  by (induction xs) auto

definition scan_answer :: "'a answer \<Rightarrow> 'a list res" where
  "scan_answer a =
     (case collect (an_rows a) of
        Inl e \<Rightarrow> Inl e
      | Inr xs \<Rightarrow> (case an_err a of Some e \<Rightarrow> Inl e | None \<Rightarrow> Inr xs))"

text \<open>
  The loop over the rows of an answer: poll, decode, build the row (\<open>mk\<close>, with the number of
  rows built before), send. It counts the rows sent.
\<close>

fun stream ::
  "(nat \<Rightarrow> 'v \<Rightarrow> row res) \<Rightarrow> 'v res list \<Rightarrow> int \<Rightarrow> 'w ext \<Rightarrow> (int \<times> go_error option) \<times> 'w ext" where
  "stream mk [] n s = ((n, None), s)"
| "stream mk (r # rs) n s =
     (case ext_poll s of
        (True, s1) \<Rightarrow> ((n, Some ErrCanceled), s1)
      | (False, s1) \<Rightarrow>
          (case r of
             Inl e \<Rightarrow> ((n, Some e), s1)
           | Inr v \<Rightarrow>
               (case mk (xs_made s1) v of
                  Inl e \<Rightarrow> ((n, Some e), s1)
                | Inr x \<Rightarrow>
                    (case ext_send x (s1\<lparr>xs_made := Suc (xs_made s1)\<rparr>) of
                       (Some e, s2) \<Rightarrow> ((n, Some e), s2)
                     | (None, s2) \<Rightarrow> stream mk rs (n + 1) s2))))"

definition stream_answer ::
  "(nat \<Rightarrow> 'v \<Rightarrow> row res) \<Rightarrow> 'v answer \<Rightarrow> 'w ext \<Rightarrow> (int \<times> go_error option) \<times> 'w ext" where
  "stream_answer mk a s =
     (case stream mk (an_rows a) 0 s of
        ((n, Some e), s1) \<Rightarrow> ((n, Some e), s1)
      | ((n, None), s1) \<Rightarrow> ((n, an_err a), s1))"

text \<open>Under a live context all rows that can be built come out, in order, once each.\<close>

fun made_rows :: "(nat \<Rightarrow> 'v \<Rightarrow> row res) \<Rightarrow> nat \<Rightarrow> 'v list \<Rightarrow> row list res" where
  "made_rows mk k [] = Inr []"
| "made_rows mk k (v # vs) =
     (case mk k v of
        Inl e \<Rightarrow> Inl e
      | Inr x \<Rightarrow> (case made_rows mk (Suc k) vs of Inl e \<Rightarrow> Inl e | Inr xs \<Rightarrow> Inr (x # xs)))"

lemma stream_live:
  "xs_ctx s = None \<Longrightarrow> made_rows mk (xs_made s) vs = Inr xs \<Longrightarrow>
   stream mk (map Inr vs) n s =
     ((n + int (length vs), None), s\<lparr>xs_made := xs_made s + length vs, xs_out := xs_out s @ xs\<rparr>)"
proof (induction vs arbitrary: s n xs)
  case (Cons v vs)
  then obtain x ys where x: "mk (xs_made s) v = Inr x" "made_rows mk (Suc (xs_made s)) vs = Inr ys" "xs = x # ys"
    by (auto split: sum.splits)
  show ?case using Cons.IH [of "s\<lparr>xs_made := Suc (xs_made s), xs_out := xs_out s @ [x]\<rparr>" ys "n + 1"] Cons.prems x
    by (simp add: ext_poll_live ext_send_live)
qed simp

lemma stream_answer_live:
  assumes "xs_ctx s = None" "made_rows mk (xs_made s) vs = Inr xs"
  shows "stream_answer mk \<lparr>an_fields = fs, an_rows = map Inr vs, an_err = e\<rparr> s =
     ((int (length vs), e), s\<lparr>xs_made := xs_made s + length vs, xs_out := xs_out s @ xs\<rparr>)"
  using stream_live [OF assms, of 0] by (simp add: stream_answer_def)

lemma made_rows_append:
  "made_rows mk k (us @ vs) =
     (case made_rows mk k us of
        Inl e \<Rightarrow> Inl e
      | Inr xs \<Rightarrow> (case made_rows mk (k + length us) vs of Inl e \<Rightarrow> Inl e | Inr ys \<Rightarrow> Inr (xs @ ys)))"
  by (induction us arbitrary: k) (auto split: sum.splits)

text \<open>Whatever happens, the loop only adds rows it built from the answer.\<close>

lemma ext_poll_out [simp]:
  "xs_out (snd (ext_poll s)) = xs_out s" "xs_world (snd (ext_poll s)) = xs_world s"
  by (simp_all add: ext_poll_def split: prod.splits)

lemma ext_send_out:
  assumes "ext_send r s = (e, s')"
  shows "xs_out s' = xs_out s @ (if e = None then [r] else [])"
proof -
  obtain d s1 where p: "ext_poll s = (d, s1)" by fastforce
  then have "xs_out s1 = xs_out s" using ext_poll_out(1) [of s] by simp
  then show ?thesis using assms p by (cases d) (auto simp: ext_send_def)
qed

lemma stream_out:
  "stream mk rs n s = ((m, e), s') \<Longrightarrow>
   \<exists>ys. xs_out s' = xs_out s @ ys \<and> (\<forall>y \<in> set ys. \<exists>k v. Inr v \<in> set rs \<and> mk k v = Inr y)"
proof (induction rs arbitrary: n s)
  case (Cons r rs)
  obtain d s1 where p: "ext_poll s = (d, s1)" by fastforce
  have o: "xs_out s1 = xs_out s" using ext_poll_out(1) [of s] p by simp
  show ?case
  proof (cases "d \<or> (\<exists>e. r = Inl e) \<or> (\<exists>v e. r = Inr v \<and> mk (xs_made s1) v = Inl e)")
    case True
    then show ?thesis using Cons.prems p o by (auto split: bool.splits)
  next
    case False
    then obtain v x where v: "\<not> d" "r = Inr v" "mk (xs_made s1) v = Inr x"
      by (metis old.sum.exhaust)
    obtain e2 s2 where q: "ext_send x (s1\<lparr>xs_made := Suc (xs_made s1)\<rparr>) = (e2, s2)" by fastforce
    show ?thesis
    proof (cases e2)
      case None
      then have o2: "xs_out s2 = xs_out s @ [x]"
        using ext_send_out [OF q] o by simp
      have "stream mk rs (n + 1) s2 = ((m, e), s')" using Cons.prems p v q None by simp
      from Cons.IH [OF this] obtain ys where
        ys: "xs_out s' = xs_out s2 @ ys" "\<forall>y \<in> set ys. \<exists>k v. Inr v \<in> set rs \<and> mk k v = Inr y"
        by blast
      have "\<forall>y \<in> set (x # ys). \<exists>k w. Inr w \<in> set (r # rs) \<and> mk k w = Inr y"
        using ys(2) v by (metis list.set_intros set_ConsD)
      then show ?thesis using ys(1) o2 by (intro exI [of _ "x # ys"]) simp
    next
      case (Some e3)
      then have "xs_out s2 = xs_out s"
        using ext_send_out [OF q] o by simp
      then show ?thesis using Cons.prems p v q Some by auto
    qed
  qed
qed simp

end
