(* ===== verification/Postgres_Source.thy ===== *)
theory Postgres_Source
  imports Source_Sql "HOL-Library.Multiset"
begin

section \<open>The PostgreSQL and Redshift sources: internal/connector/source/postgres.go, redshift.go\<close>

text \<open>
  Schema, watermark validation, the extraction paths (pages, key ranges, snapshot, numeric
  cursor, custom query) and the conversion of driver values. The server, the printing of the
  driver's own types, the clock and the identifiers of rows are the fields of \<open>pg_env\<close>. The key
  ranges of a parallel extraction run one after the other here; the goroutines interleave
  their rows, so statements about them concern which rows come out and not their order.
\<close>

subsection \<open>Values of the driver\<close>

datatype pg_numeric = NumNaN | NumInf | NumNegInf | NumInt "int option" int

text \<open>
  The types of \<open>pgtype\<close> carry a validity flag (\<open>None\<close> when unset); \<open>PgGo\<close> is a native value,
  among them the untyped nil and the integers of 32 and 64 bits (\<open>PgSmall\<close> is a smaller one).
\<close>

datatype pg_value =
    PgInt2 "int option"
  | PgInt4 "int option"
  | PgInt8 "int option"
  | PgFloat4 "f64 option"
  | PgFloat8 "f64 option"
  | PgNumeric "pg_numeric option"
  | PgBool "bool option"
  | PgText "string option"
  | PgTimestamptz "go_time option"
  | PgDate "go_time option"
  | PgUuid "string option"
  | PgBytes16 string
  | PgSmall int
  | PgBytes string
  | PgGo gval

record 'w pg_env =
  px_columns :: "string \<Rightarrow> string \<Rightarrow> 'w \<Rightarrow> (string \<times> string \<times> string \<times> string) answer res \<times> 'w"
  px_pks :: "string \<Rightarrow> string \<Rightarrow> 'w \<Rightarrow> string answer res \<times> 'w"
  px_select :: "sql_select \<Rightarrow> 'w \<Rightarrow> pg_value list answer res \<times> 'w"
  px_min_max :: "string \<Rightarrow> string \<Rightarrow> 'w \<Rightarrow> pg_value list answer res \<times> 'w"
  px_text :: "string \<Rightarrow> 'w \<Rightarrow> pg_value list answer res \<times> 'w"
  px_print :: "pg_value \<Rightarrow> string"
  px_json :: "pg_value \<Rightarrow> string option"
  px_float :: "pg_numeric \<Rightarrow> f64 option"
  px_uuid_text :: "string \<Rightarrow> string"
  px_uuid :: "nat \<Rightarrow> nat \<Rightarrow> string"
  px_now :: "nat \<Rightarrow> go_time"

text \<open>The verb \<open>%v\<close>: a byte slice prints as the list of its numbers.\<close>

definition byte_list :: "string \<Rightarrow> string" where
  "byte_list b = ''['' @ join '' '' (map (\<lambda>c. dec_nat (of_char c)) b) @ '']''"

definition pg_sprint :: "'w pg_env \<Rightarrow> pg_value \<Rightarrow> string" where
  "pg_sprint x v =
     (case v of PgGo g \<Rightarrow> sprint_v g | PgSmall i \<Rightarrow> dec_int i | PgBytes b \<Rightarrow> byte_list b | PgBytes16 b \<Rightarrow> byte_list b
      | _ \<Rightarrow> px_print x v)"

definition gopt :: "('a \<Rightarrow> gval) \<Rightarrow> 'a option \<Rightarrow> gval" where
  "gopt f v = (case v of None \<Rightarrow> GNil | Some a \<Rightarrow> f a)"

text \<open>\<open>formatUUID\<close>: sixteen bytes in lower-case hexadecimal, grouped 8-4-4-4-12.\<close>

definition hex_bytes :: "string \<Rightarrow> string" where
  "hex_bytes b = concat (map (\<lambda>c. let n = of_char c :: nat in [hex_digit (n div 16), hex_digit (n mod 16)]) b)"

definition format_uuid :: "string \<Rightarrow> string" where
  "format_uuid b = hex_bytes (take 4 b) @ ''-'' @ hex_bytes (take 2 (drop 4 b)) @ ''-''
     @ hex_bytes (take 2 (drop 6 b)) @ ''-'' @ hex_bytes (take 2 (drop 8 b)) @ ''-''
     @ hex_bytes (take 6 (drop 10 b))"

text \<open>
  \<open>numericToFloat64\<close>: the integer as a \<open>big.Float\<close> of at least 64 bits, times \<open>math.Pow10\<close>,
  which is a product or a quotient of two table entries, then rounded to a double. (A zero with
  an exponent above 308 would panic in \<open>Mul\<close>; no server sends one, and it is a NaN here.)
\<close>

definition math_pow10 :: "int \<Rightarrow> f64" where
  "math_pow10 n =
     (if 0 \<le> n \<and> n \<le> 308 then
        f64_mul (f64_of_rat (pow10 (n div 32 * 32))) (f64_of_rat (pow10 (n mod 32)))
      else if - 323 \<le> n \<and> n \<le> 0 then
        f64_div (f64_of_rat (pow10 (- ((- n) div 32 * 32)))) (f64_of_rat (pow10 ((- n) mod 32)))
      else if 0 < n then FPosInf else FFin 0)"

definition round_bits :: "int \<Rightarrow> rat \<Rightarrow> rat" where
  "round_bits p q =
     (if q = 0 then 0
      else case quotient_of q of (a, b) \<Rightarrow>
        let u = lead_exp \<bar>a\<bar> b - (p - 1); r = of_int (scaled 2 \<bar>a\<bar> b (- u)) * pow2 u
        in if 0 < a then r else - r)"

definition numeric_to_float64 :: "pg_numeric \<Rightarrow> f64" where
  "numeric_to_float64 n =
     (case n of
        NumNaN \<Rightarrow> FNaN
      | NumInf \<Rightarrow> FPosInf
      | NumNegInf \<Rightarrow> FNegInf
      | NumInt None e \<Rightarrow> FFin 0
      | NumInt (Some i) e \<Rightarrow>
          if e = 0 then f64_of_int i
          else (case math_pow10 e of
                  FFin p \<Rightarrow> f64_of_rat (round_bits (max 64 (bit_len \<bar>i\<bar>)) (of_int i * p))
                | z \<Rightarrow> if 0 < i then z else if i < 0 then FNegInf else FNaN))"

text \<open>One definition per group of column types, as the cases of \<open>convertPgValue\<close>.\<close>

definition conv_int :: "'w pg_env \<Rightarrow> pg_value \<Rightarrow> gval" where
  "conv_int x v =
     (case v of
        PgInt2 i \<Rightarrow> gopt GInt i
      | PgInt4 i \<Rightarrow> gopt GInt i
      | PgInt8 i \<Rightarrow> gopt GInt i
      | PgGo GNil \<Rightarrow> GNil
      | PgSmall i \<Rightarrow> GInt i
      | PgGo (GInt i) \<Rightarrow> GInt i
      | _ \<Rightarrow> GStr (pg_sprint x v))"

definition conv_float :: "'w pg_env \<Rightarrow> pg_value \<Rightarrow> gval" where
  "conv_float x v =
     (case v of
        PgFloat4 f \<Rightarrow> gopt GFloat f
      | PgFloat8 f \<Rightarrow> gopt GFloat f
      | PgGo GNil \<Rightarrow> GNil
      | PgGo (GFloat f) \<Rightarrow> GFloat f
      | _ \<Rightarrow> GStr (pg_sprint x v))"

definition conv_numeric :: "'w pg_env \<Rightarrow> pg_value \<Rightarrow> gval" where
  "conv_numeric x v =
     (case v of
        PgNumeric n \<Rightarrow> gopt (\<lambda>m. GFloat (numeric_to_float64 m)) n
      | PgGo GNil \<Rightarrow> GNil
      | PgGo (GFloat f) \<Rightarrow> GFloat f
      | _ \<Rightarrow> GStr (pg_sprint x v))"

definition conv_bool :: "'w pg_env \<Rightarrow> pg_value \<Rightarrow> gval" where
  "conv_bool x v =
     (case v of
        PgBool b \<Rightarrow> gopt GBool b
      | PgGo GNil \<Rightarrow> GNil
      | PgGo (GBool b) \<Rightarrow> GBool b
      | _ \<Rightarrow> GStr (pg_sprint x v))"

definition time_or_text :: "string \<Rightarrow> string \<Rightarrow> gval" where
  "time_or_text s t = (case parse_time_string s of Inr u \<Rightarrow> GTime u | Inl e \<Rightarrow> GStr t)"

definition conv_time :: "'w pg_env \<Rightarrow> pg_value \<Rightarrow> gval" where
  "conv_time x v =
     (case v of
        PgTimestamptz t \<Rightarrow> gopt GTime t
      | PgDate t \<Rightarrow> gopt GTime t
      | PgGo GNil \<Rightarrow> GNil
      | PgGo (GTime t) \<Rightarrow> GTime t
      | PgGo (GStr s) \<Rightarrow> time_or_text s s
      | PgBytes b \<Rightarrow> time_or_text b b
      | _ \<Rightarrow> time_or_text (pg_sprint x v) (pg_sprint x v))"

definition conv_uuid :: "'w pg_env \<Rightarrow> pg_value \<Rightarrow> gval" where
  "conv_uuid x v =
     (case v of
        PgUuid u \<Rightarrow> gopt (\<lambda>b. GStr (px_uuid_text x b)) u
      | PgBytes16 b \<Rightarrow> GStr (format_uuid b)
      | PgGo GNil \<Rightarrow> GNil
      | PgGo (GStr s) \<Rightarrow> GStr s
      | _ \<Rightarrow> GStr (pg_sprint x v))"

definition conv_text :: "'w pg_env \<Rightarrow> pg_value \<Rightarrow> gval" where
  "conv_text x v =
     (case v of
        PgText s \<Rightarrow> gopt GStr s
      | PgBytes b \<Rightarrow> GStr b
      | PgGo GNil \<Rightarrow> GNil
      | PgGo (GStr s) \<Rightarrow> GStr s
      | _ \<Rightarrow> GStr (pg_sprint x v))"

definition conv_json :: "'w pg_env \<Rightarrow> pg_value \<Rightarrow> gval" where
  "conv_json x v =
     (case v of
        PgBytes b \<Rightarrow> GStr b
      | PgGo GNil \<Rightarrow> GNil
      | PgGo (GStr s) \<Rightarrow> GStr s
      | PgGo g \<Rightarrow> GStr (case json_marshal g of Some s \<Rightarrow> s | None \<Rightarrow> sprint_v g)
      | PgSmall i \<Rightarrow> GStr (dec_int i)
      | _ \<Rightarrow> GStr (case px_json x v of Some s \<Rightarrow> s | None \<Rightarrow> pg_sprint x v))"

definition conv_other :: "'w pg_env \<Rightarrow> pg_value \<Rightarrow> gval" where
  "conv_other x v =
     (case v of
        PgGo GNil \<Rightarrow> GNil
      | PgNumeric n \<Rightarrow> gopt (\<lambda>m. gopt GFloat (px_float x m)) n
      | PgTimestamptz t \<Rightarrow> gopt GTime t
      | PgDate t \<Rightarrow> gopt GTime t
      | PgBool b \<Rightarrow> gopt GBool b
      | PgInt4 i \<Rightarrow> gopt GInt i
      | PgInt8 i \<Rightarrow> gopt GInt i
      | PgFloat4 f \<Rightarrow> gopt GFloat f
      | PgFloat8 f \<Rightarrow> gopt GFloat f
      | PgText s \<Rightarrow> gopt GStr s
      | PgUuid u \<Rightarrow> gopt (\<lambda>b. GStr (px_uuid_text x b)) u
      | PgBytes16 b \<Rightarrow> GStr (format_uuid b)
      | PgGo (GStr s) \<Rightarrow> GStr s
      | PgBytes b \<Rightarrow> GStr (hex_bytes b)
      | PgGo (GTime t) \<Rightarrow> GTime t
      | _ \<Rightarrow> GStr (pg_sprint x v))"

definition convert_pg_value :: "'w pg_env \<Rightarrow> pg_value \<Rightarrow> string \<Rightarrow> gval" where
  "convert_pg_value x v ty =
     (let t = to_lower (trim_space ty) in
      if t \<in> {''int2'', ''int4'', ''int8'', ''serial'', ''bigserial''} then conv_int x v
      else if t \<in> {''float4'', ''float8'', ''real'', ''double precision''} then conv_float x v
      else if t \<in> {''numeric'', ''decimal''} then conv_numeric x v
      else if t \<in> {''bool'', ''boolean''} then conv_bool x v
      else if t \<in> {''timestamptz'', ''timestamp'', ''date''} then conv_time x v
      else if t = ''uuid'' then conv_uuid x v
      else if t \<in> {''text'', ''varchar'', ''char'', ''bpchar'', ''name''} then conv_text x v
      else if t \<in> {''jsonb'', ''json''} then conv_json x v
      else conv_other x v)"

definition pg_int_to_int64 :: "pg_value \<Rightarrow> int option" where
  "pg_int_to_int64 v =
     (case v of PgGo (GInt i) \<Rightarrow> Some i | PgInt8 i \<Rightarrow> i | PgInt4 i \<Rightarrow> i | PgInt2 i \<Rightarrow> i | _ \<Rightarrow> None)"

definition as_time :: "'w pg_env \<Rightarrow> pg_value \<Rightarrow> go_time res" where
  "as_time x v =
     (case v of
        PgGo (GTime t) \<Rightarrow> Inr t
      | PgGo (GTimePtr p) \<Rightarrow>
          (case p of Some t \<Rightarrow> Inr t | None \<Rightarrow> Inl (ErrMsg ''postgres source: nil time value''))
      | PgTimestamptz t \<Rightarrow>
          (case t of Some u \<Rightarrow> Inr u | None \<Rightarrow> Inl (ErrMsg ''postgres source: invalid timestamptz''))
      | PgDate t \<Rightarrow>
          (case t of Some u \<Rightarrow> Inr u | None \<Rightarrow> Inl (ErrMsg ''postgres source: invalid date''))
      | PgGo (GStr s) \<Rightarrow> parse_time_string s
      | PgBytes b \<Rightarrow> parse_time_string b
      | PgGo GNil \<Rightarrow> Inl (ErrMsg ''postgres source: nil watermark value'')
      | _ \<Rightarrow> parse_time_string (pg_sprint x v))"

subsection \<open>The source and its schema\<close>

record column_info =
  ci_name :: string
  ci_type :: string
  ci_nullable :: bool
  ci_primary :: bool

record table_schema =
  ts_columns :: "column_info list"
  ts_keys :: "string list"

record pg_source =
  sr_cfg :: conn_source
  sr_pool :: bool

definition new_postgres_source :: pg_source where
  "new_postgres_source = \<lparr>sr_cfg = \<lparr>cs_type = [], cs_connection = [], cs_url = [], cs_table = [], cs_query = [],
     cs_watermark = [], cs_exclude = [], cs_batch_size = 0, cs_parallelism = 0, cs_options = [],
     cs_auth = conn_auth_zero\<rparr>, sr_pool = False\<rparr>"

definition normalize_connection_string :: "string \<Rightarrow> string" where
  "normalize_connection_string conn =
     (case split_once ''://'' conn of
        Some (scheme, rest) \<Rightarrow>
          if scheme = [] then conn
          else if CHR ''+'' \<in> set scheme then ''postgres://'' @ rest else conn
      | None \<Rightarrow> conn)"

text \<open>\<open>Connect\<close>: the parser of connection strings, the pool and its ping are parameters.\<close>

definition pg_connect ::
  "(string \<Rightarrow> go_error option) \<Rightarrow> (string \<Rightarrow> go_error option) \<Rightarrow> (string \<Rightarrow> go_error option)
     \<Rightarrow> conn_source \<Rightarrow> pg_source \<Rightarrow> go_error option \<times> pg_source" where
  "pg_connect parse_cfg new_pool ping cfg p =
     (let conn = normalize_connection_string (cs_connection cfg) in
      case parse_cfg conn of
        Some e \<Rightarrow> (Some e, p)
      | None \<Rightarrow>
          (case new_pool conn of
             Some e \<Rightarrow> (Some e, p)
           | None \<Rightarrow>
               (case ping conn of
                  Some e \<Rightarrow> (Some e, p)
                | None \<Rightarrow> (None, p\<lparr>sr_cfg := cfg, sr_pool := True\<rparr>))))"

text \<open>\<open>Prewarm\<close> acquires a connection and gives it back; both do nothing before \<open>Connect\<close>.\<close>

definition pg_prewarm :: "(unit \<Rightarrow> go_error option) \<Rightarrow> pg_source \<Rightarrow> go_error option" where
  "pg_prewarm acquire p = (if sr_pool p then acquire () else None)"

definition pg_source_close :: "('w \<Rightarrow> 'w) \<Rightarrow> pg_source \<Rightarrow> 'w \<Rightarrow> go_error option \<times> 'w" where
  "pg_source_close close_pool p w = (None, if sr_pool p then close_pool w else w)"

definition snapshot_mode :: "conn_source \<Rightarrow> bool" where
  "snapshot_mode cfg \<longleftrightarrow> to_lower (trim_space (cs_watermark cfg)) = ''none''"

definition get_watermark_column :: "conn_source \<Rightarrow> string" where
  "get_watermark_column cfg =
     (if trim_space (cs_watermark cfg) \<noteq> [] then cs_watermark cfg else ''updated_at'')"

definition is_custom_query :: "conn_source \<Rightarrow> bool" where
  "is_custom_query cfg \<longleftrightarrow> trim_space (cs_query cfg) \<noteq> []"

definition pg_time_types :: "string list" where
  "pg_time_types = [''timestamptz'', ''timestamp'', ''date'']"

definition pg_int_types :: "string list" where
  "pg_int_types = [''int2'', ''int4'', ''int8'']"

definition wm_type_error :: "string \<Rightarrow> string \<Rightarrow> string \<Rightarrow> string \<Rightarrow> go_error" where
  "wm_type_error who supported col ty =
     ErrMsg (who @ '' source: watermark column '' @ quote_q col @ '' has type '' @ quote_q ty
       @ ''; supported watermark columns are '' @ supported @ '' or integer types '' @ em_dash
       @ '' use watermark: none for full-snapshot extraction'')"

definition wm_int_error :: "string \<Rightarrow> string \<Rightarrow> go_error" where
  "wm_int_error who col =
     ErrMsg (who @ '' source: watermark column '' @ quote_q col
       @ '' is an integer; time-window extraction does not apply '' @ em_dash
       @ '' the engine routes integer cursors through ExtractNumeric automatically'')"

definition wm_missing_error :: "string \<Rightarrow> string \<Rightarrow> string \<Rightarrow> string \<Rightarrow> go_error" where
  "wm_missing_error who kind col table =
     ErrMsg (who @ '' source: watermark column '' @ quote_q col @ '' not found in table '' @ quote_q table
       @ '' '' @ em_dash @ '' set watermark: to an existing '' @ kind
       @ '' column, or watermark: none for full-snapshot extraction'')"

definition validate_watermark_column :: "conn_source \<Rightarrow> table_schema \<Rightarrow> go_error option" where
  "validate_watermark_column cfg schema =
     (let w = get_watermark_column cfg in
      if snapshot_mode cfg then None
      else case find (\<lambda>c. ci_name c = w) (ts_columns schema) of
             None \<Rightarrow> Some (wm_missing_error ''postgres'' ''timestamp'' w (cs_table cfg))
           | Some c \<Rightarrow>
               if ci_type c \<in> set pg_int_types then Some (wm_int_error ''postgres'' w)
               else if ci_type c \<notin> set pg_time_types
                 then Some (wm_type_error ''postgres'' ''timestamp/timestamptz/date'' w (ci_type c))
               else None)"

definition normalize_pg_type_name :: "string \<Rightarrow> string \<Rightarrow> string" where
  "normalize_pg_type_name data_type udt =
     (let u = to_lower (trim_space udt); d = to_lower (trim_space data_type) in
      if u \<noteq> [] then u
      else if d = ''integer'' then ''int4''
      else if d = ''smallint'' then ''int2''
      else if d = ''bigint'' then ''int8''
      else if d = ''real'' then ''float4''
      else if d = ''double precision'' then ''float8''
      else if d = ''character varying'' then ''varchar''
      else if d = ''character'' then ''char''
      else if d = ''timestamp with time zone'' then ''timestamptz''
      else if d = ''timestamp without time zone'' then ''timestamp''
      else if d = ''boolean'' then ''bool''
      else d)"

definition filter_excluded_columns :: "conn_source \<Rightarrow> column_info list \<Rightarrow> column_info list" where
  "filter_excluded_columns cfg cols =
     (if cs_exclude cfg = [] then cols
      else filter (\<lambda>c. to_lower (ci_name c) \<notin> set (map (\<lambda>e. to_lower (trim_space e)) (cs_exclude cfg))) cols)"

definition introspect_schema ::
  "'w pg_env \<Rightarrow> conn_source \<Rightarrow> string \<Rightarrow> 'w ext \<Rightarrow> table_schema res \<times> 'w ext" where
  "introspect_schema x cfg table s =
     (case parse_table_name table of (sn, tn) \<Rightarrow>
      (case px_columns x sn tn (xs_world s) of
         (Inl e, w) \<Rightarrow> (Inl e, s\<lparr>xs_world := w\<rparr>)
       | (Inr a, w) \<Rightarrow>
           (case scan_answer a of
              Inl e \<Rightarrow> (Inl e, s\<lparr>xs_world := w\<rparr>)
            | Inr infos \<Rightarrow>
                let cols0 = map (\<lambda>(n, dt, udt, nu). \<lparr>ci_name = n, ci_type = normalize_pg_type_name dt udt,
                                   ci_nullable = (to_lower nu = ''yes''), ci_primary = False\<rparr>) infos;
                    cols = filter_excluded_columns cfg cols0
                in if cols0 = [] then (Inl (ErrMsg (''postgres source: no columns found for '' @ sn @ ''.'' @ tn)),
                                       s\<lparr>xs_world := w\<rparr>)
                   else if cols = [] then (Inl (ErrMsg (''postgres source: no columns remaining for '' @ sn
                                             @ ''.'' @ tn @ '' after exclude_columns'')), s\<lparr>xs_world := w\<rparr>)
                   else case px_pks x sn tn w of
                          (Inl e, w2) \<Rightarrow> (Inl e, s\<lparr>xs_world := w2\<rparr>)
                        | (Inr b, w2) \<Rightarrow>
                            (case scan_answer b of
                               Inl e \<Rightarrow> (Inl e, s\<lparr>xs_world := w2\<rparr>)
                             | Inr keys \<Rightarrow>
                                 (Inr \<lparr>ts_columns = map (\<lambda>c. if ci_name c \<in> set keys
                                                              then c\<lparr>ci_primary := True\<rparr> else c) cols,
                                       ts_keys = keys\<rparr>, s\<lparr>xs_world := w2\<rparr>)))))"

definition cursor_kind :: "'w pg_env \<Rightarrow> conn_source \<Rightarrow> 'w ext \<Rightarrow> string res \<times> 'w ext" where
  "cursor_kind x cfg s =
     (if snapshot_mode cfg then (Inr ''snapshot'', s)
      else if is_custom_query cfg then (Inr ''time'', s)
      else case introspect_schema x cfg (cs_table cfg) s of
             (Inl e, s1) \<Rightarrow> (Inl e, s1)
           | (Inr schema, s1) \<Rightarrow>
               (let w = get_watermark_column cfg in
                case find (\<lambda>c. ci_name c = w) (ts_columns schema) of
                  None \<Rightarrow> (Inl (ErrMsg (''postgres source: watermark column '' @ quote_q w
                             @ '' not found in table '' @ quote_q (cs_table cfg) @ '' '' @ em_dash
                             @ '' set watermark: to an existing column, or watermark: none for full-snapshot extraction'')), s1)
                | Some c \<Rightarrow>
                    if ci_type c \<in> set pg_int_types then (Inr ''int'', s1)
                    else if ci_type c \<in> set pg_time_types then (Inr ''time'', s1)
                    else (Inl (wm_type_error ''postgres'' ''timestamp/timestamptz/date'' w (ci_type c)), s1)))"

subsection \<open>Rows\<close>

definition source_name :: "conn_source \<Rightarrow> string" where
  "source_name cfg = (if cs_table cfg = [] then cs_type cfg else cs_type cfg @ ''.'' @ cs_table cfg)"

definition pipeline_name :: "conn_source \<Rightarrow> string" where
  "pipeline_name cfg = trim_space (get_opt (cs_options cfg) ''pipeline'')"

text \<open>The data of a row: each field converted by the type of its column.\<close>

definition column_type :: "table_schema \<Rightarrow> string \<Rightarrow> string" where
  "column_type schema f =
     (case alookup (rev (map (\<lambda>c. (ci_name c, ci_type c)) (ts_columns schema))) f of None \<Rightarrow> [] | Some t \<Rightarrow> t)"

definition row_payload ::
  "'w pg_env \<Rightarrow> (string \<Rightarrow> string) \<Rightarrow> string list \<Rightarrow> pg_value list \<Rightarrow> payload" where
  "row_payload x ty fs values =
     foldl (\<lambda>d (f, v). aput f (convert_pg_value x v (ty f)) d) [] (zip fs values)"

definition key_part :: "payload \<Rightarrow> string \<Rightarrow> string" where
  "key_part d k = k @ ''='' @ sprint_v (case alookup d k of None \<Rightarrow> GNil | Some v \<Rightarrow> v)"

definition build_primary_key :: "table_schema \<Rightarrow> payload \<Rightarrow> string" where
  "build_primary_key schema d =
     (if ts_keys schema = [] then [] else join '','' (map (key_part d) (ts_keys schema)))"

definition watermark_from_values ::
  "'w pg_env \<Rightarrow> pg_value list \<Rightarrow> string list \<Rightarrow> string \<Rightarrow> go_time res" where
  "watermark_from_values x values fs col =
     (case alookup (zip fs values) col of
        Some v \<Rightarrow> as_time x v
      | None \<Rightarrow> Inl (ErrMsg (''postgres source: watermark column '' @ quote_q col @ '' not found'')))"

definition pg_row ::
  "'w pg_env \<Rightarrow> conn_source \<Rightarrow> table_schema \<Rightarrow> string list \<Rightarrow> nat \<Rightarrow> pg_value list \<Rightarrow> go_time \<Rightarrow> row" where
  "pg_row x cfg schema fs k values wm =
     (let d = row_payload x (column_type schema) fs values; rid = px_uuid x k 0 in
      \<lparr>row_id = rid, row_source = source_name cfg, row_pipeline = pipeline_name cfg,
       row_key = (if ts_keys schema = [] then rid else build_primary_key schema d), row_data = d,
       row_extracted = px_now x k, row_watermark = wm, row_meta = [], row_ctx = False\<rparr>)"

text \<open>A row of a window: it must have a readable watermark.\<close>

definition window_row ::
  "'w pg_env \<Rightarrow> conn_source \<Rightarrow> table_schema \<Rightarrow> string \<Rightarrow> string list \<Rightarrow> nat \<Rightarrow> pg_value list \<Rightarrow> row res" where
  "window_row x cfg schema col fs k values =
     map_sum id (pg_row x cfg schema fs k values) (watermark_from_values x values fs col)"

definition run_select :: "'w pg_env \<Rightarrow> sql_select \<Rightarrow> 'w ext \<Rightarrow> pg_value list answer res \<times> 'w ext" where
  "run_select x q s = (case px_select x q (xs_world s) of (a, w) \<Rightarrow> (a, s\<lparr>xs_world := w\<rparr>))"

definition select_rows ::
  "'w pg_env \<Rightarrow> sql_select \<Rightarrow> (string list \<Rightarrow> nat \<Rightarrow> pg_value list \<Rightarrow> row res) \<Rightarrow> 'w ext
     \<Rightarrow> (int \<times> go_error option) \<times> 'w ext" where
  "select_rows x q mk s =
     (case run_select x q s of
        (Inl e, s1) \<Rightarrow> ((0, Some e), s1)
      | (Inr a, s1) \<Rightarrow> stream_answer (mk (an_fields a)) a s1)"

subsection \<open>Pages\<close>

definition build_select_query ::
  "string \<Rightarrow> string \<Rightarrow> string list \<Rightarrow> go_time \<Rightarrow> go_time \<Rightarrow> int \<Rightarrow> int \<Rightarrow> sql_select" where
  "build_select_query table col cols wm end_t batch off =
     \<lparr>ss_cols = (if cols = [] then [''*''] else map quote_identifier cols), ss_from = quote_table_name table,
      ss_where = window_where (quote_identifier col) wm end_t,
      ss_order = Some (quote_identifier col @ '' ASC''), ss_limit = Some batch, ss_offset = Some off\<rparr>"

definition extract_page ::
  "'w pg_env \<Rightarrow> conn_source \<Rightarrow> table_schema \<Rightarrow> string \<Rightarrow> go_time \<Rightarrow> go_time \<Rightarrow> int \<Rightarrow> int \<Rightarrow> 'w ext
     \<Rightarrow> (int \<times> go_error option) \<times> 'w ext" where
  "extract_page x cfg schema col wm end_t batch off s =
     select_rows x (build_select_query (cs_table cfg) col (map ci_name (ts_columns schema)) wm end_t batch off)
       (window_row x cfg schema col) s"

definition batch_size :: "conn_source \<Rightarrow> int" where
  "batch_size cfg = (if cs_batch_size cfg \<le> 0 then 1000 else cs_batch_size cfg)"

text \<open>The loop over the pages; it ends at a short page. \<open>None\<close>: the fuel ran out.\<close>

fun pages_from ::
  "nat \<Rightarrow> 'w pg_env \<Rightarrow> conn_source \<Rightarrow> table_schema \<Rightarrow> go_time \<Rightarrow> go_time \<Rightarrow> int \<Rightarrow> 'w ext
     \<Rightarrow> (go_error option \<times> 'w ext) option" where
  "pages_from 0 x cfg schema wm end_t off s = None"
| "pages_from (Suc fuel) x cfg schema wm end_t off s =
     (case ext_poll s of
        (True, s1) \<Rightarrow> Some (Some ErrCanceled, s1)
      | (False, s1) \<Rightarrow>
          (case extract_page x cfg schema (get_watermark_column cfg) wm end_t (batch_size cfg) off s1 of
             ((n, Some e), s2) \<Rightarrow> Some (Some e, s2)
           | ((n, None), s2) \<Rightarrow>
               if n < batch_size cfg then Some (None, s2)
               else pages_from fuel x cfg schema wm end_t (off + n) s2))"

definition extract_with_schema ::
  "nat \<Rightarrow> 'w pg_env \<Rightarrow> conn_source \<Rightarrow> go_time \<Rightarrow> go_time \<Rightarrow> table_schema \<Rightarrow> 'w ext
     \<Rightarrow> (go_error option \<times> 'w ext) option" where
  "extract_with_schema fuel x cfg wm end_t schema s = pages_from fuel x cfg schema wm end_t 0 s"

definition extract_sequential ::
  "nat \<Rightarrow> 'w pg_env \<Rightarrow> conn_source \<Rightarrow> go_time \<Rightarrow> go_time \<Rightarrow> 'w ext \<Rightarrow> (go_error option \<times> 'w ext) option" where
  "extract_sequential fuel x cfg wm end_t s =
     (case introspect_schema x cfg (cs_table cfg) s of
        (Inl e, s1) \<Rightarrow> Some (Some e, s1)
      | (Inr schema, s1) \<Rightarrow>
          (case validate_watermark_column cfg schema of
             Some e \<Rightarrow> Some (Some e, s1)
           | None \<Rightarrow> extract_with_schema fuel x cfg wm end_t schema s1))"

text \<open>\<open>watermark: none\<close>: the whole table in one statement; the rows carry no watermark.\<close>

definition extract_snapshot :: "'w pg_env \<Rightarrow> conn_source \<Rightarrow> 'w ext \<Rightarrow> go_error option \<times> 'w ext" where
  "extract_snapshot x cfg s =
     (case introspect_schema x cfg (cs_table cfg) s of
        (Inl e, s1) \<Rightarrow> (Some e, s1)
      | (Inr schema, s1) \<Rightarrow>
          (case select_rows x
                  \<lparr>ss_cols = map (\<lambda>c. quote_identifier (ci_name c)) (ts_columns schema),
                   ss_from = quote_table_name (cs_table cfg), ss_where = [], ss_order = None,
                   ss_limit = None, ss_offset = None\<rparr>
                  (\<lambda>fs k v. Inr (pg_row x cfg schema fs k v time_zero)) s1 of
             ((n, e), s2) \<Rightarrow> (e, s2)))"

subsection \<open>Key ranges\<close>

definition get_pk_column :: "table_schema \<Rightarrow> string" where
  "get_pk_column schema =
     (case ts_keys schema of
        [] \<Rightarrow> []
      | k # _ \<Rightarrow> (case find (\<lambda>c. ci_name c = k) (ts_columns schema) of
                   Some c \<Rightarrow> if ci_type c \<in> {''int2'', ''int4'', ''int8''} then k else []
                 | None \<Rightarrow> []))"

text \<open>Arithmetic on \<open>int64\<close>: sums and products wrap, division truncates.\<close>

definition wrap64 :: "int \<Rightarrow> int" where
  "wrap64 i = (i + 2 ^ 63) mod 2 ^ 64 - 2 ^ 63"

definition quot :: "int \<Rightarrow> int \<Rightarrow> int" where
  "quot a b = (if 0 \<le> a then a div b else - ((- a) div b))"

definition range_size :: "int \<Rightarrow> int \<Rightarrow> int \<Rightarrow> int" where
  "range_size lo hi n =
     (let q = quot (wrap64 (wrap64 (hi - lo) + 1)) n in if q = 0 then 1 else q)"

definition pk_ranges :: "int \<Rightarrow> int \<Rightarrow> int \<Rightarrow> (int \<times> int) list" where
  "pk_ranges lo hi n =
     (let size = range_size lo hi n in
      map (\<lambda>i. let start = wrap64 (lo + wrap64 (i * size));
                   stop = wrap64 (wrap64 (start + size) - 1)
               in (start, if i = n - 1 then hi else stop)) [0..n - 1])"

definition range_query ::
  "conn_source \<Rightarrow> table_schema \<Rightarrow> string \<Rightarrow> go_time \<Rightarrow> go_time \<Rightarrow> int \<Rightarrow> int \<Rightarrow> sql_select" where
  "range_query cfg schema pk wm end_t lo hi =
     \<lparr>ss_cols = map (\<lambda>c. quote_identifier (ci_name c)) (ts_columns schema),
      ss_from = quote_table_name (cs_table cfg),
      ss_where = window_where (quote_identifier (get_watermark_column cfg)) wm end_t
        @ [(quote_identifier pk, CmpGe, AInt lo), (quote_identifier pk, CmpLe, AInt hi)],
      ss_order = None, ss_limit = None, ss_offset = None\<rparr>"

definition extract_range ::
  "'w pg_env \<Rightarrow> conn_source \<Rightarrow> table_schema \<Rightarrow> string \<Rightarrow> go_time \<Rightarrow> go_time \<Rightarrow> int \<times> int \<Rightarrow> 'w ext
     \<Rightarrow> go_error option \<times> 'w ext" where
  "extract_range x cfg schema pk wm end_t r s =
     (case select_rows x (range_query cfg schema pk wm end_t (fst r) (snd r))
             (window_row x cfg schema (get_watermark_column cfg)) s of
        ((n, e), s1) \<Rightarrow> (e, s1))"

text \<open>Every range is extracted, also after a failed one; the first error is kept.\<close>

definition extract_ranges ::
  "'w pg_env \<Rightarrow> conn_source \<Rightarrow> table_schema \<Rightarrow> string \<Rightarrow> go_time \<Rightarrow> go_time \<Rightarrow> (int \<times> int) list \<Rightarrow> 'w ext
     \<Rightarrow> go_error option \<times> 'w ext" where
  "extract_ranges x cfg schema pk wm end_t rs s =
     foldl (\<lambda>(err, s) r. case extract_range x cfg schema pk wm end_t r s of
              (e, s1) \<Rightarrow> (if err = None then e else err, s1)) (None, s) rs"

text \<open>The smallest and the largest key, when the server answers with two integers.\<close>

definition pk_bounds :: "pg_value list answer \<Rightarrow> (int \<times> int) option" where
  "pk_bounds a =
     (case an_rows a of
        Inr [u, v] # _ \<Rightarrow>
          (case (pg_int_to_int64 u, pg_int_to_int64 v) of (Some lo, Some hi) \<Rightarrow> Some (lo, hi) | _ \<Rightarrow> None)
      | _ \<Rightarrow> None)"

definition parallel_range_extract ::
  "nat \<Rightarrow> 'w pg_env \<Rightarrow> conn_source \<Rightarrow> go_time \<Rightarrow> go_time \<Rightarrow> int \<Rightarrow> 'w ext \<Rightarrow> (go_error option \<times> 'w ext) option" where
  "parallel_range_extract fuel x cfg wm end_t n s =
     (case introspect_schema x cfg (cs_table cfg) s of
        (Inl e, s1) \<Rightarrow> Some (Some e, s1)
      | (Inr schema, s1) \<Rightarrow>
          (case validate_watermark_column cfg schema of
             Some e \<Rightarrow> Some (Some e, s1)
           | None \<Rightarrow>
               let pk = get_pk_column schema in
               if pk = [] then extract_with_schema fuel x cfg wm end_t schema s1
               else case px_min_max x (quote_identifier pk) (quote_table_name (cs_table cfg)) (xs_world s1) of
                      (Inl e, w) \<Rightarrow> extract_with_schema fuel x cfg wm end_t schema (s1\<lparr>xs_world := w\<rparr>)
                    | (Inr a, w) \<Rightarrow>
                        (case pk_bounds a of
                           Some (lo, hi) \<Rightarrow>
                             if lo \<ge> hi then extract_with_schema fuel x cfg wm end_t schema (s1\<lparr>xs_world := w\<rparr>)
                             else Some (extract_ranges x cfg schema pk wm end_t (pk_ranges lo hi n)
                                    (s1\<lparr>xs_world := w\<rparr>))
                         | None \<Rightarrow> extract_with_schema fuel x cfg wm end_t schema (s1\<lparr>xs_world := w\<rparr>))))"

subsection \<open>Custom queries\<close>

fun replace_all_from :: "nat \<Rightarrow> string \<Rightarrow> string \<Rightarrow> string \<Rightarrow> string" where
  "replace_all_from k old new [] = []"
| "replace_all_from (Suc k) old new (c # s) = replace_all_from k old new s"
| "replace_all_from 0 old new (c # s) =
     (if has_prefix (c # s) old then new @ replace_all_from (length old - 1) old new s
      else c # replace_all_from 0 old new s)"

text \<open>\<open>strings.ReplaceAll\<close> for a non-empty pattern, from left to right without overlaps.\<close>

definition replace_all :: "string \<Rightarrow> string \<Rightarrow> string \<Rightarrow> string" where
  "replace_all s old new = replace_all_from 0 old new s"

definition resolve_query :: "conn_source \<Rightarrow> go_time \<Rightarrow> go_time \<Rightarrow> string" where
  "resolve_query cfg wm end_t =
     (let q1 = replace_all (cs_query cfg) ''{{watermark}}'' ([CHR 0x27] @ rfc3339 wm @ [CHR 0x27]);
          q2 = replace_all q1 ''{{interval_end}}'' ([CHR 0x27] @ rfc3339 end_t @ [CHR 0x27])
      in replace_all q2 ''{{pipeline}}'' (get_opt (cs_options cfg) ''pipeline''))"

text \<open>\<open>asTime\<close> on a converted value.\<close>

definition gval_time :: "gval \<Rightarrow> go_time option" where
  "gval_time v =
     (case v of
        GTime t \<Rightarrow> Some t
      | GTimePtr p \<Rightarrow> p
      | GNil \<Rightarrow> None
      | _ \<Rightarrow> (case parse_time_string (sprint_v v) of Inr t \<Rightarrow> Some t | Inl e \<Rightarrow> None))"

definition extract_watermark_from_data :: "payload \<Rightarrow> string \<Rightarrow> go_time" where
  "extract_watermark_from_data d col =
     (let c = (if col = [] then ''updated_at'' else col);
          look = (\<lambda>k. case alookup d k of Some v \<Rightarrow> gval_time v | None \<Rightarrow> None)
      in case look c of Some t \<Rightarrow> t | None \<Rightarrow> (case look ''watermark'' of Some t \<Rightarrow> t | None \<Rightarrow> time_zero))"

definition extract_pk_from_data :: "string \<Rightarrow> payload \<Rightarrow> string" where
  "extract_pk_from_data fresh d =
     (case first_some (\<lambda>k. case alookup d k of Some v \<Rightarrow> if v = GNil then None else Some v | None \<Rightarrow> None)
             [''id'', ''ID'', ''row_id''] of
        Some v \<Rightarrow> sprint_v v
      | None \<Rightarrow> fresh)"

definition custom_row ::
  "'w pg_env \<Rightarrow> conn_source \<Rightarrow> string list \<Rightarrow> nat \<Rightarrow> pg_value list \<Rightarrow> row" where
  "custom_row x cfg fs k values =
     (let d = row_payload x (\<lambda>_. []) fs values;
          wm = extract_watermark_from_data d (get_watermark_column cfg);
          key = extract_pk_from_data (px_uuid x k 1) d
      in \<lparr>row_id = px_uuid x k 0, row_source = source_name cfg, row_pipeline = pipeline_name cfg,
          row_key = (if key = [] then px_uuid x k 2 else key), row_data = d, row_extracted = px_now x k,
          row_watermark = (if is_zero wm then px_now x k else wm), row_meta = [], row_ctx = False\<rparr>)"

definition run_custom_query ::
  "'w pg_env \<Rightarrow> conn_source \<Rightarrow> go_time \<Rightarrow> go_time \<Rightarrow> 'w ext \<Rightarrow> go_error option \<times> 'w ext" where
  "run_custom_query x cfg wm end_t s =
     (case px_text x (resolve_query cfg wm end_t) (xs_world s) of
        (Inl e, w) \<Rightarrow> (Some e, s\<lparr>xs_world := w\<rparr>)
      | (Inr a, w) \<Rightarrow>
          (case stream_answer (\<lambda>k v. Inr (custom_row x cfg (an_fields a) k v)) a (s\<lparr>xs_world := w\<rparr>) of
             ((n, e), s1) \<Rightarrow> (e, s1)))"

subsection \<open>Extract\<close>

definition pg_extract ::
  "nat \<Rightarrow> 'w pg_env \<Rightarrow> pg_source \<Rightarrow> go_time \<Rightarrow> go_time \<Rightarrow> 'w ext \<Rightarrow> (go_error option \<times> 'w ext) option" where
  "pg_extract fuel x p wm end_t s =
     (let cfg = sr_cfg p in
      if \<not> sr_pool p then Some (Some (ErrMsg ''postgres source: not connected''), s)
      else if is_custom_query cfg then Some (run_custom_query x cfg wm end_t s)
      else if snapshot_mode cfg then Some (extract_snapshot x cfg s)
      else if cs_parallelism cfg > 1 then parallel_range_extract fuel x cfg wm end_t (cs_parallelism cfg) s
      else extract_sequential fuel x cfg wm end_t s)"

text \<open>
  \<open>ExtractNumeric\<close>: pages by the value of the cursor column. The loop over the rows of a page
  polls the context only when it sends.
\<close>

definition numeric_query :: "conn_source \<Rightarrow> table_schema \<Rightarrow> int \<Rightarrow> int \<Rightarrow> sql_select" where
  "numeric_query cfg schema cur0 most =
     (let c = quote_identifier (get_watermark_column cfg) in
      \<lparr>ss_cols = map (\<lambda>c. quote_identifier (ci_name c)) (ts_columns schema),
       ss_from = quote_table_name (cs_table cfg), ss_where = [(c, CmpGt, AInt cur0)],
       ss_order = Some (c @ '' ASC''), ss_limit = Some most, ss_offset = None\<rparr>)"

text \<open>The verb \<open>%T\<close>.\<close>

definition go_type_name :: "gval \<Rightarrow> string" where
  "go_type_name v =
     (case v of GNil \<Rightarrow> ''<nil>'' | GBool _ \<Rightarrow> ''bool'' | GInt _ \<Rightarrow> ''int64'' | GFloat _ \<Rightarrow> ''float64''
      | GStr _ \<Rightarrow> ''string'' | GTime _ \<Rightarrow> ''time.Time'' | GTimePtr _ \<Rightarrow> ''*time.Time''
      | GMap _ \<Rightarrow> ''map[string]interface {}'' | GList _ \<Rightarrow> ''[]interface {}'')"

definition not_integer_error :: "string \<Rightarrow> string \<Rightarrow> payload \<Rightarrow> go_error" where
  "not_integer_error who col d =
     ErrMsg (who @ '' source: cursor column '' @ quote_q col @ '' returned ''
       @ go_type_name (case alookup d col of Some v \<Rightarrow> v | None \<Rightarrow> GNil) @ '', want integer'')"

fun numeric_rows ::
  "'w pg_env \<Rightarrow> conn_source \<Rightarrow> table_schema \<Rightarrow> string list \<Rightarrow> pg_value list res list \<Rightarrow> int \<Rightarrow> int \<Rightarrow> 'w ext
     \<Rightarrow> (int \<times> int \<times> go_error option) \<times> 'w ext" where
  "numeric_rows x cfg schema fs [] n cur0 s = ((n, cur0, None), s)"
| "numeric_rows x cfg schema fs (Inl e # rs) n cur0 s = ((n, cur0, Some e), s)"
| "numeric_rows x cfg schema fs (Inr v # rs) n cur0 s =
     (let c = get_watermark_column cfg; r = pg_row x cfg schema fs (xs_made s) v time_zero in
      case alookup (row_data r) c of
        Some (GInt cur) \<Rightarrow>
          (case ext_send r (s\<lparr>xs_made := Suc (xs_made s)\<rparr>) of
             (Some e, s1) \<Rightarrow> ((n, cur0, Some e), s1)
           | (None, s1) \<Rightarrow> numeric_rows x cfg schema fs rs (n + 1) cur s1)
      | _ \<Rightarrow> ((n, cur0, Some (not_integer_error ''postgres'' c (row_data r))), s))"

fun numeric_pages ::
  "nat \<Rightarrow> 'w pg_env \<Rightarrow> conn_source \<Rightarrow> table_schema \<Rightarrow> int \<Rightarrow> int \<Rightarrow> int \<Rightarrow> 'w ext
     \<Rightarrow> ((int \<times> go_error option) \<times> 'w ext) option" where
  "numeric_pages 0 x cfg schema most emitted cur0 s = None"
| "numeric_pages (Suc fuel) x cfg schema most emitted cur0 s =
     (case ext_poll s of
        (True, s1) \<Rightarrow> Some ((cur0, Some ErrCanceled), s1)
      | (False, s1) \<Rightarrow>
          let b = batch_size cfg; page = (if most > 0 \<and> most - emitted < b then most - emitted else b) in
          if page \<le> 0 then Some ((cur0, None), s1)
          else case run_select x (numeric_query cfg schema cur0 page) s1 of
                 (Inl e, s2) \<Rightarrow> Some ((cur0, Some e), s2)
               | (Inr a, s2) \<Rightarrow>
                   (case numeric_rows x cfg schema (an_fields a) (an_rows a) 0 cur0 s2 of
                      ((n, cur2, Some e), s3) \<Rightarrow> Some ((cur2, Some e), s3)
                    | ((n, cur2, None), s3) \<Rightarrow>
                        (case an_err a of
                           Some e \<Rightarrow> Some ((cur2, Some e), s3)
                         | None \<Rightarrow>
                             if n < b \<or> most > 0 \<and> emitted + n \<ge> most then Some ((cur2, None), s3)
                             else numeric_pages fuel x cfg schema most (emitted + n) cur2 s3)))"

definition extract_numeric ::
  "nat \<Rightarrow> 'w pg_env \<Rightarrow> pg_source \<Rightarrow> int \<Rightarrow> int \<Rightarrow> 'w ext \<Rightarrow> ((int \<times> go_error option) \<times> 'w ext) option" where
  "extract_numeric fuel x p cursor most s =
     (if \<not> sr_pool p then Some ((cursor, Some (ErrMsg ''postgres source: not connected'')), s)
      else case introspect_schema x (sr_cfg p) (cs_table (sr_cfg p)) s of
             (Inl e, s1) \<Rightarrow> Some ((cursor, Some e), s1)
           | (Inr schema, s1) \<Rightarrow> numeric_pages fuel x (sr_cfg p) schema most 0 cursor s1)"

subsection \<open>Redshift\<close>

definition normalize_redshift_uri :: "string \<Rightarrow> string" where
  "normalize_redshift_uri uri =
     (case split_once ''://'' uri of
        Some (scheme, rest) \<Rightarrow>
          if has_prefix (to_lower scheme) ''redshift'' then ''postgres://'' @ rest else uri
      | None \<Rightarrow> uri)"

definition redshift_connect ::
  "(string \<Rightarrow> go_error option) \<Rightarrow> (string \<Rightarrow> go_error option) \<Rightarrow> (string \<Rightarrow> go_error option)
     \<Rightarrow> conn_source \<Rightarrow> pg_source \<Rightarrow> go_error option \<times> pg_source" where
  "redshift_connect parse_cfg new_pool ping cfg p =
     pg_connect parse_cfg new_pool ping
       (cfg\<lparr>cs_connection := normalize_redshift_uri (cs_connection cfg),
            cs_url := normalize_redshift_uri (cs_url cfg)\<rparr>) p"

section \<open>What the extraction paths deliver\<close>

subsection \<open>Types of the payload\<close>

definition scalar :: "gval \<Rightarrow> bool" where
  "scalar v \<longleftrightarrow> (case v of GTimePtr _ \<Rightarrow> False | GMap _ \<Rightarrow> False | GList _ \<Rightarrow> False | _ \<Rightarrow> True)"

lemma scalar_simps [simp]:
  "scalar GNil" "scalar (GBool b)" "scalar (GInt i)" "scalar (GFloat f)" "scalar (GStr s)" "scalar (GTime t)"
  by (simp_all add: scalar_def)

lemma scalar_gopt [simp]: "(\<And>a. scalar (f a)) \<Longrightarrow> scalar (gopt f v)"
  by (simp add: gopt_def split: option.splits)

lemma scalar_time_or_text [simp]: "scalar (time_or_text s t)"
  by (simp add: time_or_text_def split: sum.splits)

lemma convert_scalar: "scalar (convert_pg_value x v ty)"
proof -
  have "scalar (conv_int x v)" "scalar (conv_float x v)" "scalar (conv_numeric x v)" "scalar (conv_bool x v)"
    "scalar (conv_uuid x v)" "scalar (conv_text x v)" "scalar (conv_json x v)"
    by (simp_all add: conv_int_def conv_float_def conv_numeric_def conv_bool_def conv_uuid_def
          conv_text_def conv_json_def split: pg_value.splits gval.splits)
  moreover have "scalar (conv_time x v)" "scalar (conv_other x v)"
    by (simp_all add: conv_time_def conv_other_def split: pg_value.splits gval.splits)
  ultimately show ?thesis by (simp add: convert_pg_value_def Let_def)
qed


text \<open>
  A \<open>NUMERIC\<close> column loses more than a \<open>float64\<close> must: the value 0.3 reaches the
  payload as 0.30000000000000004, one unit in the last place above the double nearest to 0.3.
\<close>

theorem numeric_not_nearest:
  "convert_pg_value x (PgNumeric (Some (NumInt (Some 3) (- 1)))) ''numeric''
     = GFloat (FFin (5404319552844596 / 2 ^ 54))"
  "f64_of_rat (3 / 10) = FFin (5404319552844595 / 2 ^ 54)"
proof -
  have "numeric_to_float64 (NumInt (Some 3) (- 1)) = FFin (5404319552844596 / 2 ^ 54)" by code_simp
  then show "convert_pg_value x (PgNumeric (Some (NumInt (Some 3) (- 1)))) ''numeric''
     = GFloat (FFin (5404319552844596 / 2 ^ 54))"
    by (simp add: convert_pg_value_def Let_def trim_space_def is_space_def to_lower_def lower_char_def
          conv_numeric_def gopt_def)
  show "f64_of_rat (3 / 10) = FFin (5404319552844595 / 2 ^ 54)" by code_simp
qed

subsection \<open>Pages\<close>

text \<open>
  A server that keeps a fixed set of rows and answers a page from the rows in some order that is
  sorted by the watermark, possibly a different order each time.
\<close>

definition serves_pages ::
  "'w pg_env \<Rightarrow> (int \<Rightarrow> sql_select) \<Rightarrow> nat \<Rightarrow> string list \<Rightarrow> (pg_value list \<Rightarrow> go_time) \<Rightarrow> pg_value list list \<Rightarrow> bool" where
  "serves_pages x q batch fs tm tab \<longleftrightarrow>
     (\<forall>off w. \<exists>ord w'. mset ord = mset tab \<and> sorted (map tm ord)
        \<and> px_select x (q (int off)) w
          = (Inr \<lparr>an_fields = fs, an_rows = map Inr (take batch (drop off ord)), an_err = None\<rparr>, w'))"

lemma sorted_distinct_order_unique:
  fixes f :: "'a \<Rightarrow> 'b::linorder"
  assumes "mset xs = mset ys" "sorted (map f xs)" "sorted (map f ys)" "distinct (map f ys)"
  shows "xs = ys"
proof -
  have s: "set xs = set ys" using assms(1) by (metis set_mset_mset)
  have d: "distinct (map f xs)"
    using assms(1,4) by (metis mset_eq_imp_distinct_iff mset_map)
  have "map f xs = map f ys"
    by (rule sorted_distinct_set_unique) (use assms d s in auto)
  moreover have "inj_on f (set ys)" using assms(4) by (simp add: distinct_map)
  ultimately show ?thesis using s by (metis inj_on_map_eq_map sup.idem)
qed

definition window_rows ::
  "'w pg_env \<Rightarrow> conn_source \<Rightarrow> table_schema \<Rightarrow> string list \<Rightarrow> (pg_value list \<Rightarrow> go_time) \<Rightarrow> nat
     \<Rightarrow> pg_value list list \<Rightarrow> row list" where
  "window_rows x cfg schema fs tm k vs = map (\<lambda>(i, v). pg_row x cfg schema fs i v (tm v)) (enumerate k vs)"

lemma made_window_rows:
  "\<forall>v \<in> set vs. watermark_from_values x v fs col = Inr (tm v) \<Longrightarrow>
   made_rows (window_row x cfg schema col fs) k vs = Inr (window_rows x cfg schema fs tm k vs)"
  by (induction vs arbitrary: k) (simp_all add: window_row_def window_rows_def)

lemma window_rows_append:
  "window_rows x cfg schema fs tm k (us @ vs)
     = window_rows x cfg schema fs tm k us @ window_rows x cfg schema fs tm (k + length us) vs"
  by (simp add: window_rows_def enumerate_append_eq)

definition page_query :: "conn_source \<Rightarrow> table_schema \<Rightarrow> go_time \<Rightarrow> go_time \<Rightarrow> int \<Rightarrow> sql_select" where
  "page_query cfg schema wm end_t off =
     build_select_query (cs_table cfg) (get_watermark_column cfg) (map ci_name (ts_columns schema)) wm end_t
       (batch_size cfg) off"

lemma batch_size_pos: "0 < batch_size cfg"
  by (simp add: batch_size_def)

lemma pages_from_complete:
  fixes s :: "'w ext"
  assumes srv: "serves_pages x (page_query cfg schema wm end_t) (nat (batch_size cfg)) fs tm tab"
    and dist: "distinct (map tm tab)"
    and read: "\<forall>v \<in> set tab. watermark_from_values x v fs (get_watermark_column cfg) = Inr (tm v)"
  shows "xs_ctx s = None \<Longrightarrow> off \<le> length tab \<Longrightarrow> length tab - off < fuel * nat (batch_size cfg) \<Longrightarrow>
    \<exists>s'. pages_from fuel x cfg schema wm end_t (int off) s = Some (None, s') \<and> xs_ctx s' = None
      \<and> xs_out s' = xs_out s @ window_rows x cfg schema fs tm (xs_made s) (drop off (sort_key tm tab))"
proof (induction fuel arbitrary: off s)
  case (Suc fuel)
  define b where "b = nat (batch_size cfg)"
  define pg where "pg = take b (drop off (sort_key tm tab))"
  have b: "0 < b" "int b = batch_size cfg" using batch_size_pos [of cfg] by (simp_all add: b_def)
  obtain ord w' where o: "mset ord = mset tab" "sorted (map tm ord)" "px_select x (page_query cfg schema wm end_t (int off)) (xs_world s)
      = (Inr \<lparr>an_fields = fs, an_rows = map Inr (take b (drop off ord)), an_err = None\<rparr>, w')"
    using srv unfolding serves_pages_def b_def by blast
  have "distinct (map tm (sort_key tm tab))"
    using dist by (metis mset_eq_imp_distinct_iff mset_map mset_sort)
  then have "ord = sort_key tm tab"
    by (intro sorted_distinct_order_unique [where f = tm]) (use o in simp_all)
  with o(3) have ans: "px_select x (page_query cfg schema wm end_t (int off)) (xs_world s)
      = (Inr \<lparr>an_fields = fs, an_rows = map Inr pg, an_err = None\<rparr>, w')" by (simp add: pg_def)
  have mem: "\<forall>v \<in> set pg. watermark_from_values x v fs (get_watermark_column cfg) = Inr (tm v)"
    using read by (auto simp: pg_def dest!: in_set_takeD in_set_dropD)
  define s1 where "s1 = s\<lparr>xs_world := w', xs_made := xs_made s + length pg,
      xs_out := xs_out s @ window_rows x cfg schema fs tm (xs_made s) pg\<rparr>"
  have page: "extract_page x cfg schema (get_watermark_column cfg) wm end_t (batch_size cfg) (int off) s
      = ((int (length pg), None), s1)"
    using ans made_window_rows [OF mem, of cfg schema "xs_made s"] Suc.prems(1)
    by (simp add: extract_page_def select_rows_def run_select_def page_query_def [symmetric] s1_def
          stream_answer_live)
  have len: "length pg = min b (length tab - off)" by (simp add: pg_def min.commute)
  show ?case
  proof (cases "length pg < b")
    case True
    then have "pg = drop off (sort_key tm tab)" using len by (simp add: pg_def)
    then show ?thesis using page True b Suc.prems(1)
      by (simp add: ext_poll_live s1_def)
  next
    case False
    then have lb: "length pg = b" "off + b \<le> length tab" using len Suc.prems(2) by auto
    have "length tab - (off + b) < fuel * b" using Suc.prems(3) lb by (simp add: b_def)
    then obtain s' where s': "pages_from fuel x cfg schema wm end_t (int (off + b)) s1 = Some (None, s')" "xs_ctx s' = None"
      "xs_out s' = xs_out s1 @ window_rows x cfg schema fs tm (xs_made s1) (drop (off + b) (sort_key tm tab))"
      using Suc.IH [of s1 "off + b"] lb Suc.prems(1) by (auto simp: s1_def b_def)
    have "drop off (sort_key tm tab) = pg @ drop (off + b) (sort_key tm tab)"
      by (simp add: pg_def add.commute flip: drop_drop)
    then have "xs_out s' = xs_out s @ window_rows x cfg schema fs tm (xs_made s) (drop off (sort_key tm tab))"
      using s'(3) by (simp add: s1_def window_rows_append)
    then show ?thesis using page False lb b s'(1,2) Suc.prems(1)
      by (simp add: ext_poll_live)
  qed
qed simp
text \<open>
  Property C23. When the watermarks are distinct and the table does not change, the pages of a
  sequential extraction come to an end and deliver every row of the window exactly once, in the
  order of the watermark, whatever page size is configured.
\<close>

theorem pages_complete:
  assumes "serves_pages x (page_query cfg schema wm end_t) (nat (batch_size cfg)) fs tm tab"
    and "distinct (map tm tab)"
    and "\<forall>v \<in> set tab. watermark_from_values x v fs (get_watermark_column cfg) = Inr (tm v)"
    and "xs_ctx s = None" "length tab < fuel * nat (batch_size cfg)"
  shows "\<exists>s'. extract_with_schema fuel x cfg wm end_t schema s = Some (None, s')
      \<and> xs_out s' = xs_out s @ window_rows x cfg schema fs tm (xs_made s) (sort_key tm tab)"
  using pages_from_complete [OF assms(1-4), of 0 fuel] assms(5) by (auto simp: extract_with_schema_def)

subsection \<open>A concrete server\<close>

definition sample_source_cfg :: "int \<Rightarrow> conn_source" where
  "sample_source_cfg n = \<lparr>cs_type = ''postgres'', cs_connection = [], cs_url = [], cs_table = ''deals'', cs_query = [],
     cs_watermark = [], cs_exclude = [], cs_batch_size = n, cs_parallelism = 0, cs_options = [],
     cs_auth = conn_auth_zero\<rparr>"

definition sample_schema :: table_schema where
  "sample_schema = \<lparr>ts_columns = [\<lparr>ci_name = ''id'', ci_type = ''int8'', ci_nullable = False, ci_primary = True\<rparr>,
     \<lparr>ci_name = ''updated_at'', ci_type = ''timestamptz'', ci_nullable = True, ci_primary = False\<rparr>],
     ts_keys = [''id'']\<rparr>"

text \<open>A server that orders the rows for each offset as given.\<close>

definition ordered_env :: "(int \<Rightarrow> pg_value list list) \<Rightarrow> unit pg_env" where
  "ordered_env f =
     \<lparr>px_columns = \<lambda>_ _ w. (Inr \<lparr>an_fields = [], an_rows = [], an_err = None\<rparr>, w),
      px_pks = \<lambda>_ _ w. (Inr \<lparr>an_fields = [], an_rows = [], an_err = None\<rparr>, w),
      px_select = \<lambda>q w. (Inr \<lparr>an_fields = [''id'', ''updated_at''],
        an_rows = map Inr (take (case ss_limit q of None \<Rightarrow> 100 | Some n \<Rightarrow> nat n)
                     (case ss_offset q of None \<Rightarrow> f 0 | Some n \<Rightarrow> drop (nat n) (f n))), an_err = None\<rparr>, w),
      px_min_max = \<lambda>_ _ w. (Inr \<lparr>an_fields = [], an_rows = [], an_err = None\<rparr>, w),
      px_text = \<lambda>_ w. (Inr \<lparr>an_fields = [], an_rows = [], an_err = None\<rparr>, w),
      px_print = \<lambda>_. [], px_json = \<lambda>_. None, px_float = \<lambda>_. None, px_uuid_text = \<lambda>b. b,
      px_uuid = \<lambda>_ _. ''u'', px_now = \<lambda>_. 0\<rparr>"

definition sample_values :: "int \<Rightarrow> go_time \<Rightarrow> pg_value list" where
  "sample_values i t = [PgGo (GInt i), PgGo (GTime t)]"

definition sample_time :: "pg_value list \<Rightarrow> go_time" where
  "sample_time v = (case v of [_, PgGo (GTime t)] \<Rightarrow> t | _ \<Rightarrow> 0)"

lemma ordered_env_serves:
  assumes "\<And>n. mset (f n) = mset tab" "\<And>n. sorted (map sample_time (f n))" "b = nat (batch_size cfg)"
  shows "serves_pages (ordered_env f) (page_query cfg schema wm end_t) b [''id'', ''updated_at''] sample_time tab"
  using assms unfolding serves_pages_def
  by (intro allI) (rule_tac x = "f (int off)" in exI, simp add: ordered_env_def page_query_def build_select_query_def)

theorem pages_complete_witness:
  "\<exists>s'. extract_with_schema 2 (ordered_env (\<lambda>_. [sample_values 1 10, sample_values 2 20])) (sample_source_cfg 2)
        time_zero time_zero sample_schema (ext_init None ()) = Some (None, s')
      \<and> xs_out s' = [] @ window_rows (ordered_env (\<lambda>_. [sample_values 1 10, sample_values 2 20])) (sample_source_cfg 2)
            sample_schema [''id'', ''updated_at''] sample_time 0
            (sort_key sample_time [sample_values 2 20, sample_values 1 10])"
proof -
  have "serves_pages (ordered_env (\<lambda>_. [sample_values 1 10, sample_values 2 20]))
      (page_query (sample_source_cfg 2) sample_schema time_zero time_zero) (nat (batch_size (sample_source_cfg 2)))
      [''id'', ''updated_at''] sample_time [sample_values 2 20, sample_values 1 10]"
    by (rule ordered_env_serves) (simp_all add: sample_values_def sample_time_def add_mset_commute)
  from pages_complete [OF this, of "ext_init None ()" 2] show ?thesis
    by (simp add: sample_values_def sample_time_def watermark_from_values_def get_watermark_column_def
          sample_source_cfg_def as_time_def ext_init_def batch_size_def trim_space_def)
qed


subsection \<open>Key ranges\<close>

lemma wrap64_id: "- (2 ^ 63) \<le> i \<Longrightarrow> i < 2 ^ 63 \<Longrightarrow> wrap64 i = i"
  by (simp add: wrap64_def)

lemma range_size_bounds:
  assumes "lo < hi" "hi - lo + 1 < 2 ^ 63" "0 < n"
  shows "0 < range_size lo hi n" "(n - 1) * range_size lo hi n \<le> max (hi - lo) (n - 1)"
proof -
  define m where "m = hi - lo + 1"
  have m: "0 < m" "m < 2 ^ 63" using assms by (simp_all add: m_def)
  have q: "range_size lo hi n = (if m div n = 0 then 1 else m div n)"
    using m by (simp add: range_size_def Let_def quot_def wrap64_id m_def)
  show "0 < range_size lo hi n" using m assms(3) q pos_imp_zdiv_nonneg_iff [of n m] by auto
  show "(n - 1) * range_size lo hi n \<le> max (hi - lo) (n - 1)"
  proof (cases "m div n = 0")
    case False
    then have p: "0 < m div n" using m assms(3) pos_imp_zdiv_nonneg_iff [of n m] by auto
    have "n * (m div n) \<le> m" using assms(3) by (metis mult.commute pos_mod_sign div_mult_mod_eq le_add_same_cancel1)
    then have "(n - 1) * (m div n) \<le> m - 1" using p by (simp add: algebra_simps)
    then show ?thesis using False q by (simp add: m_def)
  qed (simp add: q)
qed

lemma pk_ranges_plain:
  assumes "lo < hi" "hi - lo + 1 < 2 ^ 63" "0 < n" "- (2 ^ 63) \<le> lo" "hi + n < 2 ^ 63" "n < 2 ^ 63"
  shows "pk_ranges lo hi n = map (\<lambda>i. (lo + i * range_size lo hi n,
      if i = n - 1 then hi else lo + (i + 1) * range_size lo hi n - 1)) [0..n - 1]"
proof -
  define z where "z = range_size lo hi n"
  note b = range_size_bounds [OF assms(1-3), folded z_def]
  have "wrap64 (lo + wrap64 (i * z)) = lo + i * z"
    "i \<noteq> n - 1 \<Longrightarrow> wrap64 (wrap64 (lo + i * z + z) - 1) = lo + (i + 1) * z - 1"
    if i: "0 \<le> i" "i \<le> n - 1" for i
  proof -
    have p: "0 \<le> i * z" "i * z \<le> (n - 1) * z" using i b(1) by (simp_all add: mult_right_mono)
    then have u: "lo + i * z \<le> max hi (lo + n - 1)" "i * z < 2 ^ 63" using b(2) assms by linarith+
    then show s: "wrap64 (lo + wrap64 (i * z)) = lo + i * z" using p assms by (simp add: wrap64_id)
    assume ne: "i \<noteq> n - 1"
    have "(i + 1) * z \<le> (n - 1) * z" using i ne b(1) by (intro mult_right_mono) auto
    then have v: "lo + i * z + z \<le> max hi (lo + n - 1)" using b(2) by (simp add: algebra_simps)
    then show "wrap64 (wrap64 (lo + i * z + z) - 1) = lo + (i + 1) * z - 1"
      using p b(1) assms by (simp add: wrap64_id algebra_simps)
  qed
  then show ?thesis
    unfolding pk_ranges_def Let_def z_def [symmetric] by (intro map_cong) auto
qed

lemma le_quotient_iff:
  fixes z :: int
  assumes "0 < z"
  shows "i \<le> d div z \<longleftrightarrow> i * z \<le> d"
proof
  assume "i \<le> d div z"
  then have "i * z \<le> d div z * z" using assms by simp
  moreover have "d div z * z \<le> d" using div_mult_mod_eq [of d z] pos_mod_sign [OF assms, of d] by linarith
  ultimately show "i * z \<le> d" by linarith
next
  assume "i * z \<le> d"
  then have "i * z div z \<le> d div z" using assms by (rule zdiv_mono1)
  then show "i \<le> d div z" using assms by simp
qed

lemma range_index:
  fixes z :: int
  assumes "0 < z"
  shows "i * z \<le> d \<and> d < (i + 1) * z \<longleftrightarrow> i = d div z"
  using le_quotient_iff [OF assms, of i d] le_quotient_iff [OF assms, of "i + 1" d] by auto

text \<open>
  The key ranges of a parallel extraction divide the keys between the smallest and
  the largest: every key lies in exactly one range, as long as the \<open>int64\<close> arithmetic does not
  overflow.
\<close>

lemma pk_ranges_partition:
  assumes "lo < hi" "hi - lo + 1 < 2 ^ 63" "0 < n" "- (2 ^ 63) \<le> lo" "hi + n < 2 ^ 63" "n < 2 ^ 63" "lo \<le> k" "k \<le> hi"
  shows "length (filter (\<lambda>(a, b). a \<le> k \<and> k \<le> b) (pk_ranges lo hi n)) = 1"
proof -
  define z where "z = range_size lo hi n"
  define d where "d = k - lo"
  note b = range_size_bounds [OF assms(1-3), folded z_def]
  have d: "0 \<le> d" using assms by (simp add: d_def)
  define j where "j = min (d div z) (n - 1)"
  have dz: "0 \<le> d div z" using b(1) d by (simp add: pos_imp_zdiv_nonneg_iff)
  have j: "0 \<le> j" "j \<le> n - 1" using dz assms(3) by (auto simp: j_def)
  have hit: "(case (lo + i * z, if i = n - 1 then hi else lo + (i + 1) * z - 1) of (a, b) \<Rightarrow> a \<le> k \<and> k \<le> b) \<longleftrightarrow> i = j"
    if i: "0 \<le> i" "i \<le> n - 1" for i
  proof (cases "i = n - 1")
    case True
    have "i * z \<le> d \<longleftrightarrow> i \<le> d div z" using le_quotient_iff [OF b(1)] by simp
    then show ?thesis using True assms by (auto simp: d_def j_def)
  next
    case False
    have "lo + i * z \<le> k \<and> k \<le> lo + (i + 1) * z - 1 \<longleftrightarrow> i * z \<le> d \<and> d < (i + 1) * z"
      by (auto simp: d_def)
    also have "\<dots> \<longleftrightarrow> i = d div z" by (rule range_index [OF b(1)])
    also have "\<dots> \<longleftrightarrow> i = j" using False i by (auto simp: j_def)
    finally show ?thesis using False by simp
  qed
  have "filter (\<lambda>i. i = j) [0..n - 1] = [j]"
  proof -
    have "[0..n - 1] = [0..j - 1] @ j # [j + 1..n - 1]" using j by (metis upto_split3)
    then show ?thesis by simp
  qed
  moreover define g where "g = (\<lambda>i. (lo + i * z, if i = n - 1 then hi else lo + (i + 1) * z - 1))"
  have "filter ((\<lambda>(a, b). a \<le> k \<and> k \<le> b) \<circ> g) [0..n - 1] = filter (\<lambda>i. i = j) [0..n - 1]"
    by (rule filter_cong) (use hit in \<open>auto simp: g_def\<close>)
  moreover have "pk_ranges lo hi n = map g [0..n - 1]"
    unfolding g_def z_def by (rule pk_ranges_plain [OF assms(1-6)])
  ultimately show ?thesis by (simp only: filter_map) simp
qed

text \<open>A server that answers a range of keys with the rows of a fixed table in it, in any order.\<close>

definition serves_ranges ::
  "'w pg_env \<Rightarrow> (int \<Rightarrow> int \<Rightarrow> sql_select) \<Rightarrow> string list \<Rightarrow> (pg_value list \<Rightarrow> int) \<Rightarrow> pg_value list list \<Rightarrow> bool" where
  "serves_ranges x q fs key tab \<longleftrightarrow>
     (\<forall>a b w. \<exists>ord w'. mset ord = mset (filter (\<lambda>v. a \<le> key v \<and> key v \<le> b) tab)
        \<and> px_select x (q a b) w = (Inr \<lparr>an_fields = fs, an_rows = map Inr ord, an_err = None\<rparr>, w'))"

definition range_rows :: "(pg_value list \<Rightarrow> int) \<Rightarrow> pg_value list list \<Rightarrow> (int \<times> int) list \<Rightarrow> pg_value list list" where
  "range_rows key tab rs = concat (map (\<lambda>r. filter (\<lambda>v. fst r \<le> key v \<and> key v \<le> snd r) tab) rs)"

lemma range_rows_add:
  "mset (range_rows key (v # tab) rs)
     = replicate_mset (length (filter (\<lambda>(a, b). a \<le> key v \<and> key v \<le> b) rs)) v + mset (range_rows key tab rs)"
  by (induction rs) (auto simp: range_rows_def)

lemma range_rows_partition:
  "\<forall>v \<in> set tab. length (filter (\<lambda>(a, b). a \<le> key v \<and> key v \<le> b) rs) = 1 \<Longrightarrow>
   mset (range_rows key tab rs) = mset tab"
proof (induction tab)
  case Nil
  then show ?case by (induction rs) (simp_all add: range_rows_def)
qed (simp add: range_rows_add)

lemma image_window_rows:
  "image_mset (\<lambda>r. (row_data r, row_watermark r)) (mset (window_rows x cfg schema fs tm k vs))
     = image_mset (\<lambda>v. (row_payload x (column_type schema) fs v, tm v)) (mset vs)"
  by (induction vs arbitrary: k) (simp_all add: window_rows_def pg_row_def Let_def)

lemma extract_ranges_complete:
  fixes s :: "'w ext"
  assumes srv: "serves_ranges x (range_query cfg schema pk wm end_t) fs key tab"
    and read: "\<forall>v \<in> set tab. watermark_from_values x v fs (get_watermark_column cfg) = Inr (tm v)"
  shows "xs_ctx s = None \<Longrightarrow>
    \<exists>s'. extract_ranges x cfg schema pk wm end_t rs s = (None, s')
      \<and> image_mset (\<lambda>r. (row_data r, row_watermark r)) (mset (xs_out s'))
        = image_mset (\<lambda>r. (row_data r, row_watermark r)) (mset (xs_out s))
          + image_mset (\<lambda>v. (row_payload x (column_type schema) fs v, tm v)) (mset (range_rows key tab rs))"
proof (induction rs arbitrary: s)
  case Nil
  then show ?case by (simp add: extract_ranges_def range_rows_def)
next
  case (Cons r rs)
  obtain ord w' where o: "mset ord = mset (filter (\<lambda>v. fst r \<le> key v \<and> key v \<le> snd r) tab)"
    "px_select x (range_query cfg schema pk wm end_t (fst r) (snd r)) (xs_world s)
      = (Inr \<lparr>an_fields = fs, an_rows = map Inr ord, an_err = None\<rparr>, w')"
    using srv unfolding serves_ranges_def by blast
  have "set ord \<subseteq> set tab" using o(1) by (metis mset_eq_setD filter_is_subset)
  then have mem: "\<forall>v \<in> set ord. watermark_from_values x v fs (get_watermark_column cfg) = Inr (tm v)"
    using read by auto
  define s1 where "s1 = s\<lparr>xs_world := w', xs_made := xs_made s + length ord,
      xs_out := xs_out s @ window_rows x cfg schema fs tm (xs_made s) ord\<rparr>"
  have one: "extract_range x cfg schema pk wm end_t r s = (None, s1)"
    using o(2) made_window_rows [OF mem, of cfg schema "xs_made s"] Cons.prems
    by (simp add: extract_range_def select_rows_def run_select_def s1_def stream_answer_live)
  have rest: "extract_ranges x cfg schema pk wm end_t (r # rs) s = extract_ranges x cfg schema pk wm end_t rs s1"
    by (simp add: extract_ranges_def one)
  have "xs_ctx s1 = None" using Cons.prems by (simp add: s1_def)
  from Cons.IH [OF this] obtain s' where s': "extract_ranges x cfg schema pk wm end_t rs s1 = (None, s')"
    "image_mset (\<lambda>r. (row_data r, row_watermark r)) (mset (xs_out s'))
      = image_mset (\<lambda>r. (row_data r, row_watermark r)) (mset (xs_out s1))
        + image_mset (\<lambda>v. (row_payload x (column_type schema) fs v, tm v)) (mset (range_rows key tab rs))"
    by blast
  have out: "image_mset (\<lambda>r. (row_data r, row_watermark r)) (mset (xs_out s1))
      = image_mset (\<lambda>r. (row_data r, row_watermark r)) (mset (xs_out s))
        + image_mset (\<lambda>v. (row_payload x (column_type schema) fs v, tm v)) (mset ord)"
    by (simp add: s1_def image_window_rows)
  have "mset (range_rows key tab (r # rs)) = mset ord + mset (range_rows key tab rs)"
    by (simp add: range_rows_def o(1))
  then show ?case using s' out rest by (intro exI [of _ s']) (simp add: add.assoc)
qed

text \<open>
  Property C25. A parallel extraction delivers every row whose key lies between the smallest and
  the largest exactly once, with its data and its watermark, as long as the \<open>int64\<close> arithmetic of
  the ranges does not overflow: its rows are those of the table, in some order.
\<close>

theorem parallel_complete:
  assumes "serves_ranges x (range_query cfg schema pk wm end_t) fs key tab"
    and "\<forall>v \<in> set tab. watermark_from_values x v fs (get_watermark_column cfg) = Inr (tm v)"
    and "\<forall>v \<in> set tab. lo \<le> key v \<and> key v \<le> hi"
    and "lo < hi" "hi - lo + 1 < 2 ^ 63" "0 < n" "- (2 ^ 63) \<le> lo" "hi + n < 2 ^ 63" "n < 2 ^ 63"
    and "xs_ctx s = None" "xs_out s = []"
  shows "\<exists>s'. extract_ranges x cfg schema pk wm end_t (pk_ranges lo hi n) s = (None, s')
      \<and> image_mset (\<lambda>r. (row_data r, row_watermark r)) (mset (xs_out s'))
        = image_mset (\<lambda>v. (row_payload x (column_type schema) fs v, tm v)) (mset tab)"
proof -
  have "mset (range_rows key tab (pk_ranges lo hi n)) = mset tab"
    by (rule range_rows_partition) (use assms(3) pk_ranges_partition [OF assms(4-9)] in blast)
  then show ?thesis
    using extract_ranges_complete [OF assms(1,2,10), of "pk_ranges lo hi n"] assms(11) by simp
qed

definition range_env :: "pg_value list list \<Rightarrow> unit pg_env" where
  "range_env tab = (ordered_env (\<lambda>_. tab))\<lparr>px_select := \<lambda>q w.
     (Inr \<lparr>an_fields = [''id'', ''updated_at''],
        an_rows = map Inr (filter (\<lambda>v. list_all (\<lambda>(c, op, arg). case (op, arg, hd v) of
            (CmpGe, AInt a, PgGo (GInt i)) \<Rightarrow> a \<le> i | (CmpLe, AInt b, PgGo (GInt i)) \<Rightarrow> i \<le> b | _ \<Rightarrow> True)
          (ss_where q)) tab), an_err = None\<rparr>, w)\<rparr>"

theorem parallel_complete_witness:
  "\<exists>s'. extract_ranges (range_env [sample_values 1 10, sample_values 4 10, sample_values 9 30]) (sample_source_cfg 1)
        sample_schema ''id'' time_zero time_zero (pk_ranges 1 9 3) (ext_init None ()) = (None, s')
      \<and> image_mset (\<lambda>r. (row_data r, row_watermark r)) (mset (xs_out s'))
        = image_mset (\<lambda>v. (row_payload (range_env [sample_values 1 10, sample_values 4 10, sample_values 9 30])
              (column_type sample_schema) [''id'', ''updated_at''] v, sample_time v))
            (mset [sample_values 1 10, sample_values 4 10, sample_values 9 30])"
proof (rule parallel_complete)
  show "serves_ranges (range_env [sample_values 1 10, sample_values 4 10, sample_values 9 30])
      (range_query (sample_source_cfg 1) sample_schema ''id'' time_zero time_zero) [''id'', ''updated_at'']
      (\<lambda>v. case hd v of PgGo (GInt i) \<Rightarrow> i | _ \<Rightarrow> 0) [sample_values 1 10, sample_values 4 10, sample_values 9 30]"
    unfolding serves_ranges_def
    by (intro allI exI conjI, rule refl)
       (simp add: range_env_def range_query_def window_where_def is_zero_def sample_values_def)
qed (auto simp: sample_values_def sample_time_def watermark_from_values_def get_watermark_column_def
       sample_source_cfg_def as_time_def ext_init_def trim_space_def range_env_def)

end
