(* ===== verification/Mysql_Source.thy ===== *)
theory Mysql_Source
  imports Postgres_Source
begin

section \<open>The MySQL source: internal/connector/source/mysql.go\<close>

text \<open>
  Connection strings, the schema, the extraction query and its arguments, the streaming of rows,
  custom queries and the numeric cursor. The statements are their text and arguments; the server
  is a parameter that answers them.
\<close>

datatype my_value = MyBytes string | MyGo gval

record 'w my_env =
  mx_columns :: "string \<Rightarrow> string \<Rightarrow> 'w \<Rightarrow> (string \<times> string \<times> bool) answer res \<times> 'w"
  mx_query :: "string \<Rightarrow> sql_arg list \<Rightarrow> 'w \<Rightarrow> my_value list answer res \<times> 'w"
  mx_uuid :: "nat \<Rightarrow> string"
  mx_now :: "nat \<Rightarrow> go_time"

definition convert_mysql_value :: "my_value \<Rightarrow> gval" where
  "convert_mysql_value v = (case v of MyBytes b \<Rightarrow> GStr b | MyGo g \<Rightarrow> g)"

definition to_cursor_int :: "gval \<Rightarrow> int option" where
  "to_cursor_int v = (case v of GInt i \<Rightarrow> Some i | GStr s \<Rightarrow> parse_int64 s | _ \<Rightarrow> None)"

subsection \<open>Connecting\<close>

record my_source =
  my_cfg :: conn_source
  my_db :: bool
  my_db_name :: string

text \<open>The parts before and after the last occurrence of a character.\<close>

definition split_last :: "char \<Rightarrow> string \<Rightarrow> (string \<times> string) option" where
  "split_last c s =
     (if c \<notin> set s then None
      else let after = rev (takeWhile (\<lambda>d. d \<noteq> c) (rev s))
           in Some (take (length s - length after - 1) s, after))"

definition mysql_url_to_dsn :: "string \<Rightarrow> string res" where
  "mysql_url_to_dsn raw =
     (let trimmed = (if has_prefix raw ''mysql://'' then drop 8 raw else raw) in
      case split_once ''/'' trimmed of
        None \<Rightarrow> Inl (ErrMsg (''mysql source: url '' @ quote_q raw @ '' missing database name''))
      | Some (host, db) \<Rightarrow>
          let (creds, addr) = (case split_last CHR ''@'' host of Some p \<Rightarrow> p | None \<Rightarrow> ([], host));
              dsn = (if creds \<noteq> [] then creds @ ''@'' else [])
          in Inr (dsn @ ''tcp('' @ addr @ '')/'' @ db))"

text \<open>\<open>Connect\<close>: the driver's parser answers the database name; opening and pinging may fail.\<close>

definition my_connect ::
  "(string \<Rightarrow> string res) \<Rightarrow> (string \<Rightarrow> go_error option) \<Rightarrow> (string \<Rightarrow> go_error option)
     \<Rightarrow> conn_source \<Rightarrow> my_source \<Rightarrow> go_error option \<times> my_source" where
  "my_connect parse_dsn open_db ping cfg m =
     (let d0 = trim_space (cs_connection cfg);
          d1 = (if d0 = [] then trim_space (cs_url cfg) else d0) in
      if d1 = [] then (Some (ErrMsg ''mysql source: connection is required''), m)
      else case (if has_prefix d1 ''mysql://'' then mysql_url_to_dsn d1 else Inr d1) of
             Inl e \<Rightarrow> (Some e, m)
           | Inr dsn \<Rightarrow>
               (case parse_dsn dsn of
                  Inl e \<Rightarrow> (Some (ErrWrap ''mysql source: invalid dsn'' e), m)
                | Inr name \<Rightarrow>
                    if cs_table cfg = [] \<and> cs_query cfg = []
                    then (Some (ErrMsg ''mysql source: table or query is required''), m)
                    else (case open_db dsn of
                            Some e \<Rightarrow> (Some e, m)
                          | None \<Rightarrow>
                              (case ping dsn of
                                 Some e \<Rightarrow> (Some (ErrWrap ''mysql source: ping'' e), m)
                               | None \<Rightarrow> (None, \<lparr>my_cfg = cfg, my_db = True, my_db_name = name\<rparr>)))))"

definition my_close :: "(unit \<Rightarrow> go_error option) \<Rightarrow> my_source \<Rightarrow> go_error option \<times> my_source" where
  "my_close close_db m = (if my_db m then (close_db (), m\<lparr>my_db := False\<rparr>) else (None, m))"

subsection \<open>The schema\<close>

record mysql_column =
  mc_name :: string
  mc_type :: string
  mc_pk :: bool

definition my_watermark_column :: "conn_source \<Rightarrow> string" where
  "my_watermark_column cfg =
     (let v = trim_space (cs_watermark cfg) in if v \<noteq> [] then v else ''updated_at'')"

definition my_snapshot_mode :: "conn_source \<Rightarrow> bool" where
  "my_snapshot_mode cfg \<longleftrightarrow> to_lower (trim_space (cs_watermark cfg)) = ''none''"

definition my_introspect ::
  "'w my_env \<Rightarrow> my_source \<Rightarrow> string \<Rightarrow> 'w ext \<Rightarrow> mysql_column list res \<times> 'w ext" where
  "my_introspect x m table s =
     (case mx_columns x (my_db_name m) table (xs_world s) of
        (Inl e, w) \<Rightarrow> (Inl e, s\<lparr>xs_world := w\<rparr>)
      | (Inr a, w) \<Rightarrow>
          (case scan_answer a of
             Inl e \<Rightarrow> (Inl e, s\<lparr>xs_world := w\<rparr>)
           | Inr infos \<Rightarrow>
               let excluded = map (\<lambda>c. to_lower (trim_space c)) (cs_exclude (my_cfg m));
                   cols = filter (\<lambda>c. to_lower (mc_name c) \<notin> set excluded)
                     (map (\<lambda>(n, t, k). \<lparr>mc_name = n, mc_type = t, mc_pk = k\<rparr>) infos)
               in (if cols = []
                   then (Inl (ErrMsg (''mysql source: table '' @ quote_q table
                           @ '' not found or has no visible columns'')), s\<lparr>xs_world := w\<rparr>)
                   else (Inr cols, s\<lparr>xs_world := w\<rparr>))))"

definition mysql_time_types :: "string list" where
  "mysql_time_types = [''timestamp'', ''datetime'', ''date'']"

definition mysql_int_types :: "string list" where
  "mysql_int_types = [''tinyint'', ''smallint'', ''mediumint'', ''int'', ''bigint'']"

definition my_validate_watermark :: "conn_source \<Rightarrow> mysql_column list \<Rightarrow> go_error option" where
  "my_validate_watermark cfg cols =
     (let w = my_watermark_column cfg in
      if my_snapshot_mode cfg then None
      else case find (\<lambda>c. mc_name c = w) cols of
             None \<Rightarrow> Some (wm_missing_error ''mysql'' ''time'' w (cs_table cfg))
           | Some c \<Rightarrow>
               if to_lower (mc_type c) \<in> set mysql_int_types then Some (wm_int_error ''mysql'' w)
               else if to_lower (mc_type c) \<notin> set mysql_time_types
                 then Some (wm_type_error ''mysql'' ''timestamp/datetime/date'' w (mc_type c))
               else None)"

definition my_cursor_kind :: "'w my_env \<Rightarrow> my_source \<Rightarrow> 'w ext \<Rightarrow> string res \<times> 'w ext" where
  "my_cursor_kind x m s =
     (let cfg = my_cfg m in
      if my_snapshot_mode cfg then (Inr ''snapshot'', s)
      else if trim_space (cs_query cfg) \<noteq> [] then (Inr ''time'', s)
      else case my_introspect x m (cs_table cfg) s of
             (Inl e, s1) \<Rightarrow> (Inl e, s1)
           | (Inr cols, s1) \<Rightarrow>
               (let w = my_watermark_column cfg in
                case find (\<lambda>c. mc_name c = w) cols of
                  None \<Rightarrow> (Inl (ErrMsg (''mysql source: watermark column '' @ quote_q w
                             @ '' not found in table '' @ quote_q (cs_table cfg))), s1)
                | Some c \<Rightarrow>
                    if to_lower (mc_type c) \<in> set mysql_int_types then (Inr ''int'', s1)
                    else if to_lower (mc_type c) \<in> set mysql_time_types then (Inr ''time'', s1)
                    else (Inl (wm_type_error ''mysql'' ''timestamp/datetime/date'' w (mc_type c)), s1)))"

subsection \<open>The extraction query\<close>

definition build_mysql_extract_query :: "string \<Rightarrow> mysql_column list \<Rightarrow> string \<Rightarrow> bool \<Rightarrow> string" where
  "build_mysql_extract_query table cols col zero =
     (let q = ''SELECT '' @ join '', '' (map (\<lambda>c. quote_mysql_ident (mc_name c)) cols)
            @ '' FROM '' @ quote_mysql_ident table;
          wm = quote_mysql_ident col in
      if col = [] then q
      else (if zero then q @ '' WHERE '' @ wm @ '' <= ?''
            else q @ '' WHERE '' @ wm @ '' > ? AND '' @ wm @ '' <= ?'') @ '' ORDER BY '' @ wm)"

definition extract_args :: "conn_source \<Rightarrow> go_time \<Rightarrow> go_time \<Rightarrow> sql_arg list" where
  "extract_args cfg wm end_t =
     (if my_snapshot_mode cfg then []
      else if is_zero wm then [ATime end_t] else [ATime wm, ATime end_t])"

definition my_source_name :: "conn_source \<Rightarrow> string" where
  "my_source_name cfg =
     (if trim_space (cs_query cfg) \<noteq> [] then ''mysql.custom_query'' else ''mysql.'' @ cs_table cfg)"

subsection \<open>Rows\<close>

definition my_payload :: "string list \<Rightarrow> my_value list \<Rightarrow> payload" where
  "my_payload cols vs = foldl (\<lambda>d (c, v). aput c (convert_mysql_value v) d) [] (zip cols vs)"

definition my_row ::
  "'w my_env \<Rightarrow> conn_source \<Rightarrow> string list \<Rightarrow> string list \<Rightarrow> go_time \<Rightarrow> nat \<Rightarrow> my_value list \<Rightarrow> row" where
  "my_row x cfg cols pks wm k vs =
     (let d = my_payload cols vs in
      \<lparr>row_id = mx_uuid x k, row_source = my_source_name cfg, row_pipeline = [],
       row_key = (if pks \<noteq> [] then join '','' (map (key_part d) pks) else mx_uuid x k), row_data = d,
       row_extracted = mx_now x k, row_watermark = wm, row_meta = [], row_ctx = False\<rparr>)"

text \<open>\<open>Scan\<close> wants as many values as columns.\<close>

definition scan_values :: "string list \<Rightarrow> my_value list \<Rightarrow> go_error option" where
  "scan_values cols vs =
     (if length vs = length cols then None
      else Some (ErrMsg (''sql: expected '' @ dec_nat (length vs) @ '' destination arguments in Scan, not ''
             @ dec_nat (length cols))))"

definition my_streamed_row ::
  "'w my_env \<Rightarrow> conn_source \<Rightarrow> string list \<Rightarrow> string list \<Rightarrow> string \<Rightarrow> nat \<Rightarrow> my_value list \<Rightarrow> row res" where
  "my_streamed_row x cfg cols pks col k vs =
     (case scan_values cols vs of
        Some e \<Rightarrow> Inl e
      | None \<Rightarrow>
          Inr (my_row x cfg cols pks
                 (case alookup (my_payload cols vs) col of Some (GTime t) \<Rightarrow> t | _ \<Rightarrow> time_zero) k vs))"

definition my_extract_custom ::
  "'w my_env \<Rightarrow> my_source \<Rightarrow> go_time \<Rightarrow> go_time \<Rightarrow> 'w ext \<Rightarrow> go_error option \<times> 'w ext" where
  "my_extract_custom x m wm end_t s =
     (let q = cs_query (my_cfg m); n = length (filter (\<lambda>c. c = CHR ''?'') q);
          args = (if n = 2 then [ATime wm, ATime end_t] else if n = 1 then [ATime end_t] else []) in
      case mx_query x q args (xs_world s) of
        (Inl e, w) \<Rightarrow> (Some e, s\<lparr>xs_world := w\<rparr>)
      | (Inr a, w) \<Rightarrow>
          (case stream_answer (my_streamed_row x (my_cfg m) (an_fields a) [] (my_watermark_column (my_cfg m))) a
                  (s\<lparr>xs_world := w\<rparr>) of
             ((n, e), s1) \<Rightarrow> (e, s1)))"

definition my_extract ::
  "'w my_env \<Rightarrow> my_source \<Rightarrow> go_time \<Rightarrow> go_time \<Rightarrow> 'w ext \<Rightarrow> go_error option \<times> 'w ext" where
  "my_extract x m wm end_t s =
     (let cfg = my_cfg m in
      if \<not> my_db m then (Some (ErrMsg ''mysql source: not connected''), s)
      else if trim_space (cs_query cfg) \<noteq> [] then my_extract_custom x m wm end_t s
      else case my_introspect x m (cs_table cfg) s of
             (Inl e, s1) \<Rightarrow> (Some e, s1)
           | (Inr cols, s1) \<Rightarrow>
               (case my_validate_watermark cfg cols of
                  Some e \<Rightarrow> (Some e, s1)
                | None \<Rightarrow>
                    let col = (if my_snapshot_mode cfg then [] else my_watermark_column cfg);
                        q = build_mysql_extract_query (cs_table cfg) cols col (is_zero wm) in
                    case mx_query x q (extract_args cfg wm end_t) (xs_world s1) of
                      (Inl e, w) \<Rightarrow> (Some e, s1\<lparr>xs_world := w\<rparr>)
                    | (Inr a, w) \<Rightarrow>
                        (case stream_answer
                                (my_streamed_row x cfg (map mc_name cols) (map mc_name (filter mc_pk cols)) col) a
                                (s1\<lparr>xs_world := w\<rparr>) of
                           ((n, e), s2) \<Rightarrow> (e, s2))))"

subsection \<open>The numeric cursor\<close>

definition my_numeric_query :: "conn_source \<Rightarrow> mysql_column list \<Rightarrow> string" where
  "my_numeric_query cfg cols =
     (let c = quote_mysql_ident (my_watermark_column cfg) in
      ''SELECT '' @ join '', '' (map (\<lambda>c. quote_mysql_ident (mc_name c)) cols) @ '' FROM ''
        @ quote_mysql_ident (cs_table cfg) @ '' WHERE '' @ c @ '' > ? ORDER BY '' @ c @ '' ASC LIMIT ?'')"

fun my_numeric_rows ::
  "'w my_env \<Rightarrow> conn_source \<Rightarrow> mysql_column list \<Rightarrow> my_value list res list \<Rightarrow> int \<Rightarrow> int \<Rightarrow> 'w ext
     \<Rightarrow> (int \<times> int \<times> go_error option) \<times> 'w ext" where
  "my_numeric_rows x cfg cols [] n cur0 s = ((n, cur0, None), s)"
| "my_numeric_rows x cfg cols (Inl e # rs) n cur0 s = ((n, cur0, Some e), s)"
| "my_numeric_rows x cfg cols (Inr v # rs) n cur0 s =
     (let names = map mc_name cols; c = my_watermark_column cfg;
          r = my_row x cfg names (map mc_name (filter mc_pk cols)) time_zero (xs_made s) v in
      case scan_values names v of
        Some e \<Rightarrow> ((n, cur0, Some e), s)
      | None \<Rightarrow>
          (case to_cursor_int (case alookup (row_data r) c of Some g \<Rightarrow> g | None \<Rightarrow> GNil) of
             None \<Rightarrow> ((n, cur0, Some (not_integer_error ''mysql'' c (row_data r))), s)
           | Some cur \<Rightarrow>
               (case ext_send r (s\<lparr>xs_made := Suc (xs_made s)\<rparr>) of
                  (Some e, s1) \<Rightarrow> ((n, cur0, Some e), s1)
                | (None, s1) \<Rightarrow> my_numeric_rows x cfg cols rs (n + 1) cur s1)))"

fun my_numeric_pages ::
  "nat \<Rightarrow> 'w my_env \<Rightarrow> conn_source \<Rightarrow> mysql_column list \<Rightarrow> int \<Rightarrow> int \<Rightarrow> int \<Rightarrow> 'w ext
     \<Rightarrow> ((int \<times> go_error option) \<times> 'w ext) option" where
  "my_numeric_pages 0 x cfg cols most emitted cur0 s = None"
| "my_numeric_pages (Suc fuel) x cfg cols most emitted cur0 s =
     (case ext_poll s of
        (True, s1) \<Rightarrow> Some ((cur0, Some ErrCanceled), s1)
      | (False, s1) \<Rightarrow>
          let b = batch_size cfg; page = (if most > 0 \<and> most - emitted < b then most - emitted else b) in
          if page \<le> 0 then Some ((cur0, None), s1)
          else case mx_query x (my_numeric_query cfg cols) [AInt cur0, AInt page] (xs_world s1) of
                 (Inl e, w) \<Rightarrow> Some ((cur0, Some e), s1\<lparr>xs_world := w\<rparr>)
               | (Inr a, w) \<Rightarrow>
                   (case my_numeric_rows x cfg cols (an_rows a) 0 cur0 (s1\<lparr>xs_world := w\<rparr>) of
                      ((n, cur2, Some e), s3) \<Rightarrow> Some ((cur2, Some e), s3)
                    | ((n, cur2, None), s3) \<Rightarrow>
                        (case an_err a of
                           Some e \<Rightarrow> Some ((cur2, Some e), s3)
                         | None \<Rightarrow>
                             if n < b \<or> most > 0 \<and> emitted + n \<ge> most then Some ((cur2, None), s3)
                             else my_numeric_pages fuel x cfg cols most (emitted + n) cur2 s3)))"

definition my_extract_numeric ::
  "nat \<Rightarrow> 'w my_env \<Rightarrow> my_source \<Rightarrow> int \<Rightarrow> int \<Rightarrow> 'w ext \<Rightarrow> ((int \<times> go_error option) \<times> 'w ext) option" where
  "my_extract_numeric fuel x m cursor most s =
     (if \<not> my_db m then Some ((cursor, Some (ErrMsg ''mysql source: not connected'')), s)
      else case my_introspect x m (cs_table (my_cfg m)) s of
             (Inl e, s1) \<Rightarrow> Some ((cursor, Some e), s1)
           | (Inr cols, s1) \<Rightarrow> my_numeric_pages fuel x (my_cfg m) cols most 0 cursor s1)"

subsection \<open>The window\<close>

text \<open>
  A server over a fixed table: to the extraction query with an upper bound, and a lower one, it
  answers the rows in between in the order of their time; a row without a time (NULL) is never
  within bounds.
\<close>

definition in_bounds :: "go_time \<Rightarrow> go_time \<Rightarrow> go_time option \<Rightarrow> bool" where
  "in_bounds wm end_t t = (case t of None \<Rightarrow> False | Some u \<Rightarrow> (is_zero wm \<or> wm < u) \<and> u \<le> end_t)"

definition serves_window ::
  "'w my_env \<Rightarrow> conn_source \<Rightarrow> mysql_column list \<Rightarrow> (my_value list \<Rightarrow> go_time option) \<Rightarrow> my_value list list \<Rightarrow> bool" where
  "serves_window x cfg cols tm tab \<longleftrightarrow>
     (\<forall>wm end_t w. \<exists>ord w'. mset ord = mset (filter (\<lambda>v. in_bounds wm end_t (tm v)) tab)
        \<and> mx_query x (build_mysql_extract_query (cs_table cfg) cols (my_watermark_column cfg) (is_zero wm))
            (extract_args cfg wm end_t) w
          = (Inr \<lparr>an_fields = map mc_name cols, an_rows = map Inr ord, an_err = None\<rparr>, w'))"

lemma made_my_rows:
  "\<forall>v \<in> set vs. length v = length cols \<Longrightarrow>
   \<exists>rs. made_rows (my_streamed_row x cfg cols pks col) k vs = Inr rs \<and> map row_data rs = map (my_payload cols) vs"
proof (induction vs arbitrary: k)
  case (Cons v vs)
  then obtain rs where "made_rows (my_streamed_row x cfg cols pks col) (Suc k) vs = Inr rs"
    "map row_data rs = map (my_payload cols) vs" by fastforce
  moreover obtain r where "my_streamed_row x cfg cols pks col k v = Inr r" "row_data r = my_payload cols v"
    using Cons.prems by (auto simp: my_streamed_row_def scan_values_def my_row_def Let_def)
  ultimately show ?case by (intro exI [of _ "r # rs"]) simp
qed simp

lemma my_extract_window:
  fixes s :: "'w ext"
  assumes "my_db m" "trim_space (cs_query (my_cfg m)) = []" "\<not> my_snapshot_mode (my_cfg m)"
    and "my_introspect x m (cs_table (my_cfg m)) s = (Inr cols, s\<lparr>xs_world := w\<rparr>)"
    and "my_validate_watermark (my_cfg m) cols = None"
    and "serves_window x (my_cfg m) cols tm tab" "\<forall>v \<in> set tab. length v = length cols"
    and "xs_ctx s = None" "xs_out s = []"
  shows "\<exists>s'. my_extract x m wm end_t s = (None, s')
      \<and> image_mset row_data (mset (xs_out s'))
        = image_mset (my_payload (map mc_name cols)) (mset (filter (\<lambda>v. in_bounds wm end_t (tm v)) tab))"
proof -
  obtain ord w' where o: "mset ord = mset (filter (\<lambda>v. in_bounds wm end_t (tm v)) tab)"
    "mx_query x (build_mysql_extract_query (cs_table (my_cfg m)) cols (my_watermark_column (my_cfg m)) (is_zero wm))
       (extract_args (my_cfg m) wm end_t) w
      = (Inr \<lparr>an_fields = map mc_name cols, an_rows = map Inr ord, an_err = None\<rparr>, w')"
    using assms(6) unfolding serves_window_def by blast
  have "set ord \<subseteq> set tab" using o(1) by (metis mset_eq_setD filter_is_subset)
  then have "\<forall>v \<in> set ord. length v = length (map mc_name cols)" using assms(7) by auto
  from made_my_rows [OF this] obtain rs where
    r: "made_rows (my_streamed_row x (my_cfg m) (map mc_name cols) (map mc_name (filter mc_pk cols))
          (my_watermark_column (my_cfg m))) (xs_made s) ord = Inr rs"
       "map row_data rs = map (my_payload (map mc_name cols)) ord" by blast
  have "image_mset row_data (mset rs) = image_mset (my_payload (map mc_name cols)) (mset ord)"
    using r(2) by (metis mset_map)
  then show ?thesis
    using assms(1-5,8,9) o r(1)
    by (simp add: my_extract_def Let_def stream_answer_live)
qed


definition sample_my_source :: my_source where
  "sample_my_source = \<lparr>my_cfg = sample_source_cfg 10, my_db = True, my_db_name = ''crm''\<rparr>"

definition sample_my_time :: "my_value list \<Rightarrow> go_time option" where
  "sample_my_time v = (case v of [_, MyGo (GTime t)] \<Rightarrow> Some t | _ \<Rightarrow> None)"

definition sample_my_env :: "my_value list list \<Rightarrow> unit my_env" where
  "sample_my_env tab =
     \<lparr>mx_columns = \<lambda>_ _ w. (Inr \<lparr>an_fields = [], an_rows = [Inr (''id'', ''bigint'', True),
          Inr (''updated_at'', ''datetime'', False)], an_err = None\<rparr>, w),
      mx_query = \<lambda>q args w. (Inr \<lparr>an_fields = [''id'', ''updated_at''], an_rows = map Inr (filter
          (\<lambda>v. case args of [ATime e] \<Rightarrow> in_bounds time_zero e (sample_my_time v)
             | [ATime b, ATime e] \<Rightarrow> in_bounds b e (sample_my_time v) | _ \<Rightarrow> True) tab), an_err = None\<rparr>, w),
      mx_uuid = \<lambda>_. ''u'', mx_now = \<lambda>_. 0\<rparr>"

lemma sample_my_env_serves: "\<not> my_snapshot_mode cfg \<Longrightarrow>
    map mc_name cols = [''id'', ''updated_at''] \<Longrightarrow> serves_window (sample_my_env tab) cfg cols sample_my_time tab"
  unfolding serves_window_def
  by (intro allI exI conjI, rule refl)
     (auto simp: sample_my_env_def extract_args_def in_bounds_def is_zero_def split: option.splits)


end
