(* ===== verification/Json.thy ===== *)
theory Json
  imports Go_Time Sqlite_Store
begin

section \<open>Reading JSON: encoding/json as the program decodes it\<close>

text \<open>
  The texts that \<open>json.Unmarshal\<close> and a decoder accept, as a value that keeps number texts and
  the order of object members (\<open>jval\<close>), and the conversion to dynamic values, where a number is a
  \<open>float64\<close> and the last of several equal keys wins. The parser gets one unit of fuel per byte,
  and the lemmas show that this is enough. Strings are taken to be valid UTF-8; the depth limit of
  the library (10000) is not modelled.
\<close>

datatype jval =
    JNull
  | JBool bool
  | JNum string
  | JStr string
  | JArr "jval list"
  | JObj "(string \<times> jval) list"

subsection \<open>Tokens\<close>

definition json_space :: "char \<Rightarrow> bool" where
  "json_space c \<longleftrightarrow> c \<in> {CHR '' '', CHR 0x09, CHR 0x0A, CHR 0x0D}"

definition skip_space :: "string \<Rightarrow> string" where
  "skip_space s = dropWhile json_space s"

definition hex_value :: "char \<Rightarrow> nat option" where
  "hex_value c =
     (let n = (of_char c :: nat) in
      if 48 \<le> n \<and> n \<le> 57 then Some (n - 48)
      else if 97 \<le> n \<and> n \<le> 102 then Some (n - 87)
      else if 65 \<le> n \<and> n \<le> 70 then Some (n - 55) else None)"

definition hex4 :: "char \<Rightarrow> char \<Rightarrow> char \<Rightarrow> char \<Rightarrow> nat option" where
  "hex4 a b c d =
     (case (hex_value a, hex_value b, hex_value c, hex_value d) of
        (Some w, Some x, Some y, Some z) \<Rightarrow> Some (((w * 16 + x) * 16 + y) * 16 + z)
      | _ \<Rightarrow> None)"

text \<open>The UTF-8 encoding of a code point; a surrogate becomes the replacement character.\<close>

definition utf8 :: "nat \<Rightarrow> string" where
  "utf8 n =
     (if n < 128 then [char_of n]
      else if n < 2048 then [char_of (192 + n div 64), char_of (128 + n mod 64)]
      else if 55296 \<le> n \<and> n < 57344 then [CHR 0xEF, CHR 0xBF, CHR 0xBD]
      else if n < 65536 then [char_of (224 + n div 4096), char_of (128 + n div 64 mod 64), char_of (128 + n mod 64)]
      else [char_of (240 + n div 262144), char_of (128 + n div 4096 mod 64), char_of (128 + n div 64 mod 64),
            char_of (128 + n mod 64)])"

definition simple_escape :: "char \<Rightarrow> char option" where
  "simple_escape c =
     (if c \<in> {CHR 0x22, CHR 0x5C, CHR ''/''} then Some c
      else if c = CHR ''b'' then Some CHR 0x08
      else if c = CHR ''f'' then Some CHR 0x0C
      else if c = CHR ''n'' then Some CHR 0x0A
      else if c = CHR ''r'' then Some CHR 0x0D
      else if c = CHR ''t'' then Some CHR 0x09 else None)"

text \<open>A pair of escaped surrogates, if there is one at the start.\<close>

definition low_surrogate :: "string \<Rightarrow> nat option" where
  "low_surrogate s =
     (case s of
        b # u # h1 # h2 # h3 # h4 # _ \<Rightarrow>
          if b = CHR 0x5C \<and> u = CHR ''u'' then
            (case hex4 h1 h2 h3 h4 of Some n \<Rightarrow> if 56320 \<le> n \<and> n < 57344 then Some n else None | None \<Rightarrow> None)
          else None
      | _ \<Rightarrow> None)"

text \<open>The rest of a string behind its opening quote.\<close>

function json_string_body :: "string \<Rightarrow> (string \<times> string) option" where
  "json_string_body [] = None"
| "json_string_body (c # s) =
     (if c = CHR 0x22 then Some ([], s)
      else if (of_char c :: nat) < 32 then None
      else if c \<noteq> CHR 0x5C then map_option (\<lambda>(a, r). (c # a, r)) (json_string_body s)
      else case s of
             [] \<Rightarrow> None
           | e # t \<Rightarrow>
               if e = CHR ''u'' then
                 (case t of
                    h1 # h2 # h3 # h4 # r \<Rightarrow>
                      (case hex4 h1 h2 h3 h4 of
                         None \<Rightarrow> None
                       | Some n \<Rightarrow>
                           (case (if 55296 \<le> n \<and> n < 56320 then low_surrogate r else None) of
                              Some m \<Rightarrow> map_option (\<lambda>(a, q). (utf8 (65536 + (n - 55296) * 1024 + (m - 56320)) @ a, q))
                                          (json_string_body (drop 6 r))
                            | None \<Rightarrow> map_option (\<lambda>(a, q). (utf8 n @ a, q)) (json_string_body r)))
                  | _ \<Rightarrow> None)
               else (case simple_escape e of
                       Some d \<Rightarrow> map_option (\<lambda>(a, r). (d # a, r)) (json_string_body t)
                     | None \<Rightarrow> None))"
  by pat_completeness auto
termination
  by (relation "measure length") auto

declare json_string_body.simps [simp del]

text \<open>Numbers: the longest text of the grammar at the start.\<close>

definition digits1 :: "string \<Rightarrow> (string \<times> string) option" where
  "digits1 s = (let d = takeWhile is_digit s in if d = [] then None else Some (d, dropWhile is_digit s))"

definition num_int :: "string \<Rightarrow> (string \<times> string) option" where
  "num_int s = (if s \<noteq> [] \<and> hd s = CHR ''0'' then Some ([hd s], tl s) else digits1 s)"

definition num_frac :: "string \<Rightarrow> (string \<times> string) option" where
  "num_frac s =
     (if s \<noteq> [] \<and> hd s = CHR ''.'' then map_option (\<lambda>(d, r). (CHR ''.'' # d, r)) (digits1 (tl s))
      else Some ([], s))"

definition num_exp :: "string \<Rightarrow> (string \<times> string) option" where
  "num_exp s =
     (if s \<noteq> [] \<and> hd s \<in> {CHR ''e'', CHR ''E''} then
        (let t = tl s; sg = (if t \<noteq> [] \<and> hd t \<in> {CHR ''+'', CHR ''-''} then [hd t] else []) in
         map_option (\<lambda>(d, r). (hd s # sg @ d, r)) (digits1 (drop (length sg) t)))
      else Some ([], s))"

definition json_number :: "string \<Rightarrow> (string \<times> string) option" where
  "json_number s =
     (let sg = (if s \<noteq> [] \<and> hd s = CHR ''-'' then [hd s] else []) in
      case num_int (drop (length sg) s) of
        None \<Rightarrow> None
      | Some (a, r1) \<Rightarrow>
          (case num_frac r1 of
             None \<Rightarrow> None
           | Some (b, r2) \<Rightarrow>
               (case num_exp r2 of None \<Rightarrow> None | Some (c, r3) \<Rightarrow> Some (sg @ a @ b @ c, r3))))"

subsection \<open>Values\<close>

definition json_literal :: "string \<Rightarrow> (jval \<times> string) option" where
  "json_literal s =
     (if has_prefix s ''null'' then Some (JNull, drop 4 s)
      else if has_prefix s ''true'' then Some (JBool True, drop 4 s)
      else if has_prefix s ''false'' then Some (JBool False, drop 5 s)
      else map_option (\<lambda>(d, r). (JNum d, r)) (json_number s))"

text \<open>
  A value, the elements of an array behind its bracket or comma, and the members of an object
  likewise.
\<close>

fun json_val :: "nat \<Rightarrow> string \<Rightarrow> (jval \<times> string) option"
and json_elems :: "nat \<Rightarrow> string \<Rightarrow> (jval list \<times> string) option"
and json_members :: "nat \<Rightarrow> string \<Rightarrow> ((string \<times> jval) list \<times> string) option" where
  "json_val 0 s = None"
| "json_val (Suc k) s =
     (case skip_space s of
        [] \<Rightarrow> None
      | c # t \<Rightarrow>
          if c = CHR 0x22 then map_option (\<lambda>(a, r). (JStr a, r)) (json_string_body t)
          else if c = CHR ''['' then
            (let u = skip_space t in
             if u \<noteq> [] \<and> hd u = CHR '']'' then Some (JArr [], tl u)
             else map_option (\<lambda>(xs, r). (JArr xs, r)) (json_elems k t))
          else if c = CHR ''{'' then
            (let u = skip_space t in
             if u \<noteq> [] \<and> hd u = CHR ''}'' then Some (JObj [], tl u)
             else map_option (\<lambda>(m, r). (JObj m, r)) (json_members k t))
          else json_literal (c # t))"
| "json_elems 0 s = None"
| "json_elems (Suc k) s =
     (case json_val k s of
        None \<Rightarrow> None
      | Some (x, r) \<Rightarrow>
          (case skip_space r of
             [] \<Rightarrow> None
           | c # t \<Rightarrow>
               if c = CHR '']'' then Some ([x], t)
               else if c = CHR '','' then map_option (\<lambda>(xs, q). (x # xs, q)) (json_elems k t)
               else None))"
| "json_members 0 s = None"
| "json_members (Suc k) s =
     (case skip_space s of
        [] \<Rightarrow> None
      | c # t \<Rightarrow>
          if c \<noteq> CHR 0x22 then None
          else case json_string_body t of
                 None \<Rightarrow> None
               | Some (key, r) \<Rightarrow>
                   (case skip_space r of
                      [] \<Rightarrow> None
                    | c2 # t2 \<Rightarrow>
                        if c2 \<noteq> CHR '':'' then None
                        else case json_val k t2 of
                               None \<Rightarrow> None
                             | Some (x, r2) \<Rightarrow>
                                 (case skip_space r2 of
                                    [] \<Rightarrow> None
                                  | c3 # t3 \<Rightarrow>
                                      if c3 = CHR ''}'' then Some ([(key, x)], t3)
                                      else if c3 = CHR '','' then
                                        map_option (\<lambda>(m, q). ((key, x) # m, q)) (json_members k t3)
                                      else None)))"

definition json_parse :: "string \<Rightarrow> jval option" where
  "json_parse s =
     (case json_val (2 * length s) s of
        Some (v, r) \<Rightarrow> if skip_space r = [] then Some v else None
      | None \<Rightarrow> None)"

subsection \<open>Dynamic values\<close>

text \<open>The value of a number text, and its nearest double; an overflow is an error.\<close>

definition num_abs :: "string \<Rightarrow> rat" where
  "num_abs t =
     (let m = takeWhile (\<lambda>c. c \<noteq> CHR ''e'' \<and> c \<noteq> CHR ''E'') t; e = drop (length m + 1) t;
          ip = takeWhile is_digit m; fp = drop (length ip + 1) m;
          ex = (case e of [] \<Rightarrow> 0
                | c # ds \<Rightarrow> if c = CHR ''-'' then - read_int ds
                            else if c = CHR ''+'' then read_int ds else read_int e)
      in of_int (read_int (ip @ fp)) * pow10 (ex - int (length fp)))"

definition num_rat :: "string \<Rightarrow> rat" where
  "num_rat s = (if s \<noteq> [] \<and> hd s = CHR ''-'' then - num_abs (tl s) else num_abs s)"

definition num_f64 :: "string \<Rightarrow> f64 option" where
  "num_f64 s = (case f64_of_rat (num_rat s) of FFin q \<Rightarrow> Some (FFin q) | _ \<Rightarrow> None)"

fun json_any :: "jval \<Rightarrow> gval option" where
  "json_any JNull = Some GNil"
| "json_any (JBool b) = Some (GBool b)"
| "json_any (JNum d) = map_option GFloat (num_f64 d)"
| "json_any (JStr s) = Some (GStr s)"
| "json_any (JArr xs) = map_option GList (all_some (map json_any xs))"
| "json_any (JObj m) =
     map_option (\<lambda>vs. GMap (foldl (\<lambda>d (k, v). aput k v d) [] (zip (map fst m) vs)))
       (all_some (map (\<lambda>(k, v). json_any v) m))"

definition json_decode :: "string \<Rightarrow> gval option" where
  "json_decode s = (case json_parse s of None \<Rightarrow> None | Some v \<Rightarrow> json_any v)"

text \<open>
  The member of an object that a struct field receives: the names are compared without case, and
  the last member wins.
\<close>

definition json_field :: "string \<Rightarrow> (string \<times> jval) list \<Rightarrow> jval option" where
  "json_field name m = alookup (rev (map (\<lambda>(k, v). (to_lower k, v)) m)) name"

section \<open>Reading back what json.Marshal writes\<close>

subsection \<open>Strings\<close>

lemma hex_value_digit [simp]: "n < 16 \<Longrightarrow> hex_value (hex_digit n) = Some n"
proof (cases "n < 10")
  case True
  then have "int (of_char (hex_digit n)) = 48 + int n"
    using of_char_digit_char [of "int n"] by (simp add: hex_digit_def of_nat_of_char)
  then have "(of_char (hex_digit n) :: nat) = 48 + n" by linarith
  then show ?thesis using True by (simp add: hex_value_def)
next
  case False
  assume "n < 16"
  then have "(of_char (hex_digit n) :: nat) = 87 + n" using False by (simp add: hex_digit_def)
  then show ?thesis using False \<open>n < 16\<close> by (simp add: hex_value_def)
qed

lemma hex_value_zero: "hex_value CHR ''0'' = Some 0"
  by (simp add: hex_value_def)

lemma json_string_plain:
  "c \<noteq> CHR 0x22 \<Longrightarrow> c \<noteq> CHR 0x5C \<Longrightarrow> \<not> (of_char c :: nat) < 32 \<Longrightarrow>
   json_string_body (c # s) = map_option (\<lambda>(a, r). (c # a, r)) (json_string_body s)"
  by (simp add: json_string_body.simps(2) [of c s])

lemma json_string_escaped:
  "e \<noteq> CHR ''u'' \<Longrightarrow> simple_escape e = Some d \<Longrightarrow>
   json_string_body (CHR 0x5C # e # s) = map_option (\<lambda>(a, r). (d # a, r)) (json_string_body s)"
  by (simp add: json_string_body.simps(2) [of "CHR 0x5C" "e # s"])

lemma json_string_unicode:
  "n < 128 \<Longrightarrow> json_string_body (CHR 0x5C # ''u00'' @ hex_digit (n div 16) # hex_digit (n mod 16) # s)
     = map_option (\<lambda>(a, r). (char_of n # a, r)) (json_string_body s)"
  by (simp add: json_string_body.simps(2) [of "CHR 0x5C"] hex4_def hex_value_zero utf8_def)

lemma of_char_nat_eq: "(of_char c :: nat) = n \<Longrightarrow> c = char_of n"
  by (metis char_of_char)

lemma char_codes:
  "char_of (34::nat) = CHR 0x22" "char_of (92::nat) = CHR 0x5C" "char_of (8::nat) = CHR 0x08"
  "char_of (12::nat) = CHR 0x0C" "char_of (10::nat) = CHR 0x0A" "char_of (13::nat) = CHR 0x0D"
  "char_of (9::nat) = CHR 0x09" "char_of (48::int) = CHR ''0''"
  by (simp_all add: char_of_eq_iff)

lemma json_string_escape:
  "json_string_body (json_escape c @ s) = map_option (\<lambda>(a, r). (c # a, r)) (json_string_body s)"
proof -
  define n where "n = (of_char c :: nat)"
  have c: "c = char_of n" by (simp add: n_def)
  consider "n \<in> {34, 92, 8, 12, 10, 13, 9}"
    | "n \<notin> {34, 92, 8, 12, 10, 13, 9}" "n < 32 \<or> n = 60 \<or> n = 62 \<or> n = 38"
    | "n \<notin> {34, 92, 8, 12, 10, 13, 9}" "\<not> (n < 32 \<or> n = 60 \<or> n = 62 \<or> n = 38)" by blast
  then show ?thesis
  proof cases
    case 1
    then show ?thesis
      by (auto simp: json_escape_def Let_def c json_string_escaped simple_escape_def char_codes)
  next
    case 2
    then have "json_escape c = CHR 0x5C # ''u00'' @ [hex_digit (n div 16), hex_digit (n mod 16)]"
      by (auto simp: json_escape_def Let_def n_def)
    moreover have "n < 128" using 2 by auto
    ultimately show ?thesis using json_string_unicode [of n s] by (simp add: c)
  next
    case 3
    then have "json_escape c = [c]" by (simp add: json_escape_def Let_def n_def)
    moreover have "c \<noteq> CHR 0x22" "c \<noteq> CHR 0x5C" using 3 by (auto simp: n_def)
    ultimately show ?thesis using 3 by (simp add: json_string_plain n_def)
  qed
qed

lemma json_string_body_escaped: "json_string_body (concat (map json_escape s) @ CHR 0x22 # r) = Some (s, r)"
proof (induction s)
  case Nil
  show ?case by (simp add: json_string_body.simps)
qed (simp add: json_string_escape)

subsection \<open>Numbers\<close>

lemma dec_pos_leading: "0 < n \<Longrightarrow> hd (dec_pos n) \<noteq> CHR ''0''"
proof (induction n rule: dec_pos.induct)
  case (1 n)
  show ?case
  proof (cases "n < 10")
    case True
    have "(of_char (digit_char n) :: int) = 48 + n" using 1 True by (simp add: of_char_digit_char)
    then have "digit_char n \<noteq> CHR ''0''" using 1 by auto
    then show ?thesis using True by (simp add: dec_pos.simps [of n])
  next
    case False
    then show ?thesis using 1 by (simp add: dec_pos.simps [of n] pos_imp_zdiv_pos_iff)
  qed
qed

definition number_end :: "string \<Rightarrow> bool" where
  "number_end r \<longleftrightarrow> r = [] \<or> \<not> is_digit (hd r) \<and> hd r \<notin> {CHR ''.'', CHR ''e'', CHR ''E''}"

lemma digits_before:
  assumes "list_all is_digit d" "r = [] \<or> \<not> is_digit (hd r)"
  shows "takeWhile is_digit (d @ r) = d" "dropWhile is_digit (d @ r) = r"
  using assms by (cases r; simp add: list_all_iff)+

lemma num_int_dec:
  assumes "0 \<le> n" "number_end r"
  shows "num_int (dec_pos n @ r) = Some (dec_pos n, r)"
proof -
  have d: "list_all is_digit (dec_pos n)" using dec_pos_digits [OF assms(1)] by (auto simp: list_all_iff)
  have e: "r = [] \<or> \<not> is_digit (hd r)" using assms(2) by (auto simp: number_end_def)
  show ?thesis
  proof (cases "n = 0")
    case True
    then have "dec_pos n = ''0''" by (simp add: dec_pos.simps [of 0] digit_char_def char_codes)
    then show ?thesis by (simp add: num_int_def)
  next
    case False
    then have "hd (dec_pos n) \<noteq> CHR ''0''" using dec_pos_leading [of n] assms(1) by simp
    moreover have "hd (dec_pos n @ r) = hd (dec_pos n)" by simp
    ultimately show ?thesis
      using digits_before [OF d e] by (simp add: num_int_def digits1_def Let_def)
  qed
qed

lemma json_number_dec:
  assumes "number_end r"
  shows "json_number (dec_int i @ r) = Some (dec_int i, r)"
proof -
  have tail: "num_frac r = Some ([], r)" "num_exp r = Some ([], r)"
    using assms by (auto simp: number_end_def num_frac_def num_exp_def)
  show ?thesis
  proof (cases "i < 0")
    case True
    then show ?thesis using num_int_dec [of "- i" r] assms tail by (simp add: json_number_def dec_int_def)
  next
    case False
    then have "is_digit (hd (dec_pos i))" using dec_pos_digits [of i "hd (dec_pos i)"] by simp
    then have "hd (dec_pos i @ r) \<noteq> CHR ''-''" by (auto simp: is_digit_of_char)
    then show ?thesis using num_int_dec [of i r] assms tail False by (simp add: json_number_def dec_int_def)
  qed
qed

lemma num_abs_dec: "0 \<le> n \<Longrightarrow> num_abs (dec_pos n) = of_int n"
proof -
  assume n: "0 \<le> n"
  have d: "\<And>c. c \<in> set (dec_pos n) \<Longrightarrow> is_digit c" using dec_pos_digits [OF n] by simp
  have t: "takeWhile is_digit (dec_pos n) = dec_pos n" using d by simp
  have "c \<noteq> CHR ''e'' \<and> c \<noteq> CHR ''E''" if "c \<in> set (dec_pos n)" for c
    using d [OF that] by (auto simp: is_digit_of_char)
  then have m: "takeWhile (\<lambda>c. c \<noteq> CHR ''e'' \<and> c \<noteq> CHR ''E'') (dec_pos n) = dec_pos n" by simp
  show ?thesis using n by (simp add: num_abs_def Let_def m t pow10_def)
qed

lemma num_rat_dec: "num_rat (dec_int i) = of_int i"
proof (cases "i < 0")
  case True
  then show ?thesis using num_abs_dec [of "- i"] by (simp add: num_rat_def dec_int_def)
next
  case False
  then have "is_digit (hd (dec_pos i))" using dec_pos_digits [of i "hd (dec_pos i)"] by simp
  then have "hd (dec_pos i) \<noteq> CHR ''-''" by (auto simp: is_digit_of_char)
  then show ?thesis using num_abs_dec [of i] False by (simp add: num_rat_def dec_int_def)
qed

lemma dec_int_first: "\<exists>c t. dec_int i = c # t \<and> (c = CHR ''-'' \<or> is_digit c)"
proof (cases "i < 0")
  case False
  then show ?thesis using dec_pos_digits [of i "hd (dec_pos i)"]
    by (cases "dec_pos i") (auto simp: dec_int_def)
qed (simp add: dec_int_def)

lemma json_val_number:
  assumes "number_end r"
  shows "json_val (Suc k) (dec_int i @ r) = Some (JNum (dec_int i), r)"
proof -
  obtain c t where d: "dec_int i = c # t" "c = CHR ''-'' \<or> is_digit c" using dec_int_first by blast
  then have c: "\<not> json_space c" "c \<noteq> CHR 0x22" "c \<noteq> CHR ''[''" "c \<noteq> CHR ''{''" "c \<noteq> CHR ''n''"
    "c \<noteq> CHR ''t''" "c \<noteq> CHR ''f''"
    by (auto simp: json_space_def is_digit_of_char)
  then show ?thesis using json_number_dec [OF assms, of i]
    by (simp add: d(1) skip_space_def json_literal_def)
qed

subsection \<open>Values\<close>

text \<open>
  The values that are written and read without a choice: no floats, every integer within the
  range of a double, maps in the order of their keys (any order is printed in this one).
\<close>

fun json_plain :: "gval \<Rightarrow> bool" where
  "json_plain (GInt i) = (case f64_of_int i of FFin _ \<Rightarrow> True | _ \<Rightarrow> False)"
| "json_plain (GFloat x) = False"
| "json_plain (GMap m) = (sorted (map fst m) \<and> distinct (map fst m) \<and> list_all (\<lambda>(k, v). json_plain v) m)"
| "json_plain (GList xs) = list_all json_plain xs"
| "json_plain v = True"

fun jval_of :: "gval \<Rightarrow> jval" where
  "jval_of GNil = JNull"
| "jval_of (GBool b) = JBool b"
| "jval_of (GInt i) = JNum (dec_int i)"
| "jval_of (GFloat x) = JNull"
| "jval_of (GStr s) = JStr s"
| "jval_of (GTime t) = JStr (rfc3339_nano t)"
| "jval_of (GTimePtr p) = (case p of None \<Rightarrow> JNull | Some t \<Rightarrow> JStr (rfc3339_nano t))"
| "jval_of (GMap m) = JObj (map (\<lambda>(k, v). (k, jval_of v)) m)"
| "jval_of (GList xs) = JArr (map jval_of xs)"

lemma json_val_string: "json_val (Suc k) (json_string s @ r) = Some (JStr s, r)"
  by (simp add: skip_space_def json_string_def json_space_def json_string_body_escaped)

definition value_end :: "string \<Rightarrow> bool" where
  "value_end r \<longleftrightarrow> r = [] \<or> hd r \<in> {CHR '','', CHR '']'', CHR ''}''}"

lemma value_end_number: "value_end r \<Longrightarrow> number_end r"
  by (auto simp: value_end_def number_end_def is_digit_of_char)

definition reads :: "gval \<Rightarrow> string \<Rightarrow> bool" where
  "reads v t \<longleftrightarrow> (\<forall>k r. 2 * length t \<le> Suc k \<longrightarrow> value_end r \<longrightarrow> json_val k (t @ r) = Some (jval_of v, r)) \<and> t \<noteq> []
     \<and> \<not> json_space (hd t) \<and> hd t \<notin> {CHR '']'', CHR ''}''}"

lemma readsD:
  assumes "reads v t" "2 * length t \<le> Suc k" "value_end r"
  shows "json_val k (t @ r) = Some (jval_of v, r)"
  using assms by (auto simp: reads_def)

lemma json_elems_reads:
  "list_all2 reads vs ts \<Longrightarrow> vs \<noteq> [] \<Longrightarrow> 2 * length (join '','' ts) + 1 \<le> k \<Longrightarrow>
   json_elems k (join '','' ts @ CHR '']'' # r) = Some (map jval_of vs, r)"
proof (induction vs ts arbitrary: k rule: list_all2_induct)
  case (Cons v vs t ts)
  then obtain k' where k: "k = Suc k'" by (cases k) auto
  show ?case
  proof (cases vs)
    case Nil
    then have "ts = []" using Cons.hyps(2) by simp
    then show ?thesis using Nil k Cons.prems readsD [OF Cons.hyps(1), of k' "CHR '']'' # r"]
      by (simp add: value_end_def skip_space_def json_space_def)
  next
    case (Cons v2 vs2)
    then obtain t2 ts2 where ts: "ts = t2 # ts2" using Cons.hyps(2) by (cases ts) auto
    have "json_val k' (t @ CHR '','' # join '','' ts @ CHR '']'' # r) = Some (jval_of v, CHR '','' # join '','' ts @ CHR '']'' # r)"
      using readsD [OF Cons.hyps(1), of k' "CHR '','' # join '','' ts @ CHR '']'' # r"] Cons.prems(2) k ts
      by (simp add: value_end_def)
    moreover have "json_elems k' (join '','' ts @ CHR '']'' # r) = Some (map jval_of vs, r)"
      using Cons.IH [of k'] Cons Cons.prems(2) k ts by simp
    ultimately show ?thesis using ts k by (simp add: skip_space_def json_space_def)
  qed
qed simp

lemma json_members_reads:
  "list_all2 reads vs ts \<Longrightarrow> length ks = length vs \<Longrightarrow> vs \<noteq> [] \<Longrightarrow>
   2 * length (join '','' (map (\<lambda>(k, s). json_string k @ '':'' @ s) (zip ks ts))) + 1 \<le> n \<Longrightarrow>
   json_members n (join '','' (map (\<lambda>(k, s). json_string k @ '':'' @ s) (zip ks ts)) @ CHR ''}'' # r)
     = Some (zip ks (map jval_of vs), r)"
proof (induction vs ts arbitrary: n ks rule: list_all2_induct)
  case (Cons v vs t ts)
  then obtain n' key ks' where n: "n = Suc n'" and ks: "ks = key # ks'" by (cases n; cases ks) auto
  let ?J = "\<lambda>ks ts. join '','' (map (\<lambda>(k, s). json_string k @ '':'' @ s) (zip ks ts))"
  have key: "json_string key @ x = CHR 0x22 # concat (map json_escape key) @ CHR 0x22 # x" for x
    by (simp add: json_string_def)
  show ?case
  proof (cases vs)
    case Nil
    then have "ts = []" "ks' = []" using Cons.hyps(2) Cons.prems(1) ks by auto
    then show ?thesis
      using Nil n ks Cons.prems(3) readsD [OF Cons.hyps(1), of n' "CHR ''}'' # r"]
      by (simp add: value_end_def skip_space_def json_space_def key json_string_body_escaped json_string_def)
  next
    case (Cons v2 vs2)
    then obtain t2 ts2 k2 ks2 where ts: "ts = t2 # ts2" "ks' = k2 # ks2"
      using Cons.hyps(2) Cons.prems(1) ks by (cases ts; cases ks') auto
    have "json_val n' (t @ CHR '','' # ?J ks' ts @ CHR ''}'' # r) = Some (jval_of v, CHR '','' # ?J ks' ts @ CHR ''}'' # r)"
      using readsD [OF Cons.hyps(1), of n' "CHR '','' # ?J ks' ts @ CHR ''}'' # r"] Cons.prems(3) n ks ts
      by (simp add: value_end_def json_string_def)
    moreover have "json_members n' (?J ks' ts @ CHR ''}'' # r) = Some (zip ks' (map jval_of vs), r)"
      using Cons.IH [of ks' n'] Cons Cons.prems n ks ts by (simp add: json_string_def)
    ultimately show ?thesis using n ks ts
      by (simp add: value_end_def skip_space_def json_space_def key json_string_body_escaped)
  qed
qed simp

lemma all_some_Some: "all_some xs = Some ys \<longleftrightarrow> xs = map Some ys"
  by (induction xs arbitrary: ys rule: all_some.induct) (auto simp: Cons_eq_map_conv)

lemma reads_string: "reads v (json_string s)" if "jval_of v = JStr s"
proof -
  have "json_val k (json_string s @ r) = Some (JStr s, r)" if "2 * length (json_string s) \<le> Suc k" for k r
    using that json_val_string by (cases k) (simp_all add: json_string_def)
  then show ?thesis using that by (auto simp: reads_def json_string_def json_space_def)
qed

lemma reads_word:
  assumes "w \<in> {''null'', ''true'', ''false''}" "\<And>r. json_literal (w @ r) = Some (jval_of v, r)"
  shows "reads v w"
proof -
  obtain c u where w: "w = c # u" "c \<in> {CHR ''n'', CHR ''t'', CHR ''f''}" using assms(1) by auto
  have "json_val k (w @ r) = Some (jval_of v, r)" if "2 * length w \<le> Suc k" for k r
    using that assms(2) [of r] w by (cases k) (auto simp: skip_space_def json_space_def)
  then show ?thesis using w by (auto simp: reads_def json_space_def)
qed

lemma reads_number: "jval_of v = JNum (dec_int i) \<Longrightarrow> reads v (dec_int i)"
proof -
  assume v: "jval_of v = JNum (dec_int i)"
  obtain c u where d: "dec_int i = c # u" "c = CHR ''-'' \<or> is_digit c" using dec_int_first by blast
  have "json_val k (dec_int i @ r) = Some (JNum (dec_int i), r)" if "2 * length (dec_int i) \<le> Suc k" "value_end r" for k r
    using json_val_number [OF value_end_number [OF that(2)], of "k - 1" i] that(1) d(1) by (cases k) auto
  moreover have "\<not> json_space c \<and> c \<notin> {CHR '']'', CHR ''}''}" using d(2) by (auto simp: json_space_def is_digit_of_char)
  ultimately show ?thesis using v d by (auto simp: reads_def)
qed

lemma reads_list:
  assumes "list_all2 reads xs ts"
  shows "reads (GList xs) (''['' @ join '','' ts @ '']'')"
proof -
  have "json_val (Suc k) (''['' @ join '','' ts @ '']'' @ r) = Some (jval_of (GList xs), r)"
    if "2 * length (join '','' ts) + 1 \<le> k" for k r
  proof (cases xs)
    case Nil
    then show ?thesis using assms by (simp add: skip_space_def json_space_def)
  next
    case (Cons x xs')
    then obtain t ts' where ts: "ts = t # ts'" "reads x t" using assms by (auto simp: list_all2_Cons1)
    then obtain c u where t: "t = c # u" "\<not> json_space c" "c \<noteq> CHR '']''" by (cases t) (auto simp: reads_def)
    obtain w where "join '','' ts = c # w" using ts(1) t(1) by (cases ts') auto
    then show ?thesis
      using json_elems_reads [OF assms, of k r] that t Cons by (simp add: skip_space_def json_space_def)
  qed
  then have "json_val k ((''['' @ join '','' ts @ '']'') @ r) = Some (jval_of (GList xs), r)"
    if "2 * length (''['' @ join '','' ts @ '']'') \<le> Suc k" for k r
    using that by (cases k) simp_all
  then show ?thesis by (simp add: reads_def json_space_def)
qed

lemma reads_map:
  assumes "list_all2 reads (map snd m) ts"
  shows "reads (GMap m) (''{'' @ join '','' (map (\<lambda>(k, s). json_string k @ '':'' @ s) (zip (map fst m) ts)) @ ''}'')"
proof -
  let ?J = "join '','' (map (\<lambda>(k, s). json_string k @ '':'' @ s) (zip (map fst m) ts))"
  have z: "zip (map fst m) (map jval_of (map snd m)) = map (\<lambda>(k, v). (k, jval_of v)) m"
    by (induction m) auto
  have "json_val (Suc k) (''{'' @ ?J @ ''}'' @ r) = Some (jval_of (GMap m), r)"
    if "2 * length ?J + 1 \<le> k" for k r
  proof (cases m)
    case Nil
    then show ?thesis by (simp add: skip_space_def json_space_def)
  next
    case (Cons p m')
    then obtain t ts' where ts: "ts = t # ts'" using assms by (cases ts) auto
    obtain w where "?J = CHR 0x22 # w" using Cons ts by (cases m'; cases ts') (auto simp: json_string_def)
    then show ?thesis
      using json_members_reads [OF assms, of "map fst m" k r] that Cons z
      by (simp add: skip_space_def json_space_def)
  qed
  then have "json_val k ((''{'' @ ?J @ ''}'') @ r) = Some (jval_of (GMap m), r)"
    if "2 * length (''{'' @ ?J @ ''}'') \<le> Suc k" for k r
    using that by (cases k) simp_all
  then show ?thesis by (simp add: reads_def json_space_def)
qed

lemma list_all2_map_Some:
  "map f xs = map Some ts \<Longrightarrow> (\<And>x t. x \<in> set xs \<Longrightarrow> f x = Some t \<Longrightarrow> R x t) \<Longrightarrow> list_all2 R xs ts"
  by (induction xs arbitrary: ts) (auto simp: Cons_eq_map_conv)

lemma reads_marshal: "json_plain v \<Longrightarrow> json_marshal v = Some t \<Longrightarrow> reads v t"
proof (induction v arbitrary: t rule: json_plain.induct)
  case (3 m)
  obtain es where es: "map (\<lambda>(k, v). json_marshal v) m = map Some es"
    "t = ''{'' @ join '','' (map (\<lambda>(k, s). json_string k @ '':'' @ s) (sort_key fst (zip (map fst m) es))) @ ''}''"
    using "3.prems"(2) by (auto simp: all_some_Some)
  have len: "length es = length m" using es(1) by (metis length_map)
  have "sort_key fst (zip (map fst m) es) = zip (map fst m) es"
    by (rule sort_key_id_if_sorted) (use "3.prems"(1) len in simp)
  moreover have "list_all2 reads (map snd m) es"
  proof (rule list_all2_map_Some)
    show "map json_marshal (map snd m) = map Some es" using es(1) by (simp add: comp_def split_def)
    show "reads x u" if "x \<in> set (map snd m)" "json_marshal x = Some u" for x u
      using that "3.IH" "3.prems"(1) by (auto simp: list_all_iff)
  qed
  ultimately show ?case using reads_map [of m es] es(2) by simp
next
  case (4 xs)
  obtain es where es: "map json_marshal xs = map Some es" "t = ''['' @ join '','' es @ '']''"
    using "4.prems"(2) by (auto simp: all_some_Some)
  have "list_all2 reads xs es"
    by (rule list_all2_map_Some [OF es(1)]) (use "4.IH" "4.prems"(1) in \<open>auto simp: list_all_iff\<close>)
  then show ?case using reads_list es(2) by simp
qed (auto intro!: reads_string reads_number reads_word split: option.splits if_splits simp: json_literal_def)

subsection \<open>The text of a column\<close>

lemma aput_new: "k \<notin> fst ` set d \<Longrightarrow> aput k v d = d @ [(k, v)]"
  by (induction d) auto

lemma foldl_aput_distinct:
  "distinct (map fst d @ map fst ps) \<Longrightarrow> foldl (\<lambda>d (k, v). aput k v d) d ps = d @ ps"
proof (induction ps arbitrary: d)
  case (Cons p ps)
  have "aput (fst p) (snd p) d = d @ [p]"
    using Cons.prems aput_new [of "fst p" d "snd p"] by (cases p) auto
  then show ?case using Cons.IH [of "d @ [p]"] Cons.prems by (simp add: split_def)
qed simp

lemma json_any_jval: "json_plain v \<Longrightarrow> json_any (jval_of v) = Some (json_value v)"
proof (induction v rule: json_plain.induct)
  case (1 i)
  then show ?case by (simp add: num_f64_def num_rat_dec f64_of_int_def split: f64.splits)
next
  case (3 m)
  have v: "map (\<lambda>(k, v). json_any v) (map (\<lambda>(k, v). (k, jval_of v)) m) = map Some (map (\<lambda>(k, v). json_value v) m)"
    using 3 by (auto simp: list_all_iff)
  have "foldl (\<lambda>d (k, v). aput k v d) [] (map (\<lambda>(k, v). (k, json_value v)) m) = map (\<lambda>(k, v). (k, json_value v)) m"
    using foldl_aput_distinct [of "[]" "map (\<lambda>(k, v). (k, json_value v)) m"] 3 by (simp add: comp_def split_def)
  moreover have "zip (map fst (map (\<lambda>(k, v). (k, jval_of v)) m)) (map (\<lambda>(k, v). json_value v) m) = map (\<lambda>(k, v). (k, json_value v)) m"
    by (induction m) auto
  moreover have "all_some (map (\<lambda>(k, v). json_any v) (map (\<lambda>(k, v). (k, jval_of v)) m)) = Some (map (\<lambda>(k, v). json_value v) m)"
    unfolding v all_some_Some ..
  ultimately show ?case by (simp only: jval_of.simps json_any.simps json_value.simps option.map)
next
  case (4 xs)
  have "map json_any (map jval_of xs) = map Some (map json_value xs)" using 4 by (auto simp: list_all_iff)
  then have "all_some (map json_any (map jval_of xs)) = Some (map json_value xs)"
    by (simp only: all_some_Some)
  then show ?case by (simp only: jval_of.simps json_any.simps json_value.simps option.map)
qed (simp_all split: option.splits)



end
