(* ===== verification/Rest_Source.thy ===== *)
theory Rest_Source
  imports Source_Sql Http_Request Json
begin

section \<open>The REST API source: internal/connector/source/restapi.go\<close>

text \<open>
  One request per page, the cursor of the answer leading to the next page, each item a row. The
  client, the encoding of query parameters (package \<open>net/url\<close>), the message of the JSON decoder
  and the identifiers of rows are parameters. A cursor may never end: the loop has fuel.
\<close>

record 'w rest_source_env =
  rv_http :: "'w http_env"
  rv_set_query :: "string \<Rightarrow> (string \<times> string) list \<Rightarrow> string res"
  rv_get :: "http_request \<Rightarrow> 'w \<Rightarrow> (int \<times> string res) res \<times> 'w"
  rv_json_error :: "string \<Rightarrow> go_error"
  rv_uuid :: "nat \<Rightarrow> string"

record rest_source =
  rr_cfg :: conn_source
  rr_auth :: "authenticator option"

record 'w rest_source_world =
  rsw_token :: token_cache
  rsw_remote :: 'w

definition rs_connect :: "'w http_env \<Rightarrow> conn_source \<Rightarrow> rest_source res" where
  "rs_connect x cfg =
     (case hx_parse_uri x (cs_connection cfg) of
        Some e \<Rightarrow> Inl e
      | None \<Rightarrow>
          (case new_authenticator (cs_auth cfg) of
             Inl e \<Rightarrow> Inl e
           | Inr a \<Rightarrow> Inr \<lparr>rr_cfg = cfg, rr_auth = a\<rparr>))"

definition rs_watermark_column :: "conn_source \<Rightarrow> string" where
  "rs_watermark_column cfg =
     (let v = trim_space (get_opt (cs_options cfg) ''watermark_field'') in if v \<noteq> [] then v else ''updated_at'')"

definition rs_source_name :: "conn_source \<Rightarrow> string" where
  "rs_source_name cfg = (if cs_type cfg = [] then ''restapi'' else cs_type cfg)"

definition rs_pipeline_name :: "conn_source \<Rightarrow> string" where
  "rs_pipeline_name cfg = trim_space (get_opt (cs_options cfg) ''pipeline'')"

definition build_url ::
  "'w rest_source_env \<Rightarrow> conn_source \<Rightarrow> go_time \<Rightarrow> go_time \<Rightarrow> string \<Rightarrow> string res" where
  "build_url x cfg wm end_t cursor =
     rv_set_query x (cs_connection cfg)
       ([(''since'', rfc3339 wm)] @ (if is_zero end_t then [] else [(''until'', rfc3339 end_t)])
        @ (if cursor = [] then [] else [(''cursor'', cursor)]))"

subsection \<open>Answers\<close>

text \<open>An array of objects; \<open>null\<close> is an array without elements, or an object without members.\<close>

definition json_object :: "jval \<Rightarrow> payload option" where
  "json_object v =
     (case v of
        JNull \<Rightarrow> Some []
      | JObj m \<Rightarrow> (case json_any v of Some (GMap p) \<Rightarrow> Some p | _ \<Rightarrow> None)
      | _ \<Rightarrow> None)"

definition json_objects :: "jval \<Rightarrow> payload list option" where
  "json_objects v =
     (case v of JNull \<Rightarrow> Some [] | JArr xs \<Rightarrow> all_some (map json_object xs) | _ \<Rightarrow> None)"

definition json_text :: "jval \<Rightarrow> string option" where
  "json_text v = (case v of JNull \<Rightarrow> Some [] | JStr s \<Rightarrow> Some s | _ \<Rightarrow> None)"

definition envelope_of :: "jval \<Rightarrow> (payload list \<times> string) option" where
  "envelope_of v =
     (case v of
        JObj m \<Rightarrow>
          (case (json_objects (case json_field ''data'' m of Some d \<Rightarrow> d | None \<Rightarrow> JNull),
                 json_text (case json_field ''next_cursor'' m of Some c \<Rightarrow> c | None \<Rightarrow> JNull)) of
             (Some items, Some c) \<Rightarrow> Some (items, c)
           | _ \<Rightarrow> None)
      | JNull \<Rightarrow> Some ([], [])
      | _ \<Rightarrow> None)"

definition parse_api_response :: "(string \<Rightarrow> go_error) \<Rightarrow> string \<Rightarrow> (payload list \<times> string) res" where
  "parse_api_response err body =
     (case map_option json_objects (json_parse body) of
        Some (Some items) \<Rightarrow> Inr (items, [])
      | _ \<Rightarrow>
          (case map_option envelope_of (json_parse body) of
             Some (Some r) \<Rightarrow> Inr r
           | _ \<Rightarrow> Inl (ErrWrap ''REST API JSON parse error'' (err body))))"

subsection \<open>Rows\<close>

definition format_json_value :: "gval \<Rightarrow> string" where
  "format_json_value v =
     (case v of
        GNil \<Rightarrow> []
      | GStr s \<Rightarrow> s
      | GFloat (FFin q) \<Rightarrow> if of_int \<lfloor>q\<rfloor> = q \<and> int64_range \<lfloor>q\<rfloor> then dec_int \<lfloor>q\<rfloor> else fmt_v_f64 (FFin q)
      | _ \<Rightarrow> sprint_v v)"

definition primary_key_from_item :: "payload \<Rightarrow> string" where
  "primary_key_from_item item =
     (case alookup item ''id'' of
        Some v \<Rightarrow> ''id='' @ format_json_value v
      | None \<Rightarrow> (case item of [] \<Rightarrow> [] | (k, v) # _ \<Rightarrow> k @ ''='' @ format_json_value v))"

definition parse_rest_time :: "gval \<Rightarrow> go_time res" where
  "parse_rest_time v =
     (case v of GStr s \<Rightarrow> parse_time_string s | GTime t \<Rightarrow> Inr t | _ \<Rightarrow> parse_time_string (sprint_v v))"

definition rs_row :: "'w rest_source_env \<Rightarrow> conn_source \<Rightarrow> go_time \<Rightarrow> nat \<Rightarrow> payload \<Rightarrow> row" where
  "rs_row x cfg now k item =
     new_row (rv_uuid x k) now (rs_source_name cfg) (rs_pipeline_name cfg) (primary_key_from_item item) item
       (case alookup item ''updated_at'' of
          Some v \<Rightarrow> (case parse_rest_time v of Inr t \<Rightarrow> t | Inl e \<Rightarrow> now)
        | None \<Rightarrow> now)"

subsection \<open>Pages\<close>

text \<open>
  What a request comes to: the extraction is over, or a page of items with a cursor. A client
  error that is a cancellation or a deadline, also the client's own timeout, makes the source
  return the error of its context, which may be none.
\<close>

datatype page_result = PageOver "go_error option" | PageItems "payload list" string

definition rs_auth ::
  "'w rest_source_env \<Rightarrow> rest_source \<Rightarrow> http_request \<Rightarrow> 'w rest_source_world \<Rightarrow> http_request res \<times> 'w rest_source_world" where
  "rs_auth x r q w =
     (case rr_auth r of
        None \<Rightarrow> (Inr q, w)
      | Some a \<Rightarrow> (case apply_auth (rv_http x) a q (rsw_token w) (rsw_remote w) of
                    (res, tc, w') \<Rightarrow> (res, w\<lparr>rsw_token := tc, rsw_remote := w'\<rparr>)))"

definition rs_request ::
  "'w rest_source_env \<Rightarrow> rest_source \<Rightarrow> go_time \<Rightarrow> go_time \<Rightarrow> string \<Rightarrow> http_request res" where
  "rs_request x r wm end_t cursor =
     (case build_url x (rr_cfg r) wm end_t cursor of
        Inl e \<Rightarrow> Inl e
      | Inr url \<Rightarrow> new_request (rv_http x) ''GET'' url [])"

definition rs_answer :: "'w rest_source_env \<Rightarrow> int \<Rightarrow> string res \<Rightarrow> page_result" where
  "rs_answer x status body =
     (case body of
        Inl e \<Rightarrow> PageOver (Some e)
      | Inr b \<Rightarrow>
          if status < 200 \<or> status \<ge> 300 then PageOver (Some (ErrMsg (''REST API returned '' @ dec_int status)))
          else (case parse_api_response (rv_json_error x) b of
                  Inl e \<Rightarrow> PageOver (Some e)
                | Inr (items, c) \<Rightarrow> PageItems items c))"

definition rs_fetch ::
  "'w rest_source_env \<Rightarrow> rest_source \<Rightarrow> go_time \<Rightarrow> go_time \<Rightarrow> string \<Rightarrow> 'w rest_source_world ext
     \<Rightarrow> page_result \<times> 'w rest_source_world ext" where
  "rs_fetch x r wm end_t cursor s =
     (case rs_request x r wm end_t cursor of
        Inl e \<Rightarrow> (PageOver (Some e), s)
      | Inr q \<Rightarrow>
          (case rs_auth x r q (xs_world s) of
             (Inl e, w) \<Rightarrow> (PageOver (Some e), s\<lparr>xs_world := w\<rparr>)
           | (Inr q', w) \<Rightarrow>
               (case rv_get x q' (rsw_remote w) of
                  (res, w2) \<Rightarrow>
                    (let s1 = s\<lparr>xs_world := w\<lparr>rsw_remote := w2\<rparr>\<rparr> in
                     case res of
                       Inl e \<Rightarrow>
                         if is_ctx_error e then
                           (case ext_poll s1 of (done, s2) \<Rightarrow> (PageOver (if done then Some ErrCanceled else None), s2))
                         else (PageOver (Some e), s1)
                     | Inr (status, body) \<Rightarrow> (rs_answer x status body, s1)))))"

fun rs_pages ::
  "nat \<Rightarrow> 'w rest_source_env \<Rightarrow> rest_source \<Rightarrow> go_time \<Rightarrow> go_time \<Rightarrow> string \<Rightarrow> 'w rest_source_world ext
     \<Rightarrow> (go_error option \<times> 'w rest_source_world ext) option" where
  "rs_pages 0 x r wm end_t cursor s = None"
| "rs_pages (Suc fuel) x r wm end_t cursor s =
     (case ext_poll s of
        (True, s1) \<Rightarrow> Some (Some ErrCanceled, s1)
      | (False, s1) \<Rightarrow>
          (case rs_fetch x r wm end_t cursor s1 of
             (PageOver e, s2) \<Rightarrow> Some (e, s2)
           | (PageItems items c, s2) \<Rightarrow>
               (case stream (\<lambda>k v. Inr (rs_row x (rr_cfg r) (hx_now (rv_http x) (rsw_remote (xs_world s2))) k v))
                       (map Inr items) 0 s2 of
                  ((n, Some e), s3) \<Rightarrow> Some (Some e, s3)
                | ((n, None), s3) \<Rightarrow>
                    if c = [] then Some (None, s3)
                    else rs_pages fuel x r wm end_t c
                      (s3\<lparr>xs_world := (xs_world s3)\<lparr>rsw_remote := hx_sleep (rv_http x) 5000000 (rsw_remote (xs_world s3))\<rparr>\<rparr>))))"

definition rs_extract ::
  "nat \<Rightarrow> 'w rest_source_env \<Rightarrow> rest_source \<Rightarrow> go_time \<Rightarrow> go_time \<Rightarrow> 'w rest_source_world ext
     \<Rightarrow> (go_error option \<times> 'w rest_source_world ext) option" where
  "rs_extract fuel x r wm end_t s = rs_pages fuel x r wm end_t [] s"

subsection \<open>What the pages deliver\<close>

text \<open>A page is fetched without an error, whatever the state of the world.\<close>

definition page_at ::
  "'w rest_source_env \<Rightarrow> rest_source \<Rightarrow> go_time \<Rightarrow> go_time \<Rightarrow> string \<Rightarrow> payload list \<Rightarrow> string \<Rightarrow> bool" where
  "page_at x r wm end_t cursor items next_c \<longleftrightarrow>
     (\<forall>s :: 'w rest_source_world ext. \<exists>w. rs_fetch x r wm end_t cursor s = (PageItems items next_c, s\<lparr>xs_world := w\<rparr>))"

lemma made_rs_rows: "\<exists>rs. made_rows (\<lambda>k v. Inr (rs_row x cfg now k v)) k items = Inr rs \<and> map row_data rs = items"
proof (induction items arbitrary: k)
  case (Cons v items)
  obtain rs where "made_rows (\<lambda>k v. Inr (rs_row x cfg now k v)) (Suc k) items = Inr rs" "map row_data rs = items"
    using Cons by blast
  then show ?case by (intro exI [of _ "rs_row x cfg now k v # rs"]) (simp add: rs_row_def new_row_def)
qed simp

lemma rs_pages_step:
  fixes s :: "'w rest_source_world ext"
  assumes "xs_ctx s = None" "page_at x r wm end_t cursor items c"
  shows "\<exists>s1. xs_ctx s1 = None \<and> map row_data (xs_out s1) = map row_data (xs_out s) @ items
     \<and> rs_pages (Suc fuel) x r wm end_t cursor s = (if c = [] then Some (None, s1) else rs_pages fuel x r wm end_t c s1)"
proof -
  obtain w where f: "rs_fetch x r wm end_t cursor s = (PageItems items c, s\<lparr>xs_world := w\<rparr>)"
    using assms(2) unfolding page_at_def by blast
  obtain rs where rs: "made_rows (\<lambda>k v. Inr (rs_row x (rr_cfg r) (hx_now (rv_http x) (rsw_remote w)) k v)) (xs_made s) items = Inr rs"
    "map row_data rs = items" using made_rs_rows by blast
  have st: "stream (\<lambda>k v. Inr (rs_row x (rr_cfg r) (hx_now (rv_http x) (rsw_remote w)) k v)) (map Inr items) 0 (s\<lparr>xs_world := w\<rparr>)
      = ((int (length items), None), s\<lparr>xs_world := w, xs_made := xs_made s + length items, xs_out := xs_out s @ rs\<rparr>)"
    using stream_live [of "s\<lparr>xs_world := w\<rparr>" _ items rs 0] rs(1) assms(1) by simp
  show ?thesis
  proof (cases "c = []")
    case True
    then show ?thesis using f st rs(2) assms(1) by (simp add: ext_poll_live)
  next
    case False
    let ?s1 = "s\<lparr>xs_made := xs_made s + length items, xs_out := xs_out s @ rs,
        xs_world := w\<lparr>rsw_remote := hx_sleep (rv_http x) 5000000 (rsw_remote w)\<rparr>\<rparr>"
    show ?thesis
      by (rule exI [of _ ?s1]) (use False f st rs(2) assms(1) in \<open>simp add: ext_poll_live\<close>)
  qed
qed

text \<open>A chain of pages from a cursor to the empty one.\<close>

fun chained ::
  "'w rest_source_env \<Rightarrow> rest_source \<Rightarrow> go_time \<Rightarrow> go_time \<Rightarrow> string \<Rightarrow> (payload list \<times> string) list \<Rightarrow> bool" where
  "chained x r wm end_t cursor [] = False"
| "chained x r wm end_t cursor [(items, c)] = (page_at x r wm end_t cursor items c \<and> c = [])"
| "chained x r wm end_t cursor ((items, c) # p # ps) =
     (page_at x r wm end_t cursor items c \<and> c \<noteq> [] \<and> chained x r wm end_t c (p # ps))"

lemma rs_pages_chained:
  fixes s :: "'w rest_source_world ext"
  shows "xs_ctx s = None \<Longrightarrow> chained x r wm end_t cursor ps \<Longrightarrow> length ps \<le> fuel \<Longrightarrow>
    \<exists>s'. rs_pages fuel x r wm end_t cursor s = Some (None, s')
      \<and> map row_data (xs_out s') = map row_data (xs_out s) @ concat (map fst ps)"
proof (induction x r wm end_t cursor ps arbitrary: s fuel rule: chained.induct)
  case (2 x r wm end_t cursor items c)
  then obtain k where k: "fuel = Suc k" by (cases fuel) auto
  obtain s1 where "map row_data (xs_out s1) = map row_data (xs_out s) @ items"
    "rs_pages (Suc k) x r wm end_t cursor s = (if c = [] then Some (None, s1) else rs_pages k x r wm end_t c s1)"
    using rs_pages_step [of s x r wm end_t cursor items c k] 2 by auto
  then show ?case using 2 k by auto
next
  case (3 x r wm end_t cursor items c p ps)
  then obtain k where k: "fuel = Suc k" by (cases fuel) auto
  obtain s1 where s1: "xs_ctx s1 = None" "map row_data (xs_out s1) = map row_data (xs_out s) @ items"
    "rs_pages (Suc k) x r wm end_t cursor s = (if c = [] then Some (None, s1) else rs_pages k x r wm end_t c s1)"
    using rs_pages_step [of s x r wm end_t cursor items c k] "3.prems" by auto
  have "chained x r wm end_t c (p # ps)" "length (p # ps) \<le> k" "c \<noteq> []" using "3.prems" k by auto
  from "3.IH" [OF s1(1) this(1,2)] obtain s' where "rs_pages k x r wm end_t c s1 = Some (None, s')"
    "map row_data (xs_out s') = map row_data (xs_out s1) @ concat (map fst (p # ps))" by blast
  then show ?case using s1 k \<open>c \<noteq> []\<close> by auto
qed simp

text \<open>
  A server that answers every cursor with the cursor itself keeps the source busy for ever.
\<close>

lemma rs_pages_repeat:
  fixes s :: "'w rest_source_world ext"
  assumes "page_at x r wm end_t c items c" "c \<noteq> []"
  shows "xs_ctx s = None \<Longrightarrow> rs_pages fuel x r wm end_t c s = None"
proof (induction fuel arbitrary: s)
  case (Suc fuel)
  obtain s1 where "xs_ctx s1 = None" "rs_pages (Suc fuel) x r wm end_t c s = rs_pages fuel x r wm end_t c s1"
    using rs_pages_step [OF Suc.prems assms(1), of fuel] assms(2) by auto
  then show ?case using Suc.IH by simp
qed simp

text \<open>
  Property C26. When the cursors lead from page to page to the empty one, the source delivers the
  items of all pages in order, once each, and ends without an error; when a page repeats its
  cursor, it never ends.
\<close>

theorem rest_pages_complete:
  fixes s :: "'w rest_source_world ext"
  assumes "xs_ctx s = None" "xs_out s = []"
  shows "(chained x r wm end_t [] ps \<and> length ps \<le> fuel \<longrightarrow>
      (\<exists>s'. rs_extract fuel x r wm end_t s = Some (None, s') \<and> map row_data (xs_out s') = concat (map fst ps)))
    \<and> (page_at y r wm end_t [] items c \<and> page_at y r wm end_t c items' c \<and> c \<noteq> [] \<longrightarrow>
      rs_extract n y r wm end_t s = None)"
proof (intro conjI impI; elim conjE)
  assume "chained x r wm end_t [] ps" "length ps \<le> fuel"
  then show "\<exists>s'. rs_extract fuel x r wm end_t s = Some (None, s') \<and> map row_data (xs_out s') = concat (map fst ps)"
    using rs_pages_chained [OF assms(1), of x r wm end_t "[]" ps fuel] assms(2) by (simp add: rs_extract_def)
next
  assume p: "page_at y r wm end_t [] items c" "page_at y r wm end_t c items' c" "c \<noteq> []"
  show "rs_extract n y r wm end_t s = None"
  proof (cases n)
    case (Suc k)
    obtain s1 where "xs_ctx s1 = None" "rs_pages (Suc k) y r wm end_t [] s = rs_pages k y r wm end_t c s1"
      using rs_pages_step [OF assms(1) p(1), of k] p(3) by auto
    then show ?thesis using rs_pages_repeat [OF p(2,3)] Suc by (simp add: rs_extract_def)
  qed (simp add: rs_extract_def)
qed

text \<open>
  A page that the client gives up on (its own timeout of thirty seconds counts as a
  deadline) ends the extraction without an error while the run is not cancelled: whatever was
  not yet read is missing from the run, and the run does not know.
\<close>

theorem rest_timeout_is_success:
  fixes s :: "'w rest_source_world ext"
  assumes "xs_ctx s = None" "rr_auth r = None" "rs_request x r wm end_t cursor = Inr q"
    and "rv_get x q (rsw_remote (xs_world s)) = (Inl e, w)" "is_ctx_error e"
  shows "\<exists>s'. rs_pages (Suc fuel) x r wm end_t cursor s = Some (None, s') \<and> xs_out s' = xs_out s"
  using assms by (simp add: rs_fetch_def rs_auth_def ext_poll_live Let_def)


subsection \<open>A concrete server\<close>

definition quiet_http :: "unit http_env" where
  "quiet_http = \<lparr>hx_send = \<lambda>_ w. (Inr (200, []), w), hx_now = \<lambda>_. 7, hx_sleep = \<lambda>_ w. w, hx_wait_token = \<lambda>w. w,
     hx_token = \<lambda>_ w. (Inl ErrDeadline, w), hx_request_error = \<lambda>_ _. None, hx_parse_uri = \<lambda>_. None,
     hx_parse_duration = \<lambda>_. Inr 0\<rparr>"

text \<open>It answers by the cursor alone; a missing answer is a client timeout.\<close>

definition cursor_env :: "(string \<Rightarrow> string option) \<Rightarrow> unit rest_source_env" where
  "cursor_env body =
     \<lparr>rv_http = quiet_http,
      rv_set_query = \<lambda>_ ps. Inr (case alookup ps ''cursor'' of Some c \<Rightarrow> c | None \<Rightarrow> []),
      rv_get = \<lambda>q w. ((case body (hq_url q) of Some b \<Rightarrow> Inr (200, Inr b)
                        | None \<Rightarrow> Inl (ErrWrap ''Get'' ErrDeadline)), w),
      rv_json_error = \<lambda>_. ErrMsg [], rv_uuid = \<lambda>_. ''u''\<rparr>"

definition sample_rest_source :: rest_source where
  "sample_rest_source = \<lparr>rr_cfg = \<lparr>cs_type = ''restapi'', cs_connection = ''http://x'', cs_url = [], cs_table = [],
     cs_query = [], cs_watermark = [], cs_exclude = [], cs_batch_size = 0, cs_parallelism = 0, cs_options = [],
     cs_auth = conn_auth_zero\<rparr>, rr_auth = None\<rparr>"

lemma cursor_env_page:
  assumes "body cursor = Some b" "parse_api_response (\<lambda>_. ErrMsg []) b = Inr (items, c)"
  shows "page_at (cursor_env body) sample_rest_source time_zero time_zero cursor items c"
proof -
  have "alookup ([(''since'', rfc3339 time_zero)] @ (if cursor = [] then [] else [(''cursor'', cursor)])) ''cursor''
      = (if cursor = [] then None else Some cursor)" by simp
  then have "build_url (cursor_env body) (rr_cfg sample_rest_source) time_zero time_zero cursor = Inr cursor"
    by (simp add: build_url_def cursor_env_def is_zero_def)
  then show ?thesis
    using assms unfolding page_at_def
    by (auto simp: rs_fetch_def rs_request_def new_request_def rs_auth_def rs_answer_def cursor_env_def
          sample_rest_source_def quiet_http_def Let_def intro: ext.equality)
qed

definition two_pages :: "string \<Rightarrow> string option" where
  "two_pages c = Some (if c = [] then ''{\"data\":[{\"id\":\"x\"}],\"next_cursor\":\"a\"}'' else ''[{\"id\":\"y\"},null]'')"

definition endless_pages :: "string \<Rightarrow> string option" where
  "endless_pages c = Some ''{\"next_cursor\":\"a\"}''"

theorem rest_pages_complete_witness:
  "(\<exists>s'. rs_extract 2 (cursor_env two_pages) sample_rest_source time_zero time_zero
        (ext_init None \<lparr>rsw_token = \<lparr>tc_token = [], tc_expires = 0\<rparr>, rsw_remote = ()\<rparr>) = Some (None, s')
      \<and> map row_data (xs_out s') = [[(''id'', GStr ''x'')], [(''id'', GStr ''y'')], []])
   \<and> rs_extract 1000 (cursor_env endless_pages) sample_rest_source time_zero time_zero
        (ext_init None \<lparr>rsw_token = \<lparr>tc_token = [], tc_expires = 0\<rparr>, rsw_remote = ()\<rparr>) = None"
proof -
  let ?s = "ext_init None \<lparr>rsw_token = \<lparr>tc_token = [], tc_expires = 0\<rparr>, rsw_remote = ()\<rparr>"
  have s: "xs_ctx ?s = None" "xs_out ?s = []" by (simp_all add: ext_init_def)
  have "parse_api_response (\<lambda>_. ErrMsg []) (the (two_pages [])) = Inr ([[(''id'', GStr ''x'')]], ''a'')"
    "parse_api_response (\<lambda>_. ErrMsg []) (the (two_pages ''a'')) = Inr ([[(''id'', GStr ''y'')], []], [])"
    "parse_api_response (\<lambda>_. ErrMsg []) (the (endless_pages [])) = Inr ([], ''a'')"
    by code_simp+
  then have p: "page_at (cursor_env two_pages) sample_rest_source time_zero time_zero [] [[(''id'', GStr ''x'')]] ''a''"
    "page_at (cursor_env two_pages) sample_rest_source time_zero time_zero ''a'' [[(''id'', GStr ''y'')], []] []"
    "page_at (cursor_env endless_pages) sample_rest_source time_zero time_zero [] [] ''a''"
    "page_at (cursor_env endless_pages) sample_rest_source time_zero time_zero ''a'' [] ''a''"
    by (auto intro!: cursor_env_page simp: two_pages_def endless_pages_def)
  have "chained (cursor_env two_pages) sample_rest_source time_zero time_zero []
      [([[(''id'', GStr ''x'')]], ''a''), ([[(''id'', GStr ''y'')], []], [])]"
    using p by simp
  then show ?thesis
    using rest_pages_complete [OF s, of "cursor_env two_pages" sample_rest_source time_zero time_zero
        "[([[(''id'', GStr ''x'')]], ''a''), ([[(''id'', GStr ''y'')], []], [])]" 2
        "cursor_env endless_pages" "[]" "''a''" "[]" 1000] p(3,4) by simp
qed

theorem rest_timeout_is_success_witness:
  "\<exists>s'. rs_pages (Suc 0) (cursor_env (\<lambda>_. None)) sample_rest_source time_zero time_zero []
        (ext_init None \<lparr>rsw_token = \<lparr>tc_token = [], tc_expires = 0\<rparr>, rsw_remote = ()\<rparr>) = Some (None, s')
      \<and> xs_out s' = xs_out (ext_init None \<lparr>rsw_token = \<lparr>tc_token = [], tc_expires = 0\<rparr>, rsw_remote = ()\<rparr>)"
  by (rule rest_timeout_is_success [where e = "ErrWrap ''Get'' ErrDeadline" and w = "()" and q = "\<lparr>hq_method = ''GET'',
        hq_url = [], hq_headers = [], hq_query = [], hq_body = []\<rparr>"])
     (simp_all add: ext_init_def sample_rest_source_def rs_request_def build_url_def cursor_env_def quiet_http_def
        new_request_def is_zero_def is_ctx_error_def)

end
