(* ===== verification/Dest_Common.thy ===== *)
theory Dest_Common
  imports Sqlite_Store Delivery
begin

section \<open>What the destinations share: the scan for pending rows, loops that may stop, marks\<close>

text \<open>
  Every destination opens a load with the same scan (poll the context, ask the store, check the
  row), then writes the pending rows one by one or in chunks and marks those that went through.
  The scan, the loops and the marks are defined here once, with the contract they give: a writer
  that touches the store only by marking makes a destination.
\<close>

subsection \<open>The scan\<close>

text \<open>
  \<open>polls\<close>: the context is polled before each row; \<open>looks\<close>: the store is asked whether the row was
  delivered; \<open>check\<close>: what makes a row unfit.
\<close>

fun scan_rows ::
  "bool \<Rightarrow> bool \<Rightarrow> (row \<Rightarrow> go_error option) \<Rightarrow> 'st store_ops \<Rightarrow> string \<Rightarrow> string \<Rightarrow> row list
     \<Rightarrow> load_result \<Rightarrow> row list \<Rightarrow> ('st, 'w) sys
     \<Rightarrow> (load_result \<times> row list \<times> go_error option) \<times> ('st, 'w) sys" where
  "scan_rows polls looks check ops sy d [] res pend s = ((res, pend, None), s)"
| "scan_rows polls looks check ops sy d (r # rs) res pend s =
     (case (if polls then poll s else (False, s)) of
        (True, s1) \<Rightarrow> ((res, pend, Some ErrCanceled), s1)
      | (False, s1) \<Rightarrow>
          (case (if looks then st_is_delivered ops (row_id r) sy d (sy_store s1) else Inr False) of
             Inl e \<Rightarrow> scan_rows polls looks check ops sy d rs (lr_add_error r e res) pend s1
           | Inr True \<Rightarrow> scan_rows polls looks check ops sy d rs (lr_add_skip res) pend s1
           | Inr False \<Rightarrow>
               (case check r of
                  Some e \<Rightarrow> scan_rows polls looks check ops sy d rs (lr_add_error r e res) pend s1
                | None \<Rightarrow> scan_rows polls looks check ops sy d rs res (pend @ [r]) s1)))"

text \<open>What is done with the pending rows, from the result of the scan on.\<close>

type_synonym ('st, 'w) row_writer =
  "row list \<Rightarrow> string \<Rightarrow> string \<Rightarrow> load_result \<Rightarrow> ('st, 'w) sys \<Rightarrow> (load_result \<times> go_error option) \<times> ('st, 'w) sys"

definition scanned_load ::
  "bool \<Rightarrow> (row \<Rightarrow> go_error option) \<Rightarrow> 'st store_ops \<Rightarrow> ('st, 'w) row_writer \<Rightarrow> ('st, 'w) loader" where
  "scanned_load polls check ops wr rows sy d s =
     (case poll s of
        (True, s1) \<Rightarrow> ((lr_empty, Some ErrCanceled), s1)
      | (False, s1) \<Rightarrow>
          (case scan_rows polls True check ops sy d rows lr_empty [] s1 of
             ((res, pend, Some e), s2) \<Rightarrow> ((res, Some e), s2)
           | ((res, pend, None), s2) \<Rightarrow> if pend = [] then ((res, None), s2) else wr pend sy d res s2))"

subsection \<open>Loops that may stop\<close>

text \<open>
  A step answers \<open>None\<close> to go on, or \<open>Some err\<close> to return with that error, which may be nil.
\<close>

type_synonym ('i, 'st, 'w) loop_step =
  "'i \<Rightarrow> load_result \<Rightarrow> ('st, 'w) sys \<Rightarrow> (load_result \<times> go_error option option) \<times> ('st, 'w) sys"

fun each ::
  "('i, 'st, 'w) loop_step \<Rightarrow> 'i list \<Rightarrow> load_result \<Rightarrow> ('st, 'w) sys
     \<Rightarrow> (load_result \<times> go_error option) \<times> ('st, 'w) sys" where
  "each step [] res s = ((res, None), s)"
| "each step (x # xs) res s =
     (case step x res s of
        ((res', None), s') \<Rightarrow> each step xs res' s'
      | ((res', Some err), s') \<Rightarrow> ((res', err), s'))"

text \<open>\<open>rows[start:end]\<close> in steps of \<open>n\<close>.\<close>

function chunks_of :: "nat \<Rightarrow> 'a list \<Rightarrow> 'a list list" where
  "chunks_of n xs = (if xs = [] then [] else if n = 0 then [xs] else take n xs # chunks_of n (drop n xs))"
  by pat_completeness auto
termination by (relation "measure (\<lambda>(n, xs). length xs)") auto

declare chunks_of.simps [simp del]

lemma chunks_of_one [simp]: "chunks_of n [x] = [[x]]"
  by (cases n) (auto simp: chunks_of.simps)

lemma chunks_of_nil [simp]: "chunks_of n [] = []"
  by (simp add: chunks_of.simps)

lemma concat_chunks [simp]: "concat (chunks_of n xs) = xs"
  by (induction n xs rule: chunks_of.induct) (subst chunks_of.simps, simp)

lemma chunks_size: "0 < n \<Longrightarrow> c \<in> set (chunks_of n xs) \<Longrightarrow> c \<noteq> [] \<and> length c \<le> n"
proof (induction n xs rule: chunks_of.induct)
  case (1 n xs)
  then show ?case by (subst (asm) (2) chunks_of.simps) (auto split: if_splits)
qed

subsection \<open>Marks and failures\<close>

definition mark_row ::
  "'st store_ops \<Rightarrow> go_time \<Rightarrow> string \<Rightarrow> string \<Rightarrow> load_result \<times> ('st, 'w) sys \<Rightarrow> row
     \<Rightarrow> load_result \<times> ('st, 'w) sys" where
  "mark_row ops now sy d acc r =
     (case acc of (res, s) \<Rightarrow>
        (case st_mark_delivered ops now (row_id r) sy d (sy_store s) of
           (Inl e, st) \<Rightarrow> (lr_add_error r e res, s\<lparr>sy_store := st\<rparr>)
         | (Inr _, st) \<Rightarrow> (lr_add_loaded res, s\<lparr>sy_store := st\<rparr>)))"

definition fail_rows :: "go_error \<Rightarrow> row list \<Rightarrow> load_result \<Rightarrow> load_result" where
  "fail_rows e rs res = foldl (\<lambda>res r. lr_add_error r e res) res rs"

text \<open>A row that is sent on its own, and marked when that succeeded.\<close>

definition send_row ::
  "'st store_ops \<Rightarrow> go_time \<Rightarrow> (row \<Rightarrow> ('st, 'w) sys \<Rightarrow> go_error option \<times> ('st, 'w) sys)
     \<Rightarrow> string \<Rightarrow> string \<Rightarrow> (row, 'st, 'w) loop_step" where
  "send_row ops now send sy d r res s =
     (case send r s of
        (Some e, s1) \<Rightarrow> ((lr_add_error r e res, None), s1)
      | (None, s1) \<Rightarrow> (case mark_row ops now sy d (res, s1) r of (res', s') \<Rightarrow> ((res', None), s')))"

text \<open>
  The goroutines of a load over its pending rows, one after the other (the engine loads one row
  at a time), and the poll after \<open>wg.Wait\<close>.
\<close>

definition send_all ::
  "'st store_ops \<Rightarrow> go_time \<Rightarrow> (row \<Rightarrow> ('st, 'w) sys \<Rightarrow> go_error option \<times> ('st, 'w) sys)
     \<Rightarrow> ('st, 'w) row_writer" where
  "send_all ops now send pend sy d res s =
     (case each (send_row ops now send sy d) pend res s of
        ((res', _), s1) \<Rightarrow> (case poll s1 of (stop, s2) \<Rightarrow> ((res', if stop then Some ErrCanceled else None), s2)))"

text \<open>
  A chunk that is sent as one request: an error of the context returns \<open>ctx.Err()\<close>, another one
  fails each of its rows.
\<close>

definition send_chunk ::
  "'st store_ops \<Rightarrow> go_time \<Rightarrow> (row list \<Rightarrow> ('st, 'w) sys \<Rightarrow> go_error option \<times> ('st, 'w) sys)
     \<Rightarrow> string \<Rightarrow> string \<Rightarrow> (row list, 'st, 'w) loop_step" where
  "send_chunk ops now send sy d chunk res s =
     (case send chunk s of
        (Some e, s1) \<Rightarrow>
          if is_ctx_error e
          then (case poll s1 of (stop, s2) \<Rightarrow> ((res, Some (if stop then Some ErrCanceled else None)), s2))
          else ((fail_rows e chunk res, None), s1)
      | (None, s1) \<Rightarrow> (case foldl (mark_row ops now sy d) (res, s1) chunk of (res', s') \<Rightarrow> ((res', None), s')))"

definition send_chunks ::
  "nat \<Rightarrow> 'st store_ops \<Rightarrow> go_time \<Rightarrow> (row list \<Rightarrow> ('st, 'w) sys \<Rightarrow> go_error option \<times> ('st, 'w) sys)
     \<Rightarrow> ('st, 'w) row_writer" where
  "send_chunks n ops now send pend sy d res s = each (send_chunk ops now send sy d) (chunks_of n pend) res s"

subsection \<open>The contract of a writer\<close>

text \<open>The change of the counters between two results over one row.\<close>

definition counts_from :: "load_result \<Rightarrow> load_result \<Rightarrow> go_error option \<Rightarrow> bool" where
  "counts_from res res' err \<longleftrightarrow> lr_loaded res \<le> lr_loaded res' \<and> lr_skipped res' = lr_skipped res \<and>
     (if err = None
      then lr_loaded res' + int (length (lr_errors res')) = lr_loaded res + int (length (lr_errors res)) + 1
      else lr_loaded res' = lr_loaded res)"

lemma scan_rows_store:
  "scan_rows polls looks check ops sy d rs res pend s = (out, s') \<Longrightarrow>
   sy_store s' = sy_store s \<and> sy_world s' = sy_world s \<and> (sy_ctx s = None \<longrightarrow> s' = s)"
proof (induction rs arbitrary: res pend s)
  case (Cons r rs)
  obtain stop s1 where p: "(if polls then poll s else (False, s)) = (stop, s1)" by fastforce
  have "sy_store s1 = sy_store s" "sy_world s1 = sy_world s" "sy_ctx s = None \<longrightarrow> s1 = s"
    using poll_frameD [of s stop s1] p poll_never [of s] by (auto split: if_splits)
  with Cons show ?case
    by (auto simp: p simp del: split_paired_All split: bool.splits sum.splits option.splits if_splits)
qed simp

text \<open>The outcomes of a scan of one row.\<close>

lemma scan_one:
  assumes "scan_rows polls looks check ops sy d [r] lr_empty [] s = ((res, pend, err), s')"
  shows "(pend = [] \<and> lr_loaded res = 0 \<and> 0 \<le> lr_skipped res \<and>
            (err = None \<longrightarrow> lr_skipped res + int (length (lr_errors res)) = 1) \<and>
            (err \<noteq> None \<longrightarrow> res = lr_empty \<and> sy_ctx s \<noteq> None))
       \<or> (pend = [r] \<and> res = lr_empty \<and> err = None \<and>
            (looks \<longrightarrow> st_is_delivered ops (row_id r) sy d (sy_store s) = Inr False))"
proof -
  obtain stop s1 where p: "(if polls then poll s else (False, s)) = (stop, s1)" by fastforce
  have "sy_store s1 = sy_store s" "sy_ctx s = None \<longrightarrow> \<not> stop"
    using poll_frameD [of s stop s1] p poll_never [of s] by (auto split: if_splits)
  then show ?thesis using assms by (auto simp: p split: bool.splits sum.splits option.splits if_splits)
qed

lemma scan_delivered:
  assumes "st_is_delivered ops (row_id r) sy d (sy_store s) = Inr True"
    "scan_rows polls True check ops sy d [r] lr_empty [] s = ((res, pend, err), s')"
  shows "pend = [] \<and> sy_store s' = sy_store s \<and> sy_world s' = sy_world s
    \<and> res = (if err = None then lr_add_skip lr_empty else lr_empty) \<and> (sy_ctx s = None \<longrightarrow> err = None)"
proof -
  obtain stop s1 where p: "(if polls then poll s else (False, s)) = (stop, s1)" by fastforce
  have "sy_store s1 = sy_store s" "sy_world s1 = sy_world s" "sy_ctx s = None \<longrightarrow> \<not> stop"
    using poll_frameD [of s stop s1] p poll_never [of s] by (auto split: if_splits)
  then show ?thesis using assms by (auto simp: p split: bool.splits if_splits)
qed

lemma fail_rows_simps [simp]:
  "lr_loaded (fail_rows e rs res) = lr_loaded res" "lr_skipped (fail_rows e rs res) = lr_skipped res"
  "length (lr_errors (fail_rows e rs res)) = length (lr_errors res) + length rs"
  by (induction rs arbitrary: res) (simp_all add: fail_rows_def)

lemma mark_row_ctx [simp]:
  "sy_ctx (snd (mark_row ops now sy d acc r)) = sy_ctx (snd acc)"
  "sy_world (snd (mark_row ops now sy d acc r)) = sy_world (snd acc)"
  by (auto simp: mark_row_def split: prod.splits sum.splits)

lemma mark_row_counts: "counts_from (fst acc) (fst (mark_row ops now sy d acc r)) None"
  by (auto simp: mark_row_def counts_from_def split: prod.splits sum.splits)

locale row_writer = state_store ops inv abs stored
  for ops :: "'st store_ops" and inv and abs and stored +
  fixes wr :: "('st, 'w) row_writer"
  assumes write_frame: "inv (sy_store s) \<Longrightarrow> nul_free sy \<Longrightarrow> nul_free d \<Longrightarrow>
      wr rs sy d res s = ((res', err), s') \<Longrightarrow>
      inv (sy_store s') \<and> ab_entities (abs (sy_store s')) = ab_entities (abs (sy_store s))
      \<and> ab_fired (abs (sy_store s')) = ab_fired (abs (sy_store s))"
    and write_marks: "inv (sy_store s) \<Longrightarrow> nul_free sy \<Longrightarrow> nul_free d \<Longrightarrow>
      wr [r] sy d res s = ((res', err), s') \<Longrightarrow> lr_loaded res' > lr_loaded res \<Longrightarrow>
      ab_is_delivered (abs (sy_store s')) (row_id r, sy, d)"

locale counting_writer = row_writer ops inv abs stored wr
  for ops :: "'st store_ops" and inv and abs and stored and wr :: "('st, 'w) row_writer" +
  assumes write_counts: "sy_ctx s = None \<Longrightarrow> wr [r] sy d res s = ((res', err), s') \<Longrightarrow>
      sy_ctx s' = None \<and> counts_from res res' err"

sublocale row_writer \<subseteq> scanned: destination ops inv abs stored "scanned_load polls check ops wr"
  for polls check
proof unfold_locales
  fix s s' :: "('st, 'w) sys" and sy d r res err
  assume d: "st_is_delivered ops (row_id r) sy d (sy_store s) = Inr True"
    and l: "scanned_load polls check ops wr [r] sy d s = ((res, err), s')"
  obtain stop s1 where p: "poll s = (stop, s1)" by fastforce
  have f: "sy_store s1 = sy_store s" "sy_world s1 = sy_world s" using poll_frameD [OF p] by simp_all
  obtain res1 pend err1 s2 where q: "scan_rows polls True check ops sy d [r] lr_empty [] s1 = ((res1, pend, err1), s2)"
    by (metis surj_pair)
  have d1: "st_is_delivered ops (row_id r) sy d (sy_store s1) = Inr True" using d f by simp
  show "sy_store s' = sy_store s \<and> sy_world s' = sy_world s \<and> lr_loaded res = 0
      \<and> lr_errors res = [] \<and> (err = None \<longrightarrow> lr_skipped res = 1) \<and> (sy_ctx s = None \<longrightarrow> err = None)"
    using l scan_delivered [OF d1 q] f poll_never [of s] p
    by (auto simp: scanned_load_def q simp del: scan_rows.simps split: bool.splits option.splits if_splits)
next
  fix s s' :: "('st, 'w) sys" and sy d r res err
  assume i: "inv (sy_store s)" "nul_free sy" "nul_free d"
    and l: "scanned_load polls check ops wr [r] sy d s = ((res, err), s')" and z: "0 < lr_loaded res"
  obtain stop s1 where p: "poll s = (stop, s1)" by fastforce
  have f: "sy_store s1 = sy_store s" using poll_frameD [OF p] by simp_all
  obtain res1 pend err1 s2 where q: "scan_rows polls True check ops sy d [r] lr_empty [] s1 = ((res1, pend, err1), s2)"
    by (metis surj_pair)
  have "wr [r] sy d lr_empty s2 = ((res, err), s')"
    using l z scan_one [OF q]
    by (auto simp: scanned_load_def p q simp del: scan_rows.simps split: bool.splits option.splits if_splits)
  then show "ab_is_delivered (abs (sy_store s')) (row_id r, sy, d)"
    using write_marks [of s2 sy d r lr_empty] scan_rows_store [OF q] f i z by simp
next
  fix s s' :: "('st, 'w) sys" and sy d rs res err
  assume i: "inv (sy_store s)" "nul_free sy" "nul_free d"
    and l: "scanned_load polls check ops wr rs sy d s = ((res, err), s')"
  obtain stop s1 where p: "poll s = (stop, s1)" by fastforce
  have f: "sy_store s1 = sy_store s" using poll_frameD [OF p] by simp_all
  obtain res1 pend err1 s2 where q: "scan_rows polls True check ops sy d rs lr_empty [] s1 = ((res1, pend, err1), s2)"
    by (metis surj_pair)
  have g: "sy_store s2 = sy_store s" using scan_rows_store [OF q] f by simp
  show "inv (sy_store s') \<and> ab_entities (abs (sy_store s')) = ab_entities (abs (sy_store s))
      \<and> ab_fired (abs (sy_store s')) = ab_fired (abs (sy_store s))"
    using l write_frame [of s2 sy d pend res1 res err s'] f g i
    by (auto simp: scanned_load_def p q simp del: scan_rows.simps split: bool.splits option.splits if_splits)
qed

context row_writer
begin

lemma scanned_contract: "destination ops inv abs stored (scanned_load polls check ops wr)"
  by unfold_locales

end

sublocale counting_writer \<subseteq> counted: counting_destination ops inv abs stored "scanned_load polls check ops wr"
  for polls check
proof unfold_locales
  fix s s' :: "('st, 'w) sys" and sy d r res err
  assume live: "sy_ctx s = None" and l: "scanned_load polls check ops wr [r] sy d s = ((res, err), s')"
  obtain res1 pend err1 s2 where q: "scan_rows polls True check ops sy d [r] lr_empty [] s = ((res1, pend, err1), s2)"
    by (metis surj_pair)
  have s2: "s2 = s" using scan_rows_store [OF q] live by simp
  show "sy_ctx s' = None \<and> counts_once res err"
    using l scan_one [OF q] live s2 write_counts [of s r sy d lr_empty res err s']
    by (auto simp: scanned_load_def poll_never q counts_once_def counts_from_def
        simp del: scan_rows.simps split: bool.splits option.splits if_splits)
qed

context counting_writer
begin

lemma counted_contract: "counting_destination ops inv abs stored (scanned_load polls check ops wr)"
  by unfold_locales

end

subsection \<open>Writers that only mark\<close>

context state_store
begin

definition same_states :: "'st \<Rightarrow> 'st \<Rightarrow> bool" where
  "same_states st st' \<longleftrightarrow> (inv st \<longrightarrow> inv st' \<and> ab_entities (abs st') = ab_entities (abs st)
     \<and> ab_fired (abs st') = ab_fired (abs st))"

lemma same_states_refl [simp]: "same_states st st"
  by (simp add: same_states_def)

lemma same_states_trans: "same_states a b \<Longrightarrow> same_states b c \<Longrightarrow> same_states a c"
  by (simp add: same_states_def)

lemma mark_row_frame:
  assumes "nul_free sy" "nul_free d"
  shows "same_states (sy_store (snd acc)) (sy_store (snd (mark_row ops now sy d acc r)))"
proof -
  obtain res s where a: "acc = (res, s)" by fastforce
  obtain m st where m: "st_mark_delivered ops now (row_id r) sy d (sy_store s) = (m, st)" by fastforce
  show ?thesis
  proof (cases m)
    case (Inl e)
    then show ?thesis using mark_delivered_error [of "sy_store s" now "row_id r" sy d e st] m
      by (auto simp: same_states_def mark_row_def a)
  next
    case (Inr u)
    then show ?thesis using mark_delivered_law [of "sy_store s" sy d now "row_id r" st] m assms
      by (auto simp: same_states_def mark_row_def a ab_mark_delivered_def split: option.splits)
  qed
qed

lemma mark_row_delivers:
  assumes "inv (sy_store s)" "nul_free sy" "nul_free d" "mark_row ops now sy d (res, s) r = (res', s')"
    "lr_loaded res' > lr_loaded res"
  shows "ab_is_delivered (abs (sy_store s')) (row_id r, sy, d)"
proof -
  obtain m st where m: "st_mark_delivered ops now (row_id r) sy d (sy_store s) = (m, st)" by fastforce
  have "m = Inr ()" "sy_store s' = st" using assms(4,5) m by (auto simp: mark_row_def split: sum.splits)
  then have "abs (sy_store s') = ab_mark_delivered (row_id r, sy, d) (abs (sy_store s))"
    using mark_delivered_law [of "sy_store s" sy d now "row_id r" st] m assms(1-3) by simp
  then show ?thesis by (simp add: ab_mark_delivered_def ab_is_delivered_def split: option.splits)
qed

lemma mark_rows_frame:
  "nul_free sy \<Longrightarrow> nul_free d \<Longrightarrow>
   same_states (sy_store (snd acc)) (sy_store (snd (foldl (mark_row ops now sy d) acc rs)))"
proof (induction rs arbitrary: acc)
  case (Cons r rs)
  show ?case
    using same_states_trans [OF mark_row_frame [OF Cons.prems, of acc now r] Cons.IH [OF Cons.prems]] by simp
qed simp

lemma each_frame:
  assumes "\<And>x res s. same_states (sy_store s) (sy_store (snd (step x res s)))"
  shows "same_states (sy_store s) (sy_store (snd (each step xs res s)))"
proof (induction xs arbitrary: res s)
  case (Cons x xs)
  obtain res' stop s' where q: "step x res s = ((res', stop), s')" by (metis surj_pair)
  have "same_states (sy_store s) (sy_store s')" using assms [of s x res] q by simp
  then show ?case using same_states_trans [OF _ Cons.IH] by (auto simp: q split: option.splits)
qed simp

lemma send_row_frame:
  assumes "\<And>r s. sy_store (snd (send r s)) = sy_store s" "nul_free sy" "nul_free d"
  shows "same_states (sy_store s) (sy_store (snd (send_row ops now send sy d r res s)))"
proof -
  obtain e s1 where q: "send r s = (e, s1)" by fastforce
  have "sy_store s1 = sy_store s" using assms(1) [of r s] q by simp
  then show ?thesis using mark_row_frame [OF assms(2,3), of "(res, s1)" now r]
    by (auto simp: send_row_def q split: option.splits prod.splits)
qed

lemma send_chunk_frame:
  assumes "\<And>rs s. sy_store (snd (send rs s)) = sy_store s" "nul_free sy" "nul_free d"
  shows "same_states (sy_store s) (sy_store (snd (send_chunk ops now send sy d chunk res s)))"
proof -
  obtain e s1 where q: "send chunk s = (e, s1)" by fastforce
  have "sy_store s1 = sy_store s" using assms(1) [of chunk s] q by simp
  then show ?thesis using mark_rows_frame [OF assms(2,3), of "(res, s1)" now chunk]
    by (auto simp: send_chunk_def q dest: poll_frameD split: option.splits prod.splits)
qed

lemma send_all_writer:
  fixes send :: "row \<Rightarrow> ('st, 'w) sys \<Rightarrow> go_error option \<times> ('st, 'w) sys"
  assumes store: "\<And>r s. sy_store (snd (send r s)) = sy_store s"
    and ctx: "\<And>r s. sy_ctx s = None \<Longrightarrow> sy_ctx (snd (send r s)) = None"
  shows "counting_writer ops inv abs stored (send_all ops now send)"
proof unfold_locales
  fix s s' :: "('st, 'w) sys" and sy d rs res res' err
  assume i: "inv (sy_store s)" "nul_free sy" "nul_free d" and l: "send_all ops now send rs sy d res s = ((res', err), s')"
  have "same_states (sy_store s) (sy_store (snd (each (send_row ops now send sy d) rs res s)))"
    by (rule each_frame) (rule send_row_frame [OF store i(2,3)])
  moreover have "sy_store s' = sy_store (snd (each (send_row ops now send sy d) rs res s))"
    using l by (auto simp: send_all_def dest: poll_frameD split: prod.splits)
  ultimately show "inv (sy_store s') \<and> ab_entities (abs (sy_store s')) = ab_entities (abs (sy_store s))
      \<and> ab_fired (abs (sy_store s')) = ab_fired (abs (sy_store s))"
    using i(1) by (simp add: same_states_def)
next
  fix s s' :: "('st, 'w) sys" and sy d r res res' err
  assume i: "inv (sy_store s)" "nul_free sy" "nul_free d"
    and l: "send_all ops now send [r] sy d res s = ((res', err), s')" and z: "lr_loaded res < lr_loaded res'"
  obtain e s1 where q: "send r s = (e, s1)" by fastforce
  obtain res1 s2 where m: "mark_row ops now sy d (res, s1) r = (res1, s2)" by fastforce
  have "e = None \<and> res1 = res' \<and> sy_store s' = sy_store s2"
    using l z by (auto simp: send_all_def send_row_def q m dest: poll_frameD split: option.splits prod.splits)
  moreover have "sy_store s1 = sy_store s" using store [of r s] q by simp
  ultimately show "ab_is_delivered (abs (sy_store s')) (row_id r, sy, d)"
    using mark_row_delivers [OF _ i(2,3) m] z i(1) by simp
next
  fix s s' :: "('st, 'w) sys" and sy d r res res' err
  assume live: "sy_ctx s = None" and l: "send_all ops now send [r] sy d res s = ((res', err), s')"
  obtain e s1 where q: "send r s = (e, s1)" by fastforce
  obtain res1 s2 where m: "mark_row ops now sy d (res, s1) r = (res1, s2)" by fastforce
  have "sy_ctx s1 = None" using ctx [OF live, of r] q by simp
  moreover have "sy_ctx s2 = sy_ctx s1" using mark_row_ctx(1) [of ops now sy d "(res, s1)" r] m by simp
  ultimately show "sy_ctx s' = None \<and> counts_from res res' err"
    using l mark_row_counts [of "(res, s1)" ops now sy d r]
    by (auto simp: send_all_def send_row_def q m poll_never counts_from_def split: option.splits)
qed

lemma send_chunks_writer:
  fixes send :: "row list \<Rightarrow> ('st, 'w) sys \<Rightarrow> go_error option \<times> ('st, 'w) sys"
  assumes store: "\<And>rs s. sy_store (snd (send rs s)) = sy_store s"
    and ctx: "\<And>rs s e s'. sy_ctx s = None \<Longrightarrow> send rs s = (e, s') \<Longrightarrow>
      sy_ctx s' = None \<and> (\<forall>x. e = Some x \<longrightarrow> \<not> is_ctx_error x)"
  shows "counting_writer ops inv abs stored (send_chunks n ops now send)"
proof unfold_locales
  fix s s' :: "('st, 'w) sys" and sy d rs res res' err
  assume i: "inv (sy_store s)" "nul_free sy" "nul_free d"
    and l: "send_chunks n ops now send rs sy d res s = ((res', err), s')"
  have "same_states (sy_store s) (sy_store (snd (each (send_chunk ops now send sy d) (chunks_of n rs) res s)))"
    by (rule each_frame) (rule send_chunk_frame [OF store i(2,3)])
  then show "inv (sy_store s') \<and> ab_entities (abs (sy_store s')) = ab_entities (abs (sy_store s))
      \<and> ab_fired (abs (sy_store s')) = ab_fired (abs (sy_store s))"
    using i(1) l by (simp add: same_states_def send_chunks_def)
next
  fix s s' :: "('st, 'w) sys" and sy d r res res' err
  assume i: "inv (sy_store s)" "nul_free sy" "nul_free d"
    and l: "send_chunks n ops now send [r] sy d res s = ((res', err), s')" and z: "lr_loaded res < lr_loaded res'"
  obtain e s1 where q: "send [r] s = (e, s1)" by fastforce
  obtain res1 s2 where m: "mark_row ops now sy d (res, s1) r = (res1, s2)" by fastforce
  have "e = None \<and> res1 = res' \<and> s' = s2"
    using l z by (auto simp: send_chunks_def send_chunk_def q m split: option.splits prod.splits if_splits)
  moreover have "sy_store s1 = sy_store s" using store [of "[r]" s] q by simp
  ultimately show "ab_is_delivered (abs (sy_store s')) (row_id r, sy, d)"
    using mark_row_delivers [OF _ i(2,3) m] z i(1) by simp
next
  fix s s' :: "('st, 'w) sys" and sy d r res res' err
  assume live: "sy_ctx s = None" and l: "send_chunks n ops now send [r] sy d res s = ((res', err), s')"
  obtain e s1 where q: "send [r] s = (e, s1)" by fastforce
  obtain res1 s2 where m: "mark_row ops now sy d (res, s1) r = (res1, s2)" by fastforce
  have c: "sy_ctx s1 = None" "\<forall>x. e = Some x \<longrightarrow> \<not> is_ctx_error x" using ctx [OF live q] by simp_all
  moreover have "sy_ctx s2 = sy_ctx s1" using mark_row_ctx(1) [of ops now sy d "(res, s1)" r] m by simp
  ultimately show "sy_ctx s' = None \<and> counts_from res res' err"
    using l mark_row_counts [of "(res, s1)" ops now sy d r]
    by (auto simp: send_chunks_def send_chunk_def q m counts_from_def split: option.splits)
qed

end

text \<open>A load that polls once more before it starts.\<close>

definition polled :: "('st, 'w) loader \<Rightarrow> ('st, 'w) loader" where
  "polled load rows sy d s =
     (case poll s of
        (True, s1) \<Rightarrow> ((lr_empty, Some ErrCanceled), s1)
      | (False, s1) \<Rightarrow> load rows sy d s1)"

context destination
begin

lemma polled_contract: "destination ops inv abs stored (polled load)"
proof unfold_locales
  fix s s' :: "('st, 'w) sys" and sy d r res err
  assume i: "inv (sy_store s)" "nul_free sy" "nul_free d" "st_is_delivered ops (row_id r) sy d (sy_store s) = Inr True"
    and l: "polled load [r] sy d s = ((res, err), s')"
  obtain stop s1 where p: "poll s = (stop, s1)" by fastforce
  have f: "sy_store s1 = sy_store s" "sy_world s1 = sy_world s" using poll_frameD [OF p] by simp_all
  have c: "sy_ctx s = None \<longrightarrow> \<not> stop \<and> s1 = s" using p poll_never [of s] by auto
  show "sy_store s' = sy_store s \<and> sy_world s' = sy_world s \<and> lr_loaded res = 0
      \<and> lr_errors res = [] \<and> (err = None \<longrightarrow> lr_skipped res = 1) \<and> (sy_ctx s = None \<longrightarrow> err = None)"
    using l f c i load_delivered [of s1 sy d r res err s'] by (cases stop) (auto simp: polled_def p)
next
  fix s s' :: "('st, 'w) sys" and sy d r res err
  assume i: "inv (sy_store s)" "nul_free sy" "nul_free d"
    and l: "polled load [r] sy d s = ((res, err), s')" and z: "0 < lr_loaded res"
  obtain stop s1 where p: "poll s = (stop, s1)" by fastforce
  have f: "sy_store s1 = sy_store s" using poll_frameD [OF p] by simp_all
  show "ab_is_delivered (abs (sy_store s')) (row_id r, sy, d)"
    using l z f i load_marks [of s1 sy d r res err s'] by (cases stop) (auto simp: polled_def p)
next
  fix s s' :: "('st, 'w) sys" and sy d rs res err
  assume i: "inv (sy_store s)" "nul_free sy" "nul_free d" and l: "polled load rs sy d s = ((res, err), s')"
  obtain stop s1 where p: "poll s = (stop, s1)" by fastforce
  have f: "sy_store s1 = sy_store s" using poll_frameD [OF p] by simp_all
  show "inv (sy_store s') \<and> ab_entities (abs (sy_store s')) = ab_entities (abs (sy_store s))
      \<and> ab_fired (abs (sy_store s')) = ab_fired (abs (sy_store s))"
    using l f i load_frame [of s1 sy d rs res err s'] by (cases stop) (auto simp: polled_def p)
qed

text \<open>A load that agrees with a contractual one on all but the empty list keeps the contract.\<close>

lemma contract_cong:
  assumes "\<And>rows sy d s. rows \<noteq> [] \<Longrightarrow> load' rows sy d s = load rows sy d s"
    "\<And>sy d s. sy_store (snd (load' [] sy d s)) = sy_store s"
  shows "destination ops inv abs stored load'"
proof unfold_locales
  fix s s' :: "('st, 'w) sys" and sy d rs res err
  assume "inv (sy_store s)" "nul_free sy" "nul_free d" "load' rs sy d s = ((res, err), s')"
  then show "inv (sy_store s') \<and> ab_entities (abs (sy_store s')) = ab_entities (abs (sy_store s))
      \<and> ab_fired (abs (sy_store s')) = ab_fired (abs (sy_store s))"
    using assms(1) [of rs sy d s] assms(2) [of sy d s] load_frame [of s sy d rs res err s'] by (cases "rs = []") auto
next
  fix s s' :: "('st, 'w) sys" and sy d r res err
  assume "inv (sy_store s)" "nul_free sy" "nul_free d" "st_is_delivered ops (row_id r) sy d (sy_store s) = Inr True"
    "load' [r] sy d s = ((res, err), s')"
  then show "sy_store s' = sy_store s \<and> sy_world s' = sy_world s \<and> lr_loaded res = 0
      \<and> lr_errors res = [] \<and> (err = None \<longrightarrow> lr_skipped res = 1) \<and> (sy_ctx s = None \<longrightarrow> err = None)"
    unfolding assms(1) [of "[r]", OF list.simps(3)] by (rule load_delivered)
next
  fix s s' :: "('st, 'w) sys" and sy d r res err
  assume "inv (sy_store s)" "nul_free sy" "nul_free d" "load' [r] sy d s = ((res, err), s')" "0 < lr_loaded res"
  then show "ab_is_delivered (abs (sy_store s')) (row_id r, sy, d)"
    unfolding assms(1) [of "[r]", OF list.simps(3)] by (rule load_marks)
qed
end

text \<open>Pending rows sent one by one, without a poll at the end.\<close>

definition send_each ::
  "'st store_ops \<Rightarrow> go_time \<Rightarrow> (row \<Rightarrow> ('st, 'w) sys \<Rightarrow> go_error option \<times> ('st, 'w) sys) \<Rightarrow> ('st, 'w) row_writer" where
  "send_each ops now send pend sy d res s = each (send_row ops now send sy d) pend res s"

context state_store
begin

lemma send_each_writer:
  fixes send :: "row \<Rightarrow> ('st, 'w) sys \<Rightarrow> go_error option \<times> ('st, 'w) sys"
  assumes store: "\<And>r s. sy_store (snd (send r s)) = sy_store s"
    and ctx: "\<And>r s. sy_ctx s = None \<Longrightarrow> sy_ctx (snd (send r s)) = None"
  shows "counting_writer ops inv abs stored (send_each ops now send)"
proof unfold_locales
  fix s s' :: "('st, 'w) sys" and sy d rs res res' err
  assume i: "inv (sy_store s)" "nul_free sy" "nul_free d" and l: "send_each ops now send rs sy d res s = ((res', err), s')"
  have "same_states (sy_store s) (sy_store (snd (each (send_row ops now send sy d) rs res s)))"
    by (rule each_frame) (rule send_row_frame [OF store i(2,3)])
  then show "inv (sy_store s') \<and> ab_entities (abs (sy_store s')) = ab_entities (abs (sy_store s))
      \<and> ab_fired (abs (sy_store s')) = ab_fired (abs (sy_store s))"
    using i(1) l by (simp add: same_states_def send_each_def)
next
  fix s s' :: "('st, 'w) sys" and sy d r res res' err
  assume i: "inv (sy_store s)" "nul_free sy" "nul_free d"
    and l: "send_each ops now send [r] sy d res s = ((res', err), s')" and z: "lr_loaded res < lr_loaded res'"
  obtain e s1 where q: "send r s = (e, s1)" by fastforce
  obtain res1 s2 where m: "mark_row ops now sy d (res, s1) r = (res1, s2)" by fastforce
  have "e = None \<and> res1 = res' \<and> s' = s2"
    using l z by (auto simp: send_each_def send_row_def q m split: option.splits)
  moreover have "sy_store s1 = sy_store s" using store [of r s] q by simp
  ultimately show "ab_is_delivered (abs (sy_store s')) (row_id r, sy, d)"
    using mark_row_delivers [OF _ i(2,3) m] z i(1) by simp
next
  fix s s' :: "('st, 'w) sys" and sy d r res res' err
  assume live: "sy_ctx s = None" and l: "send_each ops now send [r] sy d res s = ((res', err), s')"
  obtain e s1 where q: "send r s = (e, s1)" by fastforce
  obtain res1 s2 where m: "mark_row ops now sy d (res, s1) r = (res1, s2)" by fastforce
  have "sy_ctx s1 = None" using ctx [OF live, of r] q by simp
  moreover have "sy_ctx s2 = sy_ctx s1" using mark_row_ctx(1) [of ops now sy d "(res, s1)" r] m by simp
  ultimately show "sy_ctx s' = None \<and> counts_from res res' err"
    using l mark_row_counts [of "(res, s1)" ops now sy d r]
    by (auto simp: send_each_def send_row_def q m counts_from_def split: option.splits)
qed

text \<open>
  A load that agrees with a contractual one on single rows, and only marks on longer lists, keeps
  the contract.
\<close>

lemma one_row_contract:
  fixes load :: "('st, 'w) loader"
  assumes one: "counting_destination ops inv abs stored one"
    and eq: "\<And>r sy d s. load [r] sy d s = one [r] sy d s"
    and frame: "\<And>rows sy d s. nul_free sy \<Longrightarrow> nul_free d \<Longrightarrow>
      same_states (sy_store s) (sy_store (snd (load rows sy d s)))"
  shows "counting_destination ops inv abs stored load"
proof unfold_locales
  note dest = counting_destination.axioms(1) [OF one]
  fix s s' :: "('st, 'w) sys" and sy d r res err
  assume "inv (sy_store s)" "nul_free sy" "nul_free d" "st_is_delivered ops (row_id r) sy d (sy_store s) = Inr True"
    "load [r] sy d s = ((res, err), s')"
  then show "sy_store s' = sy_store s \<and> sy_world s' = sy_world s \<and> lr_loaded res = 0 \<and> lr_errors res = []
      \<and> (err = None \<longrightarrow> lr_skipped res = 1) \<and> (sy_ctx s = None \<longrightarrow> err = None)"
    unfolding eq by (rule destination.load_delivered [OF dest])
next
  note dest = counting_destination.axioms(1) [OF one]
  fix s s' :: "('st, 'w) sys" and sy d r res err
  assume "inv (sy_store s)" "nul_free sy" "nul_free d" "load [r] sy d s = ((res, err), s')" "0 < lr_loaded res"
  then show "ab_is_delivered (abs (sy_store s')) (row_id r, sy, d)"
    unfolding eq by (rule destination.load_marks [OF dest])
next
  fix s s' :: "('st, 'w) sys" and sy d rs res err
  assume "inv (sy_store s)" "nul_free sy" "nul_free d" "load rs sy d s = ((res, err), s')"
  then show "inv (sy_store s') \<and> ab_entities (abs (sy_store s')) = ab_entities (abs (sy_store s))
      \<and> ab_fired (abs (sy_store s')) = ab_fired (abs (sy_store s))"
    using frame [of sy d s rs] by (simp add: same_states_def)
next
  fix s s' :: "('st, 'w) sys" and sy d r res err
  assume "sy_ctx s = None" "load [r] sy d s = ((res, err), s')"
  then show "sy_ctx s' = None \<and> counts_once res err"
    unfolding eq by (rule counting_destination.load_counts [OF one])
qed

end

end
