(* ===== verification/Postgres_Dest.thy ===== *)
theory Postgres_Dest
  imports Dest_Common Source_Sql Diff Engine_Deliver "HOL-Library.Multiset"
begin

section \<open>The PostgreSQL destination: internal/connector/destination/postgres.go\<close>

text \<open>
  The texts of the statements, the loads of every strategy (per row, in multi-row chunks, by COPY,
  into a staging table, as versions of a slowly changing dimension) and the swap at the end of a
  run. The server is a parameter: it answers each statement with an error or none. The statements
  of the query builder (squirrel) are a parameter too. What the context carries (the strategy and
  the run ID) is part of the environment; the engine never sets it.
\<close>

subsection \<open>Environment and state\<close>

record 'w pg_env =
  px_open :: "string \<Rightarrow> go_error option"
  px_pool_config :: "string \<Rightarrow> go_error option"
  px_pool :: "string \<Rightarrow> go_error option"
  px_ping :: "'w \<Rightarrow> go_error option"
  px_pool_ping :: "'w \<Rightarrow> go_error option"
  px_close :: "'w \<Rightarrow> go_error option"
  px_exec :: "string \<Rightarrow> gval list \<Rightarrow> 'w \<Rightarrow> go_error option \<times> 'w"
  px_begin :: "'w \<Rightarrow> go_error option \<times> 'w"
  px_tx_exec :: "string \<Rightarrow> gval list \<Rightarrow> 'w \<Rightarrow> go_error option \<times> 'w"
  px_commit :: "'w \<Rightarrow> go_error option \<times> 'w"
  px_rollback :: "'w \<Rightarrow> 'w"
  px_acquire :: "'w \<Rightarrow> go_error option \<times> 'w"
  px_copy :: "string \<times> string \<Rightarrow> string list \<Rightarrow> gval list list \<Rightarrow> 'w \<Rightarrow> (int \<times> go_error option) \<times> 'w"
  px_release :: "'w \<Rightarrow> 'w"
  px_insert_sql :: "string \<Rightarrow> string list \<Rightarrow> gval list \<Rightarrow> string \<Rightarrow> (string \<times> gval list) res"
  px_nanos :: "'w \<Rightarrow> nat"
  px_strategy :: string
  px_run_id :: int

record 'w pg_world =
  pw_db :: 'w
  pw_query :: "(string \<times> string) list"
  pw_truncated :: "(int \<times> bool) list"
  pw_staging :: "(int \<times> string) list"

record pg_dest =
  pd_cfg :: conn_dest
  pd_open :: bool

definition pg_world_init :: "'w \<Rightarrow> 'w pg_world" where
  "pg_world_init w = \<lparr>pw_db = w, pw_query = [], pw_truncated = [], pw_staging = []\<rparr>"

type_synonym ('st, 'w) pg_sys = "('st, 'w pg_world) sys"

definition pg_db :: "('w \<Rightarrow> 'r \<times> 'w) \<Rightarrow> ('st, 'w) pg_sys \<Rightarrow> 'r \<times> ('st, 'w) pg_sys" where
  "pg_db f s = (case f (pw_db (sy_world s)) of (r, w) \<Rightarrow> (r, s\<lparr>sy_world := (sy_world s)\<lparr>pw_db := w\<rparr>\<rparr>))"

definition err_conn_done :: go_error where
  "err_conn_done = ErrMsg ''sql: connection is already closed''"

definition err_bad_conn :: go_error where
  "err_bad_conn = ErrMsg ''driver: bad connection''"

definition is_fatal_db_error :: "go_error \<Rightarrow> bool" where
  "is_fatal_db_error err \<longleftrightarrow> error_is err err_conn_done \<or> error_is err err_bad_conn"

definition no_columns :: go_error where
  "no_columns = ErrMsg ''postgres destination: row has no columns''"

subsection \<open>Texts of the statements\<close>

definition dest_quote_identifier :: "string \<Rightarrow> string" where
  "dest_quote_identifier = quote_with CHR 0x22"

definition split_table_name :: "string \<Rightarrow> string \<times> string" where
  "split_table_name table =
     (case split_once ''.'' table of Some (a, b) \<Rightarrow> (a, b) | None \<Rightarrow> (''public'', table))"

definition dest_quote_table :: "string \<Rightarrow> string" where
  "dest_quote_table table =
     (case split_once ''.'' table of
        Some (a, b) \<Rightarrow> dest_quote_identifier a @ ''.'' @ dest_quote_identifier b
      | None \<Rightarrow> dest_quote_identifier ''public'' @ ''.'' @ dest_quote_identifier table)"

definition split_match_on :: "string \<Rightarrow> string list" where
  "split_match_on m = filter (\<lambda>k. k \<noteq> []) (map trim_space (split_char CHR '','' m))"

definition sorted_columns :: "payload \<Rightarrow> string list" where
  "sorted_columns p = sort (map fst p)"

definition sorted_row_columns :: "row list \<Rightarrow> string list" where
  "sorted_row_columns rows = (case rows of [] \<Rightarrow> [] | r # _ \<Rightarrow> sorted_columns (row_data r))"

definition row_args :: "string list \<Rightarrow> row \<Rightarrow> gval list" where
  "row_args cols r = map (get_or_nil (row_data r)) cols"

definition placeholder :: "nat \<Rightarrow> string" where
  "placeholder n = ''$'' @ dec_nat n"

definition values_group :: "nat \<Rightarrow> nat \<Rightarrow> string" where
  "values_group n i = ''('' @ join '', '' (map (\<lambda>j. placeholder (i * n + j + 1)) [0..<n]) @ '')''"

definition excluded_assignments :: "string \<Rightarrow> string list \<Rightarrow> string list" where
  "excluded_assignments m cols =
     map (\<lambda>c. dest_quote_identifier c @ '' = EXCLUDED.'' @ dest_quote_identifier c) (filter (\<lambda>c. c \<noteq> m) cols)"

definition conflict_clause :: "string \<Rightarrow> string list \<Rightarrow> string" where
  "conflict_clause m cols =
     ''ON CONFLICT ('' @ dest_quote_identifier m @ '') '' @
     (if excluded_assignments m cols = [] then ''DO NOTHING''
      else ''DO UPDATE SET '' @ join '', '' (excluded_assignments m cols))"

definition build_multi_write ::
  "string \<Rightarrow> string \<Rightarrow> string list \<Rightarrow> row list \<Rightarrow> bool \<Rightarrow> string \<times> gval list" where
  "build_multi_write table m cols batch insert_only =
     (''INSERT INTO '' @ dest_quote_table table @ '' ('' @ join '', '' (map dest_quote_identifier cols)
        @ '') VALUES '' @ join '', '' (map (values_group (length cols)) [0..<length batch])
        @ (if \<not> insert_only \<and> m \<noteq> [] then '' '' @ conflict_clause m cols else []),
      concat (map (row_args cols) batch))"

definition build_upsert_sql :: "'w pg_env \<Rightarrow> string \<Rightarrow> string \<Rightarrow> string list \<Rightarrow> string" where
  "build_upsert_sql x table m cols =
     (case px_insert_sql x (dest_quote_table table) (map dest_quote_identifier cols)
             (replicate (length cols) GNil) (conflict_clause m cols) of
        Inr (q, _) \<Rightarrow> q
      | Inl _ \<Rightarrow> [])"

text \<open>The statement that closes the current version of a key, and the one that opens a new one.\<close>

definition key_conditions :: "nat \<Rightarrow> string list \<Rightarrow> string" where
  "key_conditions ph keys =
     concat (map (\<lambda>(i, k). '' AND '' @ dest_quote_identifier k @ '' = '' @ placeholder (ph + i)) (enumerate 0 keys))"

definition scd2_close :: "string \<Rightarrow> string list \<Rightarrow> string list \<Rightarrow> row \<Rightarrow> string \<times> gval list" where
  "scd2_close table cols keys r =
     (let rest = filter (\<lambda>c. c \<notin> set keys) cols;
          diffs = map (\<lambda>(i, c). dest_quote_identifier c @ '' IS DISTINCT FROM ''
                         @ placeholder (length keys + 1 + i)) (enumerate 0 rest)
      in (''UPDATE '' @ dest_quote_table table
            @ '' SET \"_scd_valid_to\" = NOW(), \"_scd_is_current\" = FALSE WHERE \"_scd_is_current\"''
            @ key_conditions 1 keys
            @ (if diffs = [] then [] else '' AND ('' @ join '' OR '' diffs @ '')''),
          row_args keys r @ row_args rest r))"

definition scd2_insert :: "string \<Rightarrow> string list \<Rightarrow> string list \<Rightarrow> row \<Rightarrow> string \<times> gval list" where
  "scd2_insert table cols keys r =
     (''INSERT INTO '' @ dest_quote_table table @ '' (''
        @ join '', '' (map dest_quote_identifier cols @ [''\"_scd_valid_from\"'', ''\"_scd_is_current\"''])
        @ '') SELECT '' @ join '', '' (map (\<lambda>i. placeholder (i + 1)) [0..<length cols])
        @ '', NOW(), TRUE WHERE NOT EXISTS (SELECT 1 FROM '' @ dest_quote_table table
        @ '' WHERE \"_scd_is_current\"'' @ key_conditions (length cols + 1) keys @ '')'',
      row_args cols r @ row_args keys r)"

subsection \<open>Connect and the settings\<close>

definition scd2_columns :: "string \<Rightarrow> string list" where
  "scd2_columns target =
     [''ALTER TABLE '' @ target @ '' ADD COLUMN IF NOT EXISTS \"_scd_valid_from\" TIMESTAMPTZ NOT NULL DEFAULT NOW()'',
      ''ALTER TABLE '' @ target @ '' ADD COLUMN IF NOT EXISTS \"_scd_valid_to\" TIMESTAMPTZ'',
      ''ALTER TABLE '' @ target @ '' ADD COLUMN IF NOT EXISTS \"_scd_is_current\" BOOLEAN NOT NULL DEFAULT TRUE'']"

fun exec_all :: "'w pg_env \<Rightarrow> string list \<Rightarrow> 'w \<Rightarrow> go_error option \<times> 'w" where
  "exec_all x [] w = (None, w)"
| "exec_all x (q # qs) w = (case px_exec x q [] w of (Some e, w') \<Rightarrow> (Some e, w') | (None, w') \<Rightarrow> exec_all x qs w')"

fun first_error :: "go_error option list \<Rightarrow> go_error option" where
  "first_error [] = None"
| "first_error (Some e # es) = Some e"
| "first_error (None # es) = first_error es"

definition pg_connect :: "'w pg_env \<Rightarrow> conn_dest \<Rightarrow> 'w \<Rightarrow> pg_dest res \<times> 'w" where
  "pg_connect x cfg w =
     (let table = get_opt (cd_options cfg) ''table'';
          st = to_lower (trim_space (cd_strategy cfg));
          st' = (if st = [] then ''merge'' else st);
          cfg' = (if st = [] then cfg\<lparr>cd_strategy := ''merge''\<rparr> else cfg)
      in if trim_space table = [] then (Inl (ErrMsg ''postgres destination: table is required''), w)
         else if (st' = ''merge'' \<or> st' = ''delete+insert'' \<or> st' = ''scd2'') \<and> trim_space (cd_match_on cfg') = []
         then (Inl (ErrMsg ''postgres destination: match_on is required''), w)
         else (case first_error [px_open x (cd_connection cfg), px_pool_config x (cd_connection cfg),
                                 px_pool x (cd_connection cfg), px_ping x w, px_pool_ping x w] of
             Some e \<Rightarrow> (Inl e, w)
           | None \<Rightarrow>
               if st' = ''scd2'' then
                 (case exec_all x (scd2_columns (dest_quote_table table)) w of
                    (Some e, w') \<Rightarrow> (Inl (ErrWrap ''postgres destination: scd2 columns'' e), w')
                  | (None, w') \<Rightarrow> (Inr \<lparr>pd_cfg = cfg', pd_open = True\<rparr>, w'))
               else (Inr \<lparr>pd_cfg = cfg', pd_open = True\<rparr>, w)))"

definition pg_close :: "'w pg_env \<Rightarrow> pg_dest \<Rightarrow> 'w \<Rightarrow> go_error option" where
  "pg_close x c w = (if pd_open c then px_close x w else None)"

definition pg_strategy :: "'w pg_env \<Rightarrow> pg_dest \<Rightarrow> string" where
  "pg_strategy x c =
     (let s = to_lower (trim_space (px_strategy x)) in
      if s \<noteq> [] then s else to_lower (trim_space (cd_strategy (pd_cfg c))))"

definition positive_option :: "string \<Rightarrow> int \<Rightarrow> conn_dest \<Rightarrow> int" where
  "positive_option name dflt cfg =
     (case parse_int64 (trim_space (get_opt (cd_options cfg) name)) of
        Some n \<Rightarrow> if n > 0 then n else dflt
      | None \<Rightarrow> dflt)"

definition copy_threshold :: "pg_dest \<Rightarrow> int" where
  "copy_threshold c = positive_option ''copy_threshold'' 100 (pd_cfg c)"

definition raw_table :: "pg_dest \<Rightarrow> string" where
  "raw_table c = get_opt (cd_options (pd_cfg c)) ''table''"

definition pg_table :: "pg_dest \<Rightarrow> string" where
  "pg_table c = trim_space (raw_table c)"

definition pg_match :: "pg_dest \<Rightarrow> string" where
  "pg_match c = trim_space (cd_match_on (pd_cfg c))"

subsection \<open>Statements of one row\<close>

definition upsert_query ::
  "'w pg_env \<Rightarrow> pg_dest \<Rightarrow> row \<Rightarrow> 'w pg_world \<Rightarrow> (string \<times> gval list) res \<times> 'w pg_world" where
  "upsert_query x c r w =
     (let cols = sorted_columns (row_data r); key = join [nul] cols
      in if cols = [] then (Inl no_columns, w)
         else if pg_match c \<notin> set cols then
           (Inl (ErrMsg (''postgres destination: match_on column '' @ quote_q (pg_match c) @ '' missing from row'')), w)
         else (case alookup (pw_query w) key of
             Some q \<Rightarrow> (Inr (q, row_args cols r), w)
           | None \<Rightarrow>
               let q = build_upsert_sql x (pg_table c) (pg_match c) cols
               in (Inr (q, row_args cols r), w\<lparr>pw_query := aput key q (pw_query w)\<rparr>)))"

definition insert_only_query :: "'w pg_env \<Rightarrow> pg_dest \<Rightarrow> row \<Rightarrow> (string \<times> gval list) res" where
  "insert_only_query x c r =
     (let cols = sorted_columns (row_data r)
      in if cols = [] then Inl no_columns
         else px_insert_sql x (dest_quote_table (pg_table c)) (map dest_quote_identifier cols) (row_args cols r) [])"

definition write_query ::
  "'w pg_env \<Rightarrow> pg_dest \<Rightarrow> string \<Rightarrow> row \<Rightarrow> 'w pg_world \<Rightarrow> (string \<times> gval list) res \<times> 'w pg_world" where
  "write_query x c strat r w =
     (if (strat = ''append'' \<or> strat = ''replace'') \<and> pg_match c = [] then (insert_only_query x c r, w)
      else upsert_query x c r w)"

subsection \<open>Writing rows\<close>

text \<open>
  The error of a statement: one of the context returns \<open>ctx.Err()\<close>, which is nil when the context
  is alive; a broken connection ends the load; any other error is handled by the caller.
\<close>

definition ctx_or_fatal ::
  "load_result \<Rightarrow> go_error \<Rightarrow> ('st, 'w) sys \<Rightarrow> ((load_result \<times> go_error option option) \<times> ('st, 'w) sys) option" where
  "ctx_or_fatal res e s =
     (if is_ctx_error e
      then Some (case poll s of (stop, s1) \<Rightarrow> ((res, if stop then Some (Some ErrCanceled) else None), s1))
      else if is_fatal_db_error e then Some ((res, Some (Some e)), s)
      else None)"

definition write_single ::
  "'w pg_env \<Rightarrow> pg_dest \<Rightarrow> 'st store_ops \<Rightarrow> go_time \<Rightarrow> string \<Rightarrow> string \<Rightarrow> string
     \<Rightarrow> (row, 'st, 'w pg_world) loop_step" where
  "write_single x c ops now strat sy d r res s =
     (case poll s of
        (True, s1) \<Rightarrow> ((res, Some (Some ErrCanceled)), s1)
      | (False, s1) \<Rightarrow>
          (case write_query x c strat r (sy_world s1) of
             (Inl e, w) \<Rightarrow> ((lr_add_error r e res, None), s1\<lparr>sy_world := w\<rparr>)
           | (Inr (q, args), w) \<Rightarrow>
               (case pg_db (px_exec x q args) (s1\<lparr>sy_world := w\<rparr>) of
                  (Some e, s2) \<Rightarrow>
                    (case ctx_or_fatal res e s2 of Some out \<Rightarrow> out | None \<Rightarrow> ((lr_add_error r e res, None), s2))
                | (None, s2) \<Rightarrow> (case mark_row ops now sy d (res, s2) r of (res', s3) \<Rightarrow> ((res', None), s3)))))"

text \<open>
  The order of \<open>sort.SliceStable\<close> by \<open>lessValue\<close>: insertion from the right, as the library does on
  up to twenty elements; on more it gives the same order whenever \<open>lessValue\<close> is consistent on the
  values, which may be of different types.
\<close>

definition less_value :: "gval \<Rightarrow> gval \<Rightarrow> bool" where
  "less_value a b =
     (case (a, b) of
        (GInt i, GInt j) \<Rightarrow> i < j
      | (GFloat f, GFloat g) \<Rightarrow> f64_less f g
      | (GStr s, GStr t) \<Rightarrow> s < t
      | (GTime t, GTime u) \<Rightarrow> t < u
      | _ \<Rightarrow> sprint_v a < sprint_v b)"

fun sink :: "('a \<Rightarrow> 'a \<Rightarrow> bool) \<Rightarrow> 'a \<Rightarrow> 'a list \<Rightarrow> 'a list" where
  "sink lt x [] = [x]"
| "sink lt x (y # ys) = (if lt x y then y # sink lt x ys else x # y # ys)"

definition slice_stable :: "('a \<Rightarrow> 'a \<Rightarrow> bool) \<Rightarrow> 'a list \<Rightarrow> 'a list" where
  "slice_stable lt xs = rev (foldl (\<lambda>acc x. sink lt x acc) [] xs)"

definition sort_rows_by_key :: "string \<Rightarrow> row list \<Rightarrow> row list" where
  "sort_rows_by_key k =
     slice_stable (\<lambda>r q. less_value (get_or_nil (row_data r) k) (get_or_nil (row_data q) k))"

text \<open>Rows grouped by their columns, in the order of the first row of each group.\<close>

definition group_row ::
  "(string \<times> string list \<times> row list) list \<Rightarrow> row \<Rightarrow> (string \<times> string list \<times> row list) list" where
  "group_row gs r =
     (let cols = sorted_columns (row_data r); sig = join [nul] cols
      in case alookup gs sig of
           None \<Rightarrow> aput sig (cols, [r]) gs
         | Some (cols', rs) \<Rightarrow> aput sig (cols', rs @ [r]) gs)"

definition group_rows :: "row list \<Rightarrow> (string list \<times> row list) list" where
  "group_rows rows = map snd (foldl group_row [] rows)"

definition max_chunk :: "nat \<Rightarrow> nat" where
  "max_chunk n = (let m = 65000 div n; m1 = (if m > 1000 then 1000 else m) in if m1 < 1 then 1 else m1)"

text \<open>
  A chunk is closed when a key repeats in it or when it is full. \<open>key\<close> is the printed match value,
  or nothing when there is no conflict clause.
\<close>

fun cut_chunks :: "(row \<Rightarrow> string option) \<Rightarrow> nat \<Rightarrow> row list \<Rightarrow> row list \<Rightarrow> string list \<Rightarrow> row list list" where
  "cut_chunks key m [] chunk seen = (if chunk = [] then [] else [chunk])"
| "cut_chunks key m (r # rs) chunk seen =
     (let dup = (case key r of None \<Rightarrow> False | Some k \<Rightarrow> k \<in> set seen);
          flushed = (dup \<and> chunk \<noteq> []);
          chunk1 = (if flushed then [] else chunk) @ [r];
          seen1 = (case key r of None \<Rightarrow> [] | Some k \<Rightarrow> [k]) @ (if flushed then [] else seen)
      in (if flushed then [chunk] else []) @
         (if length chunk1 \<ge> m then chunk1 # cut_chunks key m rs [] []
          else cut_chunks key m rs chunk1 seen1))"

definition match_key :: "bool \<Rightarrow> string \<Rightarrow> row \<Rightarrow> string option" where
  "match_key insert_only m r =
     (if \<not> insert_only \<and> m \<noteq> [] then Some (sprint_v (get_or_nil (row_data r) m)) else None)"

definition flush_chunk ::
  "'w pg_env \<Rightarrow> pg_dest \<Rightarrow> 'st store_ops \<Rightarrow> go_time \<Rightarrow> string \<Rightarrow> string \<Rightarrow> string \<Rightarrow> bool \<Rightarrow> string list
     \<Rightarrow> (row list, 'st, 'w pg_world) loop_step" where
  "flush_chunk x c ops now strat sy d insert_only cols batch res s =
     (case poll s of
        (True, s1) \<Rightarrow> ((res, Some (Some ErrCanceled)), s1)
      | (False, s1) \<Rightarrow>
          (case build_multi_write (raw_table c) (pg_match c) cols batch insert_only of (q, args) \<Rightarrow>
             (case pg_db (px_exec x q args) s1 of
                (Some e, s2) \<Rightarrow>
                  (case ctx_or_fatal res e s2 of
                     Some out \<Rightarrow> out
                   | None \<Rightarrow>
                       (case each (write_single x c ops now strat sy d) batch res s2 of
                          ((res', err), s3) \<Rightarrow> ((res', map_option Some err), s3)))
              | (None, s2) \<Rightarrow>
                  (case foldl (mark_row ops now sy d) (res, s2) batch of (res', s3) \<Rightarrow> ((res', None), s3)))))"

definition write_group ::
  "'w pg_env \<Rightarrow> pg_dest \<Rightarrow> 'st store_ops \<Rightarrow> go_time \<Rightarrow> string \<Rightarrow> string \<Rightarrow> string \<Rightarrow> bool
     \<Rightarrow> (string list \<times> row list, 'st, 'w pg_world) loop_step" where
  "write_group x c ops now strat sy d insert_only g res s =
     (case g of (cols, rs) \<Rightarrow>
        if cols = [] then ((fail_rows no_columns rs res, None), s)
        else (case each (flush_chunk x c ops now strat sy d insert_only cols)
                     (cut_chunks (match_key insert_only (pg_match c)) (max_chunk (length cols)) rs [] []) res s of
                ((res', err), s') \<Rightarrow> ((res', map_option Some err), s')))"

definition chunked_write ::
  "'w pg_env \<Rightarrow> pg_dest \<Rightarrow> 'st store_ops \<Rightarrow> go_time \<Rightarrow> string \<Rightarrow> ('st, 'w pg_world) row_writer" where
  "chunked_write x c ops now strat pend sy d res s =
     (let insert_only = ((strat = ''append'' \<or> strat = ''replace'') \<and> pg_match c = [])
      in each (write_group x c ops now strat sy d insert_only) (group_rows pend) res s)"

definition write_pending ::
  "'w pg_env \<Rightarrow> pg_dest \<Rightarrow> 'st store_ops \<Rightarrow> go_time \<Rightarrow> string \<Rightarrow> ('st, 'w pg_world) row_writer" where
  "write_pending x c ops now strat pend sy d res s =
     (if length pend > 1 \<and> CHR '','' \<notin> set (pg_match c)
      then chunked_write x c ops now strat (sort_rows_by_key (pg_match c) pend) sy d res s
      else each (write_single x c ops now strat sy d) pend res s)"

definition maybe_truncate ::
  "'w pg_env \<Rightarrow> pg_dest \<Rightarrow> ('st, 'w) pg_sys \<Rightarrow> go_error option \<times> ('st, 'w) pg_sys" where
  "maybe_truncate x c s =
     (if pg_strategy x c \<noteq> ''replace'' then (None, s)
      else if px_run_id x \<noteq> 0 \<and> alookup (pw_truncated (sy_world s)) (px_run_id x) = Some True then (None, s)
      else (case pg_db (px_exec x (''TRUNCATE TABLE '' @ dest_quote_table (raw_table c)) []) s of
              (Some e, s1) \<Rightarrow> (Some e, s1)
            | (None, s1) \<Rightarrow>
                (None, if px_run_id x = 0 then s1
                       else s1\<lparr>sy_world := (sy_world s1)\<lparr>pw_truncated :=
                              aput (px_run_id x) True (pw_truncated (sy_world s1))\<rparr>\<rparr>)))"

definition insert_batch ::
  "'w pg_env \<Rightarrow> pg_dest \<Rightarrow> 'st store_ops \<Rightarrow> go_time \<Rightarrow> ('st, 'w pg_world) loader" where
  "insert_batch x c ops now rows sy d s =
     (case poll s of
        (True, s1) \<Rightarrow> ((lr_empty, Some ErrCanceled), s1)
      | (False, s1) \<Rightarrow>
          if rows = [] then ((lr_empty, None), s1)
          else (case maybe_truncate x c s1 of
             (Some e, s2) \<Rightarrow> ((lr_empty, Some e), s2)
           | (None, s2) \<Rightarrow>
               (let strat = pg_strategy x c; looks = (strat \<noteq> ''append'' \<and> strat \<noteq> ''replace'')
                in case scan_rows True looks (\<lambda>_. None) ops sy d rows lr_empty [] s2 of
                     ((res, pend, Some e), s3) \<Rightarrow> ((res, Some e), s3)
                   | ((res, pend, None), s3) \<Rightarrow>
                       if pend = [] then ((res, None), s3) else write_pending x c ops now strat pend sy d res s3)))"

subsection \<open>COPY, staging, versions\<close>

definition copy_load ::
  "'w pg_env \<Rightarrow> row list \<Rightarrow> string \<Rightarrow> string list \<Rightarrow> ('st, 'w) pg_sys \<Rightarrow> (int \<times> go_error option) \<times> ('st, 'w) pg_sys" where
  "copy_load x rows table cols s =
     (if rows = [] then ((0, None), s)
      else if cols = [] then ((0, Some no_columns), s)
      else (case pg_db (px_acquire x) s of
              (Some e, s1) \<Rightarrow> ((0, Some e), s1)
            | (None, s1) \<Rightarrow>
                (case pg_db (px_copy x (split_table_name table) cols (map (row_args cols) rows)) s1 of
                   (r, s2) \<Rightarrow> (r, snd (pg_db (\<lambda>w. ((), px_release x w)) s2)))))"

definition copy_batch ::
  "'w pg_env \<Rightarrow> pg_dest \<Rightarrow> 'st store_ops \<Rightarrow> go_time \<Rightarrow> ('st, 'w pg_world) loader" where
  "copy_batch x c ops now rows sy d s =
     (case maybe_truncate x c s of
        (Some e, s1) \<Rightarrow> ((lr_empty, Some e), s1)
      | (None, s1) \<Rightarrow>
          (case copy_load x rows (raw_table c) (sorted_row_columns rows) s1 of
             ((n, None), s2) \<Rightarrow> ((lr_empty\<lparr>lr_loaded := n\<rparr>, None), s2)
           | ((n, Some e), s2) \<Rightarrow> insert_batch x c ops now rows sy d s2))"

definition staging_name :: "pg_dest \<Rightarrow> int \<Rightarrow> string" where
  "staging_name c rid = replace_char CHR ''.'' ''_'' (pg_table c) @ ''_vstg_'' @ dec_int rid"

definition ensure_staging ::
  "'w pg_env \<Rightarrow> pg_dest \<Rightarrow> ('st, 'w) pg_sys \<Rightarrow> string res \<times> ('st, 'w) pg_sys" where
  "ensure_staging x c s =
     (case alookup (pw_staging (sy_world s)) (px_run_id x) of
        Some t \<Rightarrow> (Inr t, s)
      | None \<Rightarrow>
          (let t = staging_name c (px_run_id x) in
           case pg_db (px_exec x (''CREATE TABLE IF NOT EXISTS '' @ dest_quote_table t @ '' (LIKE ''
                    @ dest_quote_table (pg_table c) @ '' INCLUDING DEFAULTS)'') []) s of
             (Some e, s1) \<Rightarrow> (Inl e, s1)
           | (None, s1) \<Rightarrow>
               (Inr t, s1\<lparr>sy_world := (sy_world s1)\<lparr>pw_staging := aput (px_run_id x) t (pw_staging (sy_world s1))\<rparr>\<rparr>)))"

definition replace_staging_load ::
  "'w pg_env \<Rightarrow> pg_dest \<Rightarrow> row list \<Rightarrow> ('st, 'w) pg_sys \<Rightarrow> (load_result \<times> go_error option) \<times> ('st, 'w) pg_sys" where
  "replace_staging_load x c rows s =
     (case ensure_staging x c s of
        (Inl e, s1) \<Rightarrow> ((lr_empty, Some (ErrWrap ''postgres destination: staging table'' e)), s1)
      | (Inr t, s1) \<Rightarrow>
          (let cols = sorted_row_columns rows in
           case (if int (length rows) \<ge> copy_threshold c then copy_load x rows t cols s1
                 else ((0, Some no_columns), s1)) of
             ((n, None), s2) \<Rightarrow> ((lr_empty\<lparr>lr_loaded := n\<rparr>, None), s2)
           | ((_, Some _), s2) \<Rightarrow>
               (case build_multi_write t [] cols rows True of (q, args) \<Rightarrow>
                  (case pg_db (px_exec x q args) s2 of
                     (Some e, s3) \<Rightarrow> ((fail_rows e rows lr_empty, None), s3)
                   | (None, s3) \<Rightarrow> ((lr_empty\<lparr>lr_loaded := int (length rows)\<rparr>, None), s3)))))"

definition rolled_back ::
  "'w pg_env \<Rightarrow> row \<Rightarrow> go_error \<Rightarrow> load_result \<Rightarrow> ('st, 'w) pg_sys \<Rightarrow>
     (load_result \<times> go_error option option) \<times> ('st, 'w) pg_sys" where
  "rolled_back x r e res s =
     (let s1 = snd (pg_db (\<lambda>w. ((), px_rollback x w)) s) in
      if is_fatal_db_error e then ((res, Some (Some e)), s1) else ((lr_add_error r e res, None), s1))"

definition scd2_write ::
  "'w pg_env \<Rightarrow> pg_dest \<Rightarrow> 'st store_ops \<Rightarrow> go_time \<Rightarrow> string \<Rightarrow> string \<Rightarrow> (row, 'st, 'w pg_world) loop_step" where
  "scd2_write x c ops now sy d r res s =
     (let cols = filter (\<lambda>k. \<not> has_prefix k ''_scd_'') (sorted_columns (row_data r));
          keys = split_match_on (cd_match_on (pd_cfg c))
      in if cols = [] then ((lr_add_error r no_columns res, None), s)
         else case (scd2_close (pg_table c) cols keys r, scd2_insert (pg_table c) cols keys r) of
                ((q1, a1), (q2, a2)) \<Rightarrow>
           (case pg_db (px_begin x) s of
              (Some e, s1) \<Rightarrow> ((res, Some (Some e)), s1)
            | (None, s1) \<Rightarrow>
           (case pg_db (px_tx_exec x q1 a1) s1 of
              (Some e, s2) \<Rightarrow> rolled_back x r e res s2
            | (None, s2) \<Rightarrow>
           (case pg_db (px_tx_exec x q2 a2) s2 of
              (Some e, s3) \<Rightarrow> rolled_back x r e res s3
            | (None, s3) \<Rightarrow>
           (case pg_db (px_commit x) s3 of
              (Some e, s4) \<Rightarrow> ((lr_add_error r e res, None), s4)
            | (None, s4) \<Rightarrow> (case mark_row ops now sy d (res, s4) r of (res', s5) \<Rightarrow> ((res', None), s5)))))))"

definition scd2_row ::
  "'w pg_env \<Rightarrow> pg_dest \<Rightarrow> 'st store_ops \<Rightarrow> go_time \<Rightarrow> string \<Rightarrow> string \<Rightarrow> (row, 'st, 'w pg_world) loop_step" where
  "scd2_row x c ops now sy d r res s =
     (case poll s of
        (True, s1) \<Rightarrow> ((res, Some (Some ErrCanceled)), s1)
      | (False, s1) \<Rightarrow>
          (case st_is_delivered ops (row_id r) sy d (sy_store s1) of
             Inl e \<Rightarrow> ((lr_add_error r e res, None), s1)
           | Inr True \<Rightarrow> ((lr_add_skip res, None), s1)
           | Inr False \<Rightarrow> scd2_write x c ops now sy d r res s1))"

definition scd2_batch ::
  "'w pg_env \<Rightarrow> pg_dest \<Rightarrow> 'st store_ops \<Rightarrow> go_time \<Rightarrow> ('st, 'w pg_world) loader" where
  "scd2_batch x c ops now rows sy d s = each (scd2_row x c ops now sy d) rows lr_empty s"

definition pg_load ::
  "'w pg_env \<Rightarrow> pg_dest \<Rightarrow> 'st store_ops \<Rightarrow> go_time \<Rightarrow> ('st, 'w pg_world) loader" where
  "pg_load x c ops now rows sy d s =
     (case poll s of
        (True, s1) \<Rightarrow> ((lr_empty, Some ErrCanceled), s1)
      | (False, s1) \<Rightarrow>
          if \<not> pd_open c then ((lr_empty, Some (ErrMsg ''postgres destination: not connected'')), s1)
          else if rows = [] then ((lr_empty, None), s1)
          else (let strat = pg_strategy x c; bulk = int (length rows) \<ge> copy_threshold c
                in if strat = ''append'' then
                     if bulk then copy_batch x c ops now rows sy d s1 else insert_batch x c ops now rows sy d s1
                   else if strat = ''replace'' then
                     if px_run_id x \<noteq> 0 then replace_staging_load x c rows s1
                     else if bulk then copy_batch x c ops now rows sy d s1
                     else insert_batch x c ops now rows sy d s1
                   else if strat = ''scd2'' then scd2_batch x c ops now rows sy d s1
                   else insert_batch x c ops now rows sy d s1))"

subsection \<open>The end of a replace run, and the merge of a staging table\<close>

text \<open>A transaction that was committed, or whose commit failed, is not rolled back again.\<close>

definition drop_staging :: "'w pg_env \<Rightarrow> string \<Rightarrow> ('st, 'w) pg_sys \<Rightarrow> ('st, 'w) pg_sys" where
  "drop_staging x t s = snd (pg_db (px_exec x (''DROP TABLE IF EXISTS '' @ dest_quote_table t) []) s)"

definition swap_failed ::
  "'w pg_env \<Rightarrow> string \<Rightarrow> go_error \<Rightarrow> ('st, 'w) pg_sys \<Rightarrow> go_error option \<times> ('st, 'w) pg_sys" where
  "swap_failed x t e s = (Some e, snd (pg_db (\<lambda>w. ((), px_rollback x w)) (drop_staging x t s)))"

definition finalize_run ::
  "'w pg_env \<Rightarrow> pg_dest \<Rightarrow> int \<Rightarrow> bool \<Rightarrow> ('st, 'w) pg_sys \<Rightarrow> go_error option \<times> ('st, 'w) pg_sys" where
  "finalize_run x c rid succeeded s0 =
     (let s = s0\<lparr>sy_world := (sy_world s0)\<lparr>pw_truncated := adel rid (pw_truncated (sy_world s0)),
                                         pw_staging := adel rid (pw_staging (sy_world s0))\<rparr>\<rparr>
      in case alookup (pw_staging (sy_world s0)) rid of
           None \<Rightarrow> (None, s)
         | Some t \<Rightarrow>
             if \<not> succeeded then (None, drop_staging x t s)
             else (case pg_db (px_begin x) s of
                (Some e, s1) \<Rightarrow> (Some e, drop_staging x t s1)
              | (None, s1) \<Rightarrow>
             (case pg_db (px_tx_exec x (''TRUNCATE TABLE '' @ dest_quote_table (pg_table c)) []) s1 of
                (Some e, s2) \<Rightarrow> swap_failed x t (ErrWrap ''postgres destination: replace swap truncate'' e) s2
              | (None, s2) \<Rightarrow>
             (case pg_db (px_tx_exec x (''INSERT INTO '' @ dest_quote_table (pg_table c) @ '' SELECT * FROM ''
                        @ dest_quote_table t) []) s2 of
                (Some e, s3) \<Rightarrow> swap_failed x t (ErrWrap ''postgres destination: replace swap insert'' e) s3
              | (None, s3) \<Rightarrow>
             (case pg_db (px_commit x) s3 of
                (e, s4) \<Rightarrow> (e, drop_staging x t s4))))))"

fun digits36 :: "nat \<Rightarrow> nat \<Rightarrow> string" where
  "digits36 0 n = []"
| "digits36 (Suc fuel) n =
     (if n < 36 then [''0123456789abcdefghijklmnopqrstuvwxyz'' ! n]
      else digits36 fuel (n div 36) @ [''0123456789abcdefghijklmnopqrstuvwxyz'' ! (n mod 36)])"

definition create_staging ::
  "'w pg_env \<Rightarrow> string \<Rightarrow> ('st, 'w) pg_sys \<Rightarrow> string res \<times> ('st, 'w) pg_sys" where
  "create_staging x table s =
     (let n = px_nanos x (pw_db (sy_world s));
          t = table @ ''_vortara_staging_'' @ digits36 (Suc n) n
      in case pg_db (px_exec x (''CREATE TEMP TABLE '' @ dest_quote_identifier t @ '' (LIKE ''
                 @ dest_quote_table table @ '' INCLUDING DEFAULTS)'') []) s of
           (Some e, s1) \<Rightarrow> (Inl e, s1)
         | (None, s1) \<Rightarrow> (Inr t, s1))"

definition merge_sql :: "string \<Rightarrow> string \<Rightarrow> string list \<Rightarrow> string \<Rightarrow> string" where
  "merge_sql staging target cols m =
     ''INSERT INTO '' @ dest_quote_table target @ '' ('' @ join '', '' (map dest_quote_identifier cols)
       @ '') SELECT '' @ join '', '' (map dest_quote_identifier cols) @ '' FROM ''
       @ dest_quote_identifier staging @ '' '' @ conflict_clause m cols"

definition merge_staging ::
  "'w pg_env \<Rightarrow> string \<Rightarrow> string \<Rightarrow> string list \<Rightarrow> string \<Rightarrow> ('st, 'w) pg_sys \<Rightarrow> go_error option \<times> ('st, 'w) pg_sys" where
  "merge_staging x staging target cols m s =
     (if cols = [] then (Some (ErrMsg ''postgres destination: no columns to merge''), s)
      else (case pg_db (px_exec x (merge_sql staging target cols m) []) s of
              (Some e, s1) \<Rightarrow> (Some e, s1)
            | (None, s1) \<Rightarrow> pg_db (px_exec x (''DROP TABLE IF EXISTS '' @ dest_quote_identifier staging) []) s1))"

subsection \<open>What the statements carry\<close>

text \<open>One argument per placeholder, row by row and column by column.\<close>

lemma length_row_args [simp]: "length (row_args cols r) = length cols"
  by (simp add: row_args_def)

lemma nth_concat_same:
  "\<forall>x \<in> set xss. length x = n \<Longrightarrow> i < length xss \<Longrightarrow> j < n \<Longrightarrow> concat xss ! (i * n + j) = xss ! i ! j"
proof (induction xss arbitrary: i)
  case (Cons x xss)
  then show ?case by (cases i) (auto simp: nth_append)
qed simp

lemma multi_write_args:
  assumes "build_multi_write table m cols batch insert_only = (q, args)"
  shows "length args = length batch * length cols
    \<and> (\<forall>i < length batch. \<forall>j < length cols.
         args ! (i * length cols + j) = get_or_nil (row_data (batch ! i)) (cols ! j))"
proof -
  have args: "args = concat (map (row_args cols) batch)" using assms by (simp add: build_multi_write_def)
  have "length args = length batch * length cols"
    unfolding args by (simp add: length_concat comp_def sum_list_triv)
  moreover have "args ! (i * length cols + j) = get_or_nil (row_data (batch ! i)) (cols ! j)"
    if "i < length batch" "j < length cols" for i j
    unfolding args using that nth_concat_same [of "map (row_args cols) batch" "length cols" i j]
    by (simp add: row_args_def)
  ultimately show ?thesis by simp
qed

subsection \<open>Sorting, grouping and cutting lose no row\<close>

lemma mset_sink_by [simp]: "mset (sink lt x ys) = add_mset x (mset ys)"
  by (induction ys) auto

lemma set_sink_by [simp]: "set (sink lt x ys) = insert x (set ys)"
  by (metis mset_sink_by set_mset_add_mset_insert set_mset_mset)

lemma mset_slice_stable [simp]: "mset (slice_stable lt xs) = mset xs"
proof -
  have "mset (foldl (\<lambda>acc x. sink lt x acc) acc xs) = mset xs + mset acc" for acc
    by (induction xs arbitrary: acc) auto
  then show ?thesis by (simp add: slice_stable_def)
qed

text \<open>On values of one kind the order is the one of the kind: the rows come out sorted.\<close>

lemma sink_sorted:
  assumes "\<And>a b. lt a b \<Longrightarrow> \<not> lt b a" "\<And>a b c. lt a c \<Longrightarrow> lt a b \<or> lt b c"
  shows "sorted_wrt (\<lambda>a b. \<not> lt a b) ys \<Longrightarrow> sorted_wrt (\<lambda>a b. \<not> lt a b) (sink lt x ys)"
proof (induction ys)
  case (Cons y ys)
  show ?case
  proof (cases "lt x y")
    case True
    then have "\<not> lt y x" by (rule assms(1))
    then show ?thesis using Cons True by simp
  next
    case False
    then have "\<not> lt x z" if "z \<in> set ys" for z using Cons.prems assms(2) [of x z y] that by auto
    then show ?thesis using Cons False by simp
  qed
qed simp

lemma slice_stable_sorted:
  assumes "\<And>a b. lt a b \<Longrightarrow> \<not> lt b a" "\<And>a b c. lt a c \<Longrightarrow> lt a b \<or> lt b c"
  shows "sorted_wrt (\<lambda>a b. \<not> lt b a) (slice_stable lt xs)"
proof -
  have "sorted_wrt (\<lambda>a b. \<not> lt a b) acc \<Longrightarrow>
      sorted_wrt (\<lambda>a b. \<not> lt a b) (foldl (\<lambda>acc x. sink lt x acc) acc xs)" for acc
  proof (induction xs arbitrary: acc)
    case (Cons x xs)
    show ?case using Cons.IH [OF sink_sorted [OF assms Cons.prems]] by simp
  qed simp
  from this [of "[]"] show ?thesis by (simp add: slice_stable_def sorted_wrt_rev)
qed

text \<open>Grouping by columns.\<close>

definition group_ok :: "string \<times> string list \<times> row list \<Rightarrow> bool" where
  "group_ok g \<longleftrightarrow> (case g of (sig, cols, rs) \<Rightarrow>
     (\<forall>r \<in> set rs. join [nul] (sorted_columns (row_data r)) = sig) \<and> join [nul] cols = sig)"

lemma mset_aput_groups:
  "distinct (map fst gs) \<Longrightarrow> alookup gs k = Some (c, rs) \<Longrightarrow>
   mset (concat (map (snd \<circ> snd) (aput k (c', rs @ [r]) gs))) = add_mset r (mset (concat (map (snd \<circ> snd) gs)))"
  by (induction gs) (auto split: if_splits)

lemma in_aput_groups: "g \<in> set (aput k v gs) \<Longrightarrow> g = (k, v) \<or> g \<in> set gs"
  by (induction gs) (auto split: if_splits)

lemma aput_new_group: "k \<notin> fst ` set gs \<Longrightarrow> aput k v gs = gs @ [(k, v)]"
  by (induction gs) auto

lemma group_row_step:
  assumes "distinct (map fst gs)" "\<forall>g \<in> set gs. group_ok g"
  shows "distinct (map fst (group_row gs r)) \<and> (\<forall>g \<in> set (group_row gs r). group_ok g)
    \<and> mset (concat (map (snd \<circ> snd) (group_row gs r))) = add_mset r (mset (concat (map (snd \<circ> snd) gs)))"
proof -
  let ?cols = "sorted_columns (row_data r)" and ?sig = "join [nul] (sorted_columns (row_data r))"
  show ?thesis
  proof (cases "alookup gs ?sig")
    case None
    then have "?sig \<notin> fst ` set gs" by (simp add: map_of_eq_None_iff)
    then show ?thesis using assms None
      by (simp add: group_row_def Let_def aput_new_group group_ok_def)
  next
    case (Some v)
    obtain cols' rs where v: "v = (cols', rs)" by fastforce
    have old: "group_ok (?sig, cols', rs)" using assms(2) map_of_SomeD [OF Some [unfolded v]] by blast
    have "\<forall>g \<in> set (aput ?sig (cols', rs @ [r]) gs). group_ok g"
      using assms(2) old by (auto simp: group_ok_def dest!: in_aput_groups)
    then show ?thesis
      using assms(1) mset_aput_groups [OF assms(1) Some [unfolded v]] distinct_update [OF assms(1)]
      by (simp add: group_row_def Let_def Some v)
  qed
qed

lemma group_rows_partition:
  "mset (concat (map snd (group_rows rows))) = mset rows \<and>
   (\<forall>(cols, rs) \<in> set (group_rows rows). \<forall>r \<in> set rs.
      join [nul] (sorted_columns (row_data r)) = join [nul] cols)"
proof -
  have "distinct (map fst gs) \<Longrightarrow> \<forall>g \<in> set gs. group_ok g \<Longrightarrow>
      (\<forall>g \<in> set (foldl group_row gs rows). group_ok g)
      \<and> mset (concat (map (snd \<circ> snd) (foldl group_row gs rows))) = mset (concat (map (snd \<circ> snd) gs)) + mset rows"
    for gs
  proof (induction rows arbitrary: gs)
    case (Cons r rows)
    note st = group_row_step [OF Cons.prems, of r]
    show ?case using Cons.IH [of "group_row gs r"] st by (simp add: comp_def)
  qed simp
  from this [of "[]"] show ?thesis by (fastforce simp: group_rows_def group_ok_def)
qed

text \<open>Cutting into chunks.\<close>

lemma concat_cut_chunks: "concat (cut_chunks key m rs chunk seen) = chunk @ rs"
  by (induction key m rs chunk seen rule: cut_chunks.induct) (auto simp: Let_def)

lemma cut_chunks_size:
  assumes "0 < m"
  shows "length chunk < m \<Longrightarrow> c \<in> set (cut_chunks key m rs chunk seen) \<Longrightarrow> c \<noteq> [] \<and> length c \<le> m"
  using assms
proof (induction key m rs chunk seen rule: cut_chunks.induct)
  case (2 key m r rs chunk seen)
  define dup where "dup = (case key r of None \<Rightarrow> False | Some k \<Rightarrow> k \<in> set seen)"
  define chunk1 where "chunk1 = (if dup \<and> chunk \<noteq> [] then [] else chunk) @ [r]"
  have "c = chunk \<and> chunk \<noteq> [] \<or> (if length chunk1 \<ge> m then c = chunk1 \<or> c \<in> set (cut_chunks key m rs [] [])
      else c \<in> set (cut_chunks key m rs chunk1
        ((case key r of None \<Rightarrow> [] | Some k \<Rightarrow> [k]) @ (if dup \<and> chunk \<noteq> [] then [] else seen))))"
    using 2(4) by (auto simp: Let_def dup_def chunk1_def split: if_splits)
  moreover have "length chunk1 \<le> Suc (length chunk)" by (simp add: chunk1_def)
  moreover have "chunk1 \<noteq> []" by (simp add: chunk1_def)
  ultimately show ?case
    using 2(1) [OF refl refl refl refl, folded dup_def, folded chunk1_def] 2(2) [OF refl refl refl refl, folded dup_def, folded chunk1_def] 2(3,5)
    by (auto split: if_splits)
qed (auto split: if_splits)

definition keys_of :: "(row \<Rightarrow> string option) \<Rightarrow> row list \<Rightarrow> string list" where
  "keys_of key rs = concat (map (\<lambda>r. case key r of None \<Rightarrow> [] | Some k \<Rightarrow> [k]) rs)"

lemma keys_of_append [simp]: "keys_of key (a @ b) = keys_of key a @ keys_of key b"
  by (simp add: keys_of_def)

lemma keys_of_Nil [simp]: "keys_of key [] = []"
  by (simp add: keys_of_def)

lemma keys_of_one [simp]: "keys_of key [r] = (case key r of None \<Rightarrow> [] | Some k \<Rightarrow> [k])"
  by (simp add: keys_of_def)

lemma cut_chunks_distinct:
  "distinct (keys_of key chunk) \<Longrightarrow> set seen = set (keys_of key chunk) \<Longrightarrow>
   c \<in> set (cut_chunks key m rs chunk seen) \<Longrightarrow> distinct (keys_of key c)"
proof (induction key m rs chunk seen rule: cut_chunks.induct)
  case (2 key m r rs chunk seen)
  define dup where "dup = (case key r of None \<Rightarrow> False | Some k \<Rightarrow> k \<in> set seen)"
  define chunk1 where "chunk1 = (if dup \<and> chunk \<noteq> [] then [] else chunk) @ [r]"
  define seen1 where "seen1 = (case key r of None \<Rightarrow> [] | Some k \<Rightarrow> [k]) @ (if dup \<and> chunk \<noteq> [] then [] else seen)"
  have "distinct (keys_of key chunk1) \<and> set seen1 = set (keys_of key chunk1)"
    using 2(3,4) by (auto simp: chunk1_def seen1_def dup_def split: option.splits)
  moreover have "c = chunk \<or> (if length chunk1 \<ge> m then c = chunk1 \<or> c \<in> set (cut_chunks key m rs [] [])
      else c \<in> set (cut_chunks key m rs chunk1 seen1))"
    using 2(5) by (auto simp: Let_def dup_def chunk1_def seen1_def split: if_splits)
  ultimately show ?case
    using 2(1) [OF refl refl refl refl, folded dup_def, folded chunk1_def]
      2(2) [OF refl refl refl refl, folded dup_def, folded chunk1_def seen1_def] 2(3)
    by (auto split: if_splits)
qed (auto split: if_splits)

subsection \<open>The contract\<close>

lemma pg_db_frame [simp]:
  "sy_store (snd (pg_db f s)) = sy_store s" "sy_ctx (snd (pg_db f s)) = sy_ctx s"
  by (simp_all add: pg_db_def split: prod.splits)

lemma pg_db_frameD: "pg_db f s = (r, s') \<Longrightarrow> sy_store s' = sy_store s \<and> sy_ctx s' = sy_ctx s"
  by (metis pg_db_frame snd_conv)

lemma ctx_or_fatal_store: "ctx_or_fatal res e s = Some out \<Longrightarrow> sy_store (snd out) = sy_store s \<and> fst (fst out) = res"
  by (auto simp: ctx_or_fatal_def dest: poll_frameD split: if_splits prod.splits)

text \<open>The outcomes of a row that is written on its own: nothing but a mark touches the store.\<close>

lemma write_single_cases:
  assumes "write_single x c ops now strat sy d r res s = ((res', stop), s')"
  shows "(sy_store s' = sy_store s \<and> lr_loaded res' = lr_loaded res)
    \<or> (\<exists>s2. sy_store s2 = sy_store s \<and> mark_row ops now sy d (res, s2) r = (res', s'))"
proof -
  obtain b s1 where p: "poll s = (b, s1)" by fastforce
  obtain q w where q: "write_query x c strat r (sy_world s1) = (q, w)" by fastforce
  have f: "sy_store s1 = sy_store s" using poll_frameD [OF p] by simp
  show ?thesis
  proof (cases q)
    case (Inl e)
    then show ?thesis using assms f by (auto simp: write_single_def p q split: bool.splits)
  next
    case (Inr qa)
    obtain t a where qa: "qa = (t, a)" by fastforce
    obtain e s2 where x: "pg_db (px_exec x t a) (s1\<lparr>sy_world := w\<rparr>) = (e, s2)" by fastforce
    have g: "sy_store s2 = sy_store s" using pg_db_frameD [OF x] f by simp
    show ?thesis
      using assms f g Inr ctx_or_fatal_store
      by (fastforce simp: write_single_def p q qa x split: bool.splits option.splits prod.splits)
  qed
qed

context state_store
begin

lemma write_single_frame:
  assumes "nul_free sy" "nul_free d"
  shows "same_states (sy_store s) (sy_store (snd (write_single x c ops now strat sy d r res s)))"
proof -
  obtain res' stop s' where w: "write_single x c ops now strat sy d r res s = ((res', stop), s')" by (metis surj_pair)
  from write_single_cases [OF w] show ?thesis
  proof
    assume "\<exists>s2. sy_store s2 = sy_store s \<and> mark_row ops now sy d (res, s2) r = (res', s')"
    then obtain s2 where "sy_store s2 = sy_store s" "mark_row ops now sy d (res, s2) r = (res', s')" by blast
    then show ?thesis using mark_row_frame [OF assms, of "(res, s2)" now r] w by simp
  qed (simp add: w)
qed

lemma flush_chunk_frame:
  assumes "nul_free sy" "nul_free d"
  shows "same_states (sy_store s) (sy_store (snd (flush_chunk x c ops now strat sy d io cols batch res s)))"
proof -
  obtain b s1 where p: "poll s = (b, s1)" by fastforce
  obtain q a where q: "build_multi_write (raw_table c) (pg_match c) cols batch io = (q, a)" by fastforce
  obtain e s2 where x: "pg_db (px_exec x q a) s1 = (e, s2)" by fastforce
  have f: "sy_store s1 = sy_store s" "sy_store s2 = sy_store s"
    using poll_frameD [OF p] pg_db_frameD [OF x] by simp_all
  obtain res3 err s3 where e: "each (write_single x c ops now strat sy d) batch res s2 = ((res3, err), s3)"
    by (metis surj_pair)
  have "same_states (sy_store s) (sy_store s3)"
    using each_frame [of "write_single x c ops now strat sy d" s2 batch res, OF write_single_frame [OF assms]] e f by simp
  moreover have "same_states (sy_store s) (sy_store (snd (foldl (mark_row ops now sy d) (res, s2) batch)))"
    using mark_rows_frame [OF assms, of "(res, s2)" now batch] f by simp
  ultimately show ?thesis
    using f ctx_or_fatal_store [of res _ s2] by (auto simp: flush_chunk_def p q x e split: option.splits bool.splits prod.splits)
qed

lemma write_group_frame:
  assumes "nul_free sy" "nul_free d"
  shows "same_states (sy_store s) (sy_store (snd (write_group x c ops now strat sy d io g res s)))"
proof -
  obtain cols rs where g: "g = (cols, rs)" by fastforce
  obtain res' err s' where e: "each (flush_chunk x c ops now strat sy d io cols)
      (cut_chunks (match_key io (pg_match c)) (max_chunk (length cols)) rs [] []) res s = ((res', err), s')"
    by (metis surj_pair)
  have "same_states (sy_store s) (sy_store s')"
    using each_frame [of "flush_chunk x c ops now strat sy d io cols" s _ res, OF flush_chunk_frame [OF assms]] e
    by (metis snd_conv)
  then show ?thesis by (simp add: write_group_def g e)
qed

lemma write_pending_writer: "row_writer ops inv abs stored (write_pending x c ops now strat)"
proof unfold_locales
  fix s s' :: "('st, 'a pg_world) sys" and sy d rs res res' err
  assume i: "inv (sy_store s)" "nul_free sy" "nul_free d"
    and l: "write_pending x c ops now strat rs sy d res s = ((res', err), s')"
  have "same_states (sy_store s) (sy_store (snd (write_pending x c ops now strat rs sy d res s)))"
    by (simp add: write_pending_def chunked_write_def Let_def each_frame write_single_frame [OF i(2,3)]
        write_group_frame [OF i(2,3)])
  then show "inv (sy_store s') \<and> ab_entities (abs (sy_store s')) = ab_entities (abs (sy_store s))
      \<and> ab_fired (abs (sy_store s')) = ab_fired (abs (sy_store s))"
    using i(1) l by (simp add: same_states_def)
next
  fix s s' :: "('st, 'a pg_world) sys" and sy d r res res' err
  assume i: "inv (sy_store s)" "nul_free sy" "nul_free d"
    and l: "write_pending x c ops now strat [r] sy d res s = ((res', err), s')" and z: "lr_loaded res < lr_loaded res'"
  obtain res1 stop s1 where w: "write_single x c ops now strat sy d r res s = ((res1, stop), s1)" by (metis surj_pair)
  have eq: "res1 = res'" "s1 = s'" using l w by (auto simp: write_pending_def split: option.splits)
  obtain s2 where "sy_store s2 = sy_store s" "mark_row ops now sy d (res, s2) r = (res', s')"
    using write_single_cases [OF w] z eq by auto
  then show "ab_is_delivered (abs (sy_store s')) (row_id r, sy, d)"
    using mark_row_delivers [of s2 sy d now res r res' s'] i z by simp
qed

end

text \<open>What the engine connects to: the strategy is always \<open>upsert\<close>, the context carries nothing.\<close>

definition engine_context :: "'w pg_env \<Rightarrow> 'w pg_env" where
  "engine_context x = x\<lparr>px_strategy := [], px_run_id := 0\<rparr>"

definition pg_of :: "dest_config \<Rightarrow> pg_dest" where
  "pg_of d = \<lparr>pd_cfg = sync_dest_to_conn d, pd_open = True\<rparr>"

lemma pd_open_of [simp]: "pd_open (pg_of d)"
  by (simp add: pg_of_def)

lemma upsert_trim: "to_lower (trim_space ''upsert'') = ''upsert''"
  by code_simp

lemma pg_connect_engine: "pg_connect x (sync_dest_to_conn d) w = (Inr c, w') \<Longrightarrow> c = pg_of d \<and> w' = w"
  by (auto simp: pg_connect_def sync_dest_to_conn_def upsert_trim pg_of_def Let_def split: if_splits option.splits)

lemma engine_strategy [simp]: "pg_strategy (engine_context x) (pg_of d) = ''upsert''"
proof -
  have "to_lower (trim_space []) = []" by code_simp
  then show ?thesis by (simp add: pg_strategy_def engine_context_def pg_of_def sync_dest_to_conn_def upsert_trim)
qed

lemma maybe_truncate_upsert: "pg_strategy x c = ''upsert'' \<Longrightarrow> maybe_truncate x c s = (None, s)"
  by (simp add: maybe_truncate_def)

lemma insert_batch_upsert:
  "pg_strategy x c = ''upsert'' \<Longrightarrow>
   insert_batch x c ops now = scanned_load True (\<lambda>_. None) ops (write_pending x c ops now ''upsert'')"
  by (intro ext)
     (auto simp: insert_batch_def scanned_load_def maybe_truncate_upsert Let_def split: bool.splits prod.splits)

lemma pg_load_upsert:
  "rows \<noteq> [] \<Longrightarrow> pg_load (engine_context x) (pg_of d) ops now rows sy dn s =
   polled (scanned_load True (\<lambda>_. None) ops (write_pending (engine_context x) (pg_of d) ops now ''upsert'')) rows sy dn s"
  by (cases "poll s") (simp add: pg_load_def polled_def insert_batch_upsert Let_def pd_open_of split: bool.splits)

lemma pg_load_nil_store: "sy_store (snd (pg_load x c ops now [] sy d s)) = sy_store s"
  by (auto simp: pg_load_def dest: poll_frameD split: prod.splits bool.splits)

context state_store
begin

lemma pg_contract: "destination ops inv abs stored (pg_load (engine_context x) (pg_of d) ops now)"
proof -
  have "row_writer ops inv abs stored (write_pending (engine_context x) (pg_of d) ops now ''upsert'')"
    by (rule write_pending_writer)
  from destination.polled_contract [OF row_writer.scanned_contract [OF this]]
  show ?thesis by (rule destination.contract_cong) (rule pg_load_upsert pg_load_nil_store, assumption?)+
qed

end

interpretation pg_mem: destination mem_ops mem_inv mem_abs "\<lambda>p. p" "pg_load (engine_context x) (pg_of d) mem_ops now"
  for x d now by (rule mem.pg_contract)

interpretation pg_sqlite: destination sqlite_ops sq_inv sq_abs json_reload "pg_load (engine_context x) (pg_of d) sqlite_ops now"
  for x d now by (rule sqlite.pg_contract)

section \<open>Properties\<close>

subsection \<open>Multi-row statements\<close>

definition write_plan :: "bool \<Rightarrow> string \<Rightarrow> row list \<Rightarrow> (string list \<times> row list) list" where
  "write_plan insert_only m rows =
     concat (map (\<lambda>(cols, rs). map (Pair cols) (cut_chunks (match_key insert_only m) (max_chunk (length cols)) rs [] []))
       (group_rows (sort_rows_by_key m rows)))"

lemma max_chunk_bound: "0 < max_chunk n \<and> max_chunk n \<le> 1000 \<and> (n \<le> 65000 \<longrightarrow> max_chunk n * n \<le> 65000)"
proof -
  have "n \<le> 65000 \<Longrightarrow> max_chunk n * n \<le> 65000"
  proof (cases "n = 0")
    case False
    assume le: "n \<le> 65000"
    then have one: "1 \<le> 65000 div n" using False div_le_mono [of n 65000 n] by simp
    then have "max_chunk n \<le> 65000 div n" by (simp add: max_chunk_def Let_def)
    then have "max_chunk n * n \<le> 65000 div n * n" by simp
    also have "\<dots> \<le> 65000" by (rule div_times_less_eq_dividend)
    finally show ?thesis .
  qed simp
  then show ?thesis by (simp add: max_chunk_def Let_def)
qed

lemma plan_rows: "mset (concat (map snd (write_plan insert_only m rows))) = mset rows"
proof -
  have "concat (map snd (concat (map (\<lambda>(cols, rs). map (Pair cols)
      (cut_chunks (match_key insert_only m) (max_chunk (length cols)) rs [] [])) gs))) = concat (map snd gs)" for gs
    by (induction gs) (auto simp: concat_cut_chunks comp_def)
  then have "concat (map snd (write_plan insert_only m rows)) = concat (map snd (group_rows (sort_rows_by_key m rows)))"
    unfolding write_plan_def .
  then show ?thesis
    using conjunct1 [OF group_rows_partition [of "sort_rows_by_key m rows"]]
    by (metis mset_slice_stable sort_rows_by_key_def)
qed

lemma plan_chunk:
  assumes mem: "(cols, chunk) \<in> set (write_plan insert_only m rows)"
  shows "chunk \<noteq> []" "length chunk \<le> 1000"
    "\<forall>r \<in> set chunk. join [nul] (sorted_columns (row_data r)) = join [nul] cols"
    "distinct (keys_of (match_key insert_only m) chunk)"
    "length cols \<le> 65000 \<longrightarrow> length (snd (build_multi_write table m cols chunk insert_only)) \<le> 65000"
proof -
  obtain rs where g: "(cols, rs) \<in> set (group_rows (sort_rows_by_key m rows))"
    and k: "chunk \<in> set (cut_chunks (match_key insert_only m) (max_chunk (length cols)) rs [] [])"
    using mem by (auto simp: write_plan_def)
  note b = max_chunk_bound [of "length cols"]
  have size: "chunk \<noteq> [] \<and> length chunk \<le> max_chunk (length cols)"
    using cut_chunks_size [of "max_chunk (length cols)" "[]"] k b by simp
  then show "chunk \<noteq> []" by simp
  show "length chunk \<le> 1000" using size b by linarith
  have sub: "set chunk \<subseteq> set rs"
    using k concat_cut_chunks [of "match_key insert_only m" "max_chunk (length cols)" rs "[]" "[]"]
    by (metis UN_upper append_Nil set_concat)
  show "\<forall>r \<in> set chunk. join [nul] (sorted_columns (row_data r)) = join [nul] cols"
    using conjunct2 [OF group_rows_partition [of "sort_rows_by_key m rows"]] g sub by blast
  show "distinct (keys_of (match_key insert_only m) chunk)"
    by (rule cut_chunks_distinct [OF _ _ k]) simp_all
  have "length (snd (build_multi_write table m cols chunk insert_only)) = length chunk * length cols"
    using multi_write_args [OF surjective_pairing, of table m cols chunk insert_only] by simp
  moreover have "length chunk * length cols \<le> max_chunk (length cols) * length cols"
    using size by simp
  ultimately show "length cols \<le> 65000 \<longrightarrow> length (snd (build_multi_write table m cols chunk insert_only)) \<le> 65000"
    using b by linarith
qed

text \<open>
  Property C29. The statements a chunked write executes hold every pending row exactly once; each
  holds at least one and at most a thousand rows, all with the columns the statement names, has
  no more parameters than the protocol carries, and never names a match value twice, which a
  conflict clause would refuse.
\<close>

theorem multi_row_writes:
  "mset (concat (map snd (write_plan insert_only m rows))) = mset rows \<and>
   (\<forall>(cols, chunk) \<in> set (write_plan insert_only m rows).
      chunk \<noteq> [] \<and> length chunk \<le> 1000
      \<and> (\<forall>r \<in> set chunk. join [nul] (sorted_columns (row_data r)) = join [nul] cols)
      \<and> distinct (keys_of (match_key insert_only m) chunk)
      \<and> (length cols \<le> 65000 \<longrightarrow> length (snd (build_multi_write table m cols chunk insert_only)) \<le> 65000))"
proof (intro conjI ballI)
  show "mset (concat (map snd (write_plan insert_only m rows))) = mset rows" by (rule plan_rows)
  fix g assume g: "g \<in> set (write_plan insert_only m rows)"
  obtain cols chunk where c: "g = (cols, chunk)" by fastforce
  show "case g of (cols, chunk) \<Rightarrow> chunk \<noteq> [] \<and> length chunk \<le> 1000
      \<and> (\<forall>r \<in> set chunk. join [nul] (sorted_columns (row_data r)) = join [nul] cols)
      \<and> distinct (keys_of (match_key insert_only m) chunk)
      \<and> (length cols \<le> 65000 \<longrightarrow> length (snd (build_multi_write table m cols chunk insert_only)) \<le> 65000)"
    unfolding c prod.case by (intro conjI plan_chunk [OF g [unfolded c]])
qed

text \<open>The loop of the code runs over that plan, group by group.\<close>

lemma chunked_write_plan:
  "cols \<noteq> [] \<Longrightarrow> write_group x c ops now strat sy d insert_only (cols, rs) res s
   = (case each (\<lambda>(cols, batch). flush_chunk x c ops now strat sy d insert_only cols batch)
            (map (Pair cols) (cut_chunks (match_key insert_only (pg_match c)) (max_chunk (length cols)) rs [] [])) res s of
        ((res', err), s') \<Rightarrow> ((res', map_option Some err), s'))"
proof -
  have "each (\<lambda>(cols, batch). flush_chunk x c ops now strat sy d insert_only cols batch) (map (Pair cols) cs) res s
      = each (flush_chunk x c ops now strat sy d insert_only cols) cs res s" for cs res s
    by (induction cs arbitrary: res s) (auto split: prod.splits option.splits)
  then show "cols \<noteq> [] \<Longrightarrow> ?thesis" by (simp add: write_group_def)
qed

definition a_row :: "string \<Rightarrow> payload \<Rightarrow> row" where
  "a_row i p = row_zero\<lparr>row_id := i, row_key := i, row_data := p\<rparr>"

lemmas plan_simps = write_plan_def group_rows_def group_row_def sort_rows_by_key_def slice_stable_def less_value_def
  a_row_def sorted_columns_def max_chunk_def match_key_def get_or_nil_def Let_def

theorem multi_row_writes_witness:
  "let r = a_row ''1'' [(''id'', GStr ''x''), (''a'', GStr ''y'')] in
   distinct (keys_of (match_key False ''id'') [r])
   \<and> length (snd (build_multi_write ''t'' ''id'' [''a'', ''id''] [r] False)) \<le> 65000"
proof -
  let ?r = "a_row ''1'' [(''id'', GStr ''x''), (''a'', GStr ''y'')]"
  have "write_plan False ''id'' [?r] = [([''a'', ''id''], [?r])]" by (simp add: plan_simps)
  then show ?thesis
    using bspec [OF conjunct2 [OF multi_row_writes [of False "''id''" "[?r]" "''t''"]], of "([''a'', ''id''], [?r])"]
    by simp
qed

text \<open>Two rows with one match value go into two statements.\<close>

lemma repeated_key_splits:
  "map (map row_id \<circ> snd) (write_plan False ''id''
     [a_row ''1'' [(''id'', GStr ''x'')], a_row ''2'' [(''id'', GStr ''x'')]]) = [[''1''], [''2'']]"
  by (simp add: plan_simps)

subsection \<open>Composite match keys\<close>

lemma trim_space_keeps: "ch \<in> set s \<Longrightarrow> \<not> is_space ch \<Longrightarrow> ch \<in> set (trim_space s)"
proof -
  have keep: "ch \<in> set t \<Longrightarrow> \<not> is_space ch \<Longrightarrow> ch \<in> set (dropWhile is_space t)" for t
    by (induction t) auto
  show "ch \<in> set s \<Longrightarrow> \<not> is_space ch \<Longrightarrow> ?thesis" by (simp add: trim_space_def keep)
qed

lemma join_comma: "2 \<le> length ks \<Longrightarrow> CHR '','' \<in> set (join '','' ks)"
  by (cases ks; cases "tl ks") auto

text \<open>
  With two or more fields in \<open>match_on\<close> no row is ever written: the engine joins the
  fields with a comma, and the statement of the row path looks for one column with the joined
  name, although a comment says that this path supports composite keys.
\<close>

theorem composite_match_never_written:
  assumes "pg_connect x (sync_dest_to_conn d) w = (Inr c, w')" "2 \<le> length (de_match_on d)"
    "\<forall>k \<in> fst ` set (row_data r). CHR '','' \<notin> set k" "sy_ctx s = None"
    "st_is_delivered ops (row_id r) sy dn (sy_store s) = Inr False"
  shows "\<exists>e. pg_load (engine_context x) c ops now [r] sy dn s = ((lr_add_error r e lr_empty, None), s)"
proof -
  have c: "c = pg_of d" using pg_connect_engine [OF assms(1)] by simp
  have "\<not> is_space CHR '',''" by code_simp
  then have "CHR '','' \<in> set (pg_match c)"
    using trim_space_keeps [OF join_comma [OF assms(2)]] by (simp add: c pg_match_def pg_of_def sync_dest_to_conn_def)
  then have no: "pg_match c \<notin> set (sorted_columns (row_data r))" using assms(3) by (auto simp: sorted_columns_def)
  then obtain e where q: "upsert_query (engine_context x) c r (sy_world s) = (Inl e, sy_world s)"
    by (cases "sorted_columns (row_data r) = []") (simp_all add: upsert_query_def Let_def)
  have one: "write_single (engine_context x) c ops now ''upsert'' sy dn r lr_empty s
      = ((lr_add_error r e lr_empty, None), s)"
    by (simp add: write_single_def poll_never [OF assms(4)] write_query_def q)
  have "pg_load (engine_context x) c ops now [r] sy dn s = ((lr_add_error r e lr_empty, None), s)"
    unfolding c pg_load_upsert [OF list.simps(3)] using one
    by (simp add: c polled_def scanned_load_def poll_never [OF assms(4)] assms(5) write_pending_def)
  then show ?thesis by blast
qed

definition quiet_pg :: "unit pg_env" where
  "quiet_pg = \<lparr>px_open = (\<lambda>_. None), px_pool_config = (\<lambda>_. None), px_pool = (\<lambda>_. None), px_ping = (\<lambda>_. None),
     px_pool_ping = (\<lambda>_. None), px_close = (\<lambda>_. None), px_exec = (\<lambda>_ _ w. (None, w)), px_begin = (\<lambda>w. (None, w)),
     px_tx_exec = (\<lambda>_ _ w. (None, w)), px_commit = (\<lambda>w. (None, w)), px_rollback = (\<lambda>w. w),
     px_acquire = (\<lambda>w. (None, w)), px_copy = (\<lambda>_ _ vs w. ((int (length vs), None), w)), px_release = (\<lambda>w. w),
     px_insert_sql = (\<lambda>t cs vs suffix. Inr (t @ join '','' cs @ suffix, vs)), px_nanos = (\<lambda>_. 0),
     px_strategy = [], px_run_id = 0\<rparr>"

definition two_key_dest :: dest_config where
  "two_key_dest = \<lparr>de_type = ''postgres'', de_url = ''postgres://h/db'', de_auth = None, de_object = [],
     de_table = ''people'', de_match_on = [''id'', ''region''], de_method = [], de_options = []\<rparr>"

definition pg_sys_init :: "(mem_store, unit pg_world) sys" where
  "pg_sys_init = \<lparr>sy_ctx = None, sy_store = new_mem_store, sy_world = pg_world_init ()\<rparr>"

theorem composite_match_never_written_witness:
  "\<exists>e. pg_load (engine_context quiet_pg) (pg_of two_key_dest) mem_ops 5
     [a_row ''1'' [(''id'', GInt 7), (''region'', GStr ''eu'')]] ''sync'' ''crm'' pg_sys_init
   = ((lr_add_error (a_row ''1'' [(''id'', GInt 7), (''region'', GStr ''eu'')]) e lr_empty, None), pg_sys_init)"
proof (rule composite_match_never_written)
  show "pg_connect quiet_pg (sync_dest_to_conn two_key_dest) () = (Inr (pg_of two_key_dest), ())"
    by code_simp
qed (simp_all add: two_key_dest_def a_row_def pg_sys_init_def mem_ops_def mem_is_delivered_def
  new_mem_store_def get_flag_def)

end
