(* ===== verification/Dest_Engine.thy ===== *)
theory Dest_Engine
  imports Postgres_Dest Engine_Props
begin

section \<open>The engine over the database destinations\<close>

text \<open>
  What the engine makes of the answers of the PostgreSQL destination. A statement that ends with a
  deadline error while the context of the run is alive (a connection that times out) returns
  \<open>ctx.Err()\<close>, which is nil: the row is neither loaded nor skipped nor failed.
\<close>

lemma upsert_query_some:
  assumes "pg_match c \<in> fst ` set (row_data r)"
  shows "\<exists>q a w'. upsert_query x c r w = (Inr (q, a), w')"
proof -
  have "pg_match c \<in> set (sorted_columns (row_data r))" using assms by (simp add: sorted_columns_def)
  moreover from this have "sorted_columns (row_data r) \<noteq> []" by auto
  ultimately show ?thesis by (simp add: upsert_query_def Let_def split: option.splits)
qed

lemma pg_db_error: "(\<And>w. fst (f w) = Some err) \<Longrightarrow> \<exists>s'. pg_db f s = (Some err, s')"
  by (simp add: pg_db_def split: prod.splits) (metis fst_conv)

lemma write_single_deadline:
  assumes "sy_ctx s = None" "\<And>q a w. fst (px_exec x q a w) = Some err" "is_ctx_error err"
    "pg_match c \<in> fst ` set (row_data r)"
  shows "\<exists>s'. write_single x c ops now ''upsert'' sy d r res s = ((res, None), s') \<and> sy_store s' = sy_store s"
proof -
  obtain q a w where q: "upsert_query x c r (sy_world s) = (Inr (q, a), w)"
    using upsert_query_some [OF assms(4)] by blast
  obtain s2 where s2: "pg_db (px_exec x q a) (s\<lparr>sy_world := w\<rparr>) = (Some err, s2)"
    using pg_db_error [of "px_exec x q a" err] assms(2) by blast
  have f: "sy_store s2 = sy_store s" "sy_ctx s2 = None" using pg_db_frameD [OF s2] assms(1) by simp_all
  show ?thesis
    using f by (simp add: write_single_def poll_never assms(1,3) write_query_def q s2 ctx_or_fatal_def)
qed

lemma pg_load_deadline:
  assumes "sy_ctx s = None" "\<And>q a w. fst (px_exec x q a w) = Some err" "is_ctx_error err"
    "pg_match (pg_of d) \<in> fst ` set (row_data r)"
    "st_is_delivered ops (row_id r) sy dn (sy_store s) = Inr False"
  shows "\<exists>s'. pg_load (engine_context x) (pg_of d) ops now [r] sy dn s = ((lr_empty, None), s')
    \<and> sy_store s' = sy_store s"
proof -
  have "\<And>q a w. fst (px_exec (engine_context x) q a w) = Some err" using assms(2) by (simp add: engine_context_def)
  from write_single_deadline [OF assms(1) this assms(3,4), of ops now sy dn lr_empty]
  obtain s' where "write_single (engine_context x) (pg_of d) ops now ''upsert'' sy dn r lr_empty s = ((lr_empty, None), s')"
    "sy_store s' = sy_store s" by blast
  then show ?thesis
    unfolding pg_load_upsert [OF list.simps(3)]
    by (simp add: polled_def scanned_load_def poll_never [OF assms(1)] assms(5) write_pending_def)
qed

lemma add_none: "add_skipped 0 (add_loaded 0 st) = st"
  by (simp add: add_skipped_def add_loaded_def)

text \<open>
  Property C30. When the database answers a statement with a deadline error and the context of the
  run is alive, the engine counts the row nowhere, and still saves the entity as delivered: status
  \<open>success\<close>, the new fingerprint, so that the next run sees nothing changed. Nothing reached the
  table, and the operation is not even marked.
\<close>

theorem timeout_saved_as_success:
  assumes "env_over mem_ops (pg_load (engine_context x) (pg_of d) mem_ops now) e" "mem_inv (rn_store s)"
    "\<not> en_dry_run e" "allow (sp_safety (en_spec e)) (pl_action (pd_plan pd)) (rn_counts s) = Inr ()"
    and "sy_ctx (rn_sys s) = None" "\<And>q a w. fst (px_exec x q a w) = Some err" "is_ctx_error err"
    and "pg_match (pg_of d) \<in> fst ` set (pd_mapped pd)"
    and "st_is_delivered mem_ops (row_id (delivery_row e pd)) (sp_name (en_spec e)) (en_dest e) (rn_store s) = Inr False"
    and "pd_cur_fp pd = row_fingerprint (en_spec e) (pd_mapped pd)"
    and "st = rn_store (deliver_one e pd s)"
  shows "rn_stats (deliver_one e pd s) = rn_stats s
    \<and> st_is_delivered mem_ops (row_id (delivery_row e pd)) (sp_name (en_spec e)) (en_dest e) st = Inr False
    \<and> (\<exists>es. st_get mem_ops (sp_name (en_spec e)) (en_dest e) (pd_key pd) st = Inr (Some es)
      \<and> es_status es = ''success'' \<and> es_payload es = pd_mapped pd
      \<and> seen_unchanged (en_spec e) (pd_mapped pd) es)"
proof -
  have data: "row_data (delivery_row e pd) = pd_mapped pd" by (simp add: delivery_row_def)
  obtain y where l: "pg_load (engine_context x) (pg_of d) mem_ops now [delivery_row e pd] (sp_name (en_spec e))
      (en_dest e) (rn_sys s) = ((lr_empty, None), y)" "sy_store y = rn_store s"
    using pg_load_deadline [OF assms(5-7) assms(8) [folded data] assms(9)] by auto
  note ok = pg_mem.deliver_one_saved [OF assms(1,2) mem_writes_succeed assms(3,4) l(1)]
  have inv: "mem_inv st" unfolding assms(11) by (rule pg_mem.deliver_one_inv [OF assms(1,2)])
  have n: "nul_free (sp_name (en_spec e))" "nul_free (en_dest e)"
    using assms(1) by (simp_all add: env_over_def)
  obtain i where "ab_entities (mem_abs st) (run_key e pd) = Some (es_core (new_state_of e pd ''success'' i))"
    using ok(1) assms(11) by auto
  from mem_found [OF assms(1) inv this] obtain es where
    es: "st_get mem_ops (sp_name (en_spec e)) (en_dest e) (pd_key pd) st = Inr (Some es)"
      "es_core es = es_core (new_state_of e pd ''success'' i)"
    by blast
  note f = es_core_eqD [OF es(2)]
  have entity: "es_fp es = pd_cur_fp pd" "es_payload es = pd_mapped pd" "es_status es = ''success''"
    by (simp_all only: f new_state_fields)
  obtain b where b: "st_is_delivered mem_ops (row_id (delivery_row e pd)) (sp_name (en_spec e)) (en_dest e) st = Inr b"
    using mem_is_delivered_answers by blast
  have "b \<longleftrightarrow> False"
    using mem.is_delivered_law [OF inv n b] mem.is_delivered_law [OF assms(2) n assms(9)] ok(2) l(2) assms(11) by simp
  moreover have "rn_stats (deliver_one e pd s) = rn_stats s" using ok(4) by (simp add: add_none)
  ultimately show ?thesis
    using es(1) entity unchanged_next_time [of es "en_spec e" "pd_mapped pd"] assms(10) b by auto
qed

definition timeout_pg :: "unit pg_env" where
  "timeout_pg = quiet_pg\<lparr>px_exec := (\<lambda>_ _ w. (Some ErrDeadline, w))\<rparr>"

definition people_dest :: dest_config where
  "people_dest = two_key_dest\<lparr>de_match_on := [''id'']\<rparr>"

definition people_env :: "(mem_store, unit pg_world) run_env" where
  "people_env = \<lparr>en_ops = mem_ops, en_load = Some (pg_load (engine_context timeout_pg) (pg_of people_dest) mem_ops 5),
     en_spec = sample_spec, en_dest = ''postgres'', en_dry_run = False, en_approval = [], en_now = 1000, en_run = 1,
     en_alert = (\<lambda>_ w. w)\<rparr>"

definition people_state :: "(mem_store, unit pg_world) run_state" where
  "people_state = run_init \<lparr>eg_ops = mem_ops, eg_override = None, eg_dry_run = False, eg_approval = [],
     eg_open_dest = (\<lambda>_. Inr (pg_load (engine_context timeout_pg) (pg_of people_dest) mem_ops 5)),
     eg_open_source = (\<lambda>_. Inr (\<lambda>_. ([], None))), eg_owner = ''me'', eg_now = 1000, eg_dlq_fault = None,
     eg_alert = (\<lambda>_ _ _ w. w)\<rparr> sample_spec 1 pg_sys_init"

lemma people_match: "pg_match (pg_of people_dest) = ''id''"
  by code_simp

theorem timeout_saved_as_success_witness:
  "rn_stats (deliver_one people_env real_pending people_state) = rn_stats people_state
   \<and> (\<exists>es. st_get mem_ops ''crm'' ''postgres'' ''7'' (rn_store (deliver_one people_env real_pending people_state))
       = Inr (Some es) \<and> es_status es = ''success'')"
proof -
  have st: "rn_sys people_state = pg_sys_init" "rn_counts people_state = counts_zero"
    by (simp_all add: people_state_def)
  have over: "env_over mem_ops (pg_load (engine_context timeout_pg) (pg_of people_dest) mem_ops 5) people_env"
    using sample_over' [of 200] by (simp add: env_over_def people_env_def sample_env_def nul_free_def nul_def)
  have names: "sp_name (en_spec people_env) = ''crm''" "en_dest people_env = ''postgres''" "pd_key real_pending = ''7''"
    by (simp_all add: people_env_def sample_spec_def real_pending_def sample_pending_def)
  have facts: "mem_inv (rn_store people_state)" "mem_inv (sy_store pg_sys_init)" "\<not> en_dry_run people_env"
      "allow (sp_safety (en_spec people_env)) (pl_action (pd_plan real_pending)) counts_zero = Inr ()"
      "sy_ctx pg_sys_init = None" "\<And>q a w. fst (px_exec timeout_pg q a w) = Some ErrDeadline"
      "is_ctx_error ErrDeadline" "''id'' \<in> fst ` set (pd_mapped real_pending)"
      "st_is_delivered mem_ops rid sy d (sy_store pg_sys_init) = Inr False"
      "pd_cur_fp real_pending = row_fingerprint (en_spec people_env) (pd_mapped real_pending)" for rid sy d
    using sample_pending_facts(1,3,4)
    by (simp_all add: pg_sys_init_def timeout_pg_def is_ctx_error_def people_env_def sample_env_def st
        real_pending_def sample_pending_def sample_row_def mem_ops_def mem_is_delivered_def new_mem_store_def
        get_flag_def)
  show ?thesis
    using timeout_saved_as_success [OF over, of people_state real_pending ErrDeadline, OF _ _ _ _ _ _ _ _ _ refl]
    by (simp add: st names facts people_match) blast
qed

end
