(* ===== verification/Mysql_Dest.thy ===== *)
theory Mysql_Dest
  imports Postgres_Dest Mysql_Source
begin

section \<open>The MySQL destination: internal/connector/destination/mysql.go\<close>

text \<open>
  \<open>Connect\<close>, the four strategies, the multi-row statements and their per-row fallback. The driver
  and the server are parameters; the run ID is what the context carries.
\<close>

record 'w my_env =
  mx_parse_dsn :: "string \<Rightarrow> go_error option"
  mx_open :: "string \<Rightarrow> go_error option"
  mx_ping :: "string \<Rightarrow> go_error option"
  mx_close :: "'w \<Rightarrow> go_error option"
  mx_exec :: "string \<Rightarrow> gval list \<Rightarrow> 'w \<Rightarrow> go_error option \<times> 'w"
  mx_run_id :: int

record 'w my_world =
  mw_db :: 'w
  mw_truncated :: "(int \<times> bool) list"
  mw_truncated_once :: bool

record my_dest =
  md_table :: string
  md_strategy :: string
  md_match :: "string list"
  md_open :: bool

definition mysql_dest_url_to_dsn :: "string \<Rightarrow> string res" where
  "mysql_dest_url_to_dsn raw =
     (let trimmed = (if has_prefix raw ''mysql://'' then drop 8 raw else raw) in
      case split_once ''/'' trimmed of
        None \<Rightarrow> Inl (ErrMsg (''mysql destination: url '' @ quote_q raw @ '' missing database name''))
      | Some (host, db) \<Rightarrow>
          let (creds, addr) = (case split_last CHR ''@'' host of Some p \<Rightarrow> p | None \<Rightarrow> ([], host));
              dsn = (if creds \<noteq> [] then creds @ ''@'' else [])
          in Inr (dsn @ ''tcp('' @ addr @ '')/'' @ db))"

definition my_strategies :: "string list" where
  "my_strategies = [''merge'', ''append'', ''replace'', ''delete+insert'']"

definition my_dest_connect :: "'w my_env \<Rightarrow> conn_dest \<Rightarrow> my_dest res" where
  "my_dest_connect x cfg =
     (let table = trim_space (get_opt (cd_options cfg) ''table'');
          st0 = to_lower (trim_space (cd_strategy cfg));
          st = (if st0 = [] then ''merge'' else st0);
          keys = split_match_on (cd_match_on cfg);
          d0 = trim_space (cd_connection cfg);
          d1 = (if d0 = [] then trim_space (cd_url cfg) else d0)
      in if table = [] then Inl (ErrMsg ''mysql destination: table is required'')
         else if st \<notin> set my_strategies then
           Inl (ErrMsg (''mysql destination: strategy '' @ quote_q (cd_strategy cfg)
             @ '' unknown, valid: merge, append, replace, delete+insert''))
         else if (st = ''merge'' \<or> st = ''delete+insert'') \<and> keys = [] then
           Inl (ErrMsg (''mysql destination: strategy '' @ quote_q st @ '' requires match_on''))
         else if d1 = [] then Inl (ErrMsg ''mysql destination: url is required'')
         else (case (if has_prefix d1 ''mysql://'' then mysql_dest_url_to_dsn d1 else Inr d1) of
                 Inl e \<Rightarrow> Inl e
               | Inr dsn \<Rightarrow>
                   (case mx_parse_dsn x dsn of
                      Some e \<Rightarrow> Inl (ErrWrap ''mysql destination: invalid dsn'' e)
                    | None \<Rightarrow>
                        (case mx_open x dsn of
                           Some e \<Rightarrow> Inl e
                         | None \<Rightarrow>
                             (case mx_ping x dsn of
                                Some e \<Rightarrow> Inl (ErrWrap ''mysql destination: ping'' e)
                              | None \<Rightarrow> Inr \<lparr>md_table = table, md_strategy = st, md_match = keys, md_open = True\<rparr>)))))"

definition my_world_init :: "'w \<Rightarrow> 'w my_world" where
  "my_world_init w = \<lparr>mw_db = w, mw_truncated = [], mw_truncated_once = False\<rparr>"

definition my_dest_close :: "'w my_env \<Rightarrow> my_dest \<Rightarrow> 'w \<Rightarrow> go_error option \<times> my_dest" where
  "my_dest_close x c w = (if md_open c then (mx_close x w, c\<lparr>md_open := False\<rparr>) else (None, c))"

subsection \<open>Statements\<close>

definition normalize_my_arg :: "gval \<Rightarrow> gval" where
  "normalize_my_arg v =
     (case v of
        GMap m \<Rightarrow> GStr (case json_marshal v of Some s \<Rightarrow> s | None \<Rightarrow> sprint_v v)
      | GList xs \<Rightarrow> GStr (case json_marshal v of Some s \<Rightarrow> s | None \<Rightarrow> sprint_v v)
      | _ \<Rightarrow> v)"

definition my_args :: "string list \<Rightarrow> row \<Rightarrow> gval list" where
  "my_args cols r = map (\<lambda>c. normalize_my_arg (get_or_nil (row_data r) c)) cols"

definition my_assignments :: "string list \<Rightarrow> string list \<Rightarrow> string list" where
  "my_assignments keys cols =
     (let up = map (\<lambda>c. quote_mysql_ident c @ '' = VALUES('' @ quote_mysql_ident c @ '')'')
                 (filter (\<lambda>c. to_lower c \<notin> to_lower ` set keys) cols)
      in if up = [] then [quote_mysql_ident (hd cols) @ '' = '' @ quote_mysql_ident (hd cols)] else up)"

definition build_my_write :: "my_dest \<Rightarrow> string list \<Rightarrow> row list \<Rightarrow> string \<times> gval list" where
  "build_my_write c cols batch =
     (''INSERT INTO '' @ quote_mysql_ident (md_table c) @ '' ('' @ join '', '' (map quote_mysql_ident cols)
        @ '') VALUES '' @ join '', '' (replicate (length batch) (''('' @ join '', '' (replicate (length cols) ''?'') @ '')''))
        @ (if md_strategy c = ''merge''
           then '' ON DUPLICATE KEY UPDATE '' @ join '', '' (my_assignments (md_match c) cols) else []),
      concat (map (my_args cols) batch))"

definition build_my_delete :: "my_dest \<Rightarrow> row list \<Rightarrow> string \<times> gval list" where
  "build_my_delete c batch =
     (''DELETE FROM '' @ quote_mysql_ident (md_table c) @ '' WHERE ''
        @ join '' OR '' (replicate (length batch)
            (''('' @ join '' AND '' (map (\<lambda>k. quote_mysql_ident k @ '' = ?'') (md_match c)) @ '')'')),
      concat (map (my_args (md_match c)) batch))"

subsection \<open>Writing\<close>

type_synonym ('st, 'w) my_sys = "('st, 'w my_world) sys"

definition my_exec :: "'w my_env \<Rightarrow> string \<times> gval list \<Rightarrow> ('st, 'w) my_sys \<Rightarrow> go_error option \<times> ('st, 'w) my_sys" where
  "my_exec x q s =
     (case mx_exec x (fst q) (snd q) (mw_db (sy_world s)) of
        (e, w) \<Rightarrow> (e, s\<lparr>sy_world := (sy_world s)\<lparr>mw_db := w\<rparr>\<rparr>))"

definition my_mark ::
  "my_dest \<Rightarrow> 'st store_ops \<Rightarrow> go_time \<Rightarrow> string \<Rightarrow> string \<Rightarrow> load_result \<times> ('st, 'w) sys \<Rightarrow> row
     \<Rightarrow> load_result \<times> ('st, 'w) sys" where
  "my_mark c ops now sy d acc r =
     (if md_strategy c = ''merge'' \<or> md_strategy c = ''delete+insert'' then mark_row ops now sy d acc r
      else (lr_add_loaded (fst acc), snd acc))"

definition my_fallback ::
  "'w my_env \<Rightarrow> my_dest \<Rightarrow> 'st store_ops \<Rightarrow> go_time \<Rightarrow> string \<Rightarrow> string \<Rightarrow> string list
     \<Rightarrow> load_result \<times> ('st, 'w) my_sys \<Rightarrow> row \<Rightarrow> load_result \<times> ('st, 'w) my_sys" where
  "my_fallback x c ops now sy d cols acc r =
     (case acc of (res, s) \<Rightarrow>
        (case my_exec x (build_my_write c cols [r]) s of
           (Some e, s1) \<Rightarrow> (lr_add_error r e res, s1)
         | (None, s1) \<Rightarrow> my_mark c ops now sy d (res, s1) r))"

definition my_write_chunk ::
  "'w my_env \<Rightarrow> my_dest \<Rightarrow> 'st store_ops \<Rightarrow> go_time \<Rightarrow> string \<Rightarrow> string \<Rightarrow> string list
     \<Rightarrow> (row list, 'st, 'w my_world) loop_step" where
  "my_write_chunk x c ops now sy d cols batch res s =
     (case poll s of
        (True, s1) \<Rightarrow> ((res, Some (Some ErrCanceled)), s1)
      | (False, s1) \<Rightarrow>
          (case (if md_strategy c = ''delete+insert'' then my_exec x (build_my_delete c batch) s1 else (None, s1)) of
             (Some e, s2) \<Rightarrow> ((res, Some (Some e)), s2)
           | (None, s2) \<Rightarrow>
               (case my_exec x (build_my_write c cols batch) s2 of
                  (Some e, s3) \<Rightarrow>
                    if is_ctx_error e
                    then (case poll s3 of (stop, s4) \<Rightarrow> ((res, if stop then Some (Some ErrCanceled) else None), s4))
                    else (case foldl (my_fallback x c ops now sy d cols) (res, s3) batch of (res', s4) \<Rightarrow> ((res', None), s4))
                | (None, s3) \<Rightarrow>
                    (case foldl (my_mark c ops now sy d) (res, s3) batch of (res', s4) \<Rightarrow> ((res', None), s4)))))"

definition my_write_group ::
  "'w my_env \<Rightarrow> my_dest \<Rightarrow> 'st store_ops \<Rightarrow> go_time \<Rightarrow> string \<Rightarrow> string
     \<Rightarrow> (string list \<times> row list, 'st, 'w my_world) loop_step" where
  "my_write_group x c ops now sy d g res s =
     (case g of (cols, rs) \<Rightarrow>
        if cols = [] then ((fail_rows (ErrMsg ''mysql destination: row has no columns'') rs res, None), s)
        else (case each (my_write_chunk x c ops now sy d cols) (chunks_of 500 rs) res s of
                ((res', err), s') \<Rightarrow> ((res', map_option Some err), s')))"

definition my_write_pending ::
  "'w my_env \<Rightarrow> my_dest \<Rightarrow> 'st store_ops \<Rightarrow> go_time \<Rightarrow> ('st, 'w my_world) row_writer" where
  "my_write_pending x c ops now pend sy d res s =
     each (my_write_group x c ops now sy d) (group_rows pend) res s"

definition my_truncate :: "'w my_env \<Rightarrow> my_dest \<Rightarrow> ('st, 'w) my_sys \<Rightarrow> go_error option \<times> ('st, 'w) my_sys" where
  "my_truncate x c s =
     (let w = sy_world s; rid = mx_run_id x in
      if (if rid \<noteq> 0 then alookup (mw_truncated w) rid = Some True else mw_truncated_once w) then (None, s)
      else (case my_exec x (''TRUNCATE TABLE '' @ quote_mysql_ident (md_table c), []) s of
              (Some e, s1) \<Rightarrow> (Some e, s1)
            | (None, s1) \<Rightarrow>
                (None, s1\<lparr>sy_world := (if rid \<noteq> 0
                   then (sy_world s1)\<lparr>mw_truncated := aput rid True (mw_truncated (sy_world s1))\<rparr>
                   else (sy_world s1)\<lparr>mw_truncated_once := True\<rparr>)\<rparr>)))"

definition my_load ::
  "'w my_env \<Rightarrow> my_dest \<Rightarrow> 'st store_ops \<Rightarrow> go_time \<Rightarrow> ('st, 'w my_world) loader" where
  "my_load x c ops now rows sy d s =
     (case poll s of
        (True, s1) \<Rightarrow> ((lr_empty, Some ErrCanceled), s1)
      | (False, s1) \<Rightarrow>
          if \<not> md_open c then ((lr_empty, Some (ErrMsg ''mysql destination: not connected'')), s1)
          else if rows = [] then ((lr_empty, None), s1)
          else (case (if md_strategy c = ''replace'' then my_truncate x c s1 else (None, s1)) of
             (Some e, s2) \<Rightarrow> ((lr_empty, Some (ErrWrap ''mysql destination: truncate'' e)), s2)
           | (None, s2) \<Rightarrow>
               (case scan_rows True (md_strategy c \<noteq> ''append'' \<and> md_strategy c \<noteq> ''replace'') (\<lambda>_. None)
                       ops sy d rows lr_empty [] s2 of
                  ((res, pend, Some e), s3) \<Rightarrow> ((res, Some e), s3)
                | ((res, pend, None), s3) \<Rightarrow>
                    if pend = [] then ((res, None), s3) else my_write_pending x c ops now pend sy d res s3)))"

section \<open>Properties\<close>

text \<open>
  A run can never deliver to MySQL: the engine connects every destination with the
  strategy \<open>upsert\<close>, which \<open>Connect\<close> refuses, whatever the configuration says.
\<close>

theorem mysql_dest_never_connects:
  "\<exists>m. my_dest_connect x (sync_dest_to_conn d) = Inl (ErrMsg m) \<and>
     (m = ''mysql destination: table is required'' \<or>
      m = ''mysql destination: strategy '' @ quote_q ''upsert'' @ '' unknown, valid: merge, append, replace, delete+insert'')"
proof -
  have "cd_strategy (sync_dest_to_conn d) = ''upsert''" by (simp add: sync_dest_to_conn_def)
  then have st: "to_lower (trim_space (cd_strategy (sync_dest_to_conn d))) = ''upsert''" "cd_strategy (sync_dest_to_conn d) = ''upsert''"
    by (simp_all only: upsert_trim)
  have n: "''upsert'' \<notin> set my_strategies" "(''upsert'' = []) = False" by (simp_all add: my_strategies_def)
  show ?thesis
  proof (cases "trim_space (get_opt (cd_options (sync_dest_to_conn d)) ''table'') = []")
    case True
    then have "my_dest_connect x (sync_dest_to_conn d) = Inl (ErrMsg ''mysql destination: table is required'')"
      by (simp only: my_dest_connect_def Let_def if_True simp_thms)
    then show ?thesis by blast
  next
    case False
    then have "my_dest_connect x (sync_dest_to_conn d) = Inl (ErrMsg (''mysql destination: strategy '' @ quote_q ''upsert''
        @ '' unknown, valid: merge, append, replace, delete+insert''))"
      unfolding my_dest_connect_def Let_def by (simp only: st upsert_trim n if_True if_False not_False_eq_True)
    then show ?thesis by blast
  qed
qed

text \<open>The four strategies it knows are accepted.\<close>

lemma my_connect_accepts:
  assumes "cd_strategy cfg \<in> set my_strategies" "split_match_on (cd_match_on cfg) \<noteq> []"
    "trim_space (get_opt (cd_options cfg) ''table'') \<noteq> []" "trim_space (cd_connection cfg) = dsn" "dsn \<noteq> []"
    "\<not> has_prefix dsn ''mysql://''" "mx_parse_dsn x dsn = None" "mx_open x dsn = None" "mx_ping x dsn = None"
  shows "\<exists>c. my_dest_connect x cfg = Inr c \<and> md_strategy c = cd_strategy cfg \<and> md_open c"
proof -
  have "list_all (\<lambda>st. to_lower (trim_space st) = st \<and> st \<noteq> []) my_strategies" by code_simp
  then have st: "to_lower (trim_space (cd_strategy cfg)) = cd_strategy cfg" "cd_strategy cfg \<noteq> []"
    using assms(1) by (auto simp: list_all_iff)
  show ?thesis unfolding my_dest_connect_def Let_def using st assms by simp
qed

text \<open>The arguments follow the columns of the rows.\<close>

lemma my_write_args:
  "length (snd (build_my_write c cols batch)) = length batch * length cols"
  by (simp add: build_my_write_def my_args_def length_concat comp_def sum_list_triv)

text \<open>
  With \<open>delete+insert\<close> the rows to replace are deleted in a statement of its own: when every
  insert then fails, they are gone, and the rows are reported as failed.
\<close>

lemma delete_insert_not_atomic:
  assumes "md_strategy c = ''delete+insert''" "sy_ctx s = None" "\<not> is_ctx_error e"
    "mx_exec x (fst (build_my_delete c [r])) (snd (build_my_delete c [r])) (mw_db (sy_world s)) = (None, w)"
    "\<And>v. mx_exec x (fst (build_my_write c cols [r])) (snd (build_my_write c cols [r])) v = (Some e, v)"
  shows "\<exists>s'. my_write_chunk x c ops now sy d cols [r] res s = ((lr_add_error r e res, None), s')
    \<and> mw_db (sy_world s') = w"
  using assms by (simp add: my_write_chunk_def poll_never my_exec_def my_fallback_def)

subsection \<open>The contract, with the strategy merge\<close>

lemma my_exec_frame [simp]: "sy_store (snd (my_exec x q s)) = sy_store s"
  by (simp add: my_exec_def split: prod.splits)

lemma my_exec_frameD: "my_exec x q s = (e, s') \<Longrightarrow> sy_store s' = sy_store s"
  by (metis my_exec_frame snd_conv)

definition merging :: "my_dest \<Rightarrow> my_dest" where
  "merging c = c\<lparr>md_strategy := ''merge'', md_open := True\<rparr>"

lemma merging_simps [simp]: "md_strategy (merging c) = ''merge''" "md_open (merging c)"
  by (simp_all add: merging_def)

lemma my_mark_merging [simp]: "my_mark (merging c) ops now sy d = mark_row ops now sy d"
  by (intro ext) (simp add: my_mark_def)

context state_store
begin

lemma foldl_frame:
  assumes "\<And>acc r. same_states (sy_store (snd acc)) (sy_store (snd (f acc r)))"
  shows "same_states (sy_store (snd acc)) (sy_store (snd (foldl f acc rs)))"
proof (induction rs arbitrary: acc)
  case (Cons r rs)
  show ?case using same_states_trans [OF assms [of acc r] Cons.IH] by simp
qed simp

lemma my_fallback_frame:
  assumes "nul_free sy" "nul_free d"
  shows "same_states (sy_store (snd acc)) (sy_store (snd (my_fallback x (merging c) ops now sy d cols acc r)))"
proof -
  obtain res s where a: "acc = (res, s)" by fastforce
  obtain e s1 where q: "my_exec x (build_my_write (merging c) cols [r]) s = (e, s1)" by fastforce
  show ?thesis using mark_row_frame [OF assms, of "(res, s1)" now r] my_exec_frameD [OF q]
    by (auto simp: my_fallback_def a q split: option.splits)
qed

lemma my_chunk_frame:
  assumes "nul_free sy" "nul_free d"
  shows "same_states (sy_store s) (sy_store (snd (my_write_chunk x (merging c) ops now sy d cols batch res s)))"
proof -
  obtain b s1 where p: "poll s = (b, s1)" by fastforce
  obtain e s2 where q: "my_exec x (build_my_write (merging c) cols batch) s1 = (e, s2)" by fastforce
  have f: "sy_store s1 = sy_store s" "sy_store s2 = sy_store s"
    using poll_frameD [OF p] my_exec_frameD [OF q] by simp_all
  have "same_states (sy_store s) (sy_store (snd (foldl (my_fallback x (merging c) ops now sy d cols) (res, s2) batch)))"
    using foldl_frame [of "my_fallback x (merging c) ops now sy d cols" "(res, s2)", OF my_fallback_frame [OF assms]] f by simp
  moreover have "same_states (sy_store s) (sy_store (snd (foldl (mark_row ops now sy d) (res, s2) batch)))"
    using mark_rows_frame [OF assms, of "(res, s2)" now batch] f by simp
  ultimately show ?thesis
    using f by (auto simp: my_write_chunk_def p q dest: poll_frameD split: option.splits bool.splits prod.splits)
qed

lemma my_group_frame:
  assumes "nul_free sy" "nul_free d"
  shows "same_states (sy_store s) (sy_store (snd (my_write_group x (merging c) ops now sy d g res s)))"
proof -
  obtain cols rs where g: "g = (cols, rs)" by fastforce
  obtain res' err s' where e: "each (my_write_chunk x (merging c) ops now sy d cols) (chunks_of 500 rs) res s = ((res', err), s')"
    by (metis surj_pair)
  have "same_states (sy_store s) (sy_store s')"
    using each_frame [of "my_write_chunk x (merging c) ops now sy d cols" s _ res, OF my_chunk_frame [OF assms]] e
    by (metis snd_conv)
  then show ?thesis by (simp add: my_write_group_def g e)
qed

text \<open>One row: its group, its chunk, and when the count goes up, its mark.\<close>

lemma my_chunk_marks:
  assumes "inv (sy_store s)" "nul_free sy" "nul_free d"
    "my_write_chunk x (merging c) ops now sy d cols [r] res s = ((res', stop), s')" "lr_loaded res' > lr_loaded res"
  shows "ab_is_delivered (abs (sy_store s')) (row_id r, sy, d)"
proof -
  obtain b s1 where p: "poll s = (b, s1)" by fastforce
  obtain e s2 where q: "my_exec x (build_my_write (merging c) cols [r]) s1 = (e, s2)" by fastforce
  obtain e3 s3 where q3: "my_exec x (build_my_write (merging c) cols [r]) s2 = (e3, s3)" by fastforce
  have f: "sy_store s1 = sy_store s" "sy_store s2 = sy_store s" "sy_store s3 = sy_store s"
    using poll_frameD [OF p] my_exec_frameD [OF q] my_exec_frameD [OF q3] by simp_all
  have "mark_row ops now sy d (res, s2) r = (res', s') \<or> mark_row ops now sy d (res, s3) r = (res', s')"
    using assms(4,5) by (auto simp: my_write_chunk_def my_fallback_def p q q3 split: option.splits bool.splits prod.splits if_splits)
  then show ?thesis using mark_row_delivers [OF _ assms(2,3) _ assms(5)] f assms(1) by metis
qed

lemma group_rows_one: "group_rows [r] = [(sorted_columns (row_data r), [r])]"
  by (simp add: group_rows_def group_row_def Let_def)

lemma my_writer: "row_writer ops inv abs stored (my_write_pending x (merging c) ops now)"
proof unfold_locales
  fix s s' :: "('st, 'a my_world) sys" and sy d rs res res' err
  assume i: "inv (sy_store s)" "nul_free sy" "nul_free d"
    and l: "my_write_pending x (merging c) ops now rs sy d res s = ((res', err), s')"
  have "same_states (sy_store s) (sy_store (snd (my_write_pending x (merging c) ops now rs sy d res s)))"
    by (simp add: my_write_pending_def each_frame my_group_frame [OF i(2,3)])
  then show "inv (sy_store s') \<and> ab_entities (abs (sy_store s')) = ab_entities (abs (sy_store s))
      \<and> ab_fired (abs (sy_store s')) = ab_fired (abs (sy_store s))"
    using i(1) l by (simp add: same_states_def)
next
  fix s s' :: "('st, 'a my_world) sys" and sy d r res res' err
  assume i: "inv (sy_store s)" "nul_free sy" "nul_free d"
    and l: "my_write_pending x (merging c) ops now [r] sy d res s = ((res', err), s')" and z: "lr_loaded res < lr_loaded res'"
  obtain res1 stop s1 where w: "my_write_chunk x (merging c) ops now sy d (sorted_columns (row_data r)) [r] res s
      = ((res1, stop), s1)" by (metis surj_pair)
  have "res1 = res' \<and> s1 = s'"
    using l w z by (auto simp: my_write_pending_def group_rows_one my_write_group_def split: option.splits if_splits prod.splits)
  then show "ab_is_delivered (abs (sy_store s')) (row_id r, sy, d)"
    using my_chunk_marks [OF i] w z by simp
qed

lemma my_contract: "destination ops inv abs stored (my_load x (merging c) ops now)"
proof (rule destination.contract_cong [OF row_writer.scanned_contract [OF my_writer]])
  show "my_load x (merging c) ops now rows sy d s
      = scanned_load True (\<lambda>_. None) ops (my_write_pending x (merging c) ops now) rows sy d s"
    if "rows \<noteq> []" for rows sy d s
    using that by (cases "poll s") (simp add: my_load_def scanned_load_def split: bool.splits)
  show "sy_store (snd (my_load x (merging c) ops now [] sy d s)) = sy_store s" for sy d s
    by (auto simp: my_load_def dest: poll_frameD split: prod.splits bool.splits)
qed

end

interpretation my_mem: destination mem_ops mem_inv mem_abs "\<lambda>p. p" "my_load x (merging c) mem_ops now"
  for x c now by (rule mem.my_contract)

interpretation my_sqlite: destination sqlite_ops sq_inv sq_abs json_reload "my_load x (merging c) sqlite_ops now"
  for x c now by (rule sqlite.my_contract)

end
