(* ===== verification/Api_Call.thy ===== *)
theory Api_Call
  imports Rest_Api Dest_Common Json
begin

section \<open>Calls of the SaaS destinations\<close>

text \<open>
  The closure that most SaaS destinations hand to \<open>DoWithRetry\<close>: the rate limiter and the circuit
  breaker in front, the request with its headers and credentials, the outcome told to the breaker,
  and a judgement of the answer, which may also fill a variable of the caller (\<open>existingID\<close>,
  \<open>jobID\<close>, ...). Connector and world are those of the REST destination: settings, credentials,
  limiter, breaker; breaker state, token cache, remote side.
\<close>

subsection \<open>Texts\<close>

definition body_snip :: "string \<Rightarrow> string" where
  "body_snip b = (if length b > 200 then take 200 b @ ''...'' else b)"

definition upper_hex :: "nat \<Rightarrow> char" where
  "upper_hex n = (if n < 10 then char_of (48 + n) else char_of (55 + n))"

definition percent :: "char \<Rightarrow> string" where
  "percent c = (let n = of_char c :: nat in [CHR ''%'', upper_hex (n div 16), upper_hex (n mod 16)])"

definition unreserved :: "char \<Rightarrow> bool" where
  "unreserved c \<longleftrightarrow> (let n = of_char c :: nat in
     (48 \<le> n \<and> n \<le> 57) \<or> (65 \<le> n \<and> n \<le> 90) \<or> (97 \<le> n \<and> n \<le> 122) \<or> c \<in> set ''-_.~'')"

text \<open>\<open>url.QueryEscape\<close> and \<open>url.PathEscape\<close>.\<close>

definition query_escape :: "string \<Rightarrow> string" where
  "query_escape s =
     concat (map (\<lambda>c. if unreserved c then [c] else if c = CHR '' '' then ''+'' else percent c) s)"

definition path_escape :: "string \<Rightarrow> string" where
  "path_escape s = concat (map (\<lambda>c. if unreserved c \<or> c \<in> set ''$&+:=@'' then [c] else percent c) s)"

text \<open>\<open>url.Values.Encode\<close>: the parameters in the order of their names.\<close>

definition encode_query :: "(string \<times> string) list \<Rightarrow> string" where
  "encode_query ps =
     join ''&'' (map (\<lambda>(k, v). query_escape k @ ''='' @ query_escape v) (sort_key fst ps))"

definition first_key :: "string \<Rightarrow> string" where
  "first_key m = trim_space (hd (split_char CHR '','' m))"

text \<open>\<open>strings.TrimRight(s, "/")\<close>\<close>

definition trim_slash :: "string \<Rightarrow> string" where
  "trim_slash s = rev (dropWhile (\<lambda>c. c = CHR ''/'') (rev s))"

subsection \<open>Answers\<close>

text \<open>A field of type string of a decoded struct: absent and null leave it empty; another type is an error.\<close>

definition string_field :: "string \<Rightarrow> (string \<times> jval) list \<Rightarrow> string option" where
  "string_field name m =
     (case json_field name m of
        None \<Rightarrow> Some []
      | Some JNull \<Rightarrow> Some []
      | Some (JStr s) \<Rightarrow> Some s
      | _ \<Rightarrow> None)"

text \<open>The members of a struct: \<open>null\<close> is a struct without members.\<close>

definition struct_members :: "jval \<Rightarrow> (string \<times> jval) list option" where
  "struct_members v = (case v of JNull \<Rightarrow> Some [] | JObj m \<Rightarrow> Some m | _ \<Rightarrow> None)"

text \<open>A field that is a list of structs.\<close>

definition list_field :: "string \<Rightarrow> (string \<times> jval) list \<Rightarrow> (string \<times> jval) list list option" where
  "list_field name m =
     (case json_field name m of
        None \<Rightarrow> Some []
      | Some JNull \<Rightarrow> Some []
      | Some (JArr xs) \<Rightarrow> all_some (map struct_members xs)
      | _ \<Rightarrow> None)"

definition parse_struct :: "string \<Rightarrow> (string \<times> jval) list option" where
  "parse_struct body = (case json_parse body of None \<Rightarrow> None | Some v \<Rightarrow> struct_members v)"

subsection \<open>One attempt\<close>

type_synonym ('st, 'w) gate = "('st, 'w) rest_sys \<Rightarrow> go_error option \<times> ('st, 'w) rest_sys"

definition wait_then_allow :: "'w http_env \<Rightarrow> rest_conn \<Rightarrow> ('st, 'w) gate" where
  "wait_then_allow x c s =
     (case rest_wait x c s of
        (Some e, s1) \<Rightarrow> (Some e, s1)
      | (None, s1) \<Rightarrow> (case allow_request x (sy_world s1) of (r, w) \<Rightarrow> (r, set_world w s1)))"

definition allow_then_wait :: "'w http_env \<Rightarrow> rest_conn \<Rightarrow> ('st, 'w) gate" where
  "allow_then_wait x c s =
     (case allow_request x (sy_world s) of
        (Some e, w) \<Rightarrow> (Some e, set_world w s)
      | (None, w) \<Rightarrow> rest_wait x c (set_world w s))"

text \<open>The judgement: what the closure makes of a status and a body.\<close>

type_synonym 'a judge = "int \<Rightarrow> string \<Rightarrow> 'a \<Rightarrow> go_error option \<times> 'a"

definition api_exchange ::
  "'w http_env \<Rightarrow> rest_conn \<Rightarrow> http_request res \<Rightarrow> 'a judge \<Rightarrow> 'a \<Rightarrow> 'w rest_world
     \<Rightarrow> (int \<times> go_error option) \<times> 'w rest_world \<times> 'a" where
  "api_exchange x c q judge a w =
     (case q of
        Inl e \<Rightarrow> ((0, Some e), w, a)
      | Inr r \<Rightarrow>
          (case rest_auth x c r w of
             (Inl e, w1) \<Rightarrow> ((0, Some e), w1, a)
           | (Inr r', w1) \<Rightarrow>
               (case hx_send x r' (rw_remote w1) of
                  (Inl e, rem) \<Rightarrow> ((0, Some e), record_circuit_failure x (w1\<lparr>rw_remote := rem\<rparr>), a)
                | (Inr (status, body), rem) \<Rightarrow>
                    (case judge status body a of
                       (err, a') \<Rightarrow>
                         ((status, err), record_circuit_response x status (w1\<lparr>rw_remote := rem\<rparr>), a')))))"

definition api_attempt ::
  "'w http_env \<Rightarrow> rest_conn \<Rightarrow> ('st, 'w) gate \<Rightarrow> http_request res \<Rightarrow> 'a judge \<Rightarrow> (('st, 'w) rest_sys \<times> 'a) request" where
  "api_attempt x c gate q judge sa =
     (case sa of (s, a) \<Rightarrow>
        (case gate s of
           (Some e, s1) \<Rightarrow> ((0, Some e), s1, a)
         | (None, s1) \<Rightarrow>
             (case api_exchange x c q judge a (sy_world s1) of (r, w, a') \<Rightarrow> (r, set_world w s1, a'))))"

definition api_sleep :: "'w http_env \<Rightarrow> (('st, 'w) rest_sys \<times> 'a) sleeper" where
  "api_sleep x d sa = (case sa of (s, a) \<Rightarrow> (case rest_sleep x d s of (e, s') \<Rightarrow> (e, s', a)))"

definition api_call ::
  "'w http_env \<Rightarrow> rest_conn \<Rightarrow> ('st, 'w) gate \<Rightarrow> http_request res \<Rightarrow> 'a judge \<Rightarrow> 'a \<Rightarrow> ('st, 'w) rest_sys
     \<Rightarrow> go_error option \<times> ('st, 'w) rest_sys \<times> 'a" where
  "api_call x c gate q judge a s =
     do_with_retry (cd_retry (rc_cfg c)) (api_attempt x c gate q judge) (api_sleep x) (s, a)"

text \<open>A judgement by the status alone, with the text of the error.\<close>

definition expect_status :: "string \<Rightarrow> int list \<Rightarrow> unit judge" where
  "expect_status name good status body a =
     (if status \<in> set good then (None, ())
      else (Some (ErrMsg (name @ '': status '' @ dec_int status @ '': '' @ body_snip body)), ()))"

definition with_headers :: "(string \<times> string) list \<Rightarrow> http_request res \<Rightarrow> http_request res" where
  "with_headers hs q =
     (case q of Inl e \<Rightarrow> Inl e | Inr r \<Rightarrow> Inr (foldl (\<lambda>q (k, v). set_header k v q) r hs))"

subsection \<open>What a call leaves alone\<close>

definition gate_ok :: "('st, 'w) gate \<Rightarrow> bool" where
  "gate_ok gate \<longleftrightarrow> (\<forall>s. sy_store (snd (gate s)) = sy_store s)
     \<and> (\<forall>s. sy_ctx s = None \<longrightarrow> sy_ctx (snd (gate s)) = None)"

lemma rest_wait_ctx: "sy_ctx s = None \<Longrightarrow> sy_ctx (snd (rest_wait x c s)) = None"
  using rest_wait_live [of s x c] by auto

lemma wait_then_allow_ok [simp]: "gate_ok (wait_then_allow x c)"
proof -
  have "sy_store (snd (wait_then_allow x c s)) = sy_store s
      \<and> (sy_ctx s = None \<longrightarrow> sy_ctx (snd (wait_then_allow x c s)) = None)" for s
  proof -
    obtain e s1 where q: "rest_wait x c s = (e, s1)" by fastforce
    have "sy_store s1 = sy_store s" "sy_ctx s = None \<longrightarrow> sy_ctx s1 = None"
      using rest_wait_store [of x c s] rest_wait_ctx [of s x c] q by simp_all
    then show ?thesis by (simp add: wait_then_allow_def q split: option.splits prod.splits)
  qed
  then show ?thesis unfolding gate_ok_def by blast
qed

lemma allow_then_wait_ok [simp]: "gate_ok (allow_then_wait x c)"
proof -
  have "sy_store (snd (allow_then_wait x c s)) = sy_store s
      \<and> (sy_ctx s = None \<longrightarrow> sy_ctx (snd (allow_then_wait x c s)) = None)" for s
    by (simp add: allow_then_wait_def rest_wait_ctx split: prod.splits option.splits)
  then show ?thesis unfolding gate_ok_def by blast
qed

lemma gate_polled_ok:
  "gate_ok gate \<Longrightarrow> gate_ok (\<lambda>s. case poll s of (True, s1) \<Rightarrow> (Some ErrCanceled, s1) | (False, s1) \<Rightarrow> gate s1)"
proof -
  assume g: "gate_ok gate"
  have "sy_store (snd (case poll s of (True, s1) \<Rightarrow> (Some ErrCanceled, s1) | (False, s1) \<Rightarrow> gate s1)) = sy_store s
      \<and> (sy_ctx s = None \<longrightarrow>
         sy_ctx (snd (case poll s of (True, s1) \<Rightarrow> (Some ErrCanceled, s1) | (False, s1) \<Rightarrow> gate s1)) = None)" for s
  proof -
    obtain b s1 where p: "poll s = (b, s1)" by fastforce
    have "sy_store s1 = sy_store s" "sy_ctx s = None \<longrightarrow> \<not> b \<and> s1 = s"
      using poll_frameD [OF p] poll_never [of s] p by auto
    then show ?thesis using g by (cases b) (auto simp: p gate_ok_def)
  qed
  then show "gate_ok (\<lambda>s. case poll s of (True, s1) \<Rightarrow> (Some ErrCanceled, s1) | (False, s1) \<Rightarrow> gate s1)"
    unfolding gate_ok_def by blast
qed

lemma api_attempt_keeps:
  assumes "gate_ok gate"
  shows "sy_store (fst (snd (api_attempt x c gate q judge sa))) = sy_store (fst sa)"
    "sy_ctx (fst sa) = None \<Longrightarrow> sy_ctx (fst (snd (api_attempt x c gate q judge sa))) = None"
proof -
  obtain s a where sa: "sa = (s, a)" by fastforce
  obtain e s1 where g: "gate s = (e, s1)" by fastforce
  obtain r w a' where t: "api_exchange x c q judge a (sy_world s1) = (r, w, a')" by (metis surj_pair)
  have k: "sy_store s1 = sy_store s" "sy_ctx s = None \<longrightarrow> sy_ctx s1 = None"
    using assms g unfolding gate_ok_def by (metis snd_conv)+
  show "sy_store (fst (snd (api_attempt x c gate q judge sa))) = sy_store (fst sa)"
    "sy_ctx (fst sa) = None \<Longrightarrow> sy_ctx (fst (snd (api_attempt x c gate q judge sa))) = None"
    using k by (auto simp: api_attempt_def sa g t split: option.splits)
qed

lemma api_sleep_keeps:
  "sy_store (fst (snd (api_sleep x d sa))) = sy_store (fst sa)"
  "sy_ctx (fst sa) = None \<Longrightarrow> sy_ctx (fst (snd (api_sleep x d sa))) = None \<and> fst (api_sleep x d sa) = None"
proof -
  obtain s a where sa: "sa = (s, a)" by fastforce
  obtain e s' where q: "rest_sleep x d s = (e, s')" by fastforce
  have "sy_store s' = sy_store s" using q unfolding rest_sleep_def by (metis sleep_ctx_store snd_conv)
  then show "sy_store (fst (snd (api_sleep x d sa))) = sy_store (fst sa)" by (simp add: api_sleep_def sa q)
  show "sy_ctx (fst sa) = None \<Longrightarrow> sy_ctx (fst (snd (api_sleep x d sa))) = None \<and> fst (api_sleep x d sa) = None"
    by (simp add: api_sleep_def sa rest_sleep_def sleep_ctx_live)
qed

lemma api_call_store:
  assumes "gate_ok gate"
  shows "sy_store (fst (snd (api_call x c gate q judge a s))) = sy_store s"
  unfolding api_call_def
  by (rule do_with_retry_keeps [where P = "\<lambda>sa. sy_store (fst sa) = sy_store s"])
     (simp_all add: api_attempt_keeps(1) [OF assms] api_sleep_keeps)

lemma api_call_live:
  assumes "gate_ok gate" "sy_ctx s = None" "api_call x c gate q judge a s = (e, s', a')"
  shows "sy_ctx s' = None \<and> (\<forall>err. e = Some err \<longrightarrow> \<not> is_ctx_error err)"
proof -
  let ?P = "\<lambda>sa. sy_ctx (fst sa) = None"
  have "?P (snd (api_call x c gate q judge a s))"
    unfolding api_call_def
    by (rule do_with_retry_keeps [where P = ?P]) (simp_all add: api_attempt_keeps(2) [OF assms(1)] api_sleep_keeps assms(2))
  moreover have "\<not> is_ctx_error err" if "e = Some err" for err
    using assms(2,3) that unfolding api_call_def do_with_retry_def Let_def
    by (intro retry_loop_no_ctx_error [where P = ?P and w = "(s, a)", OF api_attempt_keeps(2) [OF assms(1)] api_sleep_keeps(2)]) auto
  ultimately show ?thesis using assms(3) by simp
qed

text \<open>A call that succeeds had its last request answered with a 2xx status that the judgement accepts.\<close>

lemma api_call_success:
  assumes "api_call x c gate q judge a s = (None, s', a')"
  shows "\<exists>sa status. api_attempt x c gate q judge sa = ((status, None), s', a') \<and> is_2xx status"
  using retry_loop_success [of _ "api_attempt x c gate q judge" "api_sleep x"] assms
  unfolding api_call_def do_with_retry_def Let_def by blast

text \<open>A sender made of calls.\<close>

definition sender_ok :: "('i \<Rightarrow> ('st, 'w) sys \<Rightarrow> go_error option \<times> ('st, 'w) sys) \<Rightarrow> bool" where
  "sender_ok send \<longleftrightarrow> (\<forall>i s. sy_store (snd (send i s)) = sy_store s) \<and>
     (\<forall>i s e s'. sy_ctx s = None \<longrightarrow> send i s = (e, s') \<longrightarrow>
        sy_ctx s' = None \<and> (\<forall>x. e = Some x \<longrightarrow> \<not> is_ctx_error x))"

context state_store
begin

lemma send_all_contract:
  assumes "sender_ok send"
  shows "counting_destination ops inv abs stored (scanned_load polls check ops (send_all ops now send))"
proof (rule counting_writer.counted_contract, rule send_all_writer)
  show "sy_store (snd (send r s)) = sy_store s" for r s using assms by (simp add: sender_ok_def)
  show "sy_ctx s = None \<Longrightarrow> sy_ctx (snd (send r s)) = None" for r s
    using assms unfolding sender_ok_def by (metis prod.collapse)
qed

lemma send_chunks_contract:
  "sender_ok send \<Longrightarrow>
   counting_destination ops inv abs stored (scanned_load polls check ops (send_chunks n ops now send))"
  by (rule counting_writer.counted_contract, rule send_chunks_writer) (auto simp: sender_ok_def)

end

end
