(* ===== verification/Crm_Dest.thy ===== *)
theory Crm_Dest
  imports Api_Call Diff
begin

section \<open>Zendesk, Intercom and Pipedrive: internal/connector/destination/zendesk.go, intercom.go, pipedrive.go\<close>

text \<open>
  Three destinations with one shape: the scan sets aside the rows that were delivered or lack the
  match field, every other row is sent on its own (Intercom and Pipedrive search before they write)
  and marked when its calls succeed. Each keeps the contract of a counting destination over both
  stores; the requests are sent one after the other, as the engine loads one row at a time.
\<close>

subsection \<open>What they share\<close>

definition api_conn :: "'w http_env \<Rightarrow> conn_dest \<Rightarrow> rest_conn res" where
  "api_conn x cfg =
     (case new_authenticator (cd_auth cfg) of
        Inl e \<Rightarrow> Inl e
      | Inr auth \<Rightarrow>
          (case new_rate_limiter (hx_parse_duration x) (cd_rate_limit cfg) of
             Inl e \<Rightarrow> Inl e
           | Inr rl \<Rightarrow> Inr \<lparr>rc_cfg = cfg, rc_auth = auth, rc_limiter = rl, rc_breaker = new_breaker (cd_breaker cfg)\<rparr>))"

definition missing_field :: "string \<Rightarrow> string \<Rightarrow> row \<Rightarrow> go_error option" where
  "missing_field prefix f r =
     (if has_key (row_data r) f then None else Some (ErrMsg (prefix @ quote_q f)))"

definition json_headers :: "(string \<times> string) list" where
  "json_headers = [(''Content-Type'', ''application/json'')]"

definition api_send ::
  "'w http_env \<Rightarrow> rest_conn \<Rightarrow> ('st, 'w) gate \<Rightarrow> http_request res \<Rightarrow> unit judge \<Rightarrow> ('st, 'w) rest_sys
     \<Rightarrow> go_error option \<times> ('st, 'w) rest_sys" where
  "api_send x c gate q judge s = (case api_call x c gate q judge () s of (e, s', _) \<Rightarrow> (e, s'))"

lemma api_send_keeps:
  assumes "gate_ok gate" "api_send x c gate q judge s = (e, s')"
  shows "sy_store s' = sy_store s"
    "sy_ctx s = None \<Longrightarrow> sy_ctx s' = None \<and> (\<forall>err. e = Some err \<longrightarrow> \<not> is_ctx_error err)"
proof -
  obtain e1 s1 u where c: "api_call x c gate q judge () s = (e1, s1, u)" by (metis surj_pair)
  have eq: "e1 = e" "s1 = s'" using assms(2) by (auto simp: api_send_def c)
  show "sy_store s' = sy_store s" using api_call_store [OF assms(1), of x c q judge "()" s] c eq by simp
  show "sy_ctx s = None \<Longrightarrow> sy_ctx s' = None \<and> (\<forall>err. e = Some err \<longrightarrow> \<not> is_ctx_error err)"
    using api_call_live [OF assms(1) _ c] eq by simp
qed

text \<open>A body that must be encoded before anything is sent.\<close>

definition with_body ::
  "gval \<Rightarrow> (string \<Rightarrow> ('st, 'w) sys \<Rightarrow> go_error option \<times> ('st, 'w) sys) \<Rightarrow> ('st, 'w) sys
     \<Rightarrow> go_error option \<times> ('st, 'w) sys" where
  "with_body v k s = (case json_marshal v of None \<Rightarrow> (Some marshal_error, s) | Some b \<Rightarrow> k b s)"

definition keeps_sys :: "(('st, 'w) sys \<Rightarrow> go_error option \<times> ('st, 'w) sys) \<Rightarrow> bool" where
  "keeps_sys f \<longleftrightarrow> (\<forall>s e s'. f s = (e, s') \<longrightarrow> sy_store s' = sy_store s \<and>
     (sy_ctx s = None \<longrightarrow> sy_ctx s' = None \<and> (\<forall>err. e = Some err \<longrightarrow> \<not> is_ctx_error err)))"

lemma keeps_api_send: "gate_ok gate \<Longrightarrow> keeps_sys (api_send x c gate q judge)"
  unfolding keeps_sys_def using api_send_keeps by blast

lemma marshal_error_ctx [simp]: "\<not> is_ctx_error marshal_error"
  by (simp add: is_ctx_error_def marshal_error_def)

lemma keeps_with_body: "(\<And>b. keeps_sys (k b)) \<Longrightarrow> keeps_sys (with_body v k)"
  by (auto simp: keeps_sys_def with_body_def split: option.splits)

lemma sender_of_keeps: "(\<And>i. keeps_sys (send i)) \<Longrightarrow> sender_ok send"
proof -
  assume k: "\<And>i. keeps_sys (send i)"
  have "sy_store (snd (send i s)) = sy_store s" for i s
    using k [of i] unfolding keeps_sys_def by (metis prod.collapse)
  then show "sender_ok send" using k unfolding sender_ok_def keeps_sys_def by blast
qed

subsection \<open>Zendesk\<close>

record zendesk =
  zd_conn :: rest_conn
  zd_base :: string
  zd_object :: string
  zd_match :: string

definition zendesk_connect :: "'w http_env \<Rightarrow> conn_dest \<Rightarrow> zendesk res" where
  "zendesk_connect x cfg =
     (let base = trim_slash (trim_space (cd_url cfg));
          o0 = to_lower (trim_space (get_opt (cd_options cfg) ''object''));
          ob = (if o0 = [] then ''users'' else o0)
      in if base = [] then Inl (ErrMsg ''zendesk destination: url is required (https://yourcompany.zendesk.com)'')
         else if ob \<noteq> ''users'' \<and> ob \<noteq> ''tickets'' then
           Inl (ErrMsg (''zendesk destination: object '' @ quote_q ob @ '' unknown, valid: users, tickets''))
         else if trim_space (cd_match_on cfg) = [] then Inl (ErrMsg ''zendesk destination: match_on is required'')
         else (case api_conn x cfg of
                 Inl e \<Rightarrow> Inl e
               | Inr c \<Rightarrow> Inr \<lparr>zd_conn = c, zd_base = base, zd_object = ob, zd_match = first_key (cd_match_on cfg)\<rparr>))"

definition zendesk_object :: "zendesk \<Rightarrow> row \<Rightarrow> payload" where
  "zendesk_object z r =
     (if zd_match z = ''external_id'' then row_data r
      else case alookup (row_data r) (zd_match z) of
             Some v \<Rightarrow> aput ''external_id'' (GStr (sprint_v v)) (row_data r)
           | None \<Rightarrow> row_data r)"

definition zendesk_request ::
  "'w http_env \<Rightarrow> zendesk \<Rightarrow> string \<Rightarrow> string \<Rightarrow> ('st, 'w) rest_sys \<Rightarrow> go_error option \<times> ('st, 'w) rest_sys" where
  "zendesk_request x z url body =
     api_send x (zd_conn z) (wait_then_allow x (zd_conn z))
       (with_headers json_headers (new_request x ''POST'' url body)) (expect_status ''zendesk'' [200, 201])"

definition zendesk_upsert ::
  "'w http_env \<Rightarrow> zendesk \<Rightarrow> row \<Rightarrow> ('st, 'w) rest_sys \<Rightarrow> go_error option \<times> ('st, 'w) rest_sys" where
  "zendesk_upsert x z r =
     (if zd_object z = ''tickets''
      then with_body (GMap [(''ticket'', GMap (zendesk_object z r))])
             (zendesk_request x z (zd_base z @ ''/api/v2/tickets/create_or_update''))
      else with_body (GMap [(''user'', GMap (zendesk_object z r))])
             (zendesk_request x z (zd_base z @ ''/api/v2/users/create_or_update'')))"

definition zendesk_load ::
  "'w http_env \<Rightarrow> zendesk \<Rightarrow> 'st store_ops \<Rightarrow> go_time \<Rightarrow> ('st, 'w rest_world) loader" where
  "zendesk_load x z ops now =
     scanned_load False (missing_field ''zendesk destination: missing match field '' (zd_match z)) ops
       (send_all ops now (zendesk_upsert x z))"

subsection \<open>Intercom\<close>

record intercom =
  ic_conn :: rest_conn
  ic_object :: string
  ic_match :: string

definition intercom_base :: string where
  "intercom_base = ''https://api.intercom.io''"

definition intercom_top_fields :: "string list" where
  "intercom_top_fields = [''email'', ''external_id'', ''role'', ''name'', ''phone'', ''avatar'', ''signed_up_at'',
     ''last_seen_at'', ''unsubscribed_from_emails'']"

definition intercom_connect :: "'w http_env \<Rightarrow> conn_dest \<Rightarrow> intercom res" where
  "intercom_connect x cfg =
     (let o0 = to_lower (trim_space (get_opt (cd_options cfg) ''object''));
          ob = (if o0 = [] then ''contacts'' else o0)
      in if ob \<noteq> ''contacts'' \<and> ob \<noteq> ''companies'' then
           Inl (ErrMsg (''intercom destination: object '' @ quote_q ob @ '' unknown, valid: contacts, companies''))
         else if trim_space (cd_match_on cfg) = [] then
           Inl (ErrMsg ''intercom destination: match_on is required (external_id or email)'')
         else (case api_conn x cfg of
                 Inl e \<Rightarrow> Inl e
               | Inr c \<Rightarrow> Inr \<lparr>ic_conn = c, ic_object = ob, ic_match = first_key (cd_match_on cfg)\<rparr>))"

definition intercom_headers :: "(string \<times> string) list" where
  "intercom_headers =
     [(''Content-Type'', ''application/json''), (''Accept'', ''application/json''), (''Intercom-Version'', ''2.10'')]"

definition intercom_search_body :: "intercom \<Rightarrow> string \<Rightarrow> gval" where
  "intercom_search_body ic v =
     GMap [(''query'', GMap [(''field'', GStr (if ic_object ic = ''companies'' then ''company_id'' else ic_match ic)),
                          (''operator'', GStr ''=''), (''value'', GStr v)]),
           (''pagination'', GMap [(''per_page'', GInt 1)])]"

text \<open>An answer that does not decode counts as one without results.\<close>

definition intercom_found :: "string \<Rightarrow> string option" where
  "intercom_found body =
     (case parse_struct body of
        None \<Rightarrow> None
      | Some m \<Rightarrow>
          (case list_field ''data'' m of
             Some items \<Rightarrow>
               (case all_some (map (string_field ''id'') items) of
                  Some (i # _) \<Rightarrow> Some i
                | _ \<Rightarrow> None)
           | None \<Rightarrow> None))"

definition search_judge :: "string \<Rightarrow> (string \<Rightarrow> string option) \<Rightarrow> string judge" where
  "search_judge name found status body i =
     (if status \<noteq> 200
      then (Some (ErrMsg (name @ '': search status '' @ dec_int status @ '': '' @ body_snip body)), i)
      else (None, case found body of Some j \<Rightarrow> j | None \<Rightarrow> i))"

definition intercom_search ::
  "'w http_env \<Rightarrow> intercom \<Rightarrow> string \<Rightarrow> ('st, 'w) rest_sys
     \<Rightarrow> go_error option \<times> ('st, 'w) rest_sys \<times> string" where
  "intercom_search x ic body =
     api_call x (ic_conn ic) (wait_then_allow x (ic_conn ic))
       (with_headers intercom_headers (new_request x ''POST'' (intercom_base @ ''/'' @ ic_object ic @ ''/search'') body))
       (search_judge ''intercom'' intercom_found) []"

text \<open>Fields of a contact that are not Intercom's own travel as custom attributes.\<close>

definition intercom_body :: "intercom \<Rightarrow> row \<Rightarrow> payload" where
  "intercom_body ic r =
     (let own = (\<lambda>k. \<not> (ic_object ic = ''contacts'' \<and> k \<notin> set intercom_top_fields));
          custom = filter (\<lambda>(k, v). \<not> own k) (row_data r);
          body = filter (\<lambda>(k, v). own k) (row_data r)
      in if custom = [] then body else aput ''custom_attributes'' (GMap custom) body)"

definition intercom_request ::
  "'w http_env \<Rightarrow> intercom \<Rightarrow> string \<Rightarrow> string \<Rightarrow> string \<Rightarrow> ('st, 'w) rest_sys
     \<Rightarrow> go_error option \<times> ('st, 'w) rest_sys" where
  "intercom_request x ic meth url body =
     api_send x (ic_conn ic) (wait_then_allow x (ic_conn ic))
       (with_headers intercom_headers (new_request x meth url body)) (expect_status ''intercom'' [200, 201])"

definition intercom_upsert ::
  "'w http_env \<Rightarrow> intercom \<Rightarrow> row \<Rightarrow> ('st, 'w) rest_sys \<Rightarrow> go_error option \<times> ('st, 'w) rest_sys" where
  "intercom_upsert x ic r =
     (let v = sprint_v (get_or_nil (row_data r) (ic_match ic)) in
      with_body (intercom_search_body ic v) (\<lambda>sb s.
        (case intercom_search x ic sb s of
           (Some e, s1, _) \<Rightarrow> (Some e, s1)
         | (None, s1, i) \<Rightarrow>
             with_body (GMap (intercom_body ic r)) (\<lambda>b.
               if i \<noteq> [] then intercom_request x ic ''PUT'' (intercom_base @ ''/'' @ ic_object ic @ ''/'' @ i) b
               else intercom_request x ic ''POST'' (intercom_base @ ''/'' @ ic_object ic) b) s1)))"

definition intercom_load ::
  "'w http_env \<Rightarrow> intercom \<Rightarrow> 'st store_ops \<Rightarrow> go_time \<Rightarrow> ('st, 'w rest_world) loader" where
  "intercom_load x ic ops now =
     scanned_load False (missing_field ''intercom destination: missing match field '' (ic_match ic)) ops
       (send_all ops now (intercom_upsert x ic))"

subsection \<open>Pipedrive\<close>

record pipedrive =
  pi_conn :: rest_conn
  pi_base :: string
  pi_path :: string
  pi_match :: string
  pi_search :: string

definition pipedrive_objects :: "(string \<times> string) list" where
  "pipedrive_objects = [(''persons'', ''/api/v2/persons''), (''deals'', ''/api/v2/deals''),
     (''organizations'', ''/api/v2/organizations''), (''leads'', ''/api/v2/leads'')]"

definition pipedrive_connect :: "'w http_env \<Rightarrow> conn_dest \<Rightarrow> pipedrive res" where
  "pipedrive_connect x cfg =
     (let o0 = to_lower (trim_space (get_opt (cd_options cfg) ''object''));
          ob = (if o0 = [] then ''persons'' else o0);
          b0 = trim_slash (trim_space (cd_url cfg));
          f0 = trim_space (get_opt (cd_options cfg) ''search_field'')
      in case alookup pipedrive_objects ob of
           None \<Rightarrow> Inl (ErrMsg (''pipedrive destination: object '' @ quote_q ob
                     @ '' unknown, valid: persons, deals, organizations, leads''))
         | Some path \<Rightarrow>
             if trim_space (cd_match_on cfg) = [] then Inl (ErrMsg ''pipedrive destination: match_on is required'')
             else (case api_conn x cfg of
                     Inl e \<Rightarrow> Inl e
                   | Inr c \<Rightarrow> Inr \<lparr>pi_conn = c, pi_base = (if b0 = [] then ''https://api.pipedrive.com'' else b0),
                       pi_path = path, pi_match = first_key (cd_match_on cfg),
                       pi_search = (if f0 = [] then first_key (cd_match_on cfg) else f0)\<rparr>))"

text \<open>A \<open>json.Number\<close>: the text of a number, or a string that is one.\<close>

definition number_field :: "string \<Rightarrow> (string \<times> jval) list \<Rightarrow> string option" where
  "number_field name m =
     (case json_field name m of
        None \<Rightarrow> Some []
      | Some JNull \<Rightarrow> Some []
      | Some (JNum t) \<Rightarrow> Some t
      | Some (JStr s) \<Rightarrow> (case json_number s of Some (t, r) \<Rightarrow> if r = [] then Some s else None | None \<Rightarrow> None)
      | _ \<Rightarrow> None)"

definition sub_struct :: "string \<Rightarrow> (string \<times> jval) list \<Rightarrow> (string \<times> jval) list option" where
  "sub_struct name m = (case json_field name m of None \<Rightarrow> Some [] | Some v \<Rightarrow> struct_members v)"

definition item_number :: "(string \<times> jval) list \<Rightarrow> string option" where
  "item_number m = (case sub_struct ''item'' m of None \<Rightarrow> None | Some it \<Rightarrow> number_field ''id'' it)"

definition pipedrive_found :: "string \<Rightarrow> string option" where
  "pipedrive_found body =
     (case parse_struct body of
        None \<Rightarrow> None
      | Some m \<Rightarrow>
          (case sub_struct ''data'' m of
             None \<Rightarrow> None
           | Some d \<Rightarrow>
               (case list_field ''items'' d of
                  Some items \<Rightarrow> (case all_some (map item_number items) of Some (i # _) \<Rightarrow> Some i | _ \<Rightarrow> None)
                | None \<Rightarrow> None)))"

definition pipedrive_search ::
  "'w http_env \<Rightarrow> pipedrive \<Rightarrow> string \<Rightarrow> ('st, 'w) rest_sys \<Rightarrow> go_error option \<times> ('st, 'w) rest_sys \<times> string" where
  "pipedrive_search x p term =
     api_call x (pi_conn p) (wait_then_allow x (pi_conn p))
       (new_request x ''GET'' (pi_base p @ pi_path p @ ''/search?''
          @ encode_query [(''term'', term), (''fields'', pi_search p), (''limit'', ''1'')]) [])
       (search_judge ''pipedrive'' pipedrive_found) []"

definition pipedrive_request ::
  "'w http_env \<Rightarrow> pipedrive \<Rightarrow> string \<Rightarrow> string \<Rightarrow> string \<Rightarrow> ('st, 'w) rest_sys
     \<Rightarrow> go_error option \<times> ('st, 'w) rest_sys" where
  "pipedrive_request x p meth url body =
     api_send x (pi_conn p) (wait_then_allow x (pi_conn p))
       (with_headers json_headers (new_request x meth url body)) (expect_status ''pipedrive'' [200, 201])"

definition pipedrive_upsert ::
  "'w http_env \<Rightarrow> pipedrive \<Rightarrow> row \<Rightarrow> ('st, 'w) rest_sys \<Rightarrow> go_error option \<times> ('st, 'w) rest_sys" where
  "pipedrive_upsert x p r s =
     (case pipedrive_search x p (sprint_v (get_or_nil (row_data r) (pi_match p))) s of
        (Some e, s1, _) \<Rightarrow> (Some e, s1)
      | (None, s1, i) \<Rightarrow>
          with_body (GMap (row_data r)) (\<lambda>b.
            if i \<noteq> [] then pipedrive_request x p ''PATCH'' (pi_base p @ pi_path p @ ''/'' @ i) b
            else pipedrive_request x p ''POST'' (pi_base p @ pi_path p) b) s1)"

definition pipedrive_load ::
  "'w http_env \<Rightarrow> pipedrive \<Rightarrow> 'st store_ops \<Rightarrow> go_time \<Rightarrow> ('st, 'w rest_world) loader" where
  "pipedrive_load x p ops now =
     scanned_load False (missing_field ''pipedrive destination: missing match field '' (pi_match p)) ops
       (send_all ops now (pipedrive_upsert x p))"

subsection \<open>The contract\<close>

lemma zendesk_sender: "sender_ok (zendesk_upsert x z)"
  by (rule sender_of_keeps) (simp add: zendesk_upsert_def zendesk_request_def keeps_with_body keeps_api_send)

lemma keeps_after_call:
  assumes "gate_ok gate" "\<And>a. keeps_sys (k a)"
  shows "keeps_sys (\<lambda>s. case api_call x c gate q judge a0 s of
      (Some e, s1, _) \<Rightarrow> (Some e, s1) | (None, s1, a) \<Rightarrow> k a s1)"
  unfolding keeps_sys_def
proof (intro allI impI)
  fix s e s'
  assume h: "(case api_call x c gate q judge a0 s of (Some e, s1, _) \<Rightarrow> (Some e, s1) | (None, s1, a) \<Rightarrow> k a s1) = (e, s')"
  obtain e1 s1 a where c: "api_call x c gate q judge a0 s = (e1, s1, a)" by (metis surj_pair)
  have store: "sy_store s1 = sy_store s" using api_call_store [OF assms(1), of x c q judge a0 s] c by simp
  have live: "sy_ctx s = None \<Longrightarrow> sy_ctx s1 = None \<and> (\<forall>err. e1 = Some err \<longrightarrow> \<not> is_ctx_error err)"
    using api_call_live [OF assms(1) _ c] by blast
  have after: "k a s1 = (e, s') \<Longrightarrow> sy_store s' = sy_store s1 \<and> (sy_ctx s1 = None \<longrightarrow>
      sy_ctx s' = None \<and> (\<forall>err. e = Some err \<longrightarrow> \<not> is_ctx_error err))"
    using assms(2) [of a] unfolding keeps_sys_def by blast
  show "sy_store s' = sy_store s \<and> (sy_ctx s = None \<longrightarrow> sy_ctx s' = None \<and> (\<forall>err. e = Some err \<longrightarrow> \<not> is_ctx_error err))"
  proof (cases e1)
    case None
    then show ?thesis using h c store live after by simp
  next
    case (Some err)
    then show ?thesis using h c store live by auto
  qed
qed

lemma intercom_sender: "sender_ok (intercom_upsert x ic)"
  unfolding intercom_upsert_def Let_def intercom_search_def
  by (intro sender_of_keeps keeps_with_body keeps_after_call)
     (simp_all add: intercom_request_def keeps_with_body keeps_api_send)

lemma pipedrive_sender: "sender_ok (pipedrive_upsert x p)"
proof (rule sender_of_keeps)
  show "keeps_sys (pipedrive_upsert x p r)" for r
    unfolding pipedrive_upsert_def pipedrive_search_def
    by (intro keeps_after_call) (simp_all add: pipedrive_request_def keeps_with_body keeps_api_send)
qed

interpretation zendesk_mem: counting_destination mem_ops mem_inv mem_abs "\<lambda>p. p" "zendesk_load x z mem_ops now"
  for x z now unfolding zendesk_load_def by (rule mem.send_all_contract [OF zendesk_sender])

interpretation zendesk_sqlite: counting_destination sqlite_ops sq_inv sq_abs json_reload "zendesk_load x z sqlite_ops now"
  for x z now unfolding zendesk_load_def by (rule sqlite.send_all_contract [OF zendesk_sender])

interpretation intercom_mem: counting_destination mem_ops mem_inv mem_abs "\<lambda>p. p" "intercom_load x ic mem_ops now"
  for x ic now unfolding intercom_load_def by (rule mem.send_all_contract [OF intercom_sender])

interpretation pipedrive_mem: counting_destination mem_ops mem_inv mem_abs "\<lambda>p. p" "pipedrive_load x p mem_ops now"
  for x p now unfolding pipedrive_load_def by (rule mem.send_all_contract [OF pipedrive_sender])

end
