(* ===== verification/Batch_Dest.thy ===== *)
theory Batch_Dest
  imports Crm_Dest Postgres_Dest Go_Time Sample Store_Laws
begin

section \<open>Klaviyo, Mixpanel and Google Sheets: internal/connector/destination/klaviyo.go, mixpanel.go, googlesheets.go\<close>

text \<open>
  The destinations that send many rows in one request: profiles in chunks of a thousand, engage
  records in chunks of two thousand, all pending rows of a load in one append. Each keeps the
  contract of a counting destination.
\<close>

subsection \<open>Klaviyo\<close>

record klaviyo =
  kl_conn :: rest_conn
  kl_key :: string
  kl_match :: string

definition klaviyo_identifiers :: "string list" where
  "klaviyo_identifiers = [''email'', ''phone_number'', ''external_id'', ''first_name'', ''last_name'']"

definition klaviyo_connect :: "'w http_env \<Rightarrow> conn_dest \<Rightarrow> klaviyo res" where
  "klaviyo_connect x cfg =
     (let key = (if ca_type (cd_auth cfg) = ''bearer'' then trim_space (ca_token (cd_auth cfg))
                 else if ca_type (cd_auth cfg) = ''api_key'' then trim_space (ca_value (cd_auth cfg)) else [])
      in if trim_space (cd_match_on cfg) = [] then
           Inl (ErrMsg ''klaviyo destination: match_on is required (email, phone_number, or external_id)'')
         else if key = [] then Inl (ErrMsg ''klaviyo destination: auth token is required (bearer or api_key)'')
         else (case new_rate_limiter (hx_parse_duration x) (cd_rate_limit cfg) of
                 Inl e \<Rightarrow> Inl e
               | Inr rl \<Rightarrow> Inr \<lparr>kl_conn = \<lparr>rc_cfg = cfg, rc_auth = None, rc_limiter = rl,
                     rc_breaker = new_breaker (cd_breaker cfg)\<rparr>, kl_key = key, kl_match = first_key (cd_match_on cfg)\<rparr>))"

text \<open>
  A struct is encoded in the order of its fields, maps in the order of their keys; a row without
  the match field contributes no profile.
\<close>

definition klaviyo_attributes :: "row \<Rightarrow> payload" where
  "klaviyo_attributes r =
     (let attrs = filter (\<lambda>(k, v). k \<in> set klaviyo_identifiers) (row_data r);
          props = filter (\<lambda>(k, v). k \<notin> set klaviyo_identifiers) (row_data r)
      in if props = [] then attrs else attrs @ [(''properties'', GMap props)])"

definition klaviyo_profile :: "row \<Rightarrow> string option" where
  "klaviyo_profile r =
     map_option (\<lambda>a. ''{\"type\":\"profile\",\"attributes\":'' @ a @ ''}'') (json_marshal (GMap (klaviyo_attributes r)))"

definition klaviyo_payload :: "klaviyo \<Rightarrow> row list \<Rightarrow> string option" where
  "klaviyo_payload k rows =
     map_option (\<lambda>ps. ''{\"data\":{\"attributes\":{\"profiles\":{\"data\":['' @ join '','' ps
         @ '']}},\"type\":\"profile-bulk-upsert-job\"}}'')
       (all_some (map klaviyo_profile (filter (\<lambda>r. has_key (row_data r) (kl_match k)) rows)))"

definition klaviyo_request :: "'w http_env \<Rightarrow> klaviyo \<Rightarrow> string \<Rightarrow> http_request res" where
  "klaviyo_request x k body =
     with_headers [(''Authorization'', ''Klaviyo-API-Key '' @ kl_key k), (''revision'', ''2024-02-15''),
         (''Content-Type'', ''application/vnd.api+json'')]
       (new_request x ''POST'' ''https://a.klaviyo.com/api/profile-bulk-upsert-jobs/'' body)"

definition klaviyo_upsert ::
  "'w http_env \<Rightarrow> klaviyo \<Rightarrow> row list \<Rightarrow> ('st, 'w) rest_sys \<Rightarrow> go_error option \<times> ('st, 'w) rest_sys" where
  "klaviyo_upsert x k rows s =
     (case klaviyo_payload k rows of
        None \<Rightarrow> (Some marshal_error, s)
      | Some body \<Rightarrow>
          api_send x (kl_conn k) (wait_then_allow x (kl_conn k)) (klaviyo_request x k body)
            (expect_status ''klaviyo'' [202, 200]) s)"

definition klaviyo_load ::
  "'w http_env \<Rightarrow> klaviyo \<Rightarrow> 'st store_ops \<Rightarrow> go_time \<Rightarrow> ('st, 'w rest_world) loader" where
  "klaviyo_load x k ops now = scanned_load False (\<lambda>_. None) ops (send_chunks 1000 ops now (klaviyo_upsert x k))"

subsection \<open>Mixpanel\<close>

record mixpanel =
  mp_conn :: rest_conn
  mp_token :: string
  mp_distinct :: string
  mp_operation :: string

definition mixpanel_operations :: "string list" where
  "mixpanel_operations = [''$set'', ''$set_once'', ''$union'', ''$add'', ''$append'', ''$remove'', ''$unset'']"

definition opt_or :: "string \<Rightarrow> string \<Rightarrow> conn_dest \<Rightarrow> string" where
  "opt_or name dflt cfg = (let v = trim_space (get_opt (cd_options cfg) name) in if v = [] then dflt else v)"

definition mixpanel_connect :: "'w http_env \<Rightarrow> conn_dest \<Rightarrow> mixpanel res" where
  "mixpanel_connect x cfg =
     (let token = trim_space (get_opt (cd_options cfg) ''project_token''); oper = opt_or ''operation'' ''$set'' cfg
      in if token = [] then Inl (ErrMsg ''mixpanel destination: options.project_token is required'')
         else if oper \<notin> set mixpanel_operations then
           Inl (ErrMsg (''mixpanel destination: unknown operation '' @ quote_q oper
             @ '' (valid: $set, $set_once, $union, $add)''))
         else (case api_conn x cfg of
                 Inl e \<Rightarrow> Inl e
               | Inr c \<Rightarrow> Inr \<lparr>mp_conn = c, mp_token = token,
                   mp_distinct = opt_or ''distinct_id'' ''distinct_id'' cfg, mp_operation = oper\<rparr>))"

definition mixpanel_record :: "mixpanel \<Rightarrow> row \<Rightarrow> gval" where
  "mixpanel_record m r =
     GMap [(''$token'', GStr (mp_token m)),
           (''$distinct_id'', GStr (sprint_v (get_or_nil (row_data r) (mp_distinct m)))),
           (mp_operation m, GMap (filter (\<lambda>(k, v). k \<noteq> mp_distinct m) (row_data r)))]"

definition int_field :: "string \<Rightarrow> (string \<times> jval) list \<Rightarrow> int option" where
  "int_field name m =
     (case json_field name m of
        None \<Rightarrow> Some 0
      | Some JNull \<Rightarrow> Some 0
      | Some (JNum t) \<Rightarrow> parse_int64 t
      | _ \<Rightarrow> None)"

text \<open>A body that does not decode counts as success, one with another status than 1 as an error.\<close>

definition mixpanel_judge :: "unit judge" where
  "mixpanel_judge status body a =
     (if status \<noteq> 200 then expect_status ''mixpanel'' [] status body a
      else case parse_struct body of
             None \<Rightarrow> (None, ())
           | Some m \<Rightarrow>
               (case (int_field ''status'' m, string_field ''error'' m) of
                  (Some st, Some er) \<Rightarrow>
                    if st \<noteq> 1 then (Some (ErrMsg (''mixpanel: '' @ (if er = [] then ''unknown error'' else er))), ())
                    else (None, ())
                | _ \<Rightarrow> (None, ())))"

definition mixpanel_send ::
  "'w http_env \<Rightarrow> mixpanel \<Rightarrow> row list \<Rightarrow> ('st, 'w) rest_sys \<Rightarrow> go_error option \<times> ('st, 'w) rest_sys" where
  "mixpanel_send x m rows =
     with_body (GList (map (mixpanel_record m) rows)) (\<lambda>b.
       api_send x (mp_conn m) (wait_then_allow x (mp_conn m))
         (with_headers [(''Content-Type'', ''application/json''), (''Accept'', ''text/plain'')]
            (new_request x ''POST'' ''https://api.mixpanel.com/engage'' b)) mixpanel_judge)"

definition mixpanel_load ::
  "'w http_env \<Rightarrow> mixpanel \<Rightarrow> 'st store_ops \<Rightarrow> go_time \<Rightarrow> ('st, 'w rest_world) loader" where
  "mixpanel_load x m ops now =
     scanned_load False (missing_field ''mixpanel destination: missing distinct_id field '' (mp_distinct m)) ops
       (send_chunks 2000 ops now (mixpanel_send x m))"

subsection \<open>Google Sheets\<close>

record 'w sheets_env =
  sx_service :: "conn_dest \<Rightarrow> go_error option"
  sx_append :: "string \<Rightarrow> string \<Rightarrow> gval list list \<Rightarrow> 'w \<Rightarrow> go_error option \<times> 'w"

record sheets =
  sh_open :: bool
  sh_id :: string
  sh_sheet :: string
  sh_columns :: "string list"

definition sheets_connect :: "'w sheets_env \<Rightarrow> conn_dest \<Rightarrow> sheets res" where
  "sheets_connect x cfg =
     (let i = trim_space (get_opt (cd_options cfg) ''spreadsheet_id'')
      in if i = [] then Inl (ErrMsg ''googlesheets destination: spreadsheet_id is required'')
         else case sx_service x cfg of
                Some e \<Rightarrow> Inl (ErrWrap ''googlesheets destination'' e)
              | None \<Rightarrow> Inr \<lparr>sh_open = True, sh_id = i, sh_sheet = opt_or ''sheet'' ''Sheet1'' cfg,
                  sh_columns = split_match_on (get_opt (cd_options cfg) ''columns'')\<rparr>)"

definition union_columns :: "row list \<Rightarrow> string list" where
  "union_columns rows = sort (remdups (concat (map (\<lambda>r. map fst (row_data r)) rows)))"

definition sheet_cell :: "gval \<Rightarrow> gval" where
  "sheet_cell v =
     (case v of
        GNil \<Rightarrow> GStr []
      | GTime t \<Rightarrow> GStr (rfc3339 t)
      | GStr s \<Rightarrow> v | GBool b \<Rightarrow> v | GInt i \<Rightarrow> v | GFloat f \<Rightarrow> v
      | _ \<Rightarrow> GStr (sprint_v v))"

definition sheet_values :: "sheets \<Rightarrow> row list \<Rightarrow> gval list list" where
  "sheet_values c pend =
     (let cols = (if sh_columns c = [] then union_columns pend else sh_columns c)
      in map (\<lambda>r. map (\<lambda>k. sheet_cell (get_or_nil (row_data r) k)) cols) pend)"

definition sheets_append ::
  "'w sheets_env \<Rightarrow> sheets \<Rightarrow> row list \<Rightarrow> ('st, 'w) sys \<Rightarrow> go_error option \<times> ('st, 'w) sys" where
  "sheets_append x c pend s =
     (case sx_append x (sh_id c) (sh_sheet c) (sheet_values c pend) (sy_world s) of (e, w) \<Rightarrow> (e, s\<lparr>sy_world := w\<rparr>))"

definition sheets_write ::
  "'w sheets_env \<Rightarrow> sheets \<Rightarrow> 'st store_ops \<Rightarrow> go_time \<Rightarrow> ('st, 'w) row_writer" where
  "sheets_write x c ops now pend sy d res s =
     (case sheets_append x c pend s of
        (Some e, s1) \<Rightarrow> ((fail_rows e pend res, None), s1)
      | (None, s1) \<Rightarrow> (case foldl (mark_row ops now sy d) (res, s1) pend of (res', s') \<Rightarrow> ((res', None), s')))"

definition sheets_load :: "'w sheets_env \<Rightarrow> sheets \<Rightarrow> 'st store_ops \<Rightarrow> go_time \<Rightarrow> ('st, 'w) loader" where
  "sheets_load x c ops now rows sy d s =
     (if sh_open c then scanned_load False (\<lambda>_. None) ops (sheets_write x c ops now) rows sy d s
      else case poll s of
             (True, s1) \<Rightarrow> ((lr_empty, Some ErrCanceled), s1)
           | (False, s1) \<Rightarrow> ((lr_empty, Some (ErrMsg ''googlesheets destination: not connected'')), s1))"

subsection \<open>The contract\<close>

lemma klaviyo_sender: "sender_ok (klaviyo_upsert x k)"
proof (rule sender_of_keeps)
  have "keeps_sys (api_send x (kl_conn k) (wait_then_allow x (kl_conn k)) (klaviyo_request x k b)
      (expect_status ''klaviyo'' [202, 200]))" for b by (rule keeps_api_send) simp
  then show "keeps_sys (klaviyo_upsert x k rows)" for rows
    by (auto simp: keeps_sys_def klaviyo_upsert_def split: option.splits)
qed

lemma mixpanel_sender: "sender_ok (mixpanel_send x m)"
  by (rule sender_of_keeps) (simp add: mixpanel_send_def keeps_with_body keeps_api_send)

context state_store
begin

lemma sheets_writer: "counting_writer ops inv abs stored (sheets_write x c ops now)"
proof unfold_locales
  fix s s' :: "('st, 'a) sys" and sy d rs res res' err
  assume i: "inv (sy_store s)" "nul_free sy" "nul_free d" and l: "sheets_write x c ops now rs sy d res s = ((res', err), s')"
  obtain e s1 where q: "sheets_append x c rs s = (e, s1)" by fastforce
  have f: "sy_store s1 = sy_store s" using q by (auto simp: sheets_append_def split: prod.splits)
  have "same_states (sy_store s) (sy_store s')"
    using l f mark_rows_frame [OF i(2,3), of "(res, s1)" now rs] by (auto simp: sheets_write_def q split: option.splits prod.splits)
  then show "inv (sy_store s') \<and> ab_entities (abs (sy_store s')) = ab_entities (abs (sy_store s))
      \<and> ab_fired (abs (sy_store s')) = ab_fired (abs (sy_store s))"
    using i(1) by (simp add: same_states_def)
next
  fix s s' :: "('st, 'a) sys" and sy d r res res' err
  assume i: "inv (sy_store s)" "nul_free sy" "nul_free d"
    and l: "sheets_write x c ops now [r] sy d res s = ((res', err), s')" and z: "lr_loaded res < lr_loaded res'"
  obtain e s1 where q: "sheets_append x c [r] s = (e, s1)" by fastforce
  have f: "sy_store s1 = sy_store s" using q by (auto simp: sheets_append_def split: prod.splits)
  have "mark_row ops now sy d (res, s1) r = (res', s')"
    using l z by (auto simp: sheets_write_def q split: option.splits prod.splits)
  then show "ab_is_delivered (abs (sy_store s')) (row_id r, sy, d)"
    using mark_row_delivers [OF _ i(2,3) _ z] f i(1) by metis
next
  fix s s' :: "('st, 'a) sys" and sy d r res res' err
  assume live: "sy_ctx s = None" and l: "sheets_write x c ops now [r] sy d res s = ((res', err), s')"
  obtain e s1 where q: "sheets_append x c [r] s = (e, s1)" by fastforce
  obtain res1 s2 where m: "mark_row ops now sy d (res, s1) r = (res1, s2)" by fastforce
  have "sy_ctx s1 = None" using q live by (auto simp: sheets_append_def split: prod.splits)
  moreover have "sy_ctx s2 = sy_ctx s1" using mark_row_ctx(1) [of ops now sy d "(res, s1)" r] m by simp
  ultimately show "sy_ctx s' = None \<and> counts_from res res' err"
    using l mark_row_counts [of "(res, s1)" ops now sy d r]
    by (auto simp: sheets_write_def q m counts_from_def split: option.splits)
qed

lemma sheets_contract: "counting_destination ops inv abs stored (sheets_load x (c\<lparr>sh_open := True\<rparr>) ops now)"
proof -
  have "sheets_load x (c\<lparr>sh_open := True\<rparr>) ops now
      = scanned_load False (\<lambda>_. None) ops (sheets_write x (c\<lparr>sh_open := True\<rparr>) ops now)"
    by (intro ext) (simp add: sheets_load_def)
  then show ?thesis using counting_writer.counted_contract [OF sheets_writer] by simp
qed

end

interpretation klaviyo_mem: counting_destination mem_ops mem_inv mem_abs "\<lambda>p. p" "klaviyo_load x k mem_ops now"
  for x k now unfolding klaviyo_load_def by (rule mem.send_chunks_contract [OF klaviyo_sender])

interpretation mixpanel_mem: counting_destination mem_ops mem_inv mem_abs "\<lambda>p. p" "mixpanel_load x m mem_ops now"
  for x m now unfolding mixpanel_load_def by (rule mem.send_chunks_contract [OF mixpanel_sender])

interpretation sheets_mem: counting_destination mem_ops mem_inv mem_abs "\<lambda>p. p"
  "sheets_load x (c\<lparr>sh_open := True\<rparr>) mem_ops now" for x c now by (rule mem.sheets_contract)

section \<open>Properties\<close>

text \<open>A row without the match field leaves no trace in the request.\<close>

lemma klaviyo_payload_drops:
  "alookup (row_data r) (kl_match k) = None \<Longrightarrow> klaviyo_payload k (r # rs) = klaviyo_payload k rs"
  by (simp add: klaviyo_payload_def has_key_def del: has_key_iff)

lemma mem_marks: "\<exists>st. st_mark_delivered mem_ops now i sy d s = (Inr (), st)"
  by (cases "ms_in_batch s") (simp_all add: mem_ops_def mem_mark_delivered_def Let_def)

lemma mem_looks: "\<exists>b. st_is_delivered mem_ops i sy d s = Inr b"
  by (simp add: mem_ops_def mem_is_delivered_def Let_def) blast

text \<open>
  Property C31. A row that lacks the match field is sent to nobody: the request Klaviyo gets is the
  one for no rows at all. When that request is accepted the row is counted as loaded and marked
  as delivered, so the engine records it as synchronised.
\<close>

theorem klaviyo_counts_dropped_row:
  assumes "alookup (row_data r) (kl_match k) = None" "sy_ctx s = None" "nul_free sy" "nul_free d"
    "mem_inv (sy_store s)" "st_is_delivered mem_ops (row_id r) sy d (sy_store s) = Inr False"
    "klaviyo_upsert x k [] s = (None, s1)"
  shows "klaviyo_payload k [r] = klaviyo_payload k []
    \<and> (\<exists>s2. klaviyo_load x k mem_ops now [r] sy d s = ((lr_add_loaded lr_empty, None), s2)
        \<and> st_is_delivered mem_ops (row_id r) sy d (sy_store s2) = Inr True)"
proof (intro conjI)
  show p: "klaviyo_payload k [r] = klaviyo_payload k []" using assms(1) by (rule klaviyo_payload_drops)
  then have send: "klaviyo_upsert x k [r] s = (None, s1)" using assms(7) by (simp add: klaviyo_upsert_def)
  obtain s2 where m: "mark_row mem_ops now sy d (lr_empty, s1) r = (lr_add_loaded lr_empty, s2)"
    using mem_marks [of now "row_id r" sy d "sy_store s1"] by (auto simp: mark_row_def)
  have l: "klaviyo_load x k mem_ops now [r] sy d s = ((lr_add_loaded lr_empty, None), s2)"
  proof -
    have sc: "scan_rows False True (\<lambda>_. None) mem_ops sy d [r] lr_empty [] s = ((lr_empty, [r], None), s)"
      by (simp add: assms(6))
    have "send_chunks 1000 mem_ops now (klaviyo_upsert x k) [r] sy d lr_empty s = ((lr_add_loaded lr_empty, None), s2)"
      by (simp add: send_chunks_def send_chunk_def send m)
    then show ?thesis
      by (simp add: klaviyo_load_def scanned_load_def poll_never [OF assms(2)] sc del: scan_rows.simps)
  qed
  have d: "ab_is_delivered (mem_abs (sy_store s2)) (row_id r, sy, d)"
    by (rule klaviyo_mem.load_marks [OF assms(5,3,4) l]) simp
  have i: "mem_inv (sy_store s2)" using klaviyo_mem.load_frame [OF assms(5,3,4) l] by simp
  obtain b where b: "st_is_delivered mem_ops (row_id r) sy d (sy_store s2) = Inr b" using mem_looks by blast
  have "b" using mem.is_delivered_law [OF i assms(3,4) b] d by simp
  then show "\<exists>s2. klaviyo_load x k mem_ops now [r] sy d s = ((lr_add_loaded lr_empty, None), s2)
      \<and> st_is_delivered mem_ops (row_id r) sy d (sy_store s2) = Inr True"
    by (intro exI [of _ s2] conjI) (rule l, simp add: b)
qed

text \<open>A profile without an email, sent to a server that accepts everything.\<close>

definition klaviyo_sample :: klaviyo where
  "klaviyo_sample = \<lparr>kl_conn = sample_conn, kl_key = ''pk'', kl_match = ''email''\<rparr>"

definition anonymous_row :: row where
  "anonymous_row = row_zero\<lparr>row_id := ''r1'', row_data := [(''name'', GStr ''Ada'')]\<rparr>"

lemma klaviyo_sample_sends: "\<exists>s1. klaviyo_upsert (status_http 202) klaviyo_sample [] sample_sys = (None, s1)"
  by (simp add: sample_sys_def sample_world_def rest_world_init_def klaviyo_sample_def klaviyo_upsert_def
      klaviyo_payload_def klaviyo_request_def api_send_def api_call_def do_with_retry_def default_retry_def
      sample_conn_def sync_dest_to_conn_def numeral_3_eq_3 api_attempt_def wait_then_allow_def rest_wait_def
      allow_request_def set_world_def api_exchange_def with_headers_def new_request_def status_http_def ok_http_def
      rest_auth_def expect_status_def is_2xx_def)

theorem klaviyo_counts_dropped_row_witness:
  "\<exists>s2. klaviyo_load (status_http 202) klaviyo_sample mem_ops 5 [anonymous_row] ''crm'' ''klaviyo'' sample_sys
      = ((lr_add_loaded lr_empty, None), s2)
    \<and> st_is_delivered mem_ops ''r1'' ''crm'' ''klaviyo'' (sy_store s2) = Inr True"
proof -
  obtain s1 where q: "klaviyo_upsert (status_http 202) klaviyo_sample [] sample_sys = (None, s1)"
    using klaviyo_sample_sends by blast
  have f: "alookup (row_data anonymous_row) (kl_match klaviyo_sample) = None" "sy_ctx sample_sys = None"
    "nul_free ''crm''" "nul_free ''klaviyo''" "mem_inv (sy_store sample_sys)" "row_id anonymous_row = ''r1''"
    by (simp_all add: anonymous_row_def klaviyo_sample_def nul_free_def nul_def sample_sys_def)
  have n: "st_is_delivered mem_ops (row_id anonymous_row) ''crm'' ''klaviyo'' (sy_store sample_sys) = Inr False"
    by (simp add: sample_sys_def mem_ops_def mem_is_delivered_def new_mem_store_def get_flag_def)
  show ?thesis using klaviyo_counts_dropped_row [OF f(1,2,3,4,5) n q, of 5] f(6) by simp
qed

end
