(* ===== verification/Hubspot.thy ===== *)
theory Hubspot
  imports Api_Call Diff Sample Store_Laws
begin

section \<open>HubSpot: internal/connector/destination/hubspot.go\<close>

text \<open>
  Rows are delivered one at a time by Resolve, Mutate, Record: the identifier stored with the
  entity, or one search by the match field; a patch, a creation or (for a row marked as a delete)
  an archive; the identifier handed back to the engine. The destination has a retry loop of its
  own, whose errors carry a class. It keeps the contract of a counting destination.
\<close>

subsection \<open>Errors\<close>

datatype hs_class = HsAuth | HsValidation | HsConflict | HsDuplicate | HsRetryable | HsAmbiguous

text \<open>An \<open>*hsError\<close>, or an error of another type.\<close>

datatype hs_error = HsError hs_class int string | HsPlain go_error

primrec hs_class_name :: "hs_class \<Rightarrow> string" where
  "hs_class_name HsAuth = ''auth_failed''"
| "hs_class_name HsValidation = ''validation_error''"
| "hs_class_name HsConflict = ''conflict''"
| "hs_class_name HsDuplicate = ''duplicate_match''"
| "hs_class_name HsRetryable = ''retryable''"
| "hs_class_name HsAmbiguous = ''ambiguous''"

primrec hs_err :: "hs_error \<Rightarrow> go_error" where
  "hs_err (HsError c st m) = ErrMsg (
     if st \<noteq> 0 then ''hubspot '' @ hs_class_name c @ '' (HTTP '' @ dec_int st @ ''): '' @ m
     else ''hubspot '' @ hs_class_name c @ '': '' @ m)"
| "hs_err (HsPlain e) = e"

definition ambiguous :: "go_error \<Rightarrow> hs_error" where
  "ambiguous e = HsError HsAmbiguous 0 (err_text e)"

subsection \<open>Connect\<close>

record hubspot =
  hs_conn :: rest_conn
  hs_base :: string
  hs_object :: string
  hs_match :: string

definition hs_connect :: "'w http_env \<Rightarrow> conn_dest \<Rightarrow> hubspot res" where
  "hs_connect x cfg =
     (if trim_space (ca_token (cd_auth cfg)) = [] then
        Inl (ErrMsg ''hubspot: auth.token is required (use a private app token)'')
      else case new_authenticator (cd_auth cfg) of
        Inl e \<Rightarrow> Inl e
      | Inr auth \<Rightarrow>
          (case new_rate_limiter (hx_parse_duration x)
                  (if rl_requests (cd_rate_limit cfg) = 0 then \<lparr>rl_requests = 5, rl_period = ''1s''\<rparr>
                   else cd_rate_limit cfg) of
             Inl e \<Rightarrow> Inl e
           | Inr rl \<Rightarrow>
               let o0 = trim_space (get_opt (cd_options cfg) ''object'');
                   m0 = first_key (cd_match_on cfg);
                   b0 = trim_slash (trim_space (cd_url cfg))
               in Inr \<lparr>hs_conn = \<lparr>rc_cfg = cfg, rc_auth = auth, rc_limiter = rl, rc_breaker = None\<rparr>,
                       hs_base = (if b0 = [] then ''https://api.hubapi.com'' else b0),
                       hs_object = (if o0 = [] then ''contacts'' else o0),
                       hs_match = (if m0 = [] then ''email'' else m0)\<rparr>))"

subsection \<open>Requests\<close>

definition hs_read_message :: "string \<Rightarrow> string" where
  "hs_read_message body =
     (let text = body_snip (trim_space body) in
      case parse_struct body of
        None \<Rightarrow> text
      | Some m \<Rightarrow>
          (case (string_field ''message'' m, string_field ''error'' m) of
             (Some a, Some b) \<Rightarrow> if a \<noteq> [] then a else if b \<noteq> [] then b else text
           | _ \<Rightarrow> text))"

definition hs_decode_error :: go_error where
  "hs_decode_error = ErrWrap ''hubspot: decode response'' (ErrMsg ''unexpected end of JSON input'')"

text \<open>What an attempt makes of an answer; of the body it reads 4096 bytes.\<close>

definition hs_answer :: "(string \<Rightarrow> 'a option) \<Rightarrow> 'a \<Rightarrow> int \<Rightarrow> string \<Rightarrow> hs_error + 'a" where
  "hs_answer decode a status body0 =
     (let body = take 4096 body0; msg = hs_read_message body in
      if 200 \<le> status \<and> status < 300 then
        (if body = [] then Inr a
         else case decode body of None \<Rightarrow> Inl (HsPlain hs_decode_error) | Some v \<Rightarrow> Inr v)
      else if status = 401 then Inl (HsError HsAuth status ''invalid or missing private app token'')
      else if status = 403 then Inl (HsError HsAuth status ''token lacks required scope'')
      else if status = 400 \<or> status = 422 then Inl (HsError HsValidation status msg)
      else if status = 409 then Inl (HsError HsConflict status msg)
      else Inl (HsError HsRetryable status msg))"

definition hs_exchange ::
  "'w http_env \<Rightarrow> rest_conn \<Rightarrow> http_request res \<Rightarrow> (string \<Rightarrow> 'a option) \<Rightarrow> 'a \<Rightarrow> ('st, 'w) rest_sys
     \<Rightarrow> (hs_error + 'a) \<times> ('st, 'w) rest_sys" where
  "hs_exchange x c q decode a s =
     (case q of
        Inl e \<Rightarrow> (Inl (HsPlain e), s)
      | Inr r \<Rightarrow>
          (case rest_auth x c r (sy_world s) of
             (Inl e, w) \<Rightarrow> (Inl (HsPlain e), set_world w s)
           | (Inr r', w) \<Rightarrow>
               (case hx_send x r' (rw_remote w) of
                  (Inl e, rem) \<Rightarrow> (Inl (ambiguous e), set_world (w\<lparr>rw_remote := rem\<rparr>) s)
                | (Inr (status, body), rem) \<Rightarrow>
                    (hs_answer decode a status body, set_world (w\<lparr>rw_remote := rem\<rparr>) s))))"

definition retryable :: "hs_error + 'a \<Rightarrow> bool" where
  "retryable o1 = (case o1 of Inl (HsError HsRetryable _ _) \<Rightarrow> True | _ \<Rightarrow> False)"

text \<open>\<open>prior\<close> is \<open>lastErr\<close>, nil before the first attempt.\<close>

fun hs_loop ::
  "'w http_env \<Rightarrow> rest_conn \<Rightarrow> http_request res \<Rightarrow> (string \<Rightarrow> 'a option) \<Rightarrow> 'a \<Rightarrow> nat \<Rightarrow> nat \<Rightarrow> hs_error + 'a
     \<Rightarrow> ('st, 'w) rest_sys \<Rightarrow> (hs_error + 'a) \<times> ('st, 'w) rest_sys" where
  "hs_loop x c q decode a attempt 0 prior s = (prior, s)"
| "hs_loop x c q decode a attempt (Suc left) prior s =
     (case poll s of
        (True, s1) \<Rightarrow> (Inl (ambiguous ErrCanceled), s1)
      | (False, s1) \<Rightarrow>
          (case rest_wait x c s1 of
             (Some e, s2) \<Rightarrow> (Inl (ambiguous e), s2)
           | (None, s2) \<Rightarrow>
               (case hs_exchange x c q decode a s2 of
                  (out, s3) \<Rightarrow>
                    if \<not> retryable out then (out, s3)
                    else if left = 0 then hs_loop x c q decode a (Suc attempt) left out s3
                    else (case rest_sleep x (2 ^ attempt * second_ns) s3 of
                            (Some e, s4) \<Rightarrow> (Inl (ambiguous e), s4)
                          | (None, s4) \<Rightarrow> hs_loop x c q decode a (Suc attempt) left out s4))))"

definition hs_do_with_retry ::
  "'w http_env \<Rightarrow> rest_conn \<Rightarrow> string \<Rightarrow> string \<Rightarrow> string \<Rightarrow> (string \<Rightarrow> 'a option) \<Rightarrow> 'a \<Rightarrow> ('st, 'w) rest_sys
     \<Rightarrow> (hs_error + 'a) \<times> ('st, 'w) rest_sys" where
  "hs_do_with_retry x c meth url body decode a =
     hs_loop x c (with_headers [(''Content-Type'', ''application/json'')] (new_request x meth url body)) decode a 0 3 (Inr a)"

definition hs_url :: "hubspot \<Rightarrow> string" where
  "hs_url h = hs_base h @ ''/crm/v3/objects/'' @ hs_object h"

definition marshal_or_empty :: "gval \<Rightarrow> string" where
  "marshal_or_empty v = (case json_marshal v of None \<Rightarrow> [] | Some b \<Rightarrow> b)"

definition hs_id :: "string \<Rightarrow> string option" where
  "hs_id body = (case parse_struct body of None \<Rightarrow> None | Some m \<Rightarrow> string_field ''id'' m)"

definition hs_results :: "string \<Rightarrow> string list option" where
  "hs_results body =
     (case parse_struct body of
        None \<Rightarrow> None
      | Some m \<Rightarrow> (case list_field ''results'' m of None \<Rightarrow> None | Some xs \<Rightarrow> all_some (map (string_field ''id'') xs)))"

definition hs_search_body :: "string \<Rightarrow> string \<Rightarrow> gval" where
  "hs_search_body f v =
     GMap [(''filterGroups'', GList [GMap [(''filters'', GList [GMap [(''propertyName'', GStr f),
              (''operator'', GStr ''EQ''), (''value'', GStr v)]])]]),
           (''properties'', GList [GStr f]),
           (''limit'', GInt 2)]"

text \<open>The identifier of the only match, empty without one; \<open>True\<close>: there are several.\<close>

definition hs_search ::
  "'w http_env \<Rightarrow> hubspot \<Rightarrow> string \<Rightarrow> string \<Rightarrow> ('st, 'w) rest_sys
     \<Rightarrow> (hs_error + string \<times> bool) \<times> ('st, 'w) rest_sys" where
  "hs_search x h f v s =
     (case hs_do_with_retry x (hs_conn h) ''POST'' (hs_url h @ ''/search'') (marshal_or_empty (hs_search_body f v))
             hs_results [] s of
        (Inl e, s1) \<Rightarrow> (Inl e, s1)
      | (Inr [], s1) \<Rightarrow> (Inr ([], False), s1)
      | (Inr [i], s1) \<Rightarrow> (Inr (i, False), s1)
      | (Inr _, s1) \<Rightarrow> (Inr ([], True), s1))"

definition hs_props_body :: "payload \<Rightarrow> string" where
  "hs_props_body props = marshal_or_empty (GMap [(''properties'', GMap props)])"

definition hs_create ::
  "'w http_env \<Rightarrow> hubspot \<Rightarrow> payload \<Rightarrow> ('st, 'w) rest_sys \<Rightarrow> (hs_error + string) \<times> ('st, 'w) rest_sys" where
  "hs_create x h props = hs_do_with_retry x (hs_conn h) ''POST'' (hs_url h) (hs_props_body props) hs_id []"

definition hs_update ::
  "'w http_env \<Rightarrow> hubspot \<Rightarrow> string \<Rightarrow> payload \<Rightarrow> ('st, 'w) rest_sys \<Rightarrow> (hs_error + unit) \<times> ('st, 'w) rest_sys" where
  "hs_update x h i props =
     hs_do_with_retry x (hs_conn h) ''PATCH'' (hs_url h @ ''/'' @ i) (hs_props_body props) (\<lambda>_. Some ()) ()"

definition hs_archive ::
  "'w http_env \<Rightarrow> hubspot \<Rightarrow> string \<Rightarrow> ('st, 'w) rest_sys \<Rightarrow> (hs_error + unit) \<times> ('st, 'w) rest_sys" where
  "hs_archive x h i = hs_do_with_retry x (hs_conn h) ''DELETE'' (hs_url h @ ''/'' @ i) [] (\<lambda>_. Some ()) ()"

subsection \<open>Deliver\<close>

datatype hs_outcome = HsDone string | HsRow go_error | HsFatal go_error

definition classify_err :: "hs_error \<Rightarrow> hs_outcome" where
  "classify_err e = (case e of HsError HsAuth _ _ \<Rightarrow> HsFatal (hs_err e) | _ \<Rightarrow> HsRow (hs_err e))"

text \<open>Continue with the value of a request, or give up with the class of its error.\<close>

definition hs_then ::
  "(hs_error + 'a) \<times> ('st, 'w) rest_sys \<Rightarrow> ('a \<Rightarrow> ('st, 'w) rest_sys \<Rightarrow> hs_outcome \<times> ('st, 'w) rest_sys)
     \<Rightarrow> hs_outcome \<times> ('st, 'w) rest_sys" where
  "hs_then os k = (case os of (Inl e, s) \<Rightarrow> (classify_err e, s) | (Inr a, s) \<Rightarrow> k a s)"

definition hs_stored_id :: "'st store_ops \<Rightarrow> string \<Rightarrow> string \<Rightarrow> string \<Rightarrow> 'st \<Rightarrow> string" where
  "hs_stored_id ops sy d key st =
     (case st_get ops sy d key st of Inr (Some es) \<Rightarrow> es_dest_id es | _ \<Rightarrow> [])"

definition hs_props :: "payload \<Rightarrow> payload" where
  "hs_props data = map (\<lambda>(k, v). (k, GStr (sprint_v v))) (filter (\<lambda>(k, v). v \<noteq> GNil) data)"

text \<open>The text of a value under the verb \<open>%q\<close>; only that of a string is quoted here.\<close>

definition sprint_q :: "gval \<Rightarrow> string" where
  "sprint_q v = (case v of GStr t \<Rightarrow> quote_q t | _ \<Rightarrow> sprint_v v)"

definition hs_duplicate :: "string \<Rightarrow> gval \<Rightarrow> hs_error" where
  "hs_duplicate f v = HsError HsDuplicate 0 (''search by '' @ f @ ''='' @ sprint_q v
     @ '' returned multiple contacts '' @ [char_of (226 :: nat), char_of (128 :: nat), char_of (148 :: nat)]
     @ '' operator review required'')"

definition hs_resolve ::
  "'w http_env \<Rightarrow> hubspot \<Rightarrow> row \<Rightarrow> ('st, 'w) rest_sys \<Rightarrow> hs_outcome \<times> ('st, 'w) rest_sys" where
  "hs_resolve x h r s =
     (let v = get_or_nil (row_data r) (hs_match h); props = hs_props (row_data r) in
      if v = GNil \<or> sprint_v v = [] then
        (HsRow (ErrMsg (''hubspot: match_on field '' @ quote_q (hs_match h) @ '' is empty for entity ''
           @ quote_q (row_key r))), s)
      else hs_then (hs_search x h (hs_match h) (sprint_v v) s) (\<lambda>(found, several) s1.
        if several then (HsRow (hs_err (hs_duplicate (hs_match h) v)), s1)
        else if found \<noteq> [] then hs_then (hs_update x h found props s1) (\<lambda>_ s2. (HsDone found, s2))
        else hs_then (hs_create x h props s1) (\<lambda>i s2. (HsDone i, s2))))"

definition hs_deletes :: "row \<Rightarrow> bool" where
  "hs_deletes r \<longleftrightarrow> alookup (row_meta r) ''_action'' = Some (GStr ''delete'')"

definition hs_deliver ::
  "'w http_env \<Rightarrow> hubspot \<Rightarrow> 'st store_ops \<Rightarrow> string \<Rightarrow> string \<Rightarrow> row \<Rightarrow> ('st, 'w) rest_sys
     \<Rightarrow> hs_outcome \<times> ('st, 'w) rest_sys" where
  "hs_deliver x h ops sy d r s =
     (let i = hs_stored_id ops sy d (row_key r) (sy_store s) in
      if hs_deletes r then
        (if i = [] then (HsDone [], s) else hs_then (hs_archive x h i s) (\<lambda>_ s1. (HsDone i, s1)))
      else if i \<noteq> [] then hs_then (hs_update x h i (hs_props (row_data r)) s) (\<lambda>_ s1. (HsDone i, s1))
      else hs_resolve x h r s)"

subsection \<open>Load\<close>

definition lr_add_id :: "row \<Rightarrow> string \<Rightarrow> load_result \<Rightarrow> load_result" where
  "lr_add_id r i res = (if i = [] then res else res\<lparr>lr_dest_ids := aput (row_id r) i (lr_dest_ids res)\<rparr>)"

definition hs_row ::
  "'w http_env \<Rightarrow> hubspot \<Rightarrow> 'st store_ops \<Rightarrow> go_time \<Rightarrow> string \<Rightarrow> string \<Rightarrow> (row, 'st, 'w rest_world) loop_step" where
  "hs_row x h ops now sy d r res s =
     (case poll s of
        (True, s1) \<Rightarrow> ((res, Some (Some ErrCanceled)), s1)
      | (False, s1) \<Rightarrow>
          (case st_is_delivered ops (row_id r) sy d (sy_store s1) of
             Inl e \<Rightarrow> ((lr_add_error r e res, None), s1)
           | Inr True \<Rightarrow> ((lr_add_skip res, None), s1)
           | Inr False \<Rightarrow>
               (case hs_deliver x h ops sy d r s1 of
                  (HsFatal e, s2) \<Rightarrow> ((res, Some (Some e)), s2)
                | (HsRow e, s2) \<Rightarrow> ((lr_add_error r e res, None), s2)
                | (HsDone i, s2) \<Rightarrow>
                    (case st_mark_delivered ops now (row_id r) sy d (sy_store s2) of
                       (Inl e, st) \<Rightarrow> ((lr_add_error r e res, None), s2\<lparr>sy_store := st\<rparr>)
                     | (Inr _, st) \<Rightarrow> ((lr_add_loaded (lr_add_id r i res), None), s2\<lparr>sy_store := st\<rparr>)))))"

definition hs_load :: "'w http_env \<Rightarrow> hubspot \<Rightarrow> 'st store_ops \<Rightarrow> go_time \<Rightarrow> ('st, 'w rest_world) loader" where
  "hs_load x h ops now rows sy d = polled (\<lambda>rows sy d. each (hs_row x h ops now sy d) rows lr_empty) rows sy d"

subsection \<open>What a delivery may change\<close>

definition hs_effect ::
  "'w http_env \<Rightarrow> rest_conn \<Rightarrow> http_request res \<Rightarrow> ('st, 'w) rest_sys \<Rightarrow> ('st, 'w) rest_sys" where
  "hs_effect x c q s = snd (hs_exchange x c q (\<lambda>_. Some ()) () s)"

lemma hs_exchange_effect: "snd (hs_exchange x c q decode a s) = hs_effect x c q s"
  by (auto simp: hs_effect_def hs_exchange_def split: sum.splits prod.splits)

text \<open>Kept by polls, waits and the requests of a kind.\<close>

definition hs_invar ::
  "'w http_env \<Rightarrow> rest_conn \<Rightarrow> (http_request res \<Rightarrow> bool) \<Rightarrow> (('st, 'w) rest_sys \<Rightarrow> bool) \<Rightarrow> bool" where
  "hs_invar x c good K \<longleftrightarrow> (\<forall>s. K s \<longrightarrow> K (snd (poll s)) \<and> K (snd (rest_wait x c s)) \<and>
     (\<forall>d. K (snd (rest_sleep x d s))) \<and> (\<forall>q. good q \<longrightarrow> K (hs_effect x c q s)))"

lemma hs_loop_keeps:
  assumes "hs_invar x c good K" "good q"
  shows "K s \<Longrightarrow> K (snd (hs_loop x c q decode a n left prior s))"
proof (induction left arbitrary: n prior s)
  case (Suc left)
  obtain b s1 where p: "poll s = (b, s1)" by fastforce
  obtain e s2 where w: "rest_wait x c s1 = (e, s2)" by fastforce
  obtain out s3 where t: "hs_exchange x c q decode a s2 = (out, s3)" by fastforce
  obtain e' s4 where d: "rest_sleep x (2 ^ n * second_ns) s3 = (e', s4)" by fastforce
  have k1: "K s1" using assms(1) Suc.prems p unfolding hs_invar_def by (metis snd_conv)
  have k2: "K s2" using assms(1) k1 w unfolding hs_invar_def by (metis snd_conv)
  have k3: "K s3" using assms k2 hs_exchange_effect [of x c q decode a s2] t unfolding hs_invar_def by auto
  have k4: "K s4" using assms(1) k3 d unfolding hs_invar_def by (metis snd_conv)
  show ?case using k1 k2 k3 k4 Suc.IH
    by (auto simp: p w t d split: bool.splits option.splits)
qed simp

lemma hs_do_keeps:
  "hs_invar x c good K \<Longrightarrow>
   good (with_headers [(''Content-Type'', ''application/json'')] (new_request x meth url body)) \<Longrightarrow>
   K s \<Longrightarrow> K (snd (hs_do_with_retry x c meth url body decode a s))"
  unfolding hs_do_with_retry_def by (rule hs_loop_keeps)

definition meth_in :: "string list \<Rightarrow> http_request res \<Rightarrow> bool" where
  "meth_in ms q \<longleftrightarrow> (case q of Inl _ \<Rightarrow> True | Inr r \<Rightarrow> hq_method r \<in> set ms)"

lemma meth_in_request:
  "meth \<in> set ms \<Longrightarrow> meth_in ms (with_headers [(k, v)] (new_request x meth url body))"
  by (simp add: meth_in_def with_headers_def new_request_def set_header_def split: option.splits)

lemma hs_then_keeps:
  "K (snd os) \<Longrightarrow> (\<And>a s. os = (Inr a, s) \<Longrightarrow> K s \<Longrightarrow> K (snd (k a s))) \<Longrightarrow> K (snd (hs_then os k))"
  by (auto simp: hs_then_def split: prod.splits sum.splits)

lemma hs_search_keeps:
  assumes "hs_invar x (hs_conn h) (meth_in ms) K" "''POST'' \<in> set ms" "K s"
  shows "K (snd (hs_search x h f v s))"
proof -
  obtain out s1 where q: "hs_do_with_retry x (hs_conn h) ''POST'' (hs_url h @ ''/search'')
      (marshal_or_empty (hs_search_body f v)) hs_results [] s = (out, s1)" by fastforce
  have "K s1" using hs_do_keeps [OF assms(1) meth_in_request [OF assms(2)] assms(3)] q by (metis snd_conv)
  then show ?thesis by (simp add: hs_search_def q split: sum.splits list.splits)
qed

text \<open>A row that is not marked as a delete is delivered by POST and PATCH alone.\<close>

lemma hs_deliver_keeps:
  assumes "hs_invar x (hs_conn h) (meth_in ms) K" "{''POST'', ''PATCH''} \<subseteq> set ms"
    "hs_deletes r \<Longrightarrow> ''DELETE'' \<in> set ms" "K s"
  shows "K (snd (hs_deliver x h ops sy d r s))"
proof -
  note request = hs_do_keeps [OF assms(1) meth_in_request]
  have update: "K (snd (hs_update x h i p t))" if "K t" for i p t
    unfolding hs_update_def by (rule request [OF _ that]) (use assms(2) in auto)
  have create: "K (snd (hs_create x h p t))" if "K t" for p t
    unfolding hs_create_def by (rule request [OF _ that]) (use assms(2) in auto)
  have archive: "K (snd (hs_archive x h i s))" if "hs_deletes r" for i
    unfolding hs_archive_def by (rule request [OF assms(3) [OF that] assms(4)])
  have search: "K (snd (hs_search x h f v s))" for f v
    by (rule hs_search_keeps [OF assms(1) _ assms(4)]) (use assms(2) in simp)
  have mutate: "K (snd (if several then (HsRow e, t)
        else if found \<noteq> [] then hs_then (hs_update x h found p t) (\<lambda>_ s2. (HsDone found, s2))
        else hs_then (hs_create x h p t) (\<lambda>i s2. (HsDone i, s2))))" if "K t" for several e found p t
    using that hs_then_keeps [of K, OF update [OF that]] hs_then_keeps [of K, OF create [OF that]] by simp
  have resolve: "K (snd (hs_resolve x h r s))"
    unfolding hs_resolve_def Let_def
    by (simp add: assms(4)) (auto intro: hs_then_keeps [of K, OF search] mutate)
  show ?thesis
    using assms(4) resolve hs_then_keeps [of K, OF update [OF assms(4)]] hs_then_keeps [of K, OF archive]
    by (simp add: hs_deliver_def Let_def)
qed

lemma hs_effect_frame [simp]: "sy_store (hs_effect x c q s) = sy_store s" "sy_ctx (hs_effect x c q s) = sy_ctx s"
  by (auto simp: hs_effect_def hs_exchange_def set_world_def split: sum.splits prod.splits)

lemma rest_sleep_frame:
  "sy_store (snd (rest_sleep x d s)) = sy_store s" "sy_ctx s = None \<Longrightarrow> sy_ctx (snd (rest_sleep x d s)) = None"
  unfolding rest_sleep_def by (rule sleep_ctx_store) (simp add: sleep_ctx_live)

lemma hs_deliver_store: "sy_store (snd (hs_deliver x h ops sy d r s)) = sy_store s"
  by (rule hs_deliver_keeps [where ms = "[''POST'', ''PATCH'', ''DELETE'']" and K = "\<lambda>t. sy_store t = sy_store s"])
     (simp_all add: hs_invar_def rest_sleep_frame)

lemma hs_deliver_live: "sy_ctx s = None \<Longrightarrow> sy_ctx (snd (hs_deliver x h ops sy d r s)) = None"
  by (rule hs_deliver_keeps [where ms = "[''POST'', ''PATCH'', ''DELETE'']" and K = "\<lambda>t. sy_ctx t = None"])
     (simp_all add: hs_invar_def rest_sleep_frame poll_never rest_wait_ctx)

subsection \<open>The contract\<close>

lemma lr_add_id_simps [simp]:
  "lr_loaded (lr_add_id r i res) = lr_loaded res" "lr_skipped (lr_add_id r i res) = lr_skipped res"
  "lr_errors (lr_add_id r i res) = lr_errors res"
  by (simp_all add: lr_add_id_def)

text \<open>A row that is not known as delivered, step by step.\<close>

lemma hs_row_cases:
  assumes "hs_row x h ops now sy d r res s = ((res', stop), s')"
  obtains (canceled) "stop = Some (Some ErrCanceled)" "res' = res" "sy_store s' = sy_store s" "sy_ctx s \<noteq> None"
        "sy_world s' = sy_world s"
    | (looked) "stop = None" "lr_loaded res' = lr_loaded res" "sy_store s' = sy_store s"
        "lr_skipped res' + int (length (lr_errors res')) = lr_skipped res + int (length (lr_errors res)) + 1"
        "lr_skipped res \<le> lr_skipped res'" "sy_ctx s = None \<longrightarrow> s' = s"
        "st_is_delivered ops (row_id r) sy d (sy_store s) = Inr True \<longrightarrow> sy_world s' = sy_world s \<and> lr_errors res' = lr_errors res"
    | (fatal) e where "stop = Some (Some e)" "res' = res" "sy_store s' = sy_store s"
        "st_is_delivered ops (row_id r) sy d (sy_store s) = Inr False"
        "sy_ctx s = None \<longrightarrow> sy_ctx s' = None"
    | (failed) e where "stop = None" "res' = lr_add_error r e res" "sy_store s' = sy_store s"
        "st_is_delivered ops (row_id r) sy d (sy_store s) = Inr False"
        "sy_ctx s = None \<longrightarrow> sy_ctx s' = None"
    | (sent) res0 s2 where "stop = None" "mark_row ops now sy d (res0, s2) r = (res', s')"
        "lr_loaded res0 = lr_loaded res" "lr_skipped res0 = lr_skipped res" "lr_errors res0 = lr_errors res"
        "sy_store s2 = sy_store s" "st_is_delivered ops (row_id r) sy d (sy_store s) = Inr False"
        "sy_ctx s = None \<longrightarrow> sy_ctx s2 = None"
proof -
  obtain b s1 where p: "poll s = (b, s1)" by fastforce
  have f1: "sy_store s1 = sy_store s" "sy_world s1 = sy_world s" "sy_ctx s = None \<longrightarrow> \<not> b \<and> s1 = s"
    using poll_frameD [OF p] poll_never [of s] p by auto
  obtain out s2 where q: "hs_deliver x h ops sy d r s1 = (out, s2)" by fastforce
  have f2: "sy_store s2 = sy_store s" "sy_ctx s = None \<longrightarrow> sy_ctx s2 = None"
    using hs_deliver_store [of x h ops sy d r s1] hs_deliver_live [of s1 x h ops sy d r] q f1 by auto
  show thesis
  proof (cases b)
    case True
    then show ?thesis using canceled assms f1 by (simp add: hs_row_def p)
  next
    case False
    show ?thesis
    proof (cases "st_is_delivered ops (row_id r) sy d (sy_store s)")
      case (Inl e)
      then have "res' = lr_add_error r e res" "stop = None" "s' = s1"
        using assms False f1(1) by (simp_all add: hs_row_def p)
      then show ?thesis using looked f1 Inl by simp
    next
      case (Inr known)
      show ?thesis
      proof (cases known)
        case True
        then have "res' = lr_add_skip res" "stop = None" "s' = s1"
          using assms False f1(1) Inr by (simp_all add: hs_row_def p)
        then show ?thesis using looked f1 Inr by simp
      next
        case unknown: False
        have known: "st_is_delivered ops (row_id r) sy d (sy_store s1) = Inr False" using Inr unknown f1(1) by simp
        note run = assms False known
        show ?thesis
        proof (cases out)
          case (HsDone i)
          obtain m st where m: "st_mark_delivered ops now (row_id r) sy d (sy_store s2) = (m, st)" by fastforce
          show ?thesis
          proof (cases m)
            case (Inl e)
            then have "mark_row ops now sy d (res, s2) r = (res', s')" "stop = None"
              using run HsDone m by (simp_all add: hs_row_def p q mark_row_def)
            then show ?thesis using sent [of res s2] f2 Inr unknown by simp
          next
            case m': (Inr u)
            then have "mark_row ops now sy d (lr_add_id r i res, s2) r = (res', s')" "stop = None"
              using run HsDone m by (simp_all add: hs_row_def p q mark_row_def)
            then show ?thesis using sent [of "lr_add_id r i res" s2] f2 Inr unknown by simp
          qed
        next
          case (HsRow e)
          then have "res' = lr_add_error r e res" "stop = None" "s' = s2" using run by (simp_all add: hs_row_def p q)
          then show ?thesis using failed f2 Inr unknown by simp
        next
          case (HsFatal e)
          then have "res' = res" "stop = Some (Some e)" "s' = s2" using run by (simp_all add: hs_row_def p q)
          then show ?thesis using fatal f2 Inr unknown by simp
        qed
      qed
    qed
  qed
qed

context state_store
begin

lemma hs_row_frame:
  assumes "nul_free sy" "nul_free d"
  shows "same_states (sy_store s) (sy_store (snd (hs_row x h ops now sy d r res s)))"
proof -
  obtain res' stop s' where q: "hs_row x h ops now sy d r res s = ((res', stop), s')" by (metis surj_pair)
  have marked: "same_states (sy_store s2) (sy_store s')" if "mark_row ops now sy d (res0, s2) r = (res', s')" for res0 s2
    using mark_row_frame [OF assms, of "(res0, s2)" now r] that by simp
  have "same_states (sy_store s) (sy_store s')" using q
  proof (cases rule: hs_row_cases)
    case (sent res0 s2)
    then show ?thesis using marked by metis
  qed simp_all
  then show ?thesis by (simp add: q)
qed

lemma hs_contract: "counting_destination ops inv abs stored (hs_load x h ops now)"
proof -
  let ?load = "\<lambda>rows sy d. each (hs_row x h ops now sy d) rows lr_empty"
  have "destination ops inv abs stored ?load"
  proof unfold_locales
    fix s s' :: "('st, 'a rest_world) sys" and sy d r res err
    assume d: "st_is_delivered ops (row_id r) sy d (sy_store s) = Inr True"
      and l: "?load [r] sy d s = ((res, err), s')"
    obtain res1 stop s1 where q: "hs_row x h ops now sy d r lr_empty s = ((res1, stop), s1)" by (metis surj_pair)
    show "sy_store s' = sy_store s \<and> sy_world s' = sy_world s \<and> lr_loaded res = 0 \<and> lr_errors res = []
        \<and> (err = None \<longrightarrow> lr_skipped res = 1) \<and> (sy_ctx s = None \<longrightarrow> err = None)"
      using l d by (cases rule: hs_row_cases [OF q]) (auto simp: q)
  next
    fix s s' :: "('st, 'a rest_world) sys" and sy d r res err
    assume i: "inv (sy_store s)" "nul_free sy" "nul_free d"
      and l: "?load [r] sy d s = ((res, err), s')" and z: "0 < lr_loaded res"
    obtain res1 stop s1 where q: "hs_row x h ops now sy d r lr_empty s = ((res1, stop), s1)" by (metis surj_pair)
    from q show "ab_is_delivered (abs (sy_store s')) (row_id r, sy, d)"
    proof (cases rule: hs_row_cases)
      case (sent res0 s2)
      then have "res1 = res" "s1 = s'" using l q by simp_all
      then show ?thesis using sent z i(1) mark_row_delivers [OF _ i(2,3) sent(2)] by simp
    qed (use l z q in auto)
  next
    fix s s' :: "('st, 'a rest_world) sys" and sy d rs res err
    assume i: "inv (sy_store s)" "nul_free sy" "nul_free d" and l: "?load rs sy d s = ((res, err), s')"
    show "inv (sy_store s') \<and> ab_entities (abs (sy_store s')) = ab_entities (abs (sy_store s))
        \<and> ab_fired (abs (sy_store s')) = ab_fired (abs (sy_store s))"
      using each_frame [where step = "hs_row x h ops now sy d" and xs = rs, OF hs_row_frame [OF i(2,3)]] l i(1)
      by (metis same_states_def snd_conv)
  qed
  then have "destination ops inv abs stored (polled ?load)" by (rule destination.polled_contract)
  moreover have "hs_load x h ops now = polled ?load" by (intro ext) (simp add: hs_load_def)
  ultimately have dest: "destination ops inv abs stored (hs_load x h ops now)" by simp
  have counts: "sy_ctx s' = None \<and> counts_once res err"
    if live: "sy_ctx s = None" and l: "hs_load x h ops now [r] sy d s = ((res, err), s')"
    for s s' :: "('st, 'a rest_world) sys" and sy d r res err
  proof -
    obtain res1 stop s1 where q: "hs_row x h ops now sy d r lr_empty s = ((res1, stop), s1)" by (metis surj_pair)
    from q show ?thesis
    proof (cases rule: hs_row_cases)
      case (sent res0 s2)
      have "sy_ctx s1 = sy_ctx s2" using mark_row_ctx(1) [of ops now sy d "(res0, s2)" r] sent(2) by simp
      then show ?thesis using l live sent mark_row_counts [of "(res0, s2)" ops now sy d r]
        by (simp add: hs_load_def polled_def poll_never q counts_once_def counts_from_def)
    qed (use l live in \<open>auto simp: hs_load_def polled_def poll_never q counts_once_def\<close>)
  qed
  show ?thesis by (rule counting_destination.intro [OF dest]) (unfold_locales, rule counts)
qed

end

interpretation hubspot_mem: counting_destination mem_ops mem_inv mem_abs "\<lambda>p. p" "hs_load x h mem_ops now"
  for x h now by (rule mem.hs_contract)

interpretation hubspot_sqlite: counting_destination sqlite_ops sq_inv sq_abs json_reload "hs_load x h sqlite_ops now"
  for x h now by (rule sqlite.hs_contract)

section \<open>Properties\<close>

text \<open>A condition of the remote side that time, tokens and requests of some methods keep.\<close>

definition remote_keeps :: "'w http_env \<Rightarrow> string list \<Rightarrow> ('w \<Rightarrow> bool) \<Rightarrow> bool" where
  "remote_keeps x ms I \<longleftrightarrow> (\<forall>w. I w \<longrightarrow> I (hx_wait_token x w) \<and> (\<forall>d. I (hx_sleep x d w)) \<and>
     (\<forall>a. I (snd (hx_token x a w))) \<and> (\<forall>q. hq_method q \<in> set ms \<longrightarrow> I (snd (hx_send x q w))))"

lemma apply_auth_keeps:
  assumes "remote_keeps x ms I" "I w" "apply_auth x a q tc w = (out, tc', w')"
  shows "I w' \<and> (\<forall>q'. out = Inr q' \<longrightarrow> hq_method q' = hq_method q)"
proof (cases a)
  case (OAuth2 i j k l)
  obtain t w1 where q: "hx_token x a w = (t, w1)" by fastforce
  have "I w1" using assms(1,2) q unfolding remote_keeps_def by (metis snd_conv)
  then show ?thesis using assms(2,3) OAuth2 q
    by (auto simp: apply_auth_def get_token_def set_header_def split: if_splits sum.splits prod.splits)
qed (use assms in \<open>auto simp: apply_auth_def set_header_def split: if_splits\<close>)

lemma rest_auth_some:
  "rc_auth c = Some a \<Longrightarrow> rest_auth x c q w = (out, w') \<Longrightarrow>
   apply_auth x a q (rw_token w) (rw_remote w) = (o1, tc, w1) \<Longrightarrow>
   out = o1 \<and> w' = w\<lparr>rw_token := tc, rw_remote := w1\<rparr>"
  by (simp add: rest_auth_def)

lemma rest_auth_keeps:
  assumes "remote_keeps x ms I" "I (rw_remote w)" "rest_auth x c q w = (out, w')"
  shows "I (rw_remote w') \<and> (\<forall>q'. out = Inr q' \<longrightarrow> hq_method q' = hq_method q)"
proof (cases "rc_auth c")
  case None
  then show ?thesis using assms(2,3) by (auto simp: rest_auth_def)
next
  case (Some a)
  obtain o1 tc w1 where t: "apply_auth x a q (rw_token w) (rw_remote w) = (o1, tc, w1)" by (rule prod_cases3)
  have k: "I w1 \<and> (\<forall>q'. o1 = Inr q' \<longrightarrow> hq_method q' = hq_method q)"
    by (rule apply_auth_keeps [of x ms I "rw_remote w", OF assms(1,2) t])
  have e: "out = o1" "rw_remote w' = w1" using rest_auth_some [OF Some assms(3) t] by simp_all
  show ?thesis unfolding e by (rule k)
qed

lemma remote_invar:
  assumes keep: "remote_keeps x ms I"
  shows "hs_invar x c (meth_in ms) (\<lambda>s. I (rw_remote (sy_world s)))"
  unfolding hs_invar_def
proof (intro allI impI conjI)
  fix s :: "('b, 'a) rest_sys" and d q
  assume i: "I (rw_remote (sy_world s))"
  show "I (rw_remote (sy_world (snd (poll s))))" using i by simp
  show "I (rw_remote (sy_world (snd (rest_wait x c s))))"
    using i keep by (auto simp: rest_wait_def sleep_ctx_def remote_keeps_def dest: poll_frameD split: prod.splits bool.splits)
  show "I (rw_remote (sy_world (snd (rest_sleep x d s))))"
    using i keep by (auto simp: rest_sleep_def sleep_ctx_def remote_keeps_def dest: poll_frameD split: prod.splits bool.splits)
  assume g: "meth_in ms q"
  show "I (rw_remote (sy_world (hs_effect x c q s)))"
  proof (cases q)
    case (Inl e)
    then show ?thesis using i by (simp add: hs_effect_def hs_exchange_def)
  next
    case (Inr r)
    obtain out w where a: "rest_auth x c r (sy_world s) = (out, w)" by fastforce
    have k: "I (rw_remote w)" "\<And>r'. out = Inr r' \<Longrightarrow> hq_method r' \<in> set ms"
      using rest_auth_keeps [of x ms I, OF keep i a] g Inr by (auto simp: meth_in_def)
    show ?thesis
    proof (cases out)
      case (Inl e)
      then show ?thesis using k a Inr by (simp add: hs_effect_def hs_exchange_def set_world_def)
    next
      case r': (Inr r')
      obtain o2 rem where t: "hx_send x r' (rw_remote w) = (o2, rem)" by fastforce
      have "I rem" using keep k(1) k(2) [OF r'] t unfolding remote_keeps_def by (metis snd_conv)
      then show ?thesis using a r' t \<open>q = Inr r\<close>
        by (simp add: hs_effect_def hs_exchange_def set_world_def split: sum.splits)
    qed
  qed
qed

lemma hs_row_remote:
  assumes "remote_keeps x [''POST'', ''PATCH''] I" "\<not> hs_deletes r" "I (rw_remote (sy_world s))"
  shows "I (rw_remote (sy_world (snd (hs_row x h ops now sy d r res s))))"
proof -
  obtain b s1 where p: "poll s = (b, s1)" by fastforce
  obtain out s2 where q: "hs_deliver x h ops sy d r s1 = (out, s2)" by fastforce
  have i: "I (rw_remote (sy_world s1))" using assms(3) poll_frameD [OF p] by simp
  have "I (rw_remote (sy_world (snd (hs_deliver x h ops sy d r s1))))"
    by (rule hs_deliver_keeps [OF remote_invar [OF assms(1)]]) (use assms(2) i in auto)
  then show ?thesis using i by (auto simp: hs_row_def p q split: bool.splits sum.splits hs_outcome.splits prod.splits)
qed

text \<open>
  Property C32. A decision with the action delete never deletes at HubSpot. The row that the engine
  builds for it does not carry the mark by which the destination knows a delete: whatever of the
  remote side POST and PATCH requests keep (every contact exists, say), its load keeps, and what
  is sent is a patch or a creation with the fields of the entity.
\<close>

theorem delete_rule_never_archives:
  assumes "pl_action (pd_plan pd) = ''delete''" "remote_keeps x [''POST'', ''PATCH''] I" "I (rw_remote (sy_world s))"
  shows "I (rw_remote (sy_world (snd (hs_load x h ops now [delivery_row e pd] sy d s))))"
proof -
  have n: "\<not> hs_deletes (delivery_row e pd)" by (simp add: hs_deletes_def delivery_row_def row_zero_def)
  obtain b s1 where p: "poll s = (b, s1)" by fastforce
  have i: "I (rw_remote (sy_world s1))" using assms(3) poll_frameD [OF p] by simp
  show ?thesis using hs_row_remote [OF assms(2) n i, of h ops now sy d lr_empty] i
    by (auto simp: hs_load_def polled_def p split: bool.splits prod.splits option.splits)
qed

text \<open>A pending delivery of an entity that a rule wants deleted.\<close>

definition doomed :: pending_delivery where
  "doomed = sample_pending\<lparr>pd_plan := sample_plan\<lparr>pl_action := ''delete''\<rparr>\<rparr>"

definition hubspot_sample :: hubspot where
  "hubspot_sample = \<lparr>hs_conn = sample_conn, hs_base = ''https://api.hubapi.com'', hs_object = ''contacts'',
     hs_match = ''email''\<rparr>"

theorem delete_rule_never_archives_witness:
  "let s = snd (hs_load (status_http 200) hubspot_sample mem_ops 5 [delivery_row (sample_env 200) doomed] ''crm'' ''hubspot'' sample_sys)
   in \<forall>q \<in> set (rw_remote (sy_world s)). hq_method q \<noteq> ''DELETE''"
  unfolding Let_def
  by (rule delete_rule_never_archives [where I = "\<lambda>w. \<forall>q \<in> set w. hq_method q \<noteq> ''DELETE''"])
     (simp_all add: doomed_def remote_keeps_def status_http_def ok_http_def sample_sys_def sample_world_def
        rest_world_init_def)

text \<open>
  The error of the read that looks for the stored identifier is dropped: an entity
  whose state cannot be read is taken for one that was never sent, so its delete sends nothing,
  counts as loaded and is marked as delivered, and no later run repeats it.
\<close>

theorem unread_delete_is_success:
  assumes "hs_deletes r" "st_get ops sy d (row_key r) (sy_store s) = Inl e" "sy_ctx s = None"
    "st_is_delivered ops (row_id r) sy d (sy_store s) = Inr False"
    "st_mark_delivered ops now (row_id r) sy d (sy_store s) = (Inr (), st)"
  shows "hs_load x h ops now [r] sy d s = ((lr_add_loaded lr_empty, None), s\<lparr>sy_store := st\<rparr>)"
  using assms
  by (simp add: hs_load_def polled_def poll_never hs_row_def hs_deliver_def hs_stored_id_def lr_add_id_def)

text \<open>The row of the archive of an entity, over a SQLite store whose read fails once.\<close>

definition archive_row :: row where
  "archive_row = row_zero\<lparr>row_id := ''7'', row_key := ''7'', row_meta := [(''_action'', GStr ''delete'')]\<rparr>"

definition busy_sqlite :: sq_store where
  "busy_sqlite = new_sq_store\<lparr>sq_fail := \<lambda>q. if q = ''get'' then Some (ErrMsg ''database is locked'') else None\<rparr>"

theorem unread_delete_is_success_witness:
  "\<exists>st. hs_load (status_http 204) hubspot_sample sqlite_ops 5 [archive_row] ''crm'' ''hubspot''
       \<lparr>sy_ctx = None, sy_store = busy_sqlite, sy_world = sample_world\<rparr>
     = ((lr_add_loaded lr_empty, None), \<lparr>sy_ctx = None, sy_store = st, sy_world = sample_world\<rparr>)"
proof -
  let ?s = "\<lparr>sy_ctx = None, sy_store = busy_sqlite, sy_world = sample_world\<rparr>"
  obtain st where st: "st_mark_delivered sqlite_ops 5 (row_id archive_row) ''crm'' ''hubspot'' busy_sqlite = (Inr (), st)"
    by (simp add: sqlite_ops_def busy_sqlite_def new_sq_store_def sq_defs)
  have f: "hs_deletes archive_row" "st_get sqlite_ops ''crm'' ''hubspot'' (row_key archive_row) (sy_store ?s)
      = Inl (ErrWrap ''state: get entity'' (ErrMsg ''database is locked''))" "sy_ctx ?s = None"
    "st_is_delivered sqlite_ops (row_id archive_row) ''crm'' ''hubspot'' (sy_store ?s) = Inr False"
    by (simp_all add: hs_deletes_def archive_row_def sqlite_ops_def busy_sqlite_def new_sq_store_def sq_defs)
  show ?thesis
    using unread_delete_is_success [OF f, of 5 st "status_http 204" hubspot_sample] st by simp
qed

text \<open>
  A contact that was removed at HubSpot: the stored identifier is patched, refused with 404 in each
  of three attempts, and neither searched for nor created again; the row fails in this and, as the
  identifier stays stored, in every later run.
\<close>

definition not_found :: "string \<Rightarrow> hs_error" where
  "not_found b = HsError HsRetryable 404 (hs_read_message (take 4096 b))"

lemma hs_exchange_refused:
  assumes "rc_auth c = None" "\<And>w. fst (hx_send x q w) = Inr (404, b)"
  shows "\<exists>s'. hs_exchange x c (Inr q) decode a s = (Inl (not_found b), s') \<and> sy_ctx s' = sy_ctx s"
proof -
  obtain rem where "hx_send x q (rw_remote (sy_world s)) = (Inr (404, b), rem)"
    using assms(2) [of "rw_remote (sy_world s)"] by (metis fst_conv old.prod.exhaust)
  then show ?thesis
    by (simp add: hs_exchange_def rest_auth_def assms(1) hs_answer_def Let_def set_world_def not_found_def)
qed

lemma hs_loop_refused:
  assumes "rc_auth c = None" "rc_limiter c = None" "\<And>w. fst (hx_send x q w) = Inr (404, b)"
  shows "sy_ctx s = None \<Longrightarrow> fst (hs_loop x c (Inr q) decode a n (Suc left) prior s) = Inl (not_found b)"
proof (induction left arbitrary: n prior s)
  case 0
  then show ?case using hs_exchange_refused [OF assms(1,3), of decode a s]
    by (auto simp: poll_never rest_wait_def assms(2) retryable_def not_found_def)
next
  case (Suc left)
  then show ?case using hs_exchange_refused [OF assms(1,3), of decode a s]
    by (auto simp: poll_never rest_wait_def assms(2) retryable_def not_found_def rest_sleep_def sleep_ctx_live
        simp del: hs_loop.simps(2) simp: hs_loop.simps(2) [of _ _ _ _ _ n "Suc left"])
qed

lemma stale_id_fails:
  assumes "\<not> hs_deletes r" "hs_stored_id ops sy d (row_key r) (sy_store s) \<noteq> []" "sy_ctx s = None"
    "rc_auth (hs_conn h) = None" "rc_limiter (hs_conn h) = None" "\<And>m u. hx_request_error x m u = None"
    "\<And>q w. fst (hx_send x q w) = Inr (404, b)"
  shows "fst (hs_deliver x h ops sy d r s) = HsRow (hs_err (not_found b))"
proof -
  let ?i = "hs_stored_id ops sy d (row_key r) (sy_store s)"
  obtain out s' where u: "hs_update x h ?i (hs_props (row_data r)) s = (out, s')" by fastforce
  obtain q where "with_headers [(''Content-Type'', ''application/json'')]
      (new_request x ''PATCH'' (hs_url h @ ''/'' @ ?i) (hs_props_body (hs_props (row_data r)))) = Inr q"
    by (simp add: new_request_def assms(6) with_headers_def)
  then have "out = Inl (not_found b)"
    using hs_loop_refused [OF assms(4,5) assms(7) assms(3), of q "\<lambda>_. Some ()" "()" 0 2 "Inr ()"] u
    by (simp add: hs_update_def hs_do_with_retry_def del: hs_loop.simps)
  then show ?thesis using assms(1,2) u
    by (simp add: hs_deliver_def Let_def hs_then_def classify_err_def not_found_def)
qed

end
