(* ===== verification/Salesforce.thy ===== *)
theory Salesforce
  imports Batch_Dest
begin

section \<open>Salesforce: internal/connector/destination/salesforce.go\<close>

text \<open>
  Two ways to write: a REST upsert per row, and above a threshold a job of the Bulk API (create,
  upload a CSV file, close, wait, read the results), in batches when there are many rows. For one
  row, which is what a run loads at a time, the destination keeps the contract of a counting
  destination; a bulk load keeps the states of the store but not the accounts.
\<close>

subsection \<open>Connect\<close>

record salesforce =
  sf_conn :: rest_conn
  sf_instance :: string
  sf_object :: string
  sf_match :: string
  sf_parallel :: int

definition sf_connect :: "'w http_env \<Rightarrow> conn_dest \<Rightarrow> salesforce res" where
  "sf_connect x cfg =
     (if trim_space (cd_url cfg) = [] then Inl (ErrMsg ''salesforce destination: url is required'')
      else if trim_space (cd_match_on cfg) = [] then Inl (ErrMsg ''salesforce destination: match_on is required'')
      else if trim_space (get_opt (cd_options cfg) ''object'') = [] then
        Inl (ErrMsg ''salesforce destination: options.object is required'')
      else let c = (if cd_parallelism cfg \<le> 0 then cfg\<lparr>cd_parallelism := 3\<rparr> else cfg)
        in case api_conn x c of
             Inl e \<Rightarrow> Inl e
           | Inr conn \<Rightarrow> Inr \<lparr>sf_conn = conn, sf_instance = trim_slash (cd_url cfg),
               sf_object = get_opt (cd_options cfg) ''object'', sf_match = cd_match_on cfg,
               sf_parallel = cd_parallelism c\<rparr>)"

definition sf_threshold :: "salesforce \<Rightarrow> nat" where
  "sf_threshold f =
     (let raw = trim_space (get_opt (cd_options (rc_cfg (sf_conn f))) ''bulk_threshold'')
      in if raw = [] then 200
         else case parse_int64 raw of Some n \<Rightarrow> if n > 0 then nat n else 200 | None \<Rightarrow> 200)"

subsection \<open>REST upserts\<close>

definition sf_data :: "salesforce \<Rightarrow> string" where
  "sf_data f = sf_instance f @ ''/services/data/v58.0''"

definition filter_key :: "payload \<Rightarrow> string \<Rightarrow> payload" where
  "filter_key data drop_key = filter (\<lambda>(k, v). k \<noteq> drop_key) data"

text \<open>The closures that look at the status alone leave the verdict to \<open>DoWithRetry\<close>.\<close>

definition by_status :: "'a judge" where
  "by_status status body a = (None, a)"

definition sf_gate :: "'w http_env \<Rightarrow> rest_conn \<Rightarrow> ('st, 'w) gate" where
  "sf_gate x c s = (case poll s of (True, s1) \<Rightarrow> (Some ErrCanceled, s1) | (False, s1) \<Rightarrow> allow_then_wait x c s1)"

definition sf_upsert_url :: "salesforce \<Rightarrow> row \<Rightarrow> string" where
  "sf_upsert_url f r =
     sf_data f @ ''/sobjects/'' @ path_escape (sf_object f) @ ''/'' @ path_escape (sf_match f) @ ''/''
       @ path_escape (sprint_v (get_or_nil (row_data r) (sf_match f)))"

definition sf_upsert_rest ::
  "'w http_env \<Rightarrow> salesforce \<Rightarrow> row \<Rightarrow> ('st, 'w) rest_sys \<Rightarrow> go_error option \<times> ('st, 'w) rest_sys" where
  "sf_upsert_rest x f r =
     with_body (GMap (filter_key (row_data r) (sf_match f))) (\<lambda>b.
       api_send x (sf_conn f) (sf_gate x (sf_conn f))
         (with_headers json_headers (new_request x ''PATCH'' (sf_upsert_url f r) b)) by_status)"

definition sf_missing :: "salesforce \<Rightarrow> row \<Rightarrow> go_error option" where
  "sf_missing f r =
     (if has_key (row_data r) (sf_match f) then None
      else Some (ErrMsg (''salesforce destination: missing '' @ sf_match f)))"

definition sf_load_rest ::
  "'w http_env \<Rightarrow> salesforce \<Rightarrow> 'st store_ops \<Rightarrow> go_time \<Rightarrow> ('st, 'w rest_world) loader" where
  "sf_load_rest x f ops now rows sy d s =
     (case scan_rows True True (sf_missing f) ops sy d rows lr_empty [] s of
        ((res, pend, Some e), s1) \<Rightarrow> ((res, Some e), s1)
      | ((res, pend, None), s1) \<Rightarrow>
          if pend = [] then ((res, None), s1) else send_all ops now (sf_upsert_rest x f) pend sy d res s1)"

subsection \<open>The CSV file of a job\<close>

definition csv_quote :: char where
  "csv_quote = CHR 0x22"

text \<open>\<open>csv.Writer\<close> with its defaults.\<close>

definition csv_needs_quotes :: "string \<Rightarrow> bool" where
  "csv_needs_quotes f \<longleftrightarrow> f \<noteq> [] \<and>
     (f = [CHR 0x5C, CHR ''.''] \<or> list_ex (\<lambda>c. c = CHR 0x0A \<or> c = CHR 0x0D \<or> c = csv_quote \<or> c = CHR '','') f
      \<or> is_space (hd f))"

definition csv_escape :: "string \<Rightarrow> string" where
  "csv_escape f = concat (map (\<lambda>c. if c = csv_quote then [csv_quote, csv_quote] else [c]) f)"

definition csv_field :: "string \<Rightarrow> string" where
  "csv_field f = (if csv_needs_quotes f then [csv_quote] @ csv_escape f @ [csv_quote] else f)"

definition csv_record :: "string list \<Rightarrow> string" where
  "csv_record fs = join '','' (map csv_field fs) @ [CHR 0x0A]"

definition sorted_keys :: "payload \<Rightarrow> string list" where
  "sorted_keys data = sort (map fst data)"

definition csv_value :: "row \<Rightarrow> string \<Rightarrow> string" where
  "csv_value r k =
     (case alookup (row_data r) k of None \<Rightarrow> [] | Some v \<Rightarrow> if v = GNil then [] else sprint_v v)"

definition rows_to_csv :: "row list \<Rightarrow> string" where
  "rows_to_csv rows =
     (case rows of
        [] \<Rightarrow> []
      | r # _ \<Rightarrow>
          let hs = sorted_keys (row_data r)
          in concat (map csv_record (hs # map (\<lambda>r. map (csv_value r) hs) rows)))"

definition count_csv_records :: "string \<Rightarrow> int" where
  "count_csv_records data =
     (let t = trim_space data
      in if t = [] then 0 else int (length (filter (\<lambda>c. c = CHR 0x0A) t)) + 1)"

subsection \<open>A job\<close>

definition sf_call ::
  "'w http_env \<Rightarrow> salesforce \<Rightarrow> string \<Rightarrow> string \<Rightarrow> (string \<times> string) list \<Rightarrow> string \<Rightarrow> 'a judge \<Rightarrow> 'a
     \<Rightarrow> ('st, 'w) rest_sys \<Rightarrow> go_error option \<times> ('st, 'w) rest_sys \<times> 'a" where
  "sf_call x f meth url hs body judge a =
     api_call x (sf_conn f) (allow_then_wait x (sf_conn f)) (with_headers hs (new_request x meth url body)) judge a"

text \<open>\<open>json.Decoder\<close> reads one value and leaves what follows it.\<close>

definition decode_struct :: "string \<Rightarrow> (string \<times> jval) list option" where
  "decode_struct body = (case json_val (2 * length body) body of None \<Rightarrow> None | Some (v, _) \<Rightarrow> struct_members v)"

definition decode_error :: go_error where
  "decode_error = ErrMsg ''unexpected EOF''"

text \<open>A field of the answer to a request that succeeded.\<close>

definition field_judge :: "string \<Rightarrow> string judge" where
  "field_judge name status body a =
     (if \<not> is_2xx status then (None, a)
      else case Option.bind (decode_struct body) (string_field name) of
             None \<Rightarrow> (Some decode_error, a)
           | Some v \<Rightarrow> (None, v))"

definition body_judge :: "string judge" where
  "body_judge status body a = (None, if is_2xx status then body else a)"

definition sf_jobs :: "salesforce \<Rightarrow> string" where
  "sf_jobs f = sf_data f @ ''/jobs/ingest''"

definition sf_job_url :: "salesforce \<Rightarrow> string \<Rightarrow> string" where
  "sf_job_url f job = sf_jobs f @ ''/'' @ path_escape job"

definition sf_job_body :: "salesforce \<Rightarrow> string" where
  "sf_job_body f =
     (case json_marshal (GMap [(''object'', GStr (sf_object f)), (''operation'', GStr ''upsert''),
          (''externalIdFieldName'', GStr (sf_match f)), (''contentType'', GStr ''CSV''), (''lineEnding'', GStr ''LF'')]) of
        None \<Rightarrow> [] | Some b \<Rightarrow> b)"

definition sf_create_job ::
  "'w http_env \<Rightarrow> salesforce \<Rightarrow> ('st, 'w) rest_sys \<Rightarrow> string res \<times> ('st, 'w) rest_sys" where
  "sf_create_job x f s =
     (case sf_call x f ''POST'' (sf_jobs f) json_headers (sf_job_body f) (field_judge ''id'') [] s of
        (Some e, s1, _) \<Rightarrow> (Inl e, s1)
      | (None, s1, job) \<Rightarrow>
          (if trim_space job = [] then Inl (ErrMsg ''salesforce bulk job id missing'') else Inr job, s1))"

definition sf_upload ::
  "'w http_env \<Rightarrow> salesforce \<Rightarrow> string \<Rightarrow> string \<Rightarrow> ('st, 'w) rest_sys \<Rightarrow> go_error option \<times> ('st, 'w) rest_sys" where
  "sf_upload x f job csv s =
     (case sf_call x f ''PUT'' (sf_job_url f job @ ''/batches'') [(''Content-Type'', ''text/csv'')] csv by_status () s of
        (e, s1, _) \<Rightarrow> (e, s1))"

definition upload_complete :: string where
  "upload_complete = [CHR 0x7B, csv_quote] @ ''state'' @ [csv_quote, CHR '':'', csv_quote] @ ''UploadComplete'' @ [csv_quote, CHR 0x7D]"

definition sf_close_job ::
  "'w http_env \<Rightarrow> salesforce \<Rightarrow> string \<Rightarrow> ('st, 'w) rest_sys \<Rightarrow> go_error option \<times> ('st, 'w) rest_sys" where
  "sf_close_job x f job s =
     (case sf_call x f ''PATCH'' (sf_job_url f job) json_headers upload_complete by_status () s of
        (e, s1, _) \<Rightarrow> (e, s1))"

text \<open>
  The select takes its two-second ticker \<open>ticks\<close> times before it takes the deadline of ten
  minutes; which of the two is ready is up to the timers.
\<close>

fun sf_wait ::
  "'w http_env \<Rightarrow> salesforce \<Rightarrow> string \<Rightarrow> nat \<Rightarrow> ('st, 'w) rest_sys \<Rightarrow> go_error option \<times> ('st, 'w) rest_sys" where
  "sf_wait x f job 0 s =
     (case poll s of
        (True, s1) \<Rightarrow> (Some ErrCanceled, s1)
      | (False, s1) \<Rightarrow> (Some (ErrMsg ''salesforce bulk job timed out''), s1))"
| "sf_wait x f job (Suc ticks) s =
     (case rest_sleep x (2 * second_ns) s of
        (Some e, s1) \<Rightarrow> (Some e, s1)
      | (None, s1) \<Rightarrow>
          (case sf_call x f ''GET'' (sf_job_url f job) [] [] (field_judge ''state'') [] s1 of
             (Some e, s2, _) \<Rightarrow> (Some e, s2)
           | (None, s2, st) \<Rightarrow>
               let low = to_lower (trim_space st)
               in if low = ''jobcomplete'' \<or> low = ''completed'' then (None, s2)
                  else if low = ''failed'' \<or> low = ''aborted'' then
                    (Some (ErrMsg (''salesforce bulk job failed: '' @ st)), s2)
                  else sf_wait x f job ticks s2))"

definition sf_get ::
  "'w http_env \<Rightarrow> salesforce \<Rightarrow> string \<Rightarrow> ('st, 'w) rest_sys \<Rightarrow> go_error option \<times> ('st, 'w) rest_sys \<times> string" where
  "sf_get x f url = sf_call x f ''GET'' url [] [] body_judge []"

definition no_row_error :: "go_error \<Rightarrow> row_error" where
  "no_row_error e = \<lparr>re_row_id = [], re_row = row_zero, re_err = e\<rparr>"

definition sf_read_results ::
  "'w http_env \<Rightarrow> salesforce \<Rightarrow> string \<Rightarrow> int \<Rightarrow> ('st, 'w) rest_sys \<Rightarrow> (int \<times> row_error list) \<times> ('st, 'w) rest_sys" where
  "sf_read_results x f job fallback s =
     (case sf_get x f (sf_job_url f job @ ''/successfulResults'') s of
        (Some e, s1, _) \<Rightarrow> ((fallback, []), s1)
      | (None, s1, succeeded) \<Rightarrow>
          let n = count_csv_records succeeded;
              loaded = (if n \<le> 0 then fallback else n)
          in (case sf_get x f (sf_job_url f job @ ''/failedResults'') s1 of
                (_, s2, failed) \<Rightarrow>
                  ((loaded, if trim_space failed = [] then []
                            else [no_row_error (ErrMsg ''salesforce bulk job reported failures'')]), s2)))"

text \<open>Create, upload, close, wait.\<close>

definition sf_run_job ::
  "'w http_env \<Rightarrow> salesforce \<Rightarrow> (string \<Rightarrow> nat) \<Rightarrow> row list \<Rightarrow> ('st, 'w) rest_sys \<Rightarrow> string res \<times> ('st, 'w) rest_sys" where
  "sf_run_job x f ticks pend s =
     (case sf_create_job x f s of
        (Inl e, s1) \<Rightarrow> (Inl e, s1)
      | (Inr job, s1) \<Rightarrow>
          (case sf_upload x f job (rows_to_csv pend) s1 of
             (Some e, s2) \<Rightarrow> (Inl e, s2)
           | (None, s2) \<Rightarrow>
               (case sf_close_job x f job s2 of
                  (Some e, s3) \<Rightarrow> (Inl e, s3)
                | (None, s3) \<Rightarrow>
                    (case sf_wait x f job (ticks job) s3 of
                       (Some e, s4) \<Rightarrow> (Inl e, s4)
                     | (None, s4) \<Rightarrow> (Inr job, s4)))))"

subsection \<open>Bulk loads\<close>

text \<open>The mark of a row of a job; only an error is noted.\<close>

definition mark_quiet ::
  "'st store_ops \<Rightarrow> go_time \<Rightarrow> string \<Rightarrow> string \<Rightarrow> load_result \<times> ('st, 'w) sys \<Rightarrow> row \<Rightarrow> load_result \<times> ('st, 'w) sys" where
  "mark_quiet ops now sy d acc r =
     (case acc of (res, s) \<Rightarrow>
        (case st_mark_delivered ops now (row_id r) sy d (sy_store s) of
           (Inl e, st) \<Rightarrow> (lr_add_error r e res, s\<lparr>sy_store := st\<rparr>)
         | (Inr _, st) \<Rightarrow> (res, s\<lparr>sy_store := st\<rparr>)))"

definition sf_load_bulk ::
  "'w http_env \<Rightarrow> salesforce \<Rightarrow> (string \<Rightarrow> nat) \<Rightarrow> 'st store_ops \<Rightarrow> go_time \<Rightarrow> ('st, 'w rest_world) loader" where
  "sf_load_bulk x f ticks ops now rows sy d s =
     (case scan_rows False True (\<lambda>_. None) ops sy d rows lr_empty [] s of
        ((res, pend, _), s1) \<Rightarrow>
          if pend = [] then ((res, None), s1)
          else case sf_run_job x f ticks pend s1 of
                 (Inl e, s2) \<Rightarrow> ((res, Some e), s2)
               | (Inr job, s2) \<Rightarrow>
                   (case sf_read_results x f job (int (length pend)) s2 of
                      ((loaded, errs), s3) \<Rightarrow>
                        (case foldl (mark_quiet ops now sy d) (res, s3) pend of
                           (res', s') \<Rightarrow> ((res'\<lparr>lr_loaded := loaded, lr_errors := lr_errors res' @ errs\<rparr>, None), s'))))"

text \<open>The batches of a parallel load, one after the other.\<close>

definition lr_add_batch :: "load_result \<Rightarrow> load_result \<times> go_error option \<Rightarrow> load_result" where
  "lr_add_batch res b =
     (case b of (br, err) \<Rightarrow>
        res\<lparr>lr_loaded := lr_loaded res + lr_loaded br, lr_skipped := lr_skipped res + lr_skipped br,
            lr_errors := lr_errors res @ lr_errors br @ (case err of None \<Rightarrow> [] | Some e \<Rightarrow> [no_row_error e])\<rparr>)"

definition sf_batch ::
  "'w http_env \<Rightarrow> salesforce \<Rightarrow> (string \<Rightarrow> nat) \<Rightarrow> 'st store_ops \<Rightarrow> go_time \<Rightarrow> string \<Rightarrow> string
     \<Rightarrow> (row list, 'st, 'w rest_world) loop_step" where
  "sf_batch x f ticks ops now sy d batch res s =
     (case sf_load_bulk x f ticks ops now batch sy d s of (b, s') \<Rightarrow> ((lr_add_batch res b, None), s'))"

definition sf_load_parallel ::
  "'w http_env \<Rightarrow> salesforce \<Rightarrow> (string \<Rightarrow> nat) \<Rightarrow> 'st store_ops \<Rightarrow> go_time \<Rightarrow> ('st, 'w rest_world) loader" where
  "sf_load_parallel x f ticks ops now rows sy d s =
     (if length rows \<le> sf_threshold f * 2 then sf_load_bulk x f ticks ops now rows sy d s
      else case each (sf_batch x f ticks ops now sy d) (chunks_of (sf_threshold f) rows) lr_empty s of
             ((res, _), s1) \<Rightarrow> (case poll s1 of (stop, s2) \<Rightarrow> ((res, if stop then Some ErrCanceled else None), s2)))"

definition sf_load ::
  "'w http_env \<Rightarrow> salesforce \<Rightarrow> (string \<Rightarrow> nat) \<Rightarrow> 'st store_ops \<Rightarrow> go_time \<Rightarrow> ('st, 'w rest_world) loader" where
  "sf_load x f ticks ops now rows sy d s =
     (case poll s of
        (True, s1) \<Rightarrow> ((lr_empty, Some ErrCanceled), s1)
      | (False, s1) \<Rightarrow>
          if rows = [] then ((lr_empty, None), s1)
          else if length rows > sf_threshold f then
            (if length rows > sf_threshold f * 2 \<and> sf_parallel f > 1
             then sf_load_parallel x f ticks ops now rows sy d s1
             else sf_load_bulk x f ticks ops now rows sy d s1)
          else sf_load_rest x f ops now rows sy d s1)"

subsection \<open>What the requests leave alone\<close>

lemma sf_gate_ok [simp]: "gate_ok (sf_gate x c)"
  using gate_polled_ok [OF allow_then_wait_ok, of x c] by (simp add: sf_gate_def [abs_def])

lemma sf_sender: "sender_ok (sf_upsert_rest x f)"
  by (rule sender_of_keeps) (simp add: sf_upsert_rest_def keeps_with_body keeps_api_send)

lemma sf_call_store: "sy_store (fst (snd (sf_call x f m u hs b judge a s))) = sy_store s"
  unfolding sf_call_def by (rule api_call_store) simp

lemma sf_call_storeD: "sf_call x f m u hs b judge a s = (e, s', a') \<Longrightarrow> sy_store s' = sy_store s"
  using sf_call_store [of x f m u hs b judge a s] by simp

lemma sf_wait_store: "sf_wait x f job ticks s = (e, s') \<Longrightarrow> sy_store s' = sy_store s"
proof (induction ticks arbitrary: s)
  case (Suc ticks)
  obtain e1 s1 where w: "rest_sleep x (2 * second_ns) s = (e1, s1)" by fastforce
  obtain e2 s2 st where c: "sf_call x f ''GET'' (sf_job_url f job) [] [] (field_judge ''state'') [] s1 = (e2, s2, st)"
    by (rule prod_cases3)
  have "sy_store s1 = sy_store s" using w unfolding rest_sleep_def by (metis sleep_ctx_store snd_conv)
  moreover have "sy_store s2 = sy_store s1" by (rule sf_call_storeD [OF c])
  ultimately show ?case using Suc
    by (auto simp: w c Let_def split: option.splits if_splits)
qed (auto dest: poll_frameD split: prod.splits bool.splits)

lemma sf_run_job_store: "sf_run_job x f ticks pend s = (out, s') \<Longrightarrow> sy_store s' = sy_store s"
  by (auto simp: sf_run_job_def sf_create_job_def sf_upload_def sf_close_job_def
      dest!: sf_call_storeD sf_wait_store split: prod.splits option.splits sum.splits if_splits)

lemma sf_read_results_store: "sf_read_results x f job n s = (out, s') \<Longrightarrow> sy_store s' = sy_store s"
  by (auto simp: sf_read_results_def sf_get_def Let_def dest!: sf_call_storeD split: prod.splits option.splits)

lemma mark_quiet_store: "sy_store (snd (mark_quiet ops now sy d acc r)) = sy_store (snd (mark_row ops now sy d acc r))"
  by (auto simp: mark_quiet_def mark_row_def split: prod.splits sum.splits)

lemma sf_load_one:
  "sf_load x f ticks ops now [r] sy d s
    = scanned_load True (sf_missing f) ops (send_all ops now (sf_upsert_rest x f)) [r] sy d s"
proof -
  have "0 < sf_threshold f" by (auto simp: sf_threshold_def Let_def split: option.splits)
  moreover obtain stop s1 where p: "poll s = (stop, s1)" by fastforce
  moreover obtain res pend e s2 where q: "scan_rows True True (sf_missing f) ops sy d [r] lr_empty [] s1 = ((res, pend, e), s2)"
    by (metis surj_pair)
  ultimately show ?thesis
    by (cases stop; cases e) (simp_all add: sf_load_def scanned_load_def sf_load_rest_def p q del: scan_rows.simps)
qed

subsection \<open>The contract\<close>

context state_store
begin

lemma mark_quiet_frame:
  assumes "nul_free sy" "nul_free d"
  shows "same_states (sy_store (snd acc)) (sy_store (snd (foldl (mark_quiet ops now sy d) acc rs)))"
proof (induction rs arbitrary: acc)
  case (Cons r rs)
  have "same_states (sy_store (snd acc)) (sy_store (snd (mark_quiet ops now sy d acc r)))"
    unfolding mark_quiet_store by (rule mark_row_frame [OF assms])
  then show ?case using same_states_trans [OF _ Cons.IH] by simp
qed simp

lemma sf_bulk_frame:
  assumes "nul_free sy" "nul_free d"
  shows "same_states (sy_store s) (sy_store (snd (sf_load_bulk x f ticks ops now rows sy d s)))"
proof -
  obtain res pend e s1 where q: "scan_rows False True (\<lambda>_. None) ops sy d rows lr_empty [] s = ((res, pend, e), s1)"
    by (metis surj_pair)
  obtain out s2 where j: "sf_run_job x f ticks pend s1 = (out, s2)" by fastforce
  have f: "sy_store s1 = sy_store s" "sy_store s2 = sy_store s1"
    using scan_rows_store [OF q] sf_run_job_store [OF j] by simp_all
  show ?thesis
  proof (cases "pend = []")
    case False
    then show ?thesis
    proof (cases out)
      case (Inr job)
      obtain n errs s3 where r: "sf_read_results x f job (int (length pend)) s2 = ((n, errs), s3)" by (metis surj_pair)
      have "sy_store s3 = sy_store s" using sf_read_results_store [OF r] f by simp
      then show ?thesis using mark_quiet_frame [OF assms, of "(res, s3)" now pend] False f
        by (auto simp: sf_load_bulk_def q j Inr r split: prod.splits)
    qed (simp add: sf_load_bulk_def q j f)
  qed (simp add: sf_load_bulk_def q f)
qed

lemma sf_load_frame:
  assumes "nul_free sy" "nul_free d"
  shows "same_states (sy_store s) (sy_store (snd (sf_load x f ticks ops now rows sy d s)))"
proof -
  obtain stop s1 where p: "poll s = (stop, s1)" by fastforce
  have f1: "sy_store s1 = sy_store s" using poll_frameD [OF p] by simp
  have batch: "same_states (sy_store t) (sy_store (snd (sf_batch x f ticks ops now sy d b res t)))" for t b res
    using sf_bulk_frame [OF assms, of t x f ticks now b] by (auto simp: sf_batch_def split: prod.splits)
  have par: "same_states (sy_store s1) (sy_store (snd (sf_load_parallel x f ticks ops now rows sy d s1)))"
    using sf_bulk_frame [OF assms, of s1 x f ticks now rows]
      each_frame [where step = "sf_batch x f ticks ops now sy d", OF batch, of s1 "chunks_of (sf_threshold f) rows" lr_empty]
    by (auto simp: sf_load_parallel_def dest: poll_frameD split: prod.splits)
  have rest: "same_states (sy_store s1) (sy_store (snd (sf_load_rest x f ops now rows sy d s1)))"
  proof -
    obtain res pend e s2 where q: "scan_rows True True (sf_missing f) ops sy d rows lr_empty [] s1 = ((res, pend, e), s2)"
      by (metis surj_pair)
    have "same_states (sy_store s2) (sy_store (snd (each (send_row ops now (sf_upsert_rest x f) sy d) pend res s2)))"
      by (rule each_frame, rule send_row_frame [OF _ assms]) (use sf_sender [of x f] in \<open>unfold sender_ok_def, blast\<close>)
    then show ?thesis using scan_rows_store [OF q]
      by (auto simp: sf_load_rest_def q send_all_def dest: poll_frameD split: option.splits prod.splits)
  qed
  show ?thesis using par rest sf_bulk_frame [OF assms, of s1 x f ticks now rows] f1
    by (auto simp: sf_load_def p split: bool.splits)
qed

lemma sf_contract: "counting_destination ops inv abs stored (sf_load x f ticks ops now)"
  by (rule one_row_contract [OF send_all_contract [OF sf_sender] sf_load_one sf_load_frame])

end

interpretation salesforce_mem: counting_destination mem_ops mem_inv mem_abs "\<lambda>p. p" "sf_load x f ticks mem_ops now"
  for x f ticks now by (rule mem.sf_contract)

interpretation salesforce_sqlite: counting_destination sqlite_ops sq_inv sq_abs json_reload "sf_load x f ticks sqlite_ops now"
  for x f ticks now by (rule sqlite.sf_contract)

section \<open>The CSV file\<close>

text \<open>A reader of CSV by RFC 4180: where the reader stands, the field and the record read so far.\<close>

datatype csv_state = CsvStart | CsvPlain | CsvQuoted | CsvSeen

fun csv_go :: "csv_state \<Rightarrow> string \<Rightarrow> string list \<Rightarrow> string \<Rightarrow> string list list" where
  "csv_go st f r [] = (if st = CsvStart \<and> r = [] then [] else [r @ [f]])"
| "csv_go CsvQuoted f r (c # cs) =
     (if c = csv_quote then csv_go CsvSeen f r cs else csv_go CsvQuoted (f @ [c]) r cs)"
| "csv_go st f r (c # cs) =
     (if c = csv_quote \<and> st = CsvStart then csv_go CsvQuoted [] r cs
      else if c = csv_quote \<and> st = CsvSeen then csv_go CsvQuoted (f @ [c]) r cs
      else if c = CHR '','' then csv_go CsvStart [] (r @ [f]) cs
      else if c = CHR 0x0A then (r @ [f]) # csv_go CsvStart [] [] cs
      else csv_go CsvPlain (f @ [c]) r cs)"

definition csv_read :: "string \<Rightarrow> string list list" where
  "csv_read = csv_go CsvStart [] []"

definition csv_special :: "char \<Rightarrow> bool" where
  "csv_special c \<longleftrightarrow> c = CHR 0x0A \<or> c = CHR 0x0D \<or> c = csv_quote \<or> c = CHR '',''"

lemma csv_go_plain:
  "\<forall>c \<in> set g. \<not> csv_special c \<Longrightarrow> csv_go CsvPlain f r (g @ rest) = csv_go CsvPlain (f @ g) r rest"
  by (induction g arbitrary: f) (auto simp: csv_special_def)

lemma csv_go_quoted:
  "csv_go CsvQuoted f r (csv_escape g @ csv_quote # rest) = csv_go CsvSeen (f @ g) r rest"
  by (induction g arbitrary: f) (auto simp: csv_escape_def)

lemma csv_end: "csv_quote \<noteq> CHR '',''" "csv_quote \<noteq> CHR 0x0A"
  by (simp_all add: csv_quote_def)

lemma csv_go_field:
  "csv_go CsvStart [] r (csv_field g @ CHR '','' # rest) = csv_go CsvStart [] (r @ [g]) rest"
  "csv_go CsvStart [] r (csv_field g @ CHR 0x0A # rest) = (r @ [g]) # csv_go CsvStart [] [] rest"
proof -
  have plain: "csv_go CsvStart [] r (g @ c # rest) = csv_go CsvPlain g r (c # rest)"
    if ne: "g \<noteq> []" and nq: "\<not> csv_needs_quotes g" for c
  proof -
    obtain a g' where g: "g = a # g'" using ne by (cases g) auto
    have "\<forall>c \<in> set g. \<not> csv_special c" using ne nq by (auto simp: csv_needs_quotes_def csv_special_def list_ex_iff)
    then show ?thesis using csv_go_plain [of g' "[a]" r "c # rest"] g by (simp add: csv_special_def)
  qed
  show "csv_go CsvStart [] r (csv_field g @ CHR '','' # rest) = csv_go CsvStart [] (r @ [g]) rest"
    using plain [of "CHR '',''"] csv_go_quoted [of "[]" r g] csv_end
    by (cases "g = []") (auto simp: csv_field_def csv_needs_quotes_def)
  show "csv_go CsvStart [] r (csv_field g @ CHR 0x0A # rest) = (r @ [g]) # csv_go CsvStart [] [] rest"
    using plain [of "CHR 0x0A"] csv_go_quoted [of "[]" r g] csv_end
    by (cases "g = []") (auto simp: csv_field_def csv_needs_quotes_def)
qed

lemma csv_go_record:
  "fs \<noteq> [] \<Longrightarrow> csv_go CsvStart [] r (csv_record fs @ rest) = (r @ fs) # csv_go CsvStart [] [] rest"
proof (induction fs arbitrary: r rule: induct_list012)
  case (2 a)
  then show ?case by (simp add: csv_record_def csv_go_field del: csv_go.simps)
next
  case (3 a b fs)
  then show ?case using csv_go_field(1) [of r a] by (simp add: csv_record_def del: csv_go.simps)
qed simp

lemma csv_roundtrip: "\<forall>fs \<in> set rs. fs \<noteq> [] \<Longrightarrow> csv_read (concat (map csv_record rs)) = rs"
  by (induction rs) (simp_all add: csv_read_def csv_go_record)

section \<open>Properties\<close>

text \<open>
  Property C33. The file of a job is what its reader takes it for: read by the rules of CSV it has
  the sorted fields of the first row as its header and the values of each row in that order,
  whatever quotes, commas and line breaks they hold. A field that only later rows have is not in it.
\<close>

theorem bulk_csv_roundtrip:
  assumes "rows \<noteq> []" "row_data (hd rows) \<noteq> []"
  shows "csv_read (rows_to_csv rows) = sorted_keys (row_data (hd rows)) #
      map (\<lambda>r. map (csv_value r) (sorted_keys (row_data (hd rows)))) rows"
proof -
  obtain r rs where rows: "rows = r # rs" using assms(1) by (cases rows) auto
  have "sorted_keys (row_data r) \<noteq> []"
    using assms(2) rows by (metis sorted_keys_def length_0_conv length_map length_sort list.sel(1))
  then show ?thesis using csv_roundtrip
      [of "sorted_keys (row_data r) # map (\<lambda>r. map (csv_value r) (sorted_keys (row_data r))) []"]
    unfolding rows rows_to_csv_def Let_def list.case list.sel(1) by (subst csv_roundtrip) auto
qed

theorem bulk_csv_roundtrip_witness:
  "csv_read (rows_to_csv [row_zero\<lparr>row_data := [(''note'', GStr [CHR ''a'', CHR 0x22, CHR '','', CHR 0x0A]), (''id'', GInt 7)]\<rparr>])
    = [[''id'', ''note''], [''7'', [CHR ''a'', CHR 0x22, CHR '','', CHR 0x0A]]]"
  using bulk_csv_roundtrip
    [of "[row_zero\<lparr>row_data := [(''note'', GStr [CHR ''a'', CHR 0x22, CHR '','', CHR 0x0A]), (''id'', GInt 7)]\<rparr>]"]
  by (simp add: sorted_keys_def csv_value_def dec_int_def dec_nat_def dec_pos.simps digit_char_def char_of_eq_iff)

lemma mem_marks_all:
  assumes "nul_free sy" "nul_free d"
  shows "mem_inv (sy_store s) \<Longrightarrow> foldl (mark_quiet mem_ops now sy d) (res, s) rs = (res', s') \<Longrightarrow>
    mem_inv (sy_store s') \<and> res' = res \<and>
    (\<forall>k. ab_is_delivered (mem_abs (sy_store s)) k \<or> k \<in> (\<lambda>r. (row_id r, sy, d)) ` set rs
       \<longrightarrow> ab_is_delivered (mem_abs (sy_store s')) k)"
proof (induction rs arbitrary: s)
  case (Cons r rs)
  obtain st where m: "st_mark_delivered mem_ops now (row_id r) sy d (sy_store s) = (Inr (), st)"
    using mem_marks [of now "row_id r" sy d "sy_store s"] by blast
  have st: "mem_inv st" "mem_abs st = ab_mark_delivered (row_id r, sy, d) (mem_abs (sy_store s))"
    using mem.mark_delivered_law [OF Cons.prems(1) assms m] by simp_all
  have step: "ab_is_delivered (mem_abs st) k"
    if "ab_is_delivered (mem_abs (sy_store s)) k \<or> k = (row_id r, sy, d)" for k
    using that unfolding st(2) by (auto simp: ab_is_delivered_def ab_mark_delivered_def split: option.splits)
  have "mark_quiet mem_ops now sy d (res, s) r = (res, s\<lparr>sy_store := st\<rparr>)" by (simp add: mark_quiet_def m)
  then have "foldl (mark_quiet mem_ops now sy d) (res, s\<lparr>sy_store := st\<rparr>) rs = (res', s')"
    using Cons.prems(2) by simp
  from Cons.IH [OF _ this] st(1) step show ?case by auto
qed simp

lemma mem_scan_all:
  "scan_rows False True (\<lambda>_. None) mem_ops sy d rows res pend s = ((res', pend', e), s') \<Longrightarrow>
   s' = s \<and> set pend \<subseteq> set pend' \<and>
   (\<forall>r \<in> set rows. st_is_delivered mem_ops (row_id r) sy d (sy_store s) = Inr True \<or> r \<in> set pend')"
proof (induction rows arbitrary: res pend)
  case (Cons r rows)
  obtain b where b: "st_is_delivered mem_ops (row_id r) sy d (sy_store s) = Inr b" using mem_looks by blast
  show ?case
  proof (cases b)
    case True
    then show ?thesis using Cons b by auto
  next
    case False
    then show ?thesis using Cons.IH [of res "pend @ [r]"] Cons.prems b by auto
  qed
qed simp

text \<open>
  Property C34. A bulk load that returns without an error has marked every one of its rows as
  delivered, those too that the job reports as failed: the results are read for their number and
  for one error without a row. The next load of such a row skips it.
\<close>

theorem bulk_marks_failed_rows:
  assumes "mem_inv (sy_store s)" "nul_free sy" "nul_free d"
    "sf_load_bulk x f ticks mem_ops now rows sy d s = ((res, None), s')" "r \<in> set rows"
  shows "st_is_delivered mem_ops (row_id r) sy d (sy_store s') = Inr True"
proof -
  obtain res1 pend e s1 where q: "scan_rows False True (\<lambda>_. None) mem_ops sy d rows lr_empty [] s = ((res1, pend, e), s1)"
    by (metis surj_pair)
  note scan = mem_scan_all [OF q]
  obtain b where b: "st_is_delivered mem_ops (row_id r) sy d (sy_store s) = Inr b" using mem_looks by blast
  have old: "ab_is_delivered (mem_abs (sy_store s)) (row_id r, sy, d) \<or> r \<in> set pend"
    using scan assms(5) mem.is_delivered_law [OF assms(1-3) b] b by auto
  have "mem_inv (sy_store s') \<and> ab_is_delivered (mem_abs (sy_store s')) (row_id r, sy, d)"
  proof (cases "pend = []")
    case True
    then have "s' = s" using assms(4) q scan by (simp add: sf_load_bulk_def)
    then show ?thesis using old True assms(1) by simp
  next
    case False
    obtain out s2 where j: "sf_run_job x f ticks pend s1 = (out, s2)" by fastforce
    obtain job where job: "out = Inr job" using assms(4) False by (cases out) (simp_all add: sf_load_bulk_def q j)
    obtain n errs s3 where rr: "sf_read_results x f job (int (length pend)) s2 = ((n, errs), s3)" by (metis surj_pair)
    obtain res2 s4 where m: "foldl (mark_quiet mem_ops now sy d) (res1, s3) pend = (res2, s4)" by fastforce
    have "s4 = s'" using assms(4) False by (simp add: sf_load_bulk_def q j job rr m)
    moreover have "sy_store s3 = sy_store s"
      using scan sf_run_job_store [OF j] sf_read_results_store [OF rr] by simp
    ultimately show ?thesis using mem_marks_all [OF assms(2,3) _ m] old assms(1) by auto
  qed
  moreover obtain b' where b': "st_is_delivered mem_ops (row_id r) sy d (sy_store s') = Inr b'" using mem_looks by blast
  ultimately show ?thesis using mem.is_delivered_law [OF _ assms(2,3) b'] b' by simp
qed

text \<open>A server whose job ends with one failure and no success.\<close>

definition json_text :: "string \<Rightarrow> string \<Rightarrow> string" where
  "json_text k v = [CHR 0x7B, csv_quote] @ k @ [csv_quote, CHR '':'', csv_quote] @ v @ [csv_quote, CHR 0x7D]"

definition failing_job :: "http_request list http_env" where
  "failing_job = ok_http\<lparr>hx_send := (\<lambda>q w.
     (Inr (200, if hq_method q = ''POST'' then json_text ''id'' ''J''
                else if length w = 3 then json_text ''state'' ''JobComplete''
                else if length w = 4 then ''id'' @ [CHR 0x0A] else ''id'' @ [CHR 0x0A, CHR ''7'', CHR 0x0A]), w @ [q]))\<rparr>"

definition salesforce_sample :: salesforce where
  "salesforce_sample = \<lparr>sf_conn = sample_conn, sf_instance = ''https://x.salesforce.com'', sf_object = ''Lead'',
     sf_match = ''id'', sf_parallel = 3\<rparr>"

text \<open>One row, which the job refuses: one row is reported as loaded, the header of the results.\<close>

lemma failing_job_loads:
  "fst (sf_load_bulk failing_job salesforce_sample (\<lambda>_. 3) mem_ops 5 [sample_row] ''crm'' ''salesforce'' sample_sys)
   = (\<lparr>lr_loaded = 1, lr_skipped = 0,
       lr_errors = [no_row_error (ErrMsg ''salesforce bulk job reported failures'')], lr_dest_ids = []\<rparr>, None)"
  by code_simp

theorem bulk_marks_failed_rows_witness:
  "\<exists>s'. sf_load_bulk failing_job salesforce_sample (\<lambda>_. 3) mem_ops 5 [sample_row] ''crm'' ''salesforce'' sample_sys
      = ((\<lparr>lr_loaded = 1, lr_skipped = 0,
           lr_errors = [no_row_error (ErrMsg ''salesforce bulk job reported failures'')], lr_dest_ids = []\<rparr>, None), s')
    \<and> st_is_delivered mem_ops (row_id sample_row) ''crm'' ''salesforce'' (sy_store s') = Inr True"
proof -
  obtain s' where l: "sf_load_bulk failing_job salesforce_sample (\<lambda>_. 3) mem_ops 5 [sample_row] ''crm'' ''salesforce'' sample_sys
      = ((\<lparr>lr_loaded = 1, lr_skipped = 0,
           lr_errors = [no_row_error (ErrMsg ''salesforce bulk job reported failures'')], lr_dest_ids = []\<rparr>, None), s')"
    using failing_job_loads by (metis prod.collapse)
  have f: "mem_inv (sy_store sample_sys)" "nul_free ''crm''" "nul_free ''salesforce''" "sample_row \<in> set [sample_row]"
    by (simp_all add: sample_sys_def nul_free_def nul_def)
  show ?thesis using l bulk_marks_failed_rows [OF f(1,2,3) l f(4)] by blast
qed

end
