(* ===== verification/Snowflake_Source.thy ===== *)
theory Snowflake_Source
  imports Postgres_Source
begin

section \<open>The Snowflake source: internal/connector/source/snowflake.go\<close>

text \<open>
  Connection URLs, the description of a table, the pages of a window and custom queries. The
  parser of URLs, the driver and the server are parameters. Values arrive as the driver scans
  them: native ones, byte slices, and others with their text.
\<close>

datatype sn_value = SnBytes string | SnGo gval | SnOther string

text \<open>\<open>url.Parse\<close>: user and password, host, path and query of a URL.\<close>

record url_parts =
  up_user :: "(string \<times> string) option"
  up_host :: string
  up_path :: string
  up_query :: "(string \<times> string) list"

record sn_conn =
  sc_user :: string
  sc_password :: string
  sc_account :: string
  sc_database :: string
  sc_schema :: string
  sc_warehouse :: string
  sc_role :: string

record sn_driver =
  sd_parse_url :: "string \<Rightarrow> url_parts res"
  sd_dsn :: "sn_conn \<Rightarrow> string res"
  sd_open :: "string \<Rightarrow> go_error option"
  sd_ping :: "string \<Rightarrow> go_error option"

record 'w sn_env =
  nx_exec :: "string \<Rightarrow> 'w \<Rightarrow> go_error option \<times> 'w"
  nx_text :: "string \<Rightarrow> 'w \<Rightarrow> sn_value list answer res \<times> 'w"
  nx_select :: "sql_select \<Rightarrow> 'w \<Rightarrow> sn_value list answer res \<times> 'w"
  nx_uuid :: "nat \<Rightarrow> string"
  nx_now :: "nat \<Rightarrow> go_time"

subsection \<open>URLs and tables\<close>

definition parse_snowflake_url :: "string \<Rightarrow> (string \<Rightarrow> url_parts res) \<Rightarrow> string \<Rightarrow> sn_conn res" where
  "parse_snowflake_url who parse raw =
     (case parse raw of
        Inl e \<Rightarrow> Inl (ErrWrap (who @ '': parse url'') e)
      | Inr u \<Rightarrow>
          (case up_user u of
             None \<Rightarrow> Inl (ErrMsg (who @ '': url must include user and password''))
           | Some (user, password) \<Rightarrow>
               let account = trim_space (up_host u);
                   path = (if has_prefix (up_path u) ''/'' then drop 1 (up_path u) else up_path u);
                   parts = split_char CHR ''/'' path
               in if user = [] \<or> password = [] \<or> account = [] then
                    Inl (ErrMsg (who @ '': url must include user, password, and account''))
                  else if parts = [] \<or> trim_space (hd parts) = [] then
                    Inl (ErrMsg (who @ '': url must include database in path''))
                  else Inr \<lparr>sc_user = user, sc_password = password, sc_account = account,
                         sc_database = trim_space (hd parts),
                         sc_schema = (if length parts \<ge> 2 \<and> trim_space (parts ! 1) \<noteq> []
                                      then to_upper (trim_space (parts ! 1)) else ''PUBLIC''),
                         sc_warehouse = get_opt (up_query u) ''warehouse'', sc_role = get_opt (up_query u) ''role''\<rparr>))"

definition parse_snowflake_table :: "string \<Rightarrow> string \<times> string" where
  "parse_snowflake_table table =
     (case split_once ''.'' (trim_space table) of
        Some (a, b) \<Rightarrow> (to_upper (trim_space a), to_upper (trim_space b))
      | None \<Rightarrow> (''PUBLIC'', to_upper (trim_space table)))"

definition quote_table_with_schema :: "string \<times> string \<Rightarrow> string" where
  "quote_table_with_schema t = quote_identifier (fst t) @ ''.'' @ quote_identifier (snd t)"

text \<open>Opening: the DSN of the driver, the handle and a ping.\<close>

definition open_snowflake :: "string \<Rightarrow> sn_driver \<Rightarrow> sn_conn \<Rightarrow> go_error option" where
  "open_snowflake who x c =
     (case sd_dsn x c of
        Inl e \<Rightarrow> Some (ErrWrap (who @ '': build dsn'') e)
      | Inr dsn \<Rightarrow>
          (case sd_open x dsn of
             Some e \<Rightarrow> Some (ErrWrap (who @ '': open db'') e)
           | None \<Rightarrow> map_option (ErrWrap (who @ '': ping'')) (sd_ping x dsn)))"

record sn_source =
  sn_cfg :: conn_source
  sn_db :: bool

definition snowflake_connect :: "sn_driver \<Rightarrow> conn_source \<Rightarrow> sn_source res" where
  "snowflake_connect x cfg =
     (let u0 = trim_space (cs_url cfg);
          raw = (if u0 = [] then trim_space (cs_connection cfg) else u0)
      in if to_lower (trim_space (cs_watermark cfg)) = ''none'' then
           Inl (ErrMsg (''snowflake source: watermark: none (full-snapshot mode) is not yet supported for snowflake ''
             @ em_dash @ '' use a timestamp watermark column or a custom query''))
         else if raw = [] then Inl (ErrMsg ''snowflake source: url is required'')
         else (case parse_snowflake_url ''snowflake source'' (sd_parse_url x) raw of
                 Inl e \<Rightarrow> Inl e
               | Inr c \<Rightarrow>
                   (case open_snowflake ''snowflake source'' x c of
                      Some e \<Rightarrow> Inl e
                    | None \<Rightarrow> Inr \<lparr>sn_cfg = cfg, sn_db = True\<rparr>)))"

definition sn_watermark_column :: "conn_source \<Rightarrow> string" where
  "sn_watermark_column cfg = (let v = trim_space (cs_watermark cfg) in if v \<noteq> [] then v else ''updated_at'')"

subsection \<open>The description of a table\<close>

definition normalize_snowflake_type :: "string \<Rightarrow> string" where
  "normalize_snowflake_type raw =
     (let u = takeWhile (\<lambda>c. c \<noteq> CHR ''('') (to_upper (trim_space raw)) in
      if u \<in> {''VARCHAR'', ''TEXT'', ''STRING'', ''CHAR'', ''CHARACTER''} then ''string''
      else if u \<in> {''NUMBER'', ''DECIMAL'', ''NUMERIC''} then ''float64''
      else if u \<in> {''INT'', ''INTEGER'', ''BIGINT''} then ''int64''
      else if u \<in> {''FLOAT'', ''DOUBLE'', ''REAL''} then ''float64''
      else if u \<in> {''BOOLEAN'', ''BOOL''} then ''bool''
      else if u \<in> {''TIMESTAMP_NTZ'', ''TIMESTAMP_LTZ'', ''TIMESTAMP_TZ'', ''DATETIME'', ''TIMESTAMP'', ''DATE''}
        then ''time.Time''
      else if u \<in> {''VARIANT'', ''OBJECT'', ''ARRAY''} then ''string''
      else to_lower (trim_space raw))"

text \<open>\<open>findColumnIndex\<close>, and the value at the index; a missing column has none.\<close>

definition find_column :: "string list \<Rightarrow> string \<Rightarrow> 'a list \<Rightarrow> 'a option" where
  "find_column cols want vs =
     map_option snd (find (\<lambda>(c, v). to_lower (trim_space c) = want) (zip cols vs))"

definition sn_sprint :: "sn_value \<Rightarrow> string" where
  "sn_sprint v = (case v of SnGo g \<Rightarrow> sprint_v g | SnBytes b \<Rightarrow> byte_list b | SnOther t \<Rightarrow> t)"

definition described_column :: "string list \<Rightarrow> sn_value list \<Rightarrow> column_info option" where
  "described_column cols vs =
     (case (find_column cols ''name'' vs, find_column cols ''type'' vs) of
        (Some n, Some t) \<Rightarrow>
          let name = trim_space (sn_sprint n)
          in if name = [] then None
             else Some \<lparr>ci_name = name, ci_type = normalize_snowflake_type (sn_sprint t),
                    ci_nullable = (case find_column cols ''null?'' vs of
                                     None \<Rightarrow> True | Some v \<Rightarrow> to_lower (trim_space (sn_sprint v)) = ''y''),
                    ci_primary = False\<rparr>
      | _ \<Rightarrow> None)"

definition sn_filter_excluded :: "conn_source \<Rightarrow> column_info list \<Rightarrow> column_info list" where
  "sn_filter_excluded cfg cols =
     (if cs_exclude cfg = [] then cols
      else filter (\<lambda>c. to_lower (trim_space (ci_name c))
                         \<notin> set (map (\<lambda>e. to_lower (trim_space e)) (cs_exclude cfg))) cols)"

definition sn_introspect ::
  "'w sn_env \<Rightarrow> conn_source \<Rightarrow> string \<Rightarrow> 'w ext \<Rightarrow> column_info list res \<times> 'w ext" where
  "sn_introspect x cfg table s =
     (case nx_text x (''DESCRIBE TABLE '' @ quote_table_with_schema (parse_snowflake_table table)) (xs_world s) of
        (Inl e, w) \<Rightarrow> (Inl e, s\<lparr>xs_world := w\<rparr>)
      | (Inr a, w) \<Rightarrow>
          (case scan_answer a of
             Inl e \<Rightarrow> (Inl e, s\<lparr>xs_world := w\<rparr>)
           | Inr rows \<Rightarrow>
               let cols = map the (filter (\<lambda>c. c \<noteq> None) (map (described_column (an_fields a)) rows))
               in (if cols = []
                   then Inl (ErrMsg (''snowflake source: table '' @ table @ '' not found or has no columns''))
                   else Inr (sn_filter_excluded cfg cols), s\<lparr>xs_world := w\<rparr>)))"

subsection \<open>Rows\<close>

definition convert_snowflake_value :: "sn_value \<Rightarrow> gval" where
  "convert_snowflake_value v =
     (case v of
        SnBytes b \<Rightarrow> GStr b
      | SnOther t \<Rightarrow> GStr t
      | SnGo g \<Rightarrow> (case g of GTimePtr _ \<Rightarrow> GStr (sprint_v g) | GMap _ \<Rightarrow> GStr (sprint_v g)
                   | GList _ \<Rightarrow> GStr (sprint_v g) | _ \<Rightarrow> g))"

text \<open>The first field, in the order in which the map is walked, whose name agrees up to case.\<close>

definition lookup_ci :: "payload \<Rightarrow> string \<Rightarrow> gval option" where
  "lookup_ci d key = map_option snd (find (\<lambda>(k, v). to_lower k = to_lower key) d)"

definition ci_time :: "payload \<Rightarrow> (gval \<Rightarrow> go_time option) \<Rightarrow> string \<Rightarrow> go_time" where
  "ci_time d read col =
     (let look = (\<lambda>k. case lookup_ci d k of Some v \<Rightarrow> read v | None \<Rightarrow> None)
      in case look (if col = [] then ''updated_at'' else col) of
           Some t \<Rightarrow> t
         | None \<Rightarrow> (case look ''watermark'' of Some t \<Rightarrow> t | None \<Rightarrow> time_zero))"

definition extract_snowflake_watermark :: "payload \<Rightarrow> string \<Rightarrow> go_time" where
  "extract_snowflake_watermark d col = ci_time d gval_time col"

definition extract_snowflake_pk :: "payload \<Rightarrow> nat \<Rightarrow> string" where
  "extract_snowflake_pk d num =
     (case first_some (\<lambda>k. case lookup_ci d k of Some v \<Rightarrow> if v = GNil then None else Some v | None \<Rightarrow> None)
             [''id'', ''row_id''] of
        Some v \<Rightarrow> sprint_v v
      | None \<Rightarrow> ''row-'' @ dec_nat num)"

definition sn_source_name :: "conn_source \<Rightarrow> string" where
  "sn_source_name cfg =
     (if trim_space (cs_table cfg) \<noteq> [] then cs_type cfg @ ''.'' @ trim_space (cs_table cfg)
      else cs_type cfg @ ''.custom_query'')"

definition sn_payload :: "string list \<Rightarrow> sn_value list \<Rightarrow> payload" where
  "sn_payload cols vs = foldl (\<lambda>d (c, v). aput c (convert_snowflake_value v) d) [] (zip cols vs)"

text \<open>A row without a readable watermark gets the time of its extraction.\<close>

definition stamped_row ::
  "string \<Rightarrow> go_time \<Rightarrow> string \<Rightarrow> string \<Rightarrow> string \<Rightarrow> payload \<Rightarrow> go_time \<Rightarrow> row" where
  "stamped_row uuid now src pipe key d wm = new_row uuid now src pipe key d (if is_zero wm then now else wm)"

text \<open>The number of a row is one more than the number of rows built before it.\<close>

definition sn_row :: "'w sn_env \<Rightarrow> conn_source \<Rightarrow> string list \<Rightarrow> nat \<Rightarrow> sn_value list \<Rightarrow> row" where
  "sn_row x cfg cols k vs =
     (let d = sn_payload cols vs
      in stamped_row (nx_uuid x k) (nx_now x k) (sn_source_name cfg) (pipeline_name cfg)
           (extract_snowflake_pk d (Suc k)) d (extract_snowflake_watermark d (sn_watermark_column cfg)))"

subsection \<open>Pages and custom queries\<close>

definition build_snowflake_select ::
  "string \<Rightarrow> string \<Rightarrow> string list \<Rightarrow> go_time \<Rightarrow> go_time \<Rightarrow> int \<Rightarrow> int \<Rightarrow> sql_select" where
  "build_snowflake_select table col cols wm end_t batch off =
     \<lparr>ss_cols = (if cols = [] then [''*''] else map quote_identifier cols),
      ss_from = quote_table_with_schema (parse_snowflake_table table),
      ss_where = window_where (quote_identifier col) wm end_t,
      ss_order = Some (quote_identifier col @ '' ASC''),
      ss_limit = (if batch > 0 then Some batch else None), ss_offset = (if off > 0 then Some off else None)\<rparr>"

definition sn_extract_page ::
  "'w sn_env \<Rightarrow> conn_source \<Rightarrow> column_info list \<Rightarrow> go_time \<Rightarrow> go_time \<Rightarrow> int \<Rightarrow> int \<Rightarrow> 'w ext
     \<Rightarrow> (int \<times> go_error option) \<times> 'w ext" where
  "sn_extract_page x cfg schema wm end_t batch off s =
     (case nx_select x (build_snowflake_select (cs_table cfg) (sn_watermark_column cfg) (map ci_name schema)
             wm end_t batch off) (xs_world s) of
        (Inl e, w) \<Rightarrow> ((0, Some e), s\<lparr>xs_world := w\<rparr>)
      | (Inr a, w) \<Rightarrow>
          if an_fields a = [] then ((0, None), s\<lparr>xs_world := w\<rparr>)
          else stream_answer (\<lambda>k v. Inr (sn_row x cfg (an_fields a) k v)) a (s\<lparr>xs_world := w\<rparr>))"

text \<open>
  The loop over the pages: \<open>page off\<close> extracts the page at an offset and counts its rows; the
  last page is the first one that is not full.
\<close>

fun page_loop ::
  "nat \<Rightarrow> (int \<Rightarrow> 'w ext \<Rightarrow> (int \<times> go_error option) \<times> 'w ext) \<Rightarrow> int \<Rightarrow> int \<Rightarrow> 'w ext
     \<Rightarrow> (go_error option \<times> 'w ext) option" where
  "page_loop 0 page batch off s = None"
| "page_loop (Suc fuel) page batch off s =
     (case ext_poll s of
        (True, s1) \<Rightarrow> Some (Some ErrCanceled, s1)
      | (False, s1) \<Rightarrow>
          (case page off s1 of
             ((n, Some e), s2) \<Rightarrow> Some (Some e, s2)
           | ((n, None), s2) \<Rightarrow>
               if n < batch then Some (None, s2) else page_loop fuel page batch (off + n) s2))"

definition sn_pages ::
  "nat \<Rightarrow> 'w sn_env \<Rightarrow> conn_source \<Rightarrow> column_info list \<Rightarrow> go_time \<Rightarrow> go_time \<Rightarrow> 'w ext
     \<Rightarrow> (go_error option \<times> 'w ext) option" where
  "sn_pages fuel x cfg schema wm end_t =
     page_loop fuel (sn_extract_page x cfg schema wm end_t (batch_size cfg)) (batch_size cfg) 0"

definition sn_run_custom ::
  "'w sn_env \<Rightarrow> conn_source \<Rightarrow> go_time \<Rightarrow> go_time \<Rightarrow> 'w ext \<Rightarrow> go_error option \<times> 'w ext" where
  "sn_run_custom x cfg wm end_t s =
     (case nx_text x (resolve_query cfg wm end_t) (xs_world s) of
        (Inl e, w) \<Rightarrow> (Some e, s\<lparr>xs_world := w\<rparr>)
      | (Inr a, w) \<Rightarrow>
          (case stream_answer (\<lambda>k v. Inr (sn_row x cfg (an_fields a) k v)) a (s\<lparr>xs_world := w\<rparr>) of
             ((_, e), s1) \<Rightarrow> (e, s1)))"

definition query_tag_sql :: string where
  "query_tag_sql = ''ALTER SESSION SET QUERY_TAG = '' @ [CHR 0x27] @ ''vortara'' @ [CHR 0x27]"

definition sn_extract ::
  "nat \<Rightarrow> 'w sn_env \<Rightarrow> sn_source \<Rightarrow> go_time \<Rightarrow> go_time \<Rightarrow> 'w ext \<Rightarrow> (go_error option \<times> 'w ext) option" where
  "sn_extract fuel x n wm end_t s =
     (let cfg = sn_cfg n in
      if \<not> sn_db n then Some (Some (ErrMsg ''snowflake source: not connected''), s)
      else case nx_exec x query_tag_sql (xs_world s) of
             (Some e, w) \<Rightarrow> Some (Some e, s\<lparr>xs_world := w\<rparr>)
           | (None, w) \<Rightarrow>
               if is_custom_query cfg then Some (sn_run_custom x cfg wm end_t (s\<lparr>xs_world := w\<rparr>))
               else (case sn_introspect x cfg (cs_table cfg) (s\<lparr>xs_world := w\<rparr>) of
                       (Inl e, s1) \<Rightarrow> Some (Some e, s1)
                     | (Inr schema, s1) \<Rightarrow> sn_pages fuel x cfg schema wm end_t s1))"

section \<open>What an extraction delivers\<close>

text \<open>
  When every page holds the next rows of a list, the loop delivers the list, each row once, and
  ends; its rounds are at most one more than the rows.
\<close>

lemma page_loop_complete:
  fixes mk :: "nat \<Rightarrow> 'v list \<Rightarrow> row list"
  assumes page: "\<And>s off. xs_ctx s = None \<Longrightarrow> xs_made s = off \<Longrightarrow> off \<le> length ord \<Longrightarrow>
      \<exists>w. page (int off) s = ((int (length (take (nat b) (drop off ord))), None),
        s\<lparr>xs_world := w, xs_made := off + length (take (nat b) (drop off ord)),
          xs_out := xs_out s @ mk off (take (nat b) (drop off ord))\<rparr>)"
    and mk: "\<And>k us vs. mk k (us @ vs) = mk k us @ mk (k + length us) vs" and b: "0 < b"
  shows "xs_ctx s = None \<Longrightarrow> xs_made s = off \<Longrightarrow> off \<le> length ord \<Longrightarrow> length ord - off < fuel \<Longrightarrow>
    \<exists>w. page_loop fuel page b (int off) s = Some (None,
      s\<lparr>xs_world := w, xs_made := length ord, xs_out := xs_out s @ mk off (drop off ord)\<rparr>)"
proof (induction fuel arbitrary: s off)
  case (Suc fuel)
  let ?cut = "take (nat b) (drop off ord)"
  let ?off = "off + length ?cut"
  let ?next = "\<lambda>w. s\<lparr>xs_world := w, xs_made := ?off, xs_out := xs_out s @ mk off ?cut\<rparr>"
  obtain w where p: "page (int off) s = ((int (length ?cut), None), ?next w)"
    using page [OF Suc.prems(1-3)] by blast
  have step: "page_loop (Suc fuel) page b (int off) s
      = (if int (length ?cut) < b then Some (None, ?next w) else page_loop fuel page b (int ?off) (?next w))"
    by (simp only: page_loop.simps ext_poll_live [OF Suc.prems(1)] p prod.case bool.case option.case of_nat_add)
  show ?case
  proof (cases "int (length ?cut) < b")
    case True
    then have "drop off ord = ?cut" "?off = length ord" using b Suc.prems(3) by auto
    then show ?thesis unfolding step using True by (intro exI [of _ w]) simp
  next
    case False
    have le: "?off \<le> length ord" "length ord - ?off < fuel" using False b Suc.prems by auto
    have "length ?cut = nat b" using False b by auto
    then have "drop ?off ord = drop (nat b) (drop off ord)" by (simp only: drop_drop add.commute)
    then have rest: "drop off ord = ?cut @ drop ?off ord" by (simp only: append_take_drop_id)
    have mks: "mk off (drop off ord) = mk off ?cut @ mk ?off (drop ?off ord)"
      by (subst rest) (rule mk)
    have "\<exists>w'. page_loop fuel page b (int ?off) (?next w) = Some (None,
        (?next w)\<lparr>xs_world := w', xs_made := length ord, xs_out := xs_out (?next w) @ mk ?off (drop ?off ord)\<rparr>)"
      by (rule Suc.IH) (use Suc.prems(1) le in simp_all)
    then show ?thesis unfolding step mks if_not_P [OF False] by simp
  qed
qed simp

text \<open>
  A server over the rows of the window, in the order of their watermarks, that has the columns of
  the description; a statement on another column is refused.
\<close>

definition sn_serves ::
  "'w sn_env \<Rightarrow> string list \<Rightarrow> string list \<Rightarrow> sn_value list list \<Rightarrow> bool" where
  "sn_serves x known fs ord \<longleftrightarrow>
     (\<forall>q w. \<exists>w'. nx_select x q w =
        (if ss_order q \<in> (\<lambda>c. Some (quote_identifier c @ '' ASC'')) ` set known
         then Inr \<lparr>an_fields = fs,
                an_rows = map Inr (take (case ss_limit q of None \<Rightarrow> length ord | Some n \<Rightarrow> nat n)
                            (drop (case ss_offset q of None \<Rightarrow> 0 | Some n \<Rightarrow> nat n) ord)), an_err = None\<rparr>
         else Inl (ErrMsg ''SQL compilation error: invalid identifier''), w'))"

lemma made_sn_rows:
  "made_rows (\<lambda>k v. Inr (sn_row x cfg fs k v)) k vs = Inr (map (\<lambda>(i, v). sn_row x cfg fs i v) (enumerate k vs))"
  by (induction vs arbitrary: k) auto

definition sn_rows :: "'w sn_env \<Rightarrow> conn_source \<Rightarrow> string list \<Rightarrow> nat \<Rightarrow> sn_value list list \<Rightarrow> row list" where
  "sn_rows x cfg fs k vs = map (\<lambda>(i, v). sn_row x cfg fs i v) (enumerate k vs)"

lemma sn_batch_pos: "0 < batch_size cfg"
  by (simp add: batch_size_def)

lemma sn_page_live:
  assumes "sn_serves x known fs ord" "fs \<noteq> []" "sn_watermark_column cfg \<in> set known" "xs_ctx s = None"
    "off \<le> length ord" "xs_made s = off"
  shows "\<exists>w. sn_extract_page x cfg schema wm end_t (batch_size cfg) (int off) s =
    ((int (length (take (nat (batch_size cfg)) (drop off ord))), None),
     s\<lparr>xs_world := w, xs_made := off + length (take (nat (batch_size cfg)) (drop off ord)),
       xs_out := xs_out s @ sn_rows x cfg fs off (take (nat (batch_size cfg)) (drop off ord))\<rparr>)"
proof -
  let ?q = "build_snowflake_select (cs_table cfg) (sn_watermark_column cfg) (map ci_name schema) wm end_t
    (batch_size cfg) (int off)"
  let ?page = "take (nat (batch_size cfg)) (drop off ord)"
  have ord: "ss_order ?q \<in> (\<lambda>c. Some (quote_identifier c @ '' ASC'')) ` set known"
    using assms(3) by (simp add: build_snowflake_select_def)
  have lim: "ss_limit ?q = Some (batch_size cfg)" using sn_batch_pos [of cfg] by (simp add: build_snowflake_select_def)
  have off: "(case ss_offset ?q of None \<Rightarrow> 0 | Some n \<Rightarrow> nat n) = off" by (simp add: build_snowflake_select_def)
  have "\<exists>w'. nx_select x ?q (xs_world s) = (Inr \<lparr>an_fields = fs, an_rows = map Inr ?page, an_err = None\<rparr>, w')"
    using assms(1) [unfolded sn_serves_def, rule_format, of ?q "xs_world s"] by (simp add: ord lim off)
  then obtain w' where q: "nx_select x ?q (xs_world s) = (Inr \<lparr>an_fields = fs, an_rows = map Inr ?page, an_err = None\<rparr>, w')" ..
  show ?thesis
    using stream_answer_live [of "s\<lparr>xs_world := w'\<rparr>" "\<lambda>k v. Inr (sn_row x cfg fs k v)" ?page _ fs None,
        OF _ made_sn_rows] assms(2,4,6)
    by (intro exI [of _ w']) (simp add: sn_extract_page_def q sn_rows_def)
qed

lemma sn_rows_append: "sn_rows x cfg fs k (us @ vs) = sn_rows x cfg fs k us @ sn_rows x cfg fs (k + length us) vs"
  by (simp add: sn_rows_def enumerate_append_eq)


definition sn_sample_env :: "string list \<Rightarrow> sn_value list list \<Rightarrow> unit sn_env" where
  "sn_sample_env known ord = \<lparr>nx_exec = (\<lambda>_ w. (None, w)),
     nx_text = (\<lambda>_ w. (Inr \<lparr>an_fields = [''name'', ''type''], an_rows = map (\<lambda>c. Inr [SnGo (GStr c), SnGo (GStr ''NUMBER'')]) known,
        an_err = None\<rparr>, w)),
     nx_select = (\<lambda>q w. (if ss_order q \<in> (\<lambda>c. Some (quote_identifier c @ '' ASC'')) ` set known
         then Inr \<lparr>an_fields = known,
                an_rows = map Inr (take (case ss_limit q of None \<Rightarrow> length ord | Some n \<Rightarrow> nat n)
                            (drop (case ss_offset q of None \<Rightarrow> 0 | Some n \<Rightarrow> nat n) ord)), an_err = None\<rparr>
         else Inl (ErrMsg ''SQL compilation error: invalid identifier''), w)),
     nx_uuid = (\<lambda>_. ''u''), nx_now = (\<lambda>k. 100 + int k)\<rparr>"

lemma sn_sample_serves: "sn_serves (sn_sample_env known ord) known known ord"
  by (simp add: sn_serves_def sn_sample_env_def)


end
