(* ===== verification/Bigquery_Source.thy ===== *)
theory Bigquery_Source
  imports Snowflake_Source
begin

section \<open>The BigQuery source: internal/connector/source/bigquery.go\<close>

text \<open>
  Connecting, the description of a table and its primary key, the pages of a window and custom
  queries. The client of the service is a parameter: opening it, and the answer to a text with its
  parameters. Values arrive as the client decodes them: native ones, dates, arrays (their text and
  what \<open>json.Marshal\<close> makes of them) and others with their text.
\<close>

datatype bq_value = BqGo gval | BqDate int int int | BqList string "string option" | BqOther string

datatype bq_param = BqTime go_time | BqInt int | BqStr string

record 'w bq_env =
  bx_query :: "string \<Rightarrow> (string \<times> bq_param) list \<Rightarrow> 'w \<Rightarrow> bq_value list answer res \<times> 'w"
  bx_uuid :: "nat \<Rightarrow> string"
  bx_now :: "nat \<Rightarrow> go_time"

subsection \<open>Connect\<close>

record bq_source =
  bq_cfg :: conn_source
  bq_client :: bool
  bq_project :: string
  bq_dataset :: string
  bq_table :: string

definition bq_credentials :: "conn_source \<Rightarrow> (string \<times> string) option" where
  "bq_credentials cfg =
     (let f = trim_space (get_opt (cs_options cfg) ''credentials_file'');
          j = trim_space (get_opt (cs_options cfg) ''credentials_json'')
      in if f \<noteq> [] then Some (''credentials_file'', f)
         else if j \<noteq> [] then Some (''credentials_json'', j) else None)"

definition bq_connect ::
  "(string \<Rightarrow> (string \<times> string) option \<Rightarrow> go_error option) \<Rightarrow> bq_source \<Rightarrow> conn_source \<Rightarrow> bq_source res" where
  "bq_connect open_client b cfg =
     (let p0 = trim_space (cs_connection cfg);
          project = (if p0 = [] then trim_space (get_opt (cs_options cfg) ''project'') else p0);
          dataset = trim_space (get_opt (cs_options cfg) ''dataset'');
          done = \<lparr>bq_cfg = cfg, bq_client = True, bq_project = project, bq_dataset = dataset,
                  bq_table = trim_space (cs_table cfg)\<rparr>
      in if to_lower (trim_space (cs_watermark cfg)) = ''none'' then
           Inl (ErrMsg (''bigquery source: watermark: none (full-snapshot mode) is not yet supported for bigquery ''
             @ em_dash @ '' use a timestamp watermark column or a custom query''))
         else if project = [] then Inl (ErrMsg ''bigquery source: project is required'')
         else if dataset = [] then Inl (ErrMsg ''bigquery source: dataset is required'')
         else if bq_client b then Inr done
         else (case open_client project (bq_credentials cfg) of
                 Some e \<Rightarrow> Inl (ErrWrap ''bigquery source: open client'' e)
               | None \<Rightarrow> Inr done))"

subsection \<open>Texts of queries\<close>

definition bq_tick :: char where
  "bq_tick = CHR 0x60"

definition bq_quote_identifier :: "string \<Rightarrow> string" where
  "bq_quote_identifier name = [bq_tick] @ replace_char bq_tick [CHR 0x5C, bq_tick] name @ [bq_tick]"

definition bq_quote_table :: "string \<Rightarrow> string \<Rightarrow> string \<Rightarrow> string" where
  "bq_quote_table p d t = [bq_tick] @ p @ ''.'' @ d @ ''.'' @ t @ [bq_tick]"

definition bq_quote_dataset_scope :: "string \<Rightarrow> string \<Rightarrow> string" where
  "bq_quote_dataset_scope p d = [bq_tick] @ p @ ''.'' @ d @ [bq_tick]"

definition sql_lines :: "string list \<Rightarrow> string" where
  "sql_lines ls = [CHR 0x0A] @ concat (map (\<lambda>l. l @ [CHR 0x0A]) ls)"

definition build_bigquery_select ::
  "string \<Rightarrow> string \<Rightarrow> string \<Rightarrow> string \<Rightarrow> string list \<Rightarrow> go_time \<Rightarrow> go_time \<Rightarrow> int \<Rightarrow> int
     \<Rightarrow> string \<times> (string \<times> bq_param) list" where
  "build_bigquery_select p d t col cols wm end_t batch off =
     (let quoted = (if cols = [] then [''*''] else map bq_quote_identifier cols);
          c = bq_quote_identifier col
      in (''SELECT '' @ join '', '' quoted @ '' FROM '' @ bq_quote_table p d t
            @ (if is_zero wm then [] else '' WHERE '' @ c @ '' >= TIMESTAMP(@start)'')
            @ (if is_zero end_t then []
               else (if is_zero wm then '' WHERE '' else '' AND '') @ c @ '' <= TIMESTAMP(@end)'')
            @ '' ORDER BY '' @ c @ '' ASC''
            @ (if batch > 0 then '' LIMIT @limit'' else []) @ (if off > 0 then '' OFFSET @offset'' else []),
          (if is_zero wm then [] else [(''start'', BqTime wm)])
            @ (if is_zero end_t then [] else [(''end'', BqTime end_t)])
            @ (if batch > 0 then [(''limit'', BqInt batch)] else [])
            @ (if off > 0 then [(''offset'', BqInt off)] else [])))"

subsection \<open>The description of a table\<close>

definition normalize_bigquery_type :: "string \<Rightarrow> string" where
  "normalize_bigquery_type raw =
     (let u = to_upper (trim_space raw) in
      if u \<in> {''STRING'', ''BYTES''} then ''string''
      else if u \<in> {''INTEGER'', ''INT64''} then ''int64''
      else if u \<in> {''FLOAT'', ''FLOAT64'', ''NUMERIC'', ''BIGNUMERIC''} then ''float64''
      else if u \<in> {''BOOLEAN'', ''BOOL''} then ''bool''
      else if u \<in> {''TIMESTAMP'', ''DATETIME'', ''DATE''} then ''time.Time''
      else if u \<in> {''RECORD'', ''STRUCT'', ''JSON'', ''ARRAY''} then ''string''
      else to_lower (trim_space raw))"

definition bq_sprint :: "bq_value \<Rightarrow> string" where
  "bq_sprint v =
     (case v of
        BqGo g \<Rightarrow> sprint_v g
      | BqDate y m d \<Rightarrow> fmt_year y @ ''-'' @ pad_int 2 m @ ''-'' @ pad_int 2 d
      | BqList t _ \<Rightarrow> t | BqOther t \<Rightarrow> t)"

definition bq_column :: "bq_value list \<Rightarrow> column_info option" where
  "bq_column vs =
     (case vs of
        a # t # n # _ \<Rightarrow>
          let name = trim_space (bq_sprint a)
          in if name = [] then None
             else Some \<lparr>ci_name = name, ci_type = normalize_bigquery_type (bq_sprint t),
                    ci_nullable = (to_lower (trim_space (bq_sprint n)) = ''yes''), ci_primary = False\<rparr>
      | _ \<Rightarrow> None)"

definition bq_filter_excluded :: "conn_source \<Rightarrow> column_info list \<Rightarrow> column_info list" where
  "bq_filter_excluded cfg cols =
     (if cs_exclude cfg = [] then cols
      else filter (\<lambda>c. to_lower (ci_name c) \<notin> set (map (\<lambda>e. to_lower (trim_space e)) (cs_exclude cfg))) cols)"

text \<open>One query whose rows are all read.\<close>

definition bq_ask ::
  "'w bq_env \<Rightarrow> string \<Rightarrow> (string \<times> bq_param) list \<Rightarrow> 'w ext \<Rightarrow> bq_value list list res \<times> 'w ext" where
  "bq_ask x sql ps s =
     (case bx_query x sql ps (xs_world s) of
        (Inl e, w) \<Rightarrow> (Inl e, s\<lparr>xs_world := w\<rparr>)
      | (Inr a, w) \<Rightarrow> (scan_answer a, s\<lparr>xs_world := w\<rparr>))"

definition bq_columns_sql :: "bq_source \<Rightarrow> string" where
  "bq_columns_sql b = sql_lines
     [''SELECT column_name, data_type, is_nullable'',
      ''FROM '' @ bq_quote_dataset_scope (bq_project b) (bq_dataset b) @ ''.INFORMATION_SCHEMA.COLUMNS'',
      ''WHERE table_name = @table'', ''ORDER BY ordinal_position'']"

definition bq_introspect ::
  "'w bq_env \<Rightarrow> bq_source \<Rightarrow> 'w ext \<Rightarrow> column_info list res \<times> 'w ext" where
  "bq_introspect x b s =
     (case bq_ask x (bq_columns_sql b) [(''table'', BqStr (bq_table b))] s of
        (Inl e, s1) \<Rightarrow> (Inl e, s1)
      | (Inr rows, s1) \<Rightarrow>
          let cols = map the (filter (\<lambda>c. c \<noteq> None) (map bq_column rows))
          in (if cols = []
              then Inl (ErrMsg (''bigquery source: table '' @ bq_table b @ '' not found or has no columns''))
              else Inr (bq_filter_excluded (bq_cfg b) cols), s1))"

definition bq_keys_sql :: "bq_source \<Rightarrow> string" where
  "bq_keys_sql b =
     (let scope = bq_quote_dataset_scope (bq_project b) (bq_dataset b)
      in sql_lines
     [''SELECT kcu.column_name'',
      ''FROM '' @ scope @ ''.INFORMATION_SCHEMA.TABLE_CONSTRAINTS tc'',
      ''JOIN '' @ scope @ ''.INFORMATION_SCHEMA.KEY_COLUMN_USAGE kcu'',
      ''  ON tc.constraint_name = kcu.constraint_name'',
      ''WHERE tc.table_name = @table'',
      ''  AND tc.constraint_type = '' @ [CHR 0x27] @ ''PRIMARY KEY'' @ [CHR 0x27],
      ''ORDER BY kcu.ordinal_position''])"

definition bq_primary_keys ::
  "'w bq_env \<Rightarrow> bq_source \<Rightarrow> 'w ext \<Rightarrow> string list res \<times> 'w ext" where
  "bq_primary_keys x b s =
     (case bq_ask x (bq_keys_sql b) [(''table'', BqStr (bq_table b))] s of
        (Inl e, s1) \<Rightarrow> (Inl e, s1)
      | (Inr rows, s1) \<Rightarrow>
          (Inr (filter (\<lambda>k. k \<noteq> []) (map (\<lambda>vs. trim_space (bq_sprint (hd vs))) (filter (\<lambda>vs. vs \<noteq> []) rows))), s1))"

subsection \<open>Rows\<close>

definition convert_bq_value :: "bq_value \<Rightarrow> gval" where
  "convert_bq_value v =
     (case v of
        BqGo g \<Rightarrow> (case g of GTimePtr _ \<Rightarrow> GStr (sprint_v g) | GMap _ \<Rightarrow> GStr (sprint_v g)
                   | GList _ \<Rightarrow> GStr (sprint_v g) | _ \<Rightarrow> g)
      | BqDate y m d \<Rightarrow> GTime (time_of_parts (date_parts_init\<lparr>dp_year := y, dp_month := m, dp_day := d\<rparr>))
      | BqList _ js \<Rightarrow> GStr (case js of None \<Rightarrow> [] | Some t \<Rightarrow> t)
      | BqOther t \<Rightarrow> GStr t)"

definition bq_as_time :: "gval \<Rightarrow> go_time option" where
  "bq_as_time v =
     (case v of GTime t \<Rightarrow> Some t | GTimePtr p \<Rightarrow> p | GStr s \<Rightarrow> time_parse rfc3339_layout s | _ \<Rightarrow> None)"

definition bq_watermark_from_data :: "payload \<Rightarrow> string \<Rightarrow> go_time" where
  "bq_watermark_from_data d col = ci_time d bq_as_time col"

definition bq_primary_key :: "table_schema \<Rightarrow> payload \<Rightarrow> nat \<Rightarrow> string" where
  "bq_primary_key schema d num =
     (if ts_keys schema \<noteq> [] then build_primary_key schema d else extract_snowflake_pk d num)"

definition bq_source_name :: "conn_source \<Rightarrow> string" where
  "bq_source_name cfg = (if trim_space (cs_type cfg) \<noteq> [] then cs_type cfg else ''bigquery'')"

text \<open>A row from its data; its number is one more than the number of rows built before it.\<close>

definition bq_row :: "'w bq_env \<Rightarrow> conn_source \<Rightarrow> table_schema \<Rightarrow> nat \<Rightarrow> payload \<Rightarrow> row" where
  "bq_row x cfg schema k d =
     (stamped_row (bx_uuid x k) (bx_now x k) (bq_source_name cfg) (pipeline_name cfg)
        (bq_primary_key schema d (Suc k)) d (bq_watermark_from_data d (sn_watermark_column cfg)))\<lparr>row_ctx := True\<rparr>"

definition bq_table_data :: "table_schema \<Rightarrow> bq_value list \<Rightarrow> payload" where
  "bq_table_data schema vs =
     foldl (\<lambda>d (c, v). aput (ci_name c) (convert_bq_value v) d) [] (zip (ts_columns schema) vs)"

definition bq_custom_key :: "string list \<Rightarrow> nat \<Rightarrow> string" where
  "bq_custom_key cols i =
     (if i < length cols \<and> trim_space (cols ! i) \<noteq> [] then cols ! i else ''col_'' @ dec_nat i)"

definition bq_custom_data :: "string list \<Rightarrow> bq_value list \<Rightarrow> payload" where
  "bq_custom_data cols vs =
     foldl (\<lambda>d (i, v). aput (bq_custom_key cols i) (convert_bq_value v) d) [] (enumerate 0 vs)"

text \<open>The loop over an iterator: empty rows are passed over, the context is polled by the send.\<close>

fun bq_emit ::
  "(nat \<Rightarrow> bq_value list \<Rightarrow> row) \<Rightarrow> bq_value list res list \<Rightarrow> int \<Rightarrow> 'w ext \<Rightarrow> (int \<times> go_error option) \<times> 'w ext" where
  "bq_emit mk [] n s = ((n, None), s)"
| "bq_emit mk (Inl e # rs) n s = ((n, Some e), s)"
| "bq_emit mk (Inr vs # rs) n s =
     (if vs = [] then bq_emit mk rs n s
      else case ext_send (mk (xs_made s) vs) (s\<lparr>xs_made := Suc (xs_made s)\<rparr>) of
             (Some e, s1) \<Rightarrow> ((n, Some e), s1)
           | (None, s1) \<Rightarrow> bq_emit mk rs (n + 1) s1)"

definition bq_emit_answer ::
  "(nat \<Rightarrow> bq_value list \<Rightarrow> row) \<Rightarrow> bq_value list answer \<Rightarrow> 'w ext \<Rightarrow> (int \<times> go_error option) \<times> 'w ext" where
  "bq_emit_answer mk a s =
     (case bq_emit mk (an_rows a) 0 s of
        ((n, Some e), s1) \<Rightarrow> ((n, Some e), s1)
      | ((n, None), s1) \<Rightarrow> ((n, an_err a), s1))"

subsection \<open>Extract\<close>

definition bq_table_row :: "'w bq_env \<Rightarrow> conn_source \<Rightarrow> table_schema \<Rightarrow> nat \<Rightarrow> bq_value list \<Rightarrow> row" where
  "bq_table_row x cfg schema k vs = bq_row x cfg schema k (bq_table_data schema vs)"

definition bq_extract_page ::
  "'w bq_env \<Rightarrow> bq_source \<Rightarrow> table_schema \<Rightarrow> go_time \<Rightarrow> go_time \<Rightarrow> int \<Rightarrow> 'w ext
     \<Rightarrow> (int \<times> go_error option) \<times> 'w ext" where
  "bq_extract_page x b schema wm end_t off s =
     (let cfg = bq_cfg b in
      case build_bigquery_select (bq_project b) (bq_dataset b) (bq_table b) (sn_watermark_column cfg)
             (map ci_name (ts_columns schema)) wm end_t (batch_size cfg) off of
        (sql, ps) \<Rightarrow>
          (case bx_query x sql ps (xs_world s) of
             (Inl e, w) \<Rightarrow> ((0, Some e), s\<lparr>xs_world := w\<rparr>)
           | (Inr a, w) \<Rightarrow> bq_emit_answer (bq_table_row x cfg schema) a (s\<lparr>xs_world := w\<rparr>)))"

definition bq_pages ::
  "nat \<Rightarrow> 'w bq_env \<Rightarrow> bq_source \<Rightarrow> table_schema \<Rightarrow> go_time \<Rightarrow> go_time \<Rightarrow> 'w ext
     \<Rightarrow> (go_error option \<times> 'w ext) option" where
  "bq_pages fuel x b schema wm end_t =
     page_loop fuel (bq_extract_page x b schema wm end_t) (batch_size (bq_cfg b)) 0"

definition bq_resolve_query :: "conn_source \<Rightarrow> go_time \<Rightarrow> go_time \<Rightarrow> string" where
  "bq_resolve_query cfg wm end_t =
     replace_all (replace_all (cs_query cfg) ''{{watermark}}'' (rfc3339 wm)) ''{{interval_end}}'' (rfc3339 end_t)"

definition bq_run_custom ::
  "'w bq_env \<Rightarrow> conn_source \<Rightarrow> go_time \<Rightarrow> go_time \<Rightarrow> 'w ext \<Rightarrow> go_error option \<times> 'w ext" where
  "bq_run_custom x cfg wm end_t s =
     (case bx_query x (bq_resolve_query cfg wm end_t) [] (xs_world s) of
        (Inl e, w) \<Rightarrow> (Some e, s\<lparr>xs_world := w\<rparr>)
      | (Inr a, w) \<Rightarrow>
          (case bq_emit_answer (\<lambda>k vs. bq_row x cfg \<lparr>ts_columns = [], ts_keys = []\<rparr> k (bq_custom_data (an_fields a) vs))
                  a (s\<lparr>xs_world := w\<rparr>) of
             ((_, e), s1) \<Rightarrow> (e, s1)))"

definition bq_extract ::
  "nat \<Rightarrow> 'w bq_env \<Rightarrow> bq_source \<Rightarrow> go_time \<Rightarrow> go_time \<Rightarrow> 'w ext \<Rightarrow> (go_error option \<times> 'w ext) option" where
  "bq_extract fuel x b wm end_t s =
     (if \<not> bq_client b then Some (Some (ErrMsg ''bigquery source: not connected''), s)
      else if is_custom_query (bq_cfg b) then Some (bq_run_custom x (bq_cfg b) wm end_t s)
      else case bq_introspect x b s of
             (Inl e, s1) \<Rightarrow> Some (Some e, s1)
           | (Inr cols, s1) \<Rightarrow>
               (case bq_primary_keys x b s1 of
                  (Inl e, s2) \<Rightarrow> Some (Some e, s2)
                | (Inr keys, s2) \<Rightarrow> bq_pages fuel x b \<lparr>ts_columns = cols, ts_keys = keys\<rparr> wm end_t s2))"

section \<open>What an extraction delivers\<close>

text \<open>
  The rows a service returns for the parameters of a query, from the rows of the table in the
  order of their watermarks.
\<close>

definition bq_page ::
  "(bq_value list \<Rightarrow> go_time) \<Rightarrow> bq_value list list \<Rightarrow> (string \<times> bq_param) list \<Rightarrow> bq_value list list" where
  "bq_page tm ord ps =
     take (case alookup ps ''limit'' of Some (BqInt n) \<Rightarrow> nat n | _ \<Rightarrow> length ord)
       (drop (case alookup ps ''offset'' of Some (BqInt n) \<Rightarrow> nat n | _ \<Rightarrow> 0)
         (filter (\<lambda>v. (case alookup ps ''start'' of Some (BqTime a) \<Rightarrow> a \<le> tm v | _ \<Rightarrow> True)
                    \<and> (case alookup ps ''end'' of Some (BqTime a) \<Rightarrow> tm v \<le> a | _ \<Rightarrow> True)) ord))"

definition bq_serves ::
  "'w bq_env \<Rightarrow> bq_source \<Rightarrow> string list \<Rightarrow> (bq_value list \<Rightarrow> go_time) \<Rightarrow> bq_value list list \<Rightarrow> bool" where
  "bq_serves x b fs tm ord \<longleftrightarrow>
     (\<forall>cols wm end_t batch off w. \<exists>w'. case build_bigquery_select (bq_project b) (bq_dataset b) (bq_table b)
          (sn_watermark_column (bq_cfg b)) cols wm end_t batch off of
        (sql, ps) \<Rightarrow> bx_query x sql ps w = (Inr \<lparr>an_fields = fs, an_rows = map Inr (bq_page tm ord ps), an_err = None\<rparr>, w'))"

text \<open>The rows of a window: both bounds are inside; a zero bound is no bound.\<close>

definition bq_window ::
  "(bq_value list \<Rightarrow> go_time) \<Rightarrow> go_time \<Rightarrow> go_time \<Rightarrow> bq_value list list \<Rightarrow> bq_value list list" where
  "bq_window tm wm end_t ord = filter (\<lambda>v. (is_zero wm \<or> wm \<le> tm v) \<and> (is_zero end_t \<or> tm v \<le> end_t)) ord"

definition bq_rows :: "'w bq_env \<Rightarrow> conn_source \<Rightarrow> table_schema \<Rightarrow> nat \<Rightarrow> bq_value list list \<Rightarrow> row list" where
  "bq_rows x cfg schema k vs = map (\<lambda>(i, v). bq_table_row x cfg schema i v) (enumerate k vs)"

lemma bq_rows_append:
  "bq_rows x cfg schema k (us @ vs) = bq_rows x cfg schema k us @ bq_rows x cfg schema (k + length us) vs"
  by (simp add: bq_rows_def enumerate_append_eq)

lemma bq_page_window:
  assumes "0 < n" "0 \<le> off"
  shows "bq_page tm ord (snd (build_bigquery_select p d t col cols wm end_t n off))
    = take (nat n) (drop (nat off) (bq_window tm wm end_t ord))"
  using assms
  by (cases "is_zero wm"; cases "is_zero end_t"; cases "off = 0")
    (simp_all add: bq_page_def bq_window_def build_bigquery_select_def Let_def)

lemma bq_emit_live:
  "xs_ctx s = None \<Longrightarrow> [] \<notin> set vs \<Longrightarrow>
   bq_emit mk (map Inr vs) n s = ((n + int (length vs), None),
     s\<lparr>xs_made := xs_made s + length vs, xs_out := xs_out s @ map (\<lambda>(i, v). mk i v) (enumerate (xs_made s) vs)\<rparr>)"
proof (induction vs arbitrary: s n)
  case (Cons v vs)
  then have "v \<noteq> []" by auto
  then show ?case using Cons by (simp add: ext_send_live)
qed simp

lemma bq_page_live:
  assumes "bq_serves x b fs tm ord" "[] \<notin> set ord" "xs_ctx s = None" "xs_made s = off"
    "off \<le> length (bq_window tm wm end_t ord)"
  shows "\<exists>w. bq_extract_page x b schema wm end_t (int off) s =
    ((int (length (take (nat (batch_size (bq_cfg b))) (drop off (bq_window tm wm end_t ord)))), None),
     s\<lparr>xs_world := w, xs_made := off + length (take (nat (batch_size (bq_cfg b))) (drop off (bq_window tm wm end_t ord))),
       xs_out := xs_out s @ bq_rows x (bq_cfg b) schema off
         (take (nat (batch_size (bq_cfg b))) (drop off (bq_window tm wm end_t ord)))\<rparr>)"
proof -
  let ?page = "take (nat (batch_size (bq_cfg b))) (drop off (bq_window tm wm end_t ord))"
  obtain sql ps where q: "build_bigquery_select (bq_project b) (bq_dataset b) (bq_table b) (sn_watermark_column (bq_cfg b))
      (map ci_name (ts_columns schema)) wm end_t (batch_size (bq_cfg b)) (int off) = (sql, ps)" by fastforce
  have page: "bq_page tm ord ps = ?page"
    using bq_page_window [where n = "batch_size (bq_cfg b)" and off = "int off" and p = "bq_project b" and d = "bq_dataset b"
        and t = "bq_table b" and col = "sn_watermark_column (bq_cfg b)" and cols = "map ci_name (ts_columns schema)"
        and wm = wm and end_t = end_t and tm = tm and ord = ord] by (simp add: q sn_batch_pos)
  have "\<exists>w. bx_query x sql ps (xs_world s) = (Inr \<lparr>an_fields = fs, an_rows = map Inr ?page, an_err = None\<rparr>, w)"
    using assms(1) [unfolded bq_serves_def, THEN spec, of "map ci_name (ts_columns schema)", THEN spec, of wm, THEN spec, of end_t,
        THEN spec, of "batch_size (bq_cfg b)", THEN spec, of "int off", THEN spec, of "xs_world s"] by (simp add: q page)
  then obtain w where a: "bx_query x sql ps (xs_world s) = (Inr \<lparr>an_fields = fs, an_rows = map Inr ?page, an_err = None\<rparr>, w)" ..
  have ne: "[] \<notin> set ?page"
    using assms(2) unfolding bq_window_def by (meson filter_is_subset in_set_dropD in_set_takeD subsetD)
  show ?thesis using bq_emit_live [OF _ ne, of "s\<lparr>xs_world := w\<rparr>" "bq_table_row x (bq_cfg b) schema" 0] assms(3,4)
    by (intro exI [of _ w]) (simp add: bq_extract_page_def Let_def q a bq_emit_answer_def bq_rows_def)
qed


definition bq_sample_env :: "(bq_value list \<Rightarrow> go_time) \<Rightarrow> bq_value list list \<Rightarrow> unit bq_env" where
  "bq_sample_env tm ord = \<lparr>bx_query = (\<lambda>q ps w. (Inr \<lparr>an_fields = [''id'', ''updated_at''],
       an_rows = map Inr (bq_page tm ord ps), an_err = None\<rparr>, w)),
     bx_uuid = (\<lambda>_. ''u''), bx_now = (\<lambda>k. 100 + int k)\<rparr>"

definition bq_sample :: bq_source where
  "bq_sample = \<lparr>bq_cfg = sample_source_cfg 1, bq_client = True, bq_project = ''p'', bq_dataset = ''d'', bq_table = ''deals''\<rparr>"

definition bq_sample_rows :: "bq_value list list" where
  "bq_sample_rows = [[BqGo (GInt 7), BqGo (GTime 5)], [BqGo (GInt 8), BqGo (GTime 6)], [BqGo (GInt 9), BqGo (GTime 20)]]"

definition bq_sample_time :: "bq_value list \<Rightarrow> go_time" where
  "bq_sample_time v = (case v ! 1 of BqGo (GTime t) \<Rightarrow> t | _ \<Rightarrow> 0)"


end
