(* ===== verification/Snowflake_Dest.thy ===== *)
theory Snowflake_Dest
  imports Mysql_Dest Snowflake_Source
begin

section \<open>The Snowflake destination: internal/connector/destination/snowflake.go\<close>

text \<open>
  \<open>Connect\<close>, the statements and the four strategies, one row per statement. The parser of URLs,
  the driver and the server are parameters; the run ID is what the context carries.
\<close>

record 'w fd_env =
  fx_exec :: "string \<Rightarrow> gval list \<Rightarrow> 'w \<Rightarrow> go_error option \<times> 'w"
  fx_run_id :: int

record fd_dest =
  fd_schema :: string
  fd_table :: string
  fd_strategy :: string
  fd_match :: "string list"
  fd_open :: bool

text \<open>The URL and the name of the table are read as the source reads them.\<close>

definition parse_snowflake_dest_url :: "(string \<Rightarrow> url_parts res) \<Rightarrow> string \<Rightarrow> sn_conn res" where
  "parse_snowflake_dest_url = parse_snowflake_url ''snowflake destination''"

definition parse_snowflake_dest_table :: "string \<Rightarrow> string \<times> string" where
  "parse_snowflake_dest_table = parse_snowflake_table"

definition fd_connect :: "sn_driver \<Rightarrow> conn_dest \<Rightarrow> fd_dest res" where
  "fd_connect x cfg =
     (let table = trim_space (get_opt (cd_options cfg) ''table'');
          st0 = to_lower (trim_space (cd_strategy cfg));
          st = (if st0 = [] then ''merge'' else st0);
          keys = split_match_on (cd_match_on cfg);
          u0 = trim_space (cd_url cfg);
          raw = (if u0 = [] then trim_space (cd_connection cfg) else u0)
      in if table = [] then Inl (ErrMsg ''snowflake destination: table is required'')
         else if st \<notin> set my_strategies then
           Inl (ErrMsg (''snowflake destination: strategy '' @ quote_q (cd_strategy cfg)
             @ '' unknown, valid: merge, append, replace, delete+insert''))
         else if (st = ''merge'' \<or> st = ''delete+insert'') \<and> keys = [] then
           Inl (ErrMsg (''snowflake destination: strategy '' @ quote_q st @ '' requires match_on''))
         else if raw = [] then Inl (ErrMsg ''snowflake destination: url is required'')
         else (case parse_snowflake_dest_url (sd_parse_url x) raw of
                 Inl e \<Rightarrow> Inl e
               | Inr c \<Rightarrow>
                   (case open_snowflake ''snowflake destination'' x c of
                      Some e \<Rightarrow> Inl e
                    | None \<Rightarrow> Inr \<lparr>fd_schema = fst (parse_snowflake_dest_table table),
                        fd_table = snd (parse_snowflake_dest_table table), fd_strategy = st, fd_match = keys, fd_open = True\<rparr>)))"

subsection \<open>Statements\<close>

definition quote_snowflake_ident :: "string \<Rightarrow> string" where
  "quote_snowflake_ident name = quote_identifier (to_upper (trim_space name))"

definition qualified_table :: "fd_dest \<Rightarrow> string" where
  "qualified_table c = quote_snowflake_ident (fd_schema c) @ ''.'' @ quote_snowflake_ident (fd_table c)"

definition normalize_snowflake_arg :: "gval \<Rightarrow> gval" where
  "normalize_snowflake_arg v =
     (case v of
        GMap m \<Rightarrow> GStr (case json_marshal v of Some s \<Rightarrow> s | None \<Rightarrow> sprint_v v)
      | GList xs \<Rightarrow> GStr (case json_marshal v of Some s \<Rightarrow> s | None \<Rightarrow> sprint_v v)
      | _ \<Rightarrow> v)"

definition fd_args :: "string list \<Rightarrow> row \<Rightarrow> gval list" where
  "fd_args cols r = map (\<lambda>c. normalize_snowflake_arg (get_or_nil (row_data r) c)) cols"

definition build_snowflake_insert :: "string \<Rightarrow> string list \<Rightarrow> row \<Rightarrow> string \<times> gval list" where
  "build_snowflake_insert table cols r =
     (''INSERT INTO '' @ table @ '' ('' @ join '', '' (map quote_snowflake_ident cols) @ '') VALUES (''
        @ join '', '' (replicate (length cols) ''?'') @ '')'', fd_args cols r)"

text \<open>\<open>t.COL = s.COL\<close>, as a condition and as an assignment.\<close>

definition side_by_side :: "string \<Rightarrow> string" where
  "side_by_side c = ''t.'' @ quote_snowflake_ident c @ '' = s.'' @ quote_snowflake_ident c"

definition merge_updates :: "string list \<Rightarrow> string list \<Rightarrow> string list" where
  "merge_updates keys cols =
     filter (\<lambda>c. to_upper (trim_space c) \<notin> set (map (\<lambda>k. to_upper (trim_space k)) keys)) cols"

definition build_snowflake_merge :: "string \<Rightarrow> string list \<Rightarrow> string list \<Rightarrow> row \<Rightarrow> string \<times> gval list" where
  "build_snowflake_merge table cols keys r =
     (''MERGE INTO '' @ table @ '' t USING (SELECT ''
        @ join '', '' (map (\<lambda>c. ''? AS '' @ quote_snowflake_ident c) cols) @ '') s ON ''
        @ join '' AND '' (map side_by_side keys)
        @ (if merge_updates keys cols = [] then []
           else '' WHEN MATCHED THEN UPDATE SET '' @ join '', '' (map side_by_side (merge_updates keys cols)))
        @ '' WHEN NOT MATCHED THEN INSERT ('' @ join '', '' (map quote_snowflake_ident cols) @ '') VALUES (''
        @ join '', '' (map (\<lambda>c. ''s.'' @ quote_snowflake_ident c) cols) @ '')'', fd_args cols r)"

definition build_snowflake_delete :: "string \<Rightarrow> string list \<Rightarrow> row \<Rightarrow> string \<times> gval list" where
  "build_snowflake_delete table keys r =
     (''DELETE FROM '' @ table @ '' WHERE '' @ join '' AND '' (map (\<lambda>k. quote_snowflake_ident k @ '' = ?'') keys),
      fd_args keys r)"

subsection \<open>Writing\<close>

definition fd_exec :: "'w fd_env \<Rightarrow> string \<times> gval list \<Rightarrow> ('st, 'w) my_sys \<Rightarrow> go_error option \<times> ('st, 'w) my_sys" where
  "fd_exec x q s =
     (case fx_exec x (fst q) (snd q) (mw_db (sy_world s)) of
        (e, w) \<Rightarrow> (e, s\<lparr>sy_world := (sy_world s)\<lparr>mw_db := w\<rparr>\<rparr>))"

definition fd_write_row ::
  "'w fd_env \<Rightarrow> fd_dest \<Rightarrow> row \<Rightarrow> ('st, 'w) my_sys \<Rightarrow> go_error option \<times> ('st, 'w) my_sys" where
  "fd_write_row x c r s =
     (let cols = sorted_columns (row_data r) in
      if cols = [] then (Some (ErrMsg ''snowflake destination: row has no columns''), s)
      else if fd_strategy c = ''merge'' then
        fd_exec x (build_snowflake_merge (qualified_table c) cols (fd_match c) r) s
      else if fd_strategy c = ''delete+insert'' then
        (case fd_exec x (build_snowflake_delete (qualified_table c) (fd_match c) r) s of
           (Some e, s1) \<Rightarrow> (Some e, s1)
         | (None, s1) \<Rightarrow> fd_exec x (build_snowflake_insert (qualified_table c) cols r) s1)
      else fd_exec x (build_snowflake_insert (qualified_table c) cols r) s)"

definition fd_truncate :: "'w fd_env \<Rightarrow> fd_dest \<Rightarrow> ('st, 'w) my_sys \<Rightarrow> go_error option \<times> ('st, 'w) my_sys" where
  "fd_truncate x c s =
     (let w = sy_world s; rid = fx_run_id x in
      if (if rid \<noteq> 0 then alookup (mw_truncated w) rid = Some True else mw_truncated_once w) then (None, s)
      else (case fd_exec x (''TRUNCATE TABLE IF EXISTS '' @ qualified_table c, []) s of
              (Some e, s1) \<Rightarrow> (Some e, s1)
            | (None, s1) \<Rightarrow>
                (None, s1\<lparr>sy_world := (if rid \<noteq> 0
                   then (sy_world s1)\<lparr>mw_truncated := aput rid True (mw_truncated (sy_world s1))\<rparr>
                   else (sy_world s1)\<lparr>mw_truncated_once := True\<rparr>)\<rparr>)))"

definition fd_checks :: "fd_dest \<Rightarrow> bool" where
  "fd_checks c \<longleftrightarrow> \<not> (fd_strategy c = ''append'' \<or> fd_strategy c = ''replace'')"

definition fd_row ::
  "'w fd_env \<Rightarrow> fd_dest \<Rightarrow> 'st store_ops \<Rightarrow> go_time \<Rightarrow> string \<Rightarrow> string \<Rightarrow> (row, 'st, 'w my_world) loop_step" where
  "fd_row x c ops now sy d r res s =
     (case poll s of
        (True, s1) \<Rightarrow> ((res, Some (Some ErrCanceled)), s1)
      | (False, s1) \<Rightarrow>
          (case (if fd_checks c then st_is_delivered ops (row_id r) sy d (sy_store s1) else Inr False) of
             Inl e \<Rightarrow> ((lr_add_error r e res, None), s1)
           | Inr True \<Rightarrow> ((lr_add_skip res, None), s1)
           | Inr False \<Rightarrow>
               if fd_checks c then send_row ops now (fd_write_row x c) sy d r res s1
               else (case fd_write_row x c r s1 of
                       (Some e, s2) \<Rightarrow> ((lr_add_error r e res, None), s2)
                     | (None, s2) \<Rightarrow> ((lr_add_loaded res, None), s2))))"

definition fd_load :: "'w fd_env \<Rightarrow> fd_dest \<Rightarrow> 'st store_ops \<Rightarrow> go_time \<Rightarrow> ('st, 'w my_world) loader" where
  "fd_load x c ops now rows sy d s =
     (case poll s of
        (True, s1) \<Rightarrow> ((lr_empty, Some ErrCanceled), s1)
      | (False, s1) \<Rightarrow>
          if \<not> fd_open c then ((lr_empty, Some (ErrMsg ''snowflake destination: not connected'')), s1)
          else if rows = [] then ((lr_empty, None), s1)
          else (case (if fd_strategy c = ''replace'' then fd_truncate x c s1 else (None, s1)) of
             (Some e, s2) \<Rightarrow> ((lr_empty, Some (ErrWrap ''snowflake destination: truncate'' e)), s2)
           | (None, s2) \<Rightarrow> each (fd_row x c ops now sy d) rows lr_empty s2))"

definition fd_close :: "(unit \<Rightarrow> go_error option) \<Rightarrow> fd_dest \<Rightarrow> go_error option \<times> fd_dest" where
  "fd_close cl c = (if fd_open c then (cl (), c\<lparr>fd_open := False\<rparr>) else (None, c))"

section \<open>The contract, with the strategies that mark\<close>

lemma fd_exec_frame [simp]: "sy_store (snd (fd_exec x q s)) = sy_store s" "sy_ctx (snd (fd_exec x q s)) = sy_ctx s"
  by (simp_all add: fd_exec_def split: prod.splits)

lemma fd_write_frame [simp]:
  "sy_store (snd (fd_write_row x c r s)) = sy_store s" "sy_ctx (snd (fd_write_row x c r s)) = sy_ctx s"
proof -
  obtain e s1 where q: "fd_exec x (build_snowflake_delete (qualified_table c) (fd_match c) r) s = (e, s1)" by fastforce
  have "sy_store s1 = sy_store s" "sy_ctx s1 = sy_ctx s"
    using fd_exec_frame [of x "build_snowflake_delete (qualified_table c) (fd_match c) r" s] q by simp_all
  then show "sy_store (snd (fd_write_row x c r s)) = sy_store s" "sy_ctx (snd (fd_write_row x c r s)) = sy_ctx s"
    by (simp_all add: fd_write_row_def Let_def q split: option.splits)
qed

definition fd_merging :: "fd_dest \<Rightarrow> fd_dest" where
  "fd_merging c = c\<lparr>fd_strategy := ''merge'', fd_open := True\<rparr>"

lemma fd_merging_simps [simp]: "fd_strategy (fd_merging c) = ''merge''" "fd_open (fd_merging c)" "fd_checks (fd_merging c)"
  by (simp_all add: fd_merging_def fd_checks_def)

lemma fd_load_one:
  "fd_load x (fd_merging c) ops now [r] sy d s
    = scanned_load True (\<lambda>_. None) ops (send_each ops now (fd_write_row x (fd_merging c))) [r] sy d s"
proof -
  obtain b s1 where p: "poll s = (b, s1)" by fastforce
  obtain b2 s2 where p2: "poll s1 = (b2, s2)" by fastforce
  show ?thesis
    by (cases b; cases b2; cases "st_is_delivered ops (row_id r) sy d (sy_store s2)")
      (auto simp: fd_load_def scanned_load_def send_each_def fd_row_def p p2 split: bool.splits prod.splits option.splits)
qed

context state_store
begin

lemma fd_row_frame:
  assumes "nul_free sy" "nul_free d"
  shows "same_states (sy_store s) (sy_store (snd (fd_row x (fd_merging c) ops now sy d r res s)))"
proof -
  obtain b s1 where p: "poll s = (b, s1)" by fastforce
  show ?thesis using send_row_frame [where send = "fd_write_row x (fd_merging c)", OF fd_write_frame(1) assms, of s1 now r res] poll_frameD [OF p]
    by (auto simp: fd_row_def p split: bool.splits sum.splits)
qed

lemma fd_contract: "counting_destination ops inv abs stored (fd_load x (fd_merging c) ops now)"
proof (rule one_row_contract [OF counting_writer.counted_contract [OF send_each_writer] fd_load_one])
  show "sy_ctx (snd (fd_write_row x (fd_merging c) r s)) = None" if "sy_ctx s = None"
    for r and s :: "('st, 'a my_world) sys" using that by simp
  show "same_states (sy_store s) (sy_store (snd (fd_load x (fd_merging c) ops now rows sy d s)))"
    if "nul_free sy" "nul_free d" for rows sy d s
  proof -
    obtain b s1 where p: "poll s = (b, s1)" by fastforce
    have "sy_store s1 = sy_store s" using poll_frameD [OF p] by simp
    then show ?thesis
      using each_frame [where step = "fd_row x (fd_merging c) ops now sy d", OF fd_row_frame [OF that], of s1 rows lr_empty]
      by (auto simp: fd_load_def p split: bool.splits)
  qed
qed simp_all

end

interpretation fd_mem: counting_destination mem_ops mem_inv mem_abs "\<lambda>p. p" "fd_load x (fd_merging c) mem_ops now"
  for x c now by (rule mem.fd_contract)

interpretation fd_sqlite: counting_destination sqlite_ops sq_inv sq_abs json_reload "fd_load x (fd_merging c) sqlite_ops now"
  for x c now by (rule sqlite.fd_contract)

section \<open>Properties\<close>

text \<open>As many arguments as question marks: the merge names every column once.\<close>

lemma fd_args_length:
  "length (snd (build_snowflake_insert t cols r)) = length cols"
  "length (snd (build_snowflake_merge t cols keys r)) = length cols"
  "length (snd (build_snowflake_delete t keys r)) = length keys"
  by (simp_all add: build_snowflake_insert_def build_snowflake_merge_def build_snowflake_delete_def fd_args_def)

lemma fd_refuses_upsert:
  assumes "cd_strategy cfg = ''upsert''" "trim_space (get_opt (cd_options cfg) ''table'') \<noteq> []"
  shows "fd_connect x cfg = Inl (ErrMsg (''snowflake destination: strategy '' @ quote_q ''upsert''
     @ '' unknown, valid: merge, append, replace, delete+insert''))"
proof -
  have st: "to_lower (trim_space (cd_strategy cfg)) = ''upsert''" using assms(1) by (simp only: upsert_trim)
  have n: "''upsert'' \<notin> set my_strategies" "(''upsert'' = []) = False" by (simp_all add: my_strategies_def)
  show ?thesis unfolding fd_connect_def Let_def
    by (simp only: st assms upsert_trim n if_True if_False not_False_eq_True)
qed

text \<open>
  A run can deliver neither to MySQL nor to Snowflake: the engine connects every
  destination with the strategy \<open>upsert\<close>, which both refuse, whatever the configuration says.
\<close>

theorem merging_destinations_refuse_runs:
  "(\<exists>m. my_dest_connect x (sync_dest_to_conn d) = Inl (ErrMsg m)) \<and> (\<exists>m. fd_connect y (sync_dest_to_conn d) = Inl (ErrMsg m))"
proof -
  have "cd_strategy (sync_dest_to_conn d) = ''upsert''" by (simp add: sync_dest_to_conn_def)
  then show ?thesis
    using mysql_dest_never_connects [of x d] fd_refuses_upsert [of "sync_dest_to_conn d" y]
    by (cases "trim_space (get_opt (cd_options (sync_dest_to_conn d)) ''table'') = []") (auto simp: fd_connect_def)
qed

end
