(* ===== verification/Replay.thy ===== *)
theory Replay
  imports Engine_Props Hubspot Salesforce Snowflake_Dest
begin

section \<open>Dead letters and their replay: cmd/dlq.go, cmd/replay.go\<close>

text \<open>
  The text of the dead-letter file that the engine writes, how the commands read it back, and the
  replay: the records are loaded again, one by one, under keys of their own. The file, the opening
  of the store and the connecting of the destination are parameters; what the command prints is
  its result.
\<close>

subsection \<open>The file\<close>

text \<open>One record as \<open>json.Marshal\<close> writes it; an error of the encoder leaves an empty line.\<close>

definition dlq_members :: "dlq_record \<Rightarrow> (string \<times> gval) list" where
  "dlq_members d =
     [(''row_id'', GStr (dq_row_id d)), (''sync_name'', GStr (dq_sync d)), (''entity_key'', GStr (dq_key d)),
      (''error'', GStr (dq_error d)), (''failed_at'', GTime (dq_failed_at d)), (''data'', GMap (dq_data d))]"

definition dlq_line :: "dlq_record \<Rightarrow> string" where
  "dlq_line d =
     (case all_some (map (\<lambda>(k, v). json_marshal v) (dlq_members d)) of
        None \<Rightarrow> []
      | Some ts \<Rightarrow> ''{'' @ join '','' (map (\<lambda>(k, s). json_string k @ '':'' @ s) (zip (map fst (dlq_members d)) ts)) @ ''}'')"

definition dlq_file :: "dlq_writer \<Rightarrow> string" where
  "dlq_file w = concat (map (\<lambda>l. (case l of None \<Rightarrow> [] | Some d \<Rightarrow> dlq_line d) @ [CHR 0x0A]) (dw_lines w))"

definition split_lines :: "string \<Rightarrow> string list" where
  "split_lines data = (let ls = split_char CHR 0x0A data in if last ls = [] then butlast ls else ls)"

text \<open>
  \<open>time.Time\<close> as a field: \<open>null\<close> leaves it zero; the text is read by the strict RFC 3339 parser,
  which wants two digits of the hour, no comma and an offset below 24 hours.
\<close>

definition strict_rfc3339 :: "string \<Rightarrow> bool" where
  "strict_rfc3339 s \<longleftrightarrow> 19 < length s \<and> s ! 12 \<noteq> CHR '':'' \<and> s ! 19 \<noteq> CHR '','' \<and>
     (last s = CHR ''Z'' \<or> read_int (take 2 (drop (length s - 5) s)) < 24)"

definition time_field :: "string \<Rightarrow> (string \<times> jval) list \<Rightarrow> go_time option" where
  "time_field name m =
     (case json_field name m of
        None \<Rightarrow> Some time_zero
      | Some JNull \<Rightarrow> Some time_zero
      | Some (JStr s) \<Rightarrow> if strict_rfc3339 s then time_parse rfc3339_nano_layout s else None
      | _ \<Rightarrow> None)"

definition map_field :: "string \<Rightarrow> (string \<times> jval) list \<Rightarrow> payload option" where
  "map_field name m =
     (case json_field name m of
        None \<Rightarrow> Some []
      | Some JNull \<Rightarrow> Some []
      | Some (JObj o1) \<Rightarrow> (case json_any (JObj o1) of Some (GMap d) \<Rightarrow> Some d | _ \<Rightarrow> None)
      | _ \<Rightarrow> None)"

definition read_dlq_record :: "string \<Rightarrow> dlq_record option" where
  "read_dlq_record line =
     (case parse_struct line of
        None \<Rightarrow> None
      | Some m \<Rightarrow>
          (case (all_some (map (\<lambda>n. string_field n m) [''row_id'', ''sync_name'', ''entity_key'', ''error'']),
                 time_field ''failed_at'' m, map_field ''data'' m) of
             (Some [i, s, k, e], Some t, Some d) \<Rightarrow>
               Some \<lparr>dq_row_id = i, dq_sync = s, dq_key = k, dq_error = e, dq_failed_at = t, dq_data = d\<rparr>
           | _ \<Rightarrow> None))"

text \<open>Lines that do not decode are passed over.\<close>

definition read_records :: "string \<Rightarrow> dlq_record list" where
  "read_records data =
     map the (filter (\<lambda>r. r \<noteq> None) (map read_dlq_record (filter (\<lambda>l. l \<noteq> []) (split_lines data))))"

text \<open>A file that does not exist is a file without records.\<close>

definition load_dlq_records :: "string option res \<Rightarrow> dlq_record list res" where
  "load_dlq_records file =
     (case file of Inl e \<Rightarrow> Inl e | Inr None \<Rightarrow> Inr [] | Inr (Some data) \<Rightarrow> Inr (read_records data))"

text \<open>\<open>dlq list\<close>: the number of the records and the first ten.\<close>

definition dlq_show :: "(string \<Rightarrow> string option res) \<Rightarrow> string \<Rightarrow> sync_spec \<Rightarrow> (int \<times> dlq_record list) res" where
  "dlq_show files flag spec =
     (let path = (if flag = [] then resolve_dlq_path (sp_name spec) (er_dlq_path (sp_errors spec)) else flag)
      in case load_dlq_records (files path) of
           Inl e \<Rightarrow> Inl e
         | Inr rs \<Rightarrow> Inr (int (length rs), take 10 rs))"

subsection \<open>The replay\<close>

text \<open>The configuration the command connects with: neither the match fields nor the options.\<close>

definition replay_dest_conn :: "dest_config \<Rightarrow> conn_dest" where
  "replay_dest_conn d =
     (sync_dest_to_conn d)\<lparr>cd_match_on := [], cd_strategy := [],
        cd_options := [(''object'', de_object d), (''table'', de_table d)]\<rparr>"

definition replay_fp :: "dlq_record \<Rightarrow> string" where
  "replay_fp d = fp_of (normalize_payload (dq_data d)) []"

definition replay_row :: "string \<Rightarrow> dlq_record \<Rightarrow> row" where
  "replay_row dest d =
     row_zero\<lparr>row_id := delivery_op_key (dq_sync d) dest (dq_key d) ''replay'' (replay_fp d),
       row_key := dq_key d, row_data := normalize_payload (dq_data d)\<rparr>"

definition replayed_state :: "sync_spec \<Rightarrow> go_time \<Rightarrow> dlq_record \<Rightarrow> entity_state option \<Rightarrow> entity_state" where
  "replayed_state spec now d old =
     \<lparr>es_sync = sp_name spec, es_dest = de_type (sp_dest spec), es_key = dq_key d,
      es_dest_id = (case old of None \<Rightarrow> [] | Some es \<Rightarrow> es_dest_id es),
      es_fp = replay_fp d, es_prev_fp = (case old of None \<Rightarrow> [] | Some es \<Rightarrow> es_fp es),
      es_payload = normalize_payload (dq_data d),
      es_prev_payload = (case old of None \<Rightarrow> [] | Some es \<Rightarrow> es_payload es),
      es_remembered = (case old of None \<Rightarrow> [] | Some es \<Rightarrow> es_remembered es),
      es_decision = ''replay'', es_status = ''success'', es_missing = 0,
      es_version = (case old of None \<Rightarrow> 0 | Some es \<Rightarrow> es_version es) + 1,
      es_created = time_zero, es_updated = now\<rparr>"

text \<open>One record; the counters of loaded rows and of errors are threaded.\<close>

definition replay_one ::
  "'st store_ops \<Rightarrow> ('st, 'w) loader \<Rightarrow> sync_spec \<Rightarrow> go_time \<Rightarrow> (int \<times> int) \<times> ('st, 'w) sys \<Rightarrow> dlq_record
     \<Rightarrow> (int \<times> int) \<times> ('st, 'w) sys" where
  "replay_one ops load spec now acc d =
     (let ((n, bad), s) = acc; dest = de_type (sp_dest spec) in
      case load [replay_row dest d] (sp_name spec) dest s of
        ((res, Some e), s1) \<Rightarrow> ((n + lr_loaded res, bad + 1), s1)
      | ((res, None), s1) \<Rightarrow>
          ((n + lr_loaded res, bad + int (length (lr_errors res))),
           if lr_loaded res > 0 \<and> lr_errors res = []
           then let old = (case st_get ops (sp_name spec) dest (dq_key d) (sy_store s1) of Inl _ \<Rightarrow> None | Inr es \<Rightarrow> es)
                in s1\<lparr>sy_store := snd (st_save ops now (replayed_state spec now d old) (sy_store s1))\<rparr>
           else s1))"

definition replay_all ::
  "'st store_ops \<Rightarrow> ('st, 'w) loader \<Rightarrow> sync_spec \<Rightarrow> go_time \<Rightarrow> dlq_record list \<Rightarrow> ('st, 'w) sys
     \<Rightarrow> (int \<times> int) res \<times> ('st, 'w) sys" where
  "replay_all ops load spec now ds s =
     (case st_begin ops (sy_store s) of
        (Inl e, st) \<Rightarrow> (Inl e, s\<lparr>sy_store := st\<rparr>)
      | (Inr _, st) \<Rightarrow>
          (case foldl (replay_one ops load spec now) ((0, 0), s\<lparr>sy_store := st\<rparr>) ds of
             (counts, s1) \<Rightarrow>
               (case st_commit ops (sy_store s1) of
                  (Inl e, st1) \<Rightarrow> (Inl e, s1\<lparr>sy_store := snd (st_rollback ops st1)\<rparr>)
                | (Inr _, st1) \<Rightarrow> (Inr counts, s1\<lparr>sy_store := st1\<rparr>))))"

record ('st, 'w) replay_env =
  rp_ops :: "'st store_ops"
  rp_open_store :: "go_error option"
  rp_registered :: "string \<Rightarrow> go_error option"
  rp_connect :: "conn_dest \<Rightarrow> ('st, 'w) loader res"
  rp_files :: "string \<Rightarrow> string option res"
  rp_now :: go_time

datatype replay_result =
    NothingToReplay string
  | WouldReplay "dlq_record list"
  | Replayed int int

text \<open>The records: the stored payload of one entity, or those of a file.\<close>

definition replay_records ::
  "('st, 'w) replay_env \<Rightarrow> sync_spec \<Rightarrow> string \<Rightarrow> string \<Rightarrow> 'st \<Rightarrow> (string \<times> dlq_record list) res" where
  "replay_records x spec key file st =
     (if key \<noteq> [] then
        (case rp_open_store x of
           Some e \<Rightarrow> Inl e
         | None \<Rightarrow>
             (case st_get (rp_ops x) (sp_name spec) (de_type (sp_dest spec)) key st of
                Inl e \<Rightarrow> Inl (ErrWrap ''get entity state'' e)
              | Inr None \<Rightarrow> Inl (ErrMsg (''entity '' @ quote_q key @ '' not found in state for sync '' @ quote_q (sp_name spec)))
              | Inr (Some es) \<Rightarrow>
                  Inr ([], [\<lparr>dq_row_id = [], dq_sync = sp_name spec, dq_key = key, dq_error = [],
                        dq_failed_at = time_zero, dq_data = es_payload es\<rparr>])))
      else let path = (if file = [] then resolve_dlq_path (sp_name spec) (resolved_dlq_path (sp_errors spec)) else file)
           in map_sum id (\<lambda>rs. (path, rs)) (load_dlq_records (rp_files x path)))"

definition run_replay ::
  "('st, 'w) replay_env \<Rightarrow> sync_spec res \<Rightarrow> string \<Rightarrow> string \<Rightarrow> bool \<Rightarrow> ('st, 'w) sys
     \<Rightarrow> replay_result res \<times> ('st, 'w) sys" where
  "run_replay x loaded key file dry s =
     (case loaded of
        Inl e \<Rightarrow> (Inl e, s)
      | Inr spec \<Rightarrow>
          (case validate_sync spec of
             Inl e \<Rightarrow> (Inl e, s)
           | Inr _ \<Rightarrow>
               (case replay_records x spec key file (sy_store s) of
                  Inl e \<Rightarrow> (Inl e, s)
                | Inr (path, ds) \<Rightarrow>
                    if ds = [] then (Inr (NothingToReplay path), s)
                    else if dry then (Inr (WouldReplay ds), s)
                    else (case rp_registered x (de_type (sp_dest spec)) of
                            Some e \<Rightarrow> (Inl (ErrWrap ''destination'' e), s)
                          | None \<Rightarrow>
                              (case rp_open_store x of
                                 Some e \<Rightarrow> (Inl e, s)
                               | None \<Rightarrow>
                                   (case rp_connect x (replay_dest_conn (sp_dest spec)) of
                                      Inl e \<Rightarrow> (Inl (ErrWrap ''destination connect'' e), s)
                                    | Inr load \<Rightarrow>
                                        (case replay_all (rp_ops x) load spec (rp_now x) ds s of
                                           (Inl e, s1) \<Rightarrow> (Inl e, s1)
                                         | (Inr (n, bad), s1) \<Rightarrow> (Inr (Replayed n bad), s1))))))))"

section \<open>The file is read back\<close>

definition newline_free :: "string \<Rightarrow> bool" where
  "newline_free s \<longleftrightarrow> CHR 0x0A \<notin> set s"

lemma newline_free_simps [simp]:
  "newline_free []" "newline_free (c # s) \<longleftrightarrow> c \<noteq> CHR 0x0A \<and> newline_free s"
  "newline_free (s @ t) \<longleftrightarrow> newline_free s \<and> newline_free t"
  by (auto simp: newline_free_def)

lemma newline_free_join: "list_all newline_free ss \<Longrightarrow> newline_free (join '','' ss)"
  by (induction ss rule: induct_list012) auto

lemma hex_digit_newline: "n < 16 \<Longrightarrow> hex_digit n \<noteq> CHR 0x0A"
proof
  assume n: "n < 16" "hex_digit n = CHR 0x0A"
  then have "hex_value (CHR 0x0A) = Some n" using hex_value_digit [of n] by simp
  then show False by (simp add: hex_value_def)
qed

lemma newline_free_escape: "newline_free (json_escape c)"
proof -
  have "(of_char c :: nat) div 16 < 16" by (simp add: less_mult_imp_div_less)
  then have "hex_digit ((of_char c :: nat) div 16) \<noteq> CHR 0x0A" "hex_digit ((of_char c :: nat) mod 16) \<noteq> CHR 0x0A"
    by (auto intro!: hex_digit_newline)
  moreover have "c \<noteq> CHR 0x0A" if "(of_char c :: nat) \<noteq> 10" using that by auto
  ultimately show ?thesis by (auto simp: json_escape_def Let_def)
qed

lemma newline_free_string: "newline_free (json_string s)"
  using newline_free_escape by (induction s) (auto simp: json_string_def newline_free_def)

lemma newline_free_int: "newline_free (dec_int i)"
proof -
  have "\<not> is_digit (CHR 0x0A)" by (simp add: is_digit_of_char)
  then have "newline_free (dec_pos j)" if "0 \<le> j" for j
    using dec_pos_digits [OF that] by (auto simp: newline_free_def)
  then show ?thesis by (simp add: dec_int_def)
qed

lemma newline_free_marshal: "json_plain v \<Longrightarrow> json_marshal v = Some t \<Longrightarrow> newline_free t"
proof (induction v arbitrary: t rule: json_plain.induct)
  case (3 m)
  obtain es where es: "map (\<lambda>(k, v). json_marshal v) m = map Some es"
    "t = ''{'' @ join '','' (map (\<lambda>(k, s). json_string k @ '':'' @ s) (sort_key fst (zip (map fst m) es))) @ ''}''"
    using "3.prems"(2) by (auto simp: all_some_Some)
  have "\<forall>e \<in> set es. newline_free e"
  proof
    fix e assume "e \<in> set es"
    then have "Some e \<in> set (map (\<lambda>(k, v). json_marshal v) m)" using es(1) by simp
    then obtain k v where "(k, v) \<in> set m" "json_marshal v = Some e" by auto
    then show "newline_free e" using "3.IH" [of "(k, v)" k v e] "3.prems"(1) by (auto simp: list_all_iff)
  qed
  then have "\<forall>p \<in> set (sort_key fst (zip (map fst m) es)). newline_free (snd p)" by (auto dest: set_zip_rightD)
  then have "newline_free (join '','' (map (\<lambda>(k, s). json_string k @ '':'' @ s) (sort_key fst (zip (map fst m) es))))"
    by (intro newline_free_join) (auto simp: list_all_iff newline_free_string)
  then show ?case by (simp add: es(2))
next
  case (4 xs)
  obtain es where es: "map json_marshal xs = map Some es" "t = ''['' @ join '','' es @ '']''"
    using "4.prems"(2) by (auto simp: all_some_Some)
  have "list_all newline_free es"
    unfolding list_all_iff
  proof
    fix e assume "e \<in> set es"
    then have "Some e \<in> set (map json_marshal xs)" using es(1) by simp
    then obtain v where "v \<in> set xs" "json_marshal v = Some e" by auto
    then show "newline_free e" using "4.IH" [of v e] "4.prems"(1) by (auto simp: list_all_iff)
  qed
  then show ?case by (simp add: es(2) newline_free_join)
qed (auto simp: newline_free_string newline_free_int split: option.splits)

lemma split_lines_file:
  assumes "\<forall>l \<in> set ls. newline_free l"
  shows "split_lines (concat (map (\<lambda>l. l @ [CHR 0x0A]) ls)) = ls"
proof -
  have "split_char (CHR 0x0A) (concat (map (\<lambda>l. l @ [CHR 0x0A]) ls)) = ls @ [[]]" using assms
    by (induction ls) (simp_all add: split_char_append_sep newline_free_def)
  then show ?thesis by (simp add: split_lines_def)
qed

text \<open>A printed time passes the strict parser.\<close>

lemma pad_two:
  assumes "0 \<le> n" "n \<le> 99"
  obtains c d where "pad_int 2 n = [c, d]" "is_digit d"
proof -
  note f = pad_int_facts [of n 2, simplified]
  obtain c d where p: "pad_int 2 n = [c, d]" using f(1) assms by (auto simp: length_Suc_conv numeral_2_eq_2)
  moreover have "is_digit d" using f(2) assms p by simp
  ultimately show ?thesis using that by blast
qed

lemma strict_printed_time:
  assumes "civil (t div (86400 * second_ns)) = (y, m, d)" "0 \<le> y" "y \<le> 9999"
  shows "strict_rfc3339 (rfc3339_nano t)"
proof -
  define sc where "sc = (t div second_ns) mod 86400"
  have b: "0 \<le> sc" "sc < 86400" by (simp_all add: sc_def)
  note v = civil_valid [OF assms(1)]
  have "days_in m y \<le> 31" by (simp add: days_in_def)
  then have d: "0 \<le> d" "d \<le> 99" using v(4,5) by simp_all
  have m0: "0 \<le> m" "m \<le> 99" using v(2,3) by simp_all
  obtain y1 y2 y3 y4 where y: "pad_int 4 y = [y1, y2, y3, y4]"
    using pad_int_facts(1) [of y 4] assms by (auto simp: length_Suc_conv eval_nat_numeral)
  obtain m1 m2 where m: "pad_int 2 m = [m1, m2]" using m0 by (auto elim: pad_two [of m])
  obtain d1 d2 where dd: "pad_int 2 d = [d1, d2]" using d by (auto elim: pad_two [of d])
  have hb: "0 \<le> sc div 3600" "sc div 3600 \<le> 99" using b by simp_all
  obtain h1 h2 where h: "pad_int 2 (sc div 3600) = [h1, h2]" "is_digit h2"
    using hb by (auto elim: pad_two [of "sc div 3600"])
  have ib: "0 \<le> sc div 60 mod 60" "sc div 60 mod 60 \<le> 99" "0 \<le> sc mod 60" "sc mod 60 \<le> 99"
    using pos_mod_bound [of 60 "sc div 60"] pos_mod_bound [of 60 sc] by simp_all
  obtain i1 i2 where i: "pad_int 2 (sc div 60 mod 60) = [i1, i2]" using pad_two [OF ib(1,2)] by blast
  obtain s1 s2 where s: "pad_int 2 (sc mod 60) = [s1, s2]" using pad_two [OF ib(3,4)] by blast
  have printed: "rfc3339_nano t = [y1, y2, y3, y4, CHR ''-'', m1, m2, CHR ''-'', d1, d2, CHR ''T'', h1, h2, CHR '':'',
      i1, i2, CHR '':'', s1, s2] @ fmt_frac t @ ''Z''"
    using assms y m dd h(1) i s by (simp add: rfc3339_nano_def fmt_date_def fmt_year_def fmt_clock_def Let_def sc_def)
  have frac: "fmt_frac t = [] \<or> (\<exists>f. fmt_frac t = CHR ''.'' # f)" by (simp add: fmt_frac_def Let_def)
  have "h2 \<noteq> CHR '':''" using h(2) by (auto simp: is_digit_of_char)
  then show ?thesis using frac by (auto simp: strict_rfc3339_def printed)
qed

lemma reads_record:
  assumes "json_plain (GMap (dq_data d))" "json_marshal (GMap (dq_data d)) = Some t"
  shows "reads (GMap (dlq_members d)) (dlq_line d)" "newline_free (dlq_line d)" "dlq_line d \<noteq> []"
proof -
  let ?ts = "[json_string (dq_row_id d), json_string (dq_sync d), json_string (dq_key d), json_string (dq_error d),
    json_string (rfc3339_nano (dq_failed_at d)), t]"
  have ts: "all_some (map (\<lambda>(k, v). json_marshal v) (dlq_members d)) = Some ?ts"
    using assms(2) by (simp add: dlq_members_def del: json_marshal.simps(8))
  have line: "dlq_line d = ''{'' @ join '','' (map (\<lambda>(k, s). json_string k @ '':'' @ s) (zip (map fst (dlq_members d)) ?ts)) @ ''}''"
    unfolding dlq_line_def ts by simp
  have "list_all2 reads (map snd (dlq_members d)) ?ts"
    using reads_marshal [OF assms] by (simp add: dlq_members_def reads_string)
  then show "reads (GMap (dlq_members d)) (dlq_line d)" unfolding line by (rule reads_map)
  have "newline_free t" by (rule newline_free_marshal [OF assms])
  then have "list_all newline_free (map (\<lambda>(k, s). json_string k @ '':'' @ s) (zip (map fst (dlq_members d)) ?ts))"
    by (simp add: dlq_members_def newline_free_string)
  then show "newline_free (dlq_line d)" unfolding line by (simp add: newline_free_join)
  show "dlq_line d \<noteq> []" by (simp add: line)
qed

text \<open>The record that is read back: the data through JSON, everything else as it was.\<close>

definition reloaded_record :: "dlq_record \<Rightarrow> dlq_record" where
  "reloaded_record d = d\<lparr>dq_data := json_reload (dq_data d)\<rparr>"

lemma read_line:
  assumes "json_plain (GMap (dq_data d))" "json_marshal (GMap (dq_data d)) = Some t"
    "fst (civil (dq_failed_at d div (86400 * second_ns))) \<in> {0..9999}"
  shows "read_dlq_record (dlq_line d) = Some (reloaded_record d)"
proof -
  have "json_val (2 * length (dlq_line d)) (dlq_line d @ []) = Some (jval_of (GMap (dlq_members d)), [])"
    by (rule readsD [OF reads_record(1) [OF assms(1,2)]]) (simp_all add: value_end_def)
  then have p: "parse_struct (dlq_line d) = Some (map (\<lambda>(k, v). (k, jval_of v)) (dlq_members d))"
    by (simp add: parse_struct_def json_parse_def skip_space_def struct_members_def)
  have low: "to_lower ''row_id'' = ''row_id''" "to_lower ''sync_name'' = ''sync_name''"
    "to_lower ''entity_key'' = ''entity_key''" "to_lower ''error'' = ''error''"
    "to_lower ''failed_at'' = ''failed_at''" "to_lower ''data'' = ''data''" by code_simp+
  let ?m = "map (\<lambda>(k, v). (k, jval_of v)) (dlq_members d)"
  have f: "json_field ''row_id'' ?m = Some (JStr (dq_row_id d))" "json_field ''sync_name'' ?m = Some (JStr (dq_sync d))"
    "json_field ''entity_key'' ?m = Some (JStr (dq_key d))" "json_field ''error'' ?m = Some (JStr (dq_error d))"
    "json_field ''failed_at'' ?m = Some (JStr (rfc3339_nano (dq_failed_at d)))"
    "json_field ''data'' ?m = Some (jval_of (GMap (dq_data d)))"
    by (simp_all add: json_field_def dlq_members_def low del: jval_of.simps(8)) 
  obtain y m da where c: "civil (dq_failed_at d div (86400 * second_ns)) = (y, m, da)" by (metis prod_cases3)
  have time: "time_field ''failed_at'' ?m = Some (dq_failed_at d)"
    using parse_rfc3339_nano [OF c] strict_printed_time [OF c] assms(3) c by (simp add: time_field_def f)
  have data: "map_field ''data'' ?m = Some (json_reload (dq_data d))"
  proof -
    obtain o1 where o1: "jval_of (GMap (dq_data d)) = JObj o1" by simp
    then have "json_any (JObj o1) = Some (json_value (GMap (dq_data d)))" using json_any_jval [OF assms(1)] by simp
    then show ?thesis using f(6) assms(2)
      by (simp add: map_field_def json_reload_def o1 del: json_any.simps json_marshal.simps jval_of.simps)
  qed
  show ?thesis
    by (simp add: read_dlq_record_def p string_field_def f time data reloaded_record_def)
qed

section \<open>Properties\<close>

definition plain_record :: "dlq_record \<Rightarrow> bool" where
  "plain_record d \<longleftrightarrow> json_plain (GMap (dq_data d)) \<and> json_marshal (GMap (dq_data d)) \<noteq> None
     \<and> fst (civil (dq_failed_at d div (86400 * second_ns))) \<in> {0..9999}"

text \<open>
  Property C37. The commands read back every record the engine wrote into the dead-letter file, in
  order, whatever line breaks and quotes it holds: keys, error texts and times unchanged, the data
  with its integers as doubles and its times as text. An empty line, left by a record that did not
  encode, is passed over.
\<close>

theorem dead_letters_read_back:
  assumes "\<forall>l \<in> set (dw_lines w). \<forall>d. l = Some d \<longrightarrow> plain_record d"
  shows "load_dlq_records (Inr (Some (dlq_file w))) = Inr (map (reloaded_record \<circ> the) (filter (\<lambda>l. l \<noteq> None) (dw_lines w)))"
proof -
  let ?text = "\<lambda>l. case l of None \<Rightarrow> [] | Some d \<Rightarrow> dlq_line d"
  have line: "newline_free (?text l) \<and> (?text l \<noteq> [] \<longleftrightarrow> l \<noteq> None)
      \<and> (\<forall>d. l = Some d \<longrightarrow> read_dlq_record (dlq_line d) = Some (reloaded_record d))"
    if "l \<in> set (dw_lines w)" for l
  proof (cases l)
    case (Some d)
    then have "plain_record d" using assms that by blast
    then show ?thesis using reads_record [of d] read_line [of d] Some by (auto simp: plain_record_def)
  qed simp
  have "split_lines (dlq_file w) = map ?text (dw_lines w)"
    using split_lines_file [of "map ?text (dw_lines w)"] line by (simp add: dlq_file_def comp_def)
  moreover have "map the (filter (\<lambda>r. r \<noteq> None) (map read_dlq_record (filter (\<lambda>l. l \<noteq> []) (map ?text ls))))
      = map (reloaded_record \<circ> the) (filter (\<lambda>l. l \<noteq> None) ls)" if "set ls \<subseteq> set (dw_lines w)" for ls
    using that by (induction ls) (auto dest: line split: option.splits)
  ultimately show ?thesis by (simp add: load_dlq_records_def read_records_def)
qed

definition odd_record :: dlq_record where
  "odd_record = \<lparr>dq_row_id = ''r'', dq_sync = ''crm'', dq_key = [CHR 0x22, CHR 0x0A], dq_error = ''status 500'',
     dq_failed_at = 1709194272500000000, dq_data = [(''amount'', GInt 1500000), (''name'', GStr [CHR 0x0A])]\<rparr>"

theorem dead_letters_read_back_witness:
  "load_dlq_records (Inr (Some (dlq_file \<lparr>dw_path = ''p'', dw_sync = ''crm'', dw_count = 2,
      dw_lines = [Some odd_record, None], dw_fault = None\<rparr>))) = Inr [reloaded_record odd_record]"
proof -
  have "json_plain (GMap (dq_data odd_record)) \<and> json_marshal (GMap (dq_data odd_record)) \<noteq> None
     \<and> fst (civil (dq_failed_at odd_record div (86400 * second_ns))) = 2024" by code_simp
  then have "plain_record odd_record" by (simp add: plain_record_def)
  then show ?thesis
    using dead_letters_read_back [of "\<lparr>dw_path = ''p'', dw_sync = ''crm'', dw_count = 2,
      dw_lines = [Some odd_record, None], dw_fault = None\<rparr>"] by simp
qed

text \<open>
  A replay can connect to none of the destinations that need their match field or an
  option of their own: the command passes neither, so databases, CRMs, Klaviyo, Mixpanel and Google
  Sheets refuse every replay with an error of the configuration, although a run accepts it.
\<close>

lemma replay_never_connects:
  "(\<exists>e. fst (Postgres_Dest.pg_connect x1 (replay_dest_conn d) w) = Inl e)
   \<and> (\<exists>e. my_dest_connect x2 (replay_dest_conn d) = Inl e)
   \<and> (\<exists>e. fd_connect x3 (replay_dest_conn d) = Inl e)
   \<and> (\<exists>e. sf_connect x4 (replay_dest_conn d) = Inl e)
   \<and> (\<exists>e. zendesk_connect x4 (replay_dest_conn d) = Inl e)
   \<and> (\<exists>e. intercom_connect x4 (replay_dest_conn d) = Inl e)
   \<and> (\<exists>e. pipedrive_connect x4 (replay_dest_conn d) = Inl e)
   \<and> (\<exists>e. klaviyo_connect x4 (replay_dest_conn d) = Inl e)
   \<and> (\<exists>e. mixpanel_connect x4 (replay_dest_conn d) = Inl e)
   \<and> (\<exists>e. sheets_connect x5 (replay_dest_conn d) = Inl e)"
proof -
  let ?c = "replay_dest_conn d"
  have empty: "trim_space [] = []" "to_lower [] = []" "split_match_on [] = []" by code_simp+
  have conf: "cd_match_on ?c = []" "cd_strategy ?c = []" "get_opt (cd_options ?c) ''project_token'' = []"
    "get_opt (cd_options ?c) ''spreadsheet_id'' = []"
    by (simp_all add: replay_dest_conn_def get_opt_def)
  note simps = conf empty Let_def my_strategies_def
  have "(\<exists>e. fst (Postgres_Dest.pg_connect x1 ?c w) = Inl e)" by (simp add: Postgres_Dest.pg_connect_def simps)
  moreover have "(\<exists>e. my_dest_connect x2 ?c = Inl e)" by (simp add: my_dest_connect_def simps)
  moreover have "(\<exists>e. fd_connect x3 ?c = Inl e)" by (simp add: fd_connect_def simps)
  moreover have "(\<exists>e. sf_connect x4 ?c = Inl e)" by (simp add: sf_connect_def simps)
  moreover have "(\<exists>e. zendesk_connect x4 ?c = Inl e)" by (simp add: zendesk_connect_def simps)
  moreover have "(\<exists>e. intercom_connect x4 ?c = Inl e)" by (simp add: intercom_connect_def simps)
  moreover have "(\<exists>e. pipedrive_connect x4 ?c = Inl e)" by (simp add: pipedrive_connect_def simps split: option.splits)
  moreover have "(\<exists>e. klaviyo_connect x4 ?c = Inl e)" by (simp add: klaviyo_connect_def simps)
  moreover have "(\<exists>e. mixpanel_connect x4 ?c = Inl e)" by (simp add: mixpanel_connect_def simps)
  moreover have "(\<exists>e. sheets_connect x5 ?c = Inl e)" by (simp add: sheets_connect_def simps)
  ultimately show ?thesis by blast
qed

context destination
begin

lemma replay_one_marks:
  assumes "inv (sy_store s)" "nul_free (sp_name spec)" "nul_free (de_type (sp_dest spec))"
    "replay_one ops load spec now ((n, bad), s) d = ((n', bad'), s')" "n < n'"
  shows "inv (sy_store s') \<and>
    ab_is_delivered (abs (sy_store s')) (row_id (replay_row (de_type (sp_dest spec)) d), sp_name spec, de_type (sp_dest spec))"
proof -
  let ?r = "replay_row (de_type (sp_dest spec)) d"
  obtain res err s1 where l: "load [?r] (sp_name spec) (de_type (sp_dest spec)) s = ((res, err), s1)" by (metis surj_pair)
  have n: "n' = n + lr_loaded res" using assms(4) by (auto simp: replay_one_def l split: option.splits)
  have i1: "inv (sy_store s1)" and m1: "ab_is_delivered (abs (sy_store s1)) (row_id ?r, sp_name spec, de_type (sp_dest spec))"
    using load_frame [OF assms(1-3) l] load_marks [OF assms(1-3) l] n assms(5) by simp_all
  show ?thesis
  proof (cases "s' = s1")
    case False
    define old where "old = (case st_get ops (sp_name spec) (de_type (sp_dest spec)) (dq_key d) (sy_store s1) of
        Inl _ \<Rightarrow> None | Inr es \<Rightarrow> es)"
    have s': "s' = s1\<lparr>sy_store := snd (st_save ops now (replayed_state spec now d old) (sy_store s1))\<rparr>"
      using assms(4) False by (auto simp: replay_one_def l old_def Let_def split: option.splits if_splits)
    obtain r st where v: "st_save ops now (replayed_state spec now d old) (sy_store s1) = (r, st)" by fastforce
    have "inv st \<and> (abs st = abs (sy_store s1) \<or> abs st = ab_save (es_stored stored (replayed_state spec now d old)) (abs (sy_store s1)))"
    proof (cases r)
      case (Inl e)
      then show ?thesis using save_error [OF i1] v by simp
    next
      case (Inr u)
      then have w: "st_save ops now (replayed_state spec now d old) (sy_store s1) = (Inr (), st)" using v by simp
      show ?thesis using save_law [OF i1 _ _ w] assms(2,3) by (simp add: replayed_state_def)
    qed
    then show ?thesis using m1 s' v by (auto simp: ab_save_def ab_is_delivered_def)
  qed (use i1 m1 in simp)
qed

lemma replay_one_skips:
  assumes "inv (sy_store s)" "nul_free (sp_name spec)" "nul_free (de_type (sp_dest spec))" "sy_ctx s = None"
    "st_is_delivered ops (row_id (replay_row (de_type (sp_dest spec)) d)) (sp_name spec) (de_type (sp_dest spec)) (sy_store s)
      = Inr True"
    "replay_one ops load spec now ((n, bad), s) d = (counts, s')"
  shows "counts = (n, bad) \<and> sy_store s' = sy_store s \<and> sy_world s' = sy_world s"
proof -
  obtain res err s1 where l: "load [replay_row (de_type (sp_dest spec)) d] (sp_name spec) (de_type (sp_dest spec)) s
      = ((res, err), s1)" by (metis surj_pair)
  show ?thesis using load_delivered [OF assms(1-3,5) l] assms(4,6) by (auto simp: replay_one_def l split: option.splits)
qed

end

context counting_destination
begin

lemma replay_one_ctx:
  assumes "sy_ctx s = None" "replay_one ops load spec now acc0 d = (counts, s')" "acc0 = (c0, s)"
  shows "sy_ctx s' = None"
proof -
  obtain res err s1 where l: "load [replay_row (de_type (sp_dest spec)) d] (sp_name spec) (de_type (sp_dest spec)) s
      = ((res, err), s1)" by (metis surj_pair)
  obtain n bad where "c0 = (n, bad)" by fastforce
  then show ?thesis using load_counts [OF assms(1) l] assms(2,3)
    by (auto simp: replay_one_def l Let_def split: option.splits if_splits)
qed

end

lemma mem_begins: "\<exists>st. st_begin mem_ops s = (Inr (), st)"
  by (simp add: mem_ops_def mem_begin_def)

lemma mem_commits: "\<exists>st. st_commit mem_ops s = (Inr (), st)"
  by (simp add: mem_ops_def mem_commit_def)


definition sample_letter :: dlq_record where
  "sample_letter = \<lparr>dq_row_id = ''r'', dq_sync = ''crm'', dq_key = ''7'', dq_error = ''status 500'',
     dq_failed_at = 900, dq_data = [(''id'', GInt 7)]\<rparr>"

lemma sample_replay:
  "\<exists>s1. replay_all mem_ops (rest_load (status_http 200) sample_conn mem_ops 1000) sample_spec 1000 [sample_letter] sample_sys
   = (Inr (1, 0), s1)"
proof -
  obtain st0 where b: "st_begin mem_ops (sy_store sample_sys) = (Inr (), st0)" using mem_begins by blast
  then have e: "ms_deliveries st0 = []" "ms_pending st0 = []" "quiet_sys (sample_sys\<lparr>sy_store := st0\<rparr>)"
    using quiet_sample by (auto simp: mem_ops_def mem_begin_def sample_sys_def new_mem_store_def quiet_sys_def)
  have "\<exists>body. json_marshal (GMap (row_data (replay_row (de_type (sp_dest sample_spec)) sample_letter))) = Some body"
    by (simp add: replay_row_def sample_letter_def normalize_payload_def)
  then obtain res y where l: "rest_load (status_http 200) sample_conn mem_ops 1000
      [replay_row (de_type (sp_dest sample_spec)) sample_letter] (sp_name sample_spec) (de_type (sp_dest sample_spec))
      (sample_sys\<lparr>sy_store := st0\<rparr>) = ((res, None), y)" "lr_loaded res = 1" "lr_errors res = []"
    using sample_load_one(1) [of "sample_sys\<lparr>sy_store := st0\<rparr>"] e by fastforce
  obtain t where o: "replay_one mem_ops (rest_load (status_http 200) sample_conn mem_ops 1000) sample_spec 1000
      ((0, 0), sample_sys\<lparr>sy_store := st0\<rparr>) sample_letter = ((1, 0), t)"
    using l by (auto simp: replay_one_def Let_def)
  obtain st1 where "st_commit mem_ops (sy_store t) = (Inr (), st1)" using mem_commits by blast
  then show ?thesis using o unfolding replay_all_def b by simp
qed


text \<open>
  A delete that failed is a dead letter without its action: its replay writes the entity instead of
  deleting it.
\<close>

lemma replay_forgets_delete:
  assumes "dlq_write now (delete_row es) key err (Some w) = Some w'" "dw_fault w = None"
    "json_marshal (GMap (es_payload es)) \<noteq> None"
  shows "hs_deletes (delete_row es)"
    and "\<exists>d. last (dw_lines w') = Some d \<and> dq_data d = es_payload es \<and> \<not> hs_deletes (replay_row dest d)"
  using assms by (auto simp: hs_deletes_def delete_row_def dlq_write_def replay_row_def row_zero_def Let_def)

end
