(* ===== verification/Preview.thy ===== *)
theory Preview
  imports Engine_Props
begin

section \<open>The commands that predict a run: cmd/explain.go, cmd/diff.go\<close>

text \<open>
  Both extract the source, decide as the engine would, and change nothing: \<open>explain\<close> for one
  entity, \<open>diff\<close> for all rows and the entities that the source no longer has. The source is a
  parameter: connecting fails, or gives the rows it sends and the error it ends with. The result is
  the record that the commands print.
\<close>

record 'st preview_env =
  pv_ops :: "'st store_ops"
  pv_open :: "go_error option"
  pv_source :: "conn_source \<Rightarrow> (row list \<times> go_error option) res"
  pv_done :: bool
  pv_now :: go_time

subsection \<open>What both share\<close>

definition is_archive_destination :: "string \<Rightarrow> bool" where
  "is_archive_destination d \<longleftrightarrow> d = ''hubspot''"

definition preview_include_set :: "string list \<Rightarrow> string list option" where
  "preview_include_set inc = (if inc = [] then None else Some inc)"

definition preview_fp_fields :: "payload \<Rightarrow> string list option \<Rightarrow> payload" where
  "preview_fp_fields data inc =
     (case inc of None \<Rightarrow> data | Some fs \<Rightarrow> filter (\<lambda>(k, v). k \<in> set fs) data)"

definition preview_mapping :: "payload \<Rightarrow> mapping_entry list \<Rightarrow> payload" where
  "preview_mapping data mapping =
     (if mapping = [] then data
      else foldl (\<lambda>out m. case alookup data (me_source m) of
                            None \<Rightarrow> out | Some v \<Rightarrow> aput (dest_name m) v out) [] mapping)"

definition preview_fp :: "sync_spec \<Rightarrow> payload \<Rightarrow> string" where
  "preview_fp spec mapped =
     fp_of (preview_fp_fields mapped (preview_include_set (fc_include (sc_fingerprint (sp_state spec)))))
       (map dest_name (filter me_exclude (sp_mapping spec)) @ fc_exclude (sc_fingerprint (sp_state spec)))"

text \<open>The input of the decision; the stored payload is normalised once more.\<close>

definition preview_input :: "sync_spec \<Rightarrow> payload \<Rightarrow> entity_state option \<Rightarrow> decision_input" where
  "preview_input spec mapped es =
     (let prev_fp = (case es of None \<Rightarrow> [] | Some x \<Rightarrow> es_fp x);
          prev = (case es of None \<Rightarrow> [] | Some x \<Rightarrow> normalize_payload (es_payload x)) in
      \<lparr>in_first_seen = (es = None), in_fp_changed = (preview_fp spec mapped \<noteq> prev_fp),
       in_diff = diff_compute prev mapped, in_previous = prev, in_current = mapped,
       in_remembered = (case es of None \<Rightarrow> [] | Some x \<Rightarrow> es_remembered x)\<rparr>)"

definition row_entity_key :: "sync_spec \<Rightarrow> row \<Rightarrow> string" where
  "row_entity_key spec r = sprint_v (get_or_nil (row_data r) (so_entity_key (sp_source spec)))"

definition preview_checker :: "'st preview_env \<Rightarrow> sync_spec \<Rightarrow> string \<Rightarrow> 'st \<Rightarrow> rule_checker" where
  "preview_checker x spec key st =
     Some (\<lambda>rule. st_has_fired (pv_ops x) (sp_name spec) (de_type (sp_dest spec)) key rule st)"

subsection \<open>explain\<close>

record explain_missing =
  xm_consecutive :: int
  xm_threshold :: int
  xm_action :: string
  xm_allow :: bool
  xm_blocked :: bool

record explain_safety =
  xl_creates :: int
  xl_updates :: int
  xl_deletes :: int
  xl_approval :: f64

record history_item =
  hi_run :: int
  hi_decision :: string
  hi_rules :: "string list"
  hi_reasons :: "string list"
  hi_at :: string

record explain_output =
  xo_key :: string
  xo_sync :: string
  xo_dest :: string
  xo_url :: string
  xo_dest_id :: string
  xo_idempotency :: string
  xo_version :: int
  xo_last_decision :: string
  xo_last_status :: string
  xo_updated :: string
  xo_found :: bool
  xo_decision :: string
  xo_missing :: "explain_missing option"
  xo_rules :: "rule_trace list"
  xo_changes :: diff_result
  xo_remembered :: payload
  xo_safety :: "explain_safety option"
  xo_history :: "history_item list"

text \<open>\<open>explainFetchCurrentRow\<close>: the first row of the entity, mapped, and the error of the extraction.\<close>

definition explain_fetch :: "'st preview_env \<Rightarrow> sync_spec \<Rightarrow> string \<Rightarrow> payload option \<times> go_error option" where
  "explain_fetch x spec key =
     (case pv_source x (sync_src_to_conn (sp_source spec)) of
        Inl e \<Rightarrow> (None, Some e)
      | Inr (rows, err) \<Rightarrow>
          (map_option (\<lambda>r. normalize_payload (preview_mapping (row_data r) (sp_mapping spec)))
             (find (\<lambda>r. row_entity_key spec r = key) rows),
           if pv_done x then None else err))"

definition history_of :: "decision_event list res \<Rightarrow> history_item list" where
  "history_of h =
     (case h of
        Inl _ \<Rightarrow> []
      | Inr evs \<Rightarrow> map (\<lambda>ev. \<lparr>hi_run = ev_run ev, hi_decision = ev_decision ev, hi_rules = ev_rules ev,
                       hi_reasons = ev_reasons ev, hi_at = rfc3339 (ev_created ev)\<rparr>) evs)"

definition explain_blank :: "sync_spec \<Rightarrow> string \<Rightarrow> explain_output" where
  "explain_blank spec key =
     \<lparr>xo_key = key, xo_sync = sp_name spec, xo_dest = de_type (sp_dest spec), xo_url = de_url (sp_dest spec),
      xo_dest_id = [], xo_idempotency = [], xo_version = 0, xo_last_decision = [], xo_last_status = [],
      xo_updated = [], xo_found = False, xo_decision = [], xo_missing = None, xo_rules = [], xo_changes = [],
      xo_remembered = [], xo_safety = None, xo_history = []\<rparr>"

definition with_state :: "entity_state \<Rightarrow> explain_output \<Rightarrow> explain_output" where
  "with_state es out = out\<lparr>xo_dest_id := es_dest_id es, xo_version := es_version es,
     xo_last_decision := es_decision es, xo_last_status := es_status es, xo_updated := rfc3339 (es_updated es)\<rparr>"

text \<open>An entity with a state and without a row.\<close>

definition explain_missing_action :: "sync_spec \<Rightarrow> string" where
  "explain_missing_action spec =
     (let a = to_lower (om_action (sp_missing spec)) in if a = [] then ''skip'' else a)"

definition explain_missing_decision :: "sync_spec \<Rightarrow> int \<Rightarrow> string \<times> bool" where
  "explain_missing_decision spec consecutive =
     (let threshold = missing_threshold spec; action = explain_missing_action spec in
      if consecutive \<ge> threshold \<and> action = ''delete'' then
        (if \<not> om_allow (sp_missing spec) then (''blocked'', True)
         else if is_archive_destination (de_type (sp_dest spec)) then (''archive'', False) else (''delete'', False))
      else if consecutive \<ge> threshold then (action, False)
      else (''missing ('' @ dec_int consecutive @ ''/'' @ dec_int threshold @ '' runs)'', False))"

definition explain_absent :: "'st preview_env \<Rightarrow> sync_spec \<Rightarrow> string \<Rightarrow> entity_state \<Rightarrow> 'st \<Rightarrow> explain_output" where
  "explain_absent x spec key es st =
     (let n = es_missing es + 1; (verdict, blocked) = explain_missing_decision spec n in
      (with_state es (explain_blank spec key))\<lparr>xo_decision := verdict,
        xo_missing := Some \<lparr>xm_consecutive = n, xm_threshold = missing_threshold spec,
          xm_action = explain_missing_action spec, xm_allow = om_allow (sp_missing spec), xm_blocked = blocked\<rparr>,
        xo_history := history_of (st_decisions (pv_ops x) (sp_name spec) (de_type (sp_dest spec)) key 10 st)\<rparr>)"

definition explain_limits :: "safety_config \<Rightarrow> explain_safety option" where
  "explain_limits sf =
     (if sf_max_creates sf > 0 \<or> sf_max_updates sf > 0 \<or> sf_max_deletes sf > 0 \<or> f64_less (FFin 0) (sf_approval_above sf)
      then Some \<lparr>xl_creates = sf_max_creates sf, xl_updates = sf_max_updates sf, xl_deletes = sf_max_deletes sf,
        xl_approval = sf_approval_above sf\<rparr>
      else None)"

definition default_trace :: "plan \<Rightarrow> rule_trace" where
  "default_trace p = \<lparr>rt_rule = ''(default)'', rt_action = pl_action p, rt_matched = True,
     rt_reason = ''no rules configured, using default'', rt_fired = False, rt_winner = True\<rparr>"

definition explain_present ::
  "'st preview_env \<Rightarrow> sync_spec \<Rightarrow> string \<Rightarrow> payload \<Rightarrow> entity_state option \<Rightarrow> 'st \<Rightarrow> explain_output res" where
  "explain_present x spec key mapped es st =
     (let inp = preview_input spec mapped es; dest = de_type (sp_dest spec) in
      case trace (sp_decisions spec) inp (preview_checker x spec key st) (rfc3339 (pv_now x)) of
        (p, trs, Some e) \<Rightarrow> Inl (ErrWrap ''decision trace'' e)
      | (p, trs, None) \<Rightarrow>
          Inr ((case es of None \<Rightarrow> id | Some s \<Rightarrow> with_state s) (explain_blank spec key)
            \<lparr>xo_idempotency := delivery_op_key (sp_name spec) dest key (pl_action p) (preview_fp spec mapped),
             xo_found := True, xo_decision := pl_action p,
             xo_rules := (if trs = [] then [default_trace p] else trs),
             xo_changes := (if diff_is_empty (in_diff inp) then [] else in_diff inp),
             xo_remembered := (case es of None \<Rightarrow> [] | Some s \<Rightarrow> es_remembered s),
             xo_safety := explain_limits (sp_safety spec),
             xo_history := history_of (st_decisions (pv_ops x) (sp_name spec) dest key 10 st)\<rparr>))"

text \<open>
  \<open>runExplain\<close>; \<open>None\<close>: the entity is neither in the source nor in the state, and the process exits.
  An error of the extraction is only a warning.
\<close>

definition run_explain ::
  "'st preview_env \<Rightarrow> sync_spec res \<Rightarrow> string \<Rightarrow> 'st \<Rightarrow> explain_output option res" where
  "run_explain x loaded key st =
     (case loaded of
        Inl e \<Rightarrow> Inl e
      | Inr spec \<Rightarrow>
          (case pv_open x of
             Some e \<Rightarrow> Inl e
           | None \<Rightarrow>
               (case st_get (pv_ops x) (sp_name spec) (de_type (sp_dest spec)) key st of
                  Inl e \<Rightarrow> Inl e
                | Inr es \<Rightarrow>
                    (case (fst (explain_fetch x spec key), es) of
                       (None, None) \<Rightarrow> Inr None
                     | (None, Some s) \<Rightarrow> Inr (Some (explain_absent x spec key s st))
                     | (Some mapped, _) \<Rightarrow> map_sum id Some (explain_present x spec key mapped es st)))))"

subsection \<open>diff\<close>

record diff_record =
  dr_key :: string
  dr_action :: string
  dr_rules :: "string list"
  dr_fields :: diff_result

record diff_report =
  dp_records :: "diff_record list"
  dp_creates :: int
  dp_updates :: int
  dp_skips :: int
  dp_missing :: int
  dp_seen :: "string list"

definition diff_report_init :: diff_report where
  "diff_report_init = \<lparr>dp_records = [], dp_creates = 0, dp_updates = 0, dp_skips = 0, dp_missing = 0, dp_seen = []\<rparr>"

definition diff_one :: "'st preview_env \<Rightarrow> sync_spec \<Rightarrow> 'st \<Rightarrow> diff_report \<Rightarrow> row \<Rightarrow> diff_report" where
  "diff_one x spec st rep r =
     (let mapped = normalize_payload (preview_mapping (row_data r) (sp_mapping spec)); key = row_entity_key spec r in
      if key = [] \<or> key = ''<nil>'' then rep
      else
        let rep1 = rep\<lparr>dp_seen := insert_key key (dp_seen rep)\<rparr>;
            es = (case st_get (pv_ops x) (sp_name spec) (de_type (sp_dest spec)) key st of Inl _ \<Rightarrow> None | Inr es \<Rightarrow> es);
            inp = preview_input spec mapped es in
        case evaluate (sp_decisions spec) inp (preview_checker x spec key st) (rfc3339 (pv_now x)) of
          Inl _ \<Rightarrow> rep1
        | Inr p \<Rightarrow>
            let rec = \<lparr>dr_key = key, dr_action = pl_action p, dr_rules = pl_rules p,
                       dr_fields = (if es \<noteq> None \<and> \<not> plan_skipped p then in_diff inp else [])\<rparr>;
                rep2 = rep1\<lparr>dp_records := dp_records rep1 @ [rec]\<rparr>
            in if plan_skipped p then rep2\<lparr>dp_skips := dp_skips rep2 + 1\<rparr>
               else if es = None then rep2\<lparr>dp_creates := dp_creates rep2 + 1\<rparr>
               else rep2\<lparr>dp_updates := dp_updates rep2 + 1\<rparr>)"

definition diff_missing_action :: "sync_spec \<Rightarrow> int \<Rightarrow> string" where
  "diff_missing_action spec consecutive =
     (let verb = om_action (sp_missing spec); threshold = missing_threshold spec in
      if verb = [] then ''missing''
      else if consecutive \<ge> threshold then
        ''would-'' @ (if verb = ''delete'' \<and> is_archive_destination (de_type (sp_dest spec)) then ''archive'' else verb)
      else ''missing ('' @ dec_int consecutive @ ''/'' @ dec_int threshold @ '' runs)'')"

definition diff_known :: "sync_spec \<Rightarrow> diff_report \<Rightarrow> entity_state \<Rightarrow> diff_report" where
  "diff_known spec rep es =
     (if es_key es \<in> set (dp_seen rep) then rep
      else rep\<lparr>dp_missing := dp_missing rep + 1,
        dp_records := dp_records rep @ [\<lparr>dr_key = es_key es, dr_action = diff_missing_action spec (es_missing es + 1),
          dr_rules = [], dr_fields = []\<rparr>]\<rparr>)"

text \<open>
  \<open>runDiff\<close>: all rows, then the stored entities that no row had. The loop ends early when the
  context is done; how the extraction ended is not looked at.
\<close>

definition run_diff :: "'st preview_env \<Rightarrow> sync_spec res \<Rightarrow> nat option \<Rightarrow> 'st \<Rightarrow> diff_report res" where
  "run_diff x loaded stop st =
     (case loaded of
        Inl e \<Rightarrow> Inl e
      | Inr spec \<Rightarrow>
          (case validate_sync spec of
             Inl e \<Rightarrow> Inl e
           | Inr _ \<Rightarrow>
               (case pv_open x of
                  Some e \<Rightarrow> Inl e
                | None \<Rightarrow>
                    (case pv_source x (sync_src_to_conn (sp_source spec)) of
                       Inl e \<Rightarrow> Inl e
                     | Inr (rows, _) \<Rightarrow>
                         let seen = (case stop of None \<Rightarrow> rows | Some n \<Rightarrow> take n rows);
                             rep = foldl (diff_one x spec st) diff_report_init seen;
                             known = (case st_list (pv_ops x) (sp_name spec) (de_type (sp_dest spec)) 10000 0 st of
                                        Inl _ \<Rightarrow> [] | Inr es \<Rightarrow> es)
                         in Inr (foldl (diff_known spec) rep known)))))"

section \<open>What the predictions say\<close>

lemma preview_is_engine:
  "preview_mapping = apply_mapping" "preview_fp = row_fingerprint"
  "preview_fp spec mapped = row_fingerprint spec mapped"
  by (auto simp: preview_mapping_def apply_mapping_def preview_fp_def row_fingerprint_def preview_fp_fields_def
      fp_fields_def preview_include_set_def build_fp_include_def fp_exclude_of_def fun_eq_iff)

definition normal_state :: "entity_state option \<Rightarrow> bool" where
  "normal_state es \<longleftrightarrow> (\<forall>s. es = Some s \<longrightarrow> normalize_payload (es_payload s) = es_payload s)"

lemma preview_input_engine: "normal_state es \<Longrightarrow> preview_input spec mapped es = input_of spec mapped es"
  by (cases es) (simp_all add: preview_input_def input_of_def preview_is_engine normal_state_def Let_def)

text \<open>The texts of the time aside, a plan does not depend on when it is made.\<close>

lemma plan_action_now:
  "pl_action (default_plan cfg (plan_for now inp m)) = pl_action (default_plan cfg (plan_for now' inp m))"
  by (cases m) (simp_all add: default_plan_def plan_for_def plan_of_rule_def)

lemma evaluate_action_now:
  assumes "evaluate cfg inp chk now = Inr p"
  shows "\<exists>p'. evaluate cfg inp chk now' = Inr p' \<and> pl_action p' = pl_action p \<and> pl_rules p' = pl_rules p
    \<and> plan_skipped p' = plan_skipped p"
proof -
  have "\<exists>q'. eval_rules chk now' inp rs = Inr q' \<and> pl_action q' = pl_action q \<and> pl_rules q' = pl_rules q"
    if "eval_rules chk now inp rs = Inr q" for rs q
    using that by (induction rs) (auto simp: plan_of_rule_def split: sum.splits prod.splits if_splits)
  then show ?thesis using assms by (fastforce simp: evaluate_def default_plan_def plan_skipped_def map_sum_def split: sum.splits)
qed

subsection \<open>explain\<close>

text \<open>
  Property C39. For an entity that the source gives, explain foretells the run: when its rules can be
  looked up and its stored payload is normalised, explain names the action that the engine decides
  for the row, the idempotency key under which the engine would send it, and as the winning rules
  those of the engine's plan.
\<close>

theorem explain_foretells_run:
  fixes x :: "'st preview_env" and e :: "('st, 'w) run_env"
  assumes "en_ops e = pv_ops x" "en_dest e = de_type (sp_dest (en_spec e))"
    "pv_open x = None" "st_get (pv_ops x) (sp_name (en_spec e)) (en_dest e) key st = Inr es"
    "pv_source x (sync_src_to_conn (sp_source (en_spec e))) = Inr (rows, err)"
    "find (\<lambda>r. row_entity_key (en_spec e) r = key) rows = Some r" "normal_state es"
    "\<forall>rule \<in> set (dc_rules (sp_decisions (en_spec e))). \<exists>b. fired_before (firing_checker e key st) rule = Inr b"
  shows "\<exists>p out. decide e key (mapped_row (en_spec e) (row_data r)) es st = Inr p
    \<and> run_explain x (Inr (en_spec e)) key st = Inr (Some out)
    \<and> xo_found out \<and> xo_decision out = pl_action p
    \<and> xo_idempotency out = row_id (delivery_row e (pending_of e r key (mapped_row (en_spec e) (row_data r)) es p))
    \<and> (dc_rules (sp_decisions (en_spec e)) \<noteq> [] \<longrightarrow> map rt_rule (filter rt_winner (xo_rules out)) = pl_rules p)"
proof -
  let ?spec = "en_spec e"
  let ?m = "mapped_row ?spec (row_data r)"
  have fetch: "fst (explain_fetch x ?spec key) = Some ?m"
    using assms(5,6) by (simp add: explain_fetch_def preview_is_engine mapped_row_def)
  have chk: "preview_checker x ?spec key st = firing_checker e key st"
    using assms(1,2) by (simp add: preview_checker_def firing_checker_def)
  have inp: "preview_input ?spec ?m es = input_of ?spec ?m es" using assms(7) by (rule preview_input_engine)
  obtain q ts where q: "evaluate (sp_decisions ?spec) (input_of ?spec ?m es) (firing_checker e key st) (rfc3339 (pv_now x)) = Inr q"
    "trace (sp_decisions ?spec) (input_of ?spec ?m es) (firing_checker e key st) (rfc3339 (pv_now x)) = (q, ts, None)"
    "map rt_rule ts = map ru_name (dc_rules (sp_decisions ?spec))" "map rt_rule (filter rt_winner ts) = pl_rules q"
    using trace_total [OF assms(8), of "input_of ?spec ?m es" "rfc3339 (pv_now x)"] by blast
  obtain p where p: "decide e key ?m es st = Inr p" "pl_action p = pl_action q" "pl_rules p = pl_rules q"
    using evaluate_action_now [OF q(1), of "rfc3339 (en_now e)"] by (auto simp: decide_def)
  have "ts \<noteq> []" if "dc_rules (sp_decisions ?spec) \<noteq> []" using q(3) that by auto
  then have "\<exists>out. explain_present x ?spec key ?m es st = Inr out \<and> xo_found out \<and> xo_decision out = pl_action p
      \<and> xo_idempotency out = row_id (delivery_row e (pending_of e r key ?m es p))
      \<and> (dc_rules (sp_decisions ?spec) \<noteq> [] \<longrightarrow> map rt_rule (filter rt_winner (xo_rules out)) = pl_rules p)"
    using q(2,4) p(2,3) assms(2)
    by (simp add: explain_present_def chk inp delivery_row_def pending_of_def preview_is_engine with_state_def
        explain_blank_def Let_def split: option.splits)
  then show ?thesis using p(1) assms(2,3,4) fetch by (auto simp: run_explain_def)
qed


lemma sample_row_key: "row_entity_key sample_spec sample_row = ''7''"
  by (simp add: row_entity_key_def sample_row_def sample_spec_def sample_source_def get_or_nil_def dec_int_def dec_pos.simps
      digit_char_def char_of_eq_iff)

lemma ungated: "gated_env no_safety = sample_env 200"
  by (simp add: gated_env_def sample_env_def sample_spec_def)

lemma mem_fired_answers: "en_ops e = mem_ops \<Longrightarrow> \<exists>b. fired_before (firing_checker e key st) rule = Inr b"
  by (cases "ru_once rule") (auto simp: fired_before_def firing_checker_def mem_defs)

definition preview_of :: "('st, 'w) run_env \<Rightarrow> row list \<Rightarrow> 'st preview_env" where
  "preview_of e rows = \<lparr>pv_ops = en_ops e, pv_open = None, pv_source = (\<lambda>_. Inr (rows, None)), pv_done = False,
     pv_now = en_now e\<rparr>"

theorem explain_foretells_run_witness:
  "\<exists>p out. decide (sample_env 200) ''7'' (mapped_row sample_spec (row_data sample_row)) None new_mem_store = Inr p
    \<and> pl_action p = ''create''
    \<and> run_explain (preview_of (sample_env 200) [sample_row]) (Inr sample_spec) ''7'' new_mem_store = Inr (Some out)
    \<and> xo_decision out = ''create''"
proof -
  let ?x = "preview_of (sample_env 200) [sample_row]"
  have e: "en_spec (sample_env 200) = sample_spec" "en_ops (sample_env 200) = mem_ops" "en_dest (sample_env 200) = ''restapi''"
    by (simp_all add: sample_env_def)
  note k = sample_row_key
  have g: "st_get mem_ops (sp_name sample_spec) ''restapi'' ''7'' new_mem_store = Inr None"
    by (simp add: mem_defs new_mem_store_def)
  have f: "\<forall>rule \<in> set (dc_rules (sp_decisions sample_spec)). \<exists>b. fired_before (firing_checker (sample_env 200) ''7'' new_mem_store) rule = Inr b"
    using mem_fired_answers [of "sample_env 200"] by (simp add: sample_env_def)
  have d: "de_type (sp_dest sample_spec) = ''restapi''" by (simp add: sample_spec_def sample_dest_def)
  have "\<exists>p out. decide (sample_env 200) ''7'' (mapped_row (en_spec (sample_env 200)) (row_data sample_row)) None new_mem_store = Inr p
    \<and> run_explain ?x (Inr (en_spec (sample_env 200))) ''7'' new_mem_store = Inr (Some out)
    \<and> xo_found out \<and> xo_decision out = pl_action p
    \<and> xo_idempotency out = row_id (delivery_row (sample_env 200) (pending_of (sample_env 200) sample_row ''7''
        (mapped_row (en_spec (sample_env 200)) (row_data sample_row)) None p))
    \<and> (dc_rules (sp_decisions (en_spec (sample_env 200))) \<noteq> [] \<longrightarrow> map rt_rule (filter rt_winner (xo_rules out)) = pl_rules p)"
    using k g d f
    by (intro explain_foretells_run [where rows = "[sample_row]" and err = None]) (simp_all add: e preview_of_def normal_state_def)
  then obtain p out where r: "decide (sample_env 200) ''7'' (mapped_row sample_spec (row_data sample_row)) None new_mem_store = Inr p"
    "run_explain ?x (Inr sample_spec) ''7'' new_mem_store = Inr (Some out)" "xo_decision out = pl_action p"
    unfolding e by blast
  have "map_sum id pl_action (decide (sample_env 200) ''7'' (mapped_row sample_spec (row_data sample_row)) None new_mem_store)
      = Inr ''create''" using sample_decide [of no_safety] by (simp add: ungated)
  then show ?thesis using r by auto
qed

text \<open>
  explain cannot tell a source it could not reach from one without the row: for an
  entity with a state both give the report of a missing entity, one more missing run than stored,
  and with the threshold reached and destructive actions allowed the verdict delete or archive. The
  stored payload is never explained.
\<close>

lemma explain_unreachable_is_missing:
  assumes "pv_open x = None" "st_get (pv_ops x) (sp_name spec) (de_type (sp_dest spec)) key st = Inr (Some es)"
    "pv_source x (sync_src_to_conn (sp_source spec)) = Inl err"
  shows "\<exists>out. run_explain x (Inr spec) key st = Inr (Some out)
    \<and> run_explain (x\<lparr>pv_source := (\<lambda>_. Inr ([], None))\<rparr>) (Inr spec) key st = Inr (Some out)
    \<and> \<not> xo_found out \<and> map_option xm_consecutive (xo_missing out) = Some (es_missing es + 1)
    \<and> (es_missing es + 1 \<ge> missing_threshold spec \<and> to_lower (om_action (sp_missing spec)) = ''delete'' \<and> om_allow (sp_missing spec)
        \<longrightarrow> xo_decision out = (if de_type (sp_dest spec) = ''hubspot'' then ''archive'' else ''delete''))"
  using assms
  by (auto simp: run_explain_def explain_fetch_def explain_absent_def explain_missing_decision_def explain_missing_action_def
      is_archive_destination_def with_state_def explain_blank_def Let_def split: prod.splits)

definition kept_entity :: entity_state where
  "kept_entity = \<lparr>es_sync = ''crm'', es_dest = ''restapi'', es_key = ''7'', es_dest_id = [], es_fp = ''f'', es_prev_fp = [],
     es_payload = [(''id'', GInt 7)], es_prev_payload = [], es_remembered = [], es_decision = ''create'', es_status = ''success'',
     es_missing = 0, es_version = 1, es_created = 1, es_updated = 1\<rparr>"

lemma explain_unreachable_is_missing_witness:
  "\<exists>st out. st_get mem_ops ''crm'' ''restapi'' ''7'' st = Inr (Some kept_entity)
    \<and> run_explain \<lparr>pv_ops = mem_ops, pv_open = None, pv_source = (\<lambda>_. Inl (ErrMsg ''connection refused'')), pv_done = False,
        pv_now = 5\<rparr> (Inr (sample_spec\<lparr>sp_missing := (sp_missing sample_spec)\<lparr>om_allow := True\<rparr>\<rparr>)) ''7'' st = Inr (Some out)
    \<and> xo_decision out = ''delete''"
proof -
  let ?spec = "sample_spec\<lparr>sp_missing := (sp_missing sample_spec)\<lparr>om_allow := True\<rparr>\<rparr>"
  let ?x = "\<lparr>pv_ops = mem_ops, pv_open = None, pv_source = (\<lambda>_. Inl (ErrMsg ''connection refused'')), pv_done = False,
     pv_now = 5\<rparr>"
  let ?st = "new_mem_store\<lparr>ms_entities := [(entity_state_key ''crm'' ''restapi'' ''7'', kept_entity)]\<rparr>"
  have g: "st_get mem_ops ''crm'' ''restapi'' ''7'' ?st = Inr (Some kept_entity)" by (simp add: mem_defs)
  have n: "sp_name ?spec = ''crm''" "de_type (sp_dest ?spec) = ''restapi''"
    by (simp_all add: sample_spec_def sample_dest_def)
  have a: "to_lower ''delete'' = ''delete''" by code_simp
  have m: "missing_threshold ?spec = 1" "om_action (sp_missing ?spec) = ''delete''" "om_allow (sp_missing ?spec)"
    by (simp_all add: missing_threshold_def sample_spec_def)
  have x: "pv_open ?x = None" "st_get (pv_ops ?x) (sp_name ?spec) (de_type (sp_dest ?spec)) ''7'' ?st = Inr (Some kept_entity)"
    "pv_source ?x (sync_src_to_conn (sp_source ?spec)) = Inl (ErrMsg ''connection refused'')"
    unfolding n using g by simp_all
  obtain out where "run_explain ?x (Inr ?spec) ''7'' ?st = Inr (Some out)" "xo_decision out = ''delete''"
    using explain_unreachable_is_missing [OF x] unfolding m n a by (auto simp: kept_entity_def)
  then show ?thesis using g by blast
qed

subsection \<open>diff\<close>

text \<open>A row of the run and a row of the difference, over stores that answer alike.\<close>

definition answers_alike :: "'st store_ops \<Rightarrow> string \<Rightarrow> string \<Rightarrow> 'st \<Rightarrow> 'st \<Rightarrow> bool" where
  "answers_alike ops sy d a b \<longleftrightarrow>
     (\<forall>k. st_get ops sy d k a = st_get ops sy d k b \<and> (\<forall>ru. st_has_fired ops sy d k ru a = st_has_fired ops sy d k ru b))"

definition shown :: "diff_report \<Rightarrow> (string \<times> string) list" where
  "shown rep = map (\<lambda>d. (dr_key d, dr_action d)) (filter (\<lambda>d. dr_action d \<noteq> ''skip'') (dp_records rep))"

definition planned :: "('st, 'w) run_state \<Rightarrow> (string \<times> string) list" where
  "planned s = map (\<lambda>pd. (pd_key pd, pl_action (pd_plan pd))) (rn_pending s)"

lemma mem_record_alike: "answers_alike mem_ops sy d (snd (st_record mem_ops now ev st)) st"
  by (simp add: answers_alike_def mem_defs)

lemma diff_one_row:
  fixes x :: "mem_store preview_env" and e :: "(mem_store, 'w) run_env"
  assumes "pv_ops x = mem_ops" "en_ops e = mem_ops" "en_spec e = spec" "en_dest e = de_type (sp_dest spec)"
    "sp_required spec = []" "answers_alike mem_ops (sp_name spec) (en_dest e) (rn_store s) st"
    "\<forall>k es. st_get mem_ops (sp_name spec) (en_dest e) k st = Inr es \<longrightarrow> normal_state es"
    "shown rep = planned s" "dp_seen rep = rn_seen s"
  shows "answers_alike mem_ops (sp_name spec) (en_dest e) (rn_store (process_row e r s)) st
    \<and> shown (diff_one x spec st rep r) = planned (process_row e r s)
    \<and> dp_seen (diff_one x spec st rep r) = rn_seen (process_row e r s)"
proof -
  let ?m = "mapped_row spec (row_data r)" and ?k = "row_entity_key spec r"
  have m: "normalize_payload (preview_mapping (row_data r) (sp_mapping spec)) = ?m"
    by (simp add: preview_is_engine mapped_row_def)
  have req: "missing_required (row_data r) (sp_required spec) = []" by (simp add: assms(5) missing_required_def)
  show ?thesis
  proof (cases "?k = [] \<or> ?k = ''<nil>''")
    case True
    then show ?thesis using assms(3,6,8,9) req
      by (auto simp: diff_one_def process_row_def row_entity_key_def planned_def Let_def run_defs)
  next
    case False
    obtain es where g: "st_get mem_ops (sp_name spec) (en_dest e) ?k st = Inr es" by (simp add: mem_defs)
    have gs: "st_get mem_ops (sp_name spec) (en_dest e) ?k (rn_store s) = Inr es"
      using assms(6) g by (simp add: answers_alike_def)
    have chk: "preview_checker x spec ?k st = firing_checker e ?k (rn_store s)"
      using assms(1-4,6) by (simp add: preview_checker_def firing_checker_def answers_alike_def)
    have inp: "preview_input spec ?m es = input_of spec ?m es" using assms(7) g by (blast intro: preview_input_engine)
    have tot: "\<forall>rule \<in> set (dc_rules (sp_decisions spec)). \<exists>b. fired_before (firing_checker e ?k (rn_store s)) rule = Inr b"
      using mem_fired_answers [OF assms(2)] by blast
    obtain p where p: "evaluate (sp_decisions spec) (input_of spec ?m es) (firing_checker e ?k (rn_store s)) (rfc3339 (en_now e)) = Inr p"
      using trace_total [OF tot] by blast
    obtain q where q: "evaluate (sp_decisions spec) (input_of spec ?m es) (firing_checker e ?k (rn_store s)) (rfc3339 (pv_now x)) = Inr q"
      "pl_action q = pl_action p" "plan_skipped q = plan_skipped p"
      using evaluate_action_now [OF p, of "rfc3339 (pv_now x)"] by blast
    have dec: "decide e ?k ?m es (rn_store s) = Inr p" using p by (simp add: decide_def assms(3))
    have skip: "plan_skipped p \<longleftrightarrow> pl_action p = ''skip''" by (simp add: plan_skipped_def)
    let ?rec = "\<lparr>dr_key = ?k, dr_action = pl_action p, dr_rules = pl_rules q,
      dr_fields = (if es \<noteq> None \<and> \<not> plan_skipped q then in_diff (input_of spec ?m es) else [])\<rparr>"
    have d: "dp_records (diff_one x spec st rep r) = dp_records rep @ [?rec]"
        "dp_seen (diff_one x spec st rep r) = insert_key ?k (dp_seen rep)"
      using False g q(1,2) assms(1,4) by (simp_all add: diff_one_def m chk inp Let_def)
    have st: "rn_store (process_row e r s)
        = snd (st_record mem_ops (en_now e) (decision_event_of e ?k p) (rn_store s))"
      and pend: "planned (process_row e r s) = planned s @ (if plan_skipped p then [] else [(?k, pl_action p)])"
      and seen: "rn_seen (process_row e r s) = insert_key ?k (rn_seen s)"
      using False gs dec req assms(2,3)
      by (auto simp: process_row_def row_entity_key_def planned_def pending_of_def Let_def run_defs)
    have "answers_alike mem_ops (sp_name spec) (en_dest e) (rn_store (process_row e r s)) st"
      using mem_record_alike assms(6) unfolding st by (auto simp: answers_alike_def)
    moreover have "shown (diff_one x spec st rep r) = shown rep @ (if plan_skipped p then [] else [(?k, pl_action p)])"
      using d(1) skip by (simp add: shown_def)
    ultimately show ?thesis using pend seen d(2) assms(8,9) by simp
  qed
qed

lemma diff_rows:
  fixes x :: "mem_store preview_env" and e :: "(mem_store, 'w) run_env"
  assumes "pv_ops x = mem_ops" "en_ops e = mem_ops" "en_spec e = spec" "en_dest e = de_type (sp_dest spec)"
    "sp_required spec = []"
    "\<forall>k es. st_get mem_ops (sp_name spec) (en_dest e) k st = Inr es \<longrightarrow> normal_state es"
  shows "answers_alike mem_ops (sp_name spec) (en_dest e) (rn_store s) st \<Longrightarrow> shown rep = planned s
      \<Longrightarrow> dp_seen rep = rn_seen s \<Longrightarrow> sy_ctx (rn_sys s) = None
    \<Longrightarrow> shown (foldl (diff_one x spec st) rep rows) = planned (phase1 e rows s)
      \<and> dp_seen (foldl (diff_one x spec st) rep rows) = rn_seen (phase1 e rows s)"
proof (induction rows arbitrary: rep s)
  case (Cons r rows)
  have "sy_ctx (rn_sys (process_row e r s)) = None" using Cons.prems(4) by simp
  then show ?case
    using Cons.IH [of "process_row e r s" "diff_one x spec st rep r"] Cons.prems
      diff_one_row [OF assms(1-5) Cons.prems(1) assms(6) Cons.prems(2,3)]
    by (simp add: run_poll_live)
qed simp

lemma diff_known_frame:
  "dp_seen (diff_known spec rep es) = dp_seen rep"
  "es_key es \<notin> set (dp_seen rep) \<Longrightarrow>
     \<exists>d. dp_records (diff_known spec rep es) = dp_records rep @ [d] \<and> dr_key d = es_key es"
  by (simp_all add: diff_known_def)

lemma diff_known_records:
  "\<exists>gone. dp_records (foldl (diff_known spec) rep known) = dp_records rep @ gone
     \<and> map dr_key gone = map es_key (filter (\<lambda>es. es_key es \<notin> set (dp_seen rep)) known)"
proof (induction known arbitrary: rep)
  case (Cons es known)
  obtain gone where g: "dp_records (foldl (diff_known spec) (diff_known spec rep es) known) = dp_records (diff_known spec rep es) @ gone"
    "map dr_key gone = map es_key (filter (\<lambda>es. es_key es \<notin> set (dp_seen rep)) known)"
    using Cons.IH [of "diff_known spec rep es"] by (auto simp: diff_known_frame)
  show ?case
  proof (cases "es_key es \<in> set (dp_seen rep)")
    case True
    then have "diff_known spec rep es = rep" by (simp add: diff_known_def)
    then show ?thesis using g True by auto
  next
    case False
    then obtain d where "dp_records (diff_known spec rep es) = dp_records rep @ [d]" "dr_key d = es_key es"
      using diff_known_frame(2) [OF False] by blast
    then show ?thesis using g False by (intro exI [of _ "d # gone"]) simp
  qed
qed simp

text \<open>
  Property C40. The rows that diff shows as changing are the deliveries that the first pass of a run
  over the same rows and store makes pending: the same keys with the same actions in the same order,
  for every sync without required fields whose stored payloads are normalised; after them diff lists
  the stored entities whose key the first pass has not seen.
\<close>

theorem diff_predicts_run:
  fixes x :: "mem_store preview_env" and e :: "(mem_store, 'w) run_env"
  assumes "pv_ops x = mem_ops" "pv_open x = None" "validate_sync spec = Inr ()"
    "pv_source x (sync_src_to_conn (sp_source spec)) = Inr (rows, err)"
    "en_ops e = mem_ops" "en_spec e = spec" "en_dest e = de_type (sp_dest spec)" "sp_required spec = []"
    "\<forall>k es. st_get mem_ops (sp_name spec) (en_dest e) k (rn_store s) = Inr es \<longrightarrow> normal_state es"
    "sy_ctx (rn_sys s) = None" "rn_pending s = []" "rn_seen s = []"
  shows "\<exists>rep recs gone. run_diff x (Inr spec) None (rn_store s) = Inr rep \<and> dp_records rep = recs @ gone
    \<and> map (\<lambda>d. (dr_key d, dr_action d)) (filter (\<lambda>d. dr_action d \<noteq> ''skip'') recs)
      = map (\<lambda>pd. (pd_key pd, pl_action (pd_plan pd))) (rn_pending (phase1 e rows s))
    \<and> (\<forall>d \<in> set gone. dr_key d \<notin> set (rn_seen (phase1 e rows s)))"
proof -
  let ?st = "rn_store s"
  let ?rep = "foldl (diff_one x spec ?st) diff_report_init rows"
  let ?known = "case st_list mem_ops (sp_name spec) (de_type (sp_dest spec)) 10000 0 ?st of Inl _ \<Rightarrow> [] | Inr es \<Rightarrow> es"
  have r: "shown ?rep = planned (phase1 e rows s)" "dp_seen ?rep = rn_seen (phase1 e rows s)"
    using diff_rows [OF assms(1,5-9), of s diff_report_init rows] assms(10-12)
    by (simp_all add: answers_alike_def shown_def planned_def diff_report_init_def)
  obtain gone where g: "dp_records (foldl (diff_known spec) ?rep ?known) = dp_records ?rep @ gone"
    "map dr_key gone = map es_key (filter (\<lambda>es. es_key es \<notin> set (dp_seen ?rep)) ?known)"
    using diff_known_records by blast
  have "run_diff x (Inr spec) None ?st = Inr (foldl (diff_known spec) ?rep ?known)"
    using assms(1-4) by (simp add: run_diff_def Let_def)
  moreover have "\<forall>d \<in> set gone. dr_key d \<notin> set (dp_seen ?rep)"
  proof
    fix d assume "d \<in> set gone"
    then have "dr_key d \<in> set (map es_key (filter (\<lambda>es. es_key es \<notin> set (dp_seen ?rep)) ?known))"
      unfolding g(2) [symmetric] by simp
    then show "dr_key d \<notin> set (dp_seen ?rep)" by auto
  qed
  ultimately show ?thesis using g(1) r
    by (intro exI [of _ "foldl (diff_known spec) ?rep ?known"] exI [of _ "dp_records ?rep"] exI [of _ gone])
      (simp add: shown_def planned_def)
qed

theorem diff_predicts_run_witness:
  "\<exists>rep recs gone. run_diff (preview_of (sample_env 200) [sample_row]) (Inr sample_spec) None new_mem_store = Inr rep
    \<and> dp_records rep = recs @ gone
    \<and> map (\<lambda>d. (dr_key d, dr_action d)) (filter (\<lambda>d. dr_action d \<noteq> ''skip'') recs)
      = map (\<lambda>pd. (pd_key pd, pl_action (pd_plan pd))) (rn_pending (phase1 (sample_env 200) [sample_row] sample_state))
    \<and> map (\<lambda>pd. pl_action (pd_plan pd)) (rn_pending (phase1 (sample_env 200) [sample_row] sample_state)) = [''create'']"
proof -
  let ?x = "preview_of (sample_env 200) [sample_row]"
  have st: "rn_store sample_state = new_mem_store" "sy_ctx (rn_sys sample_state) = None" "rn_pending sample_state = []"
    "rn_seen sample_state = []"
    by (simp_all add: sample_state_def sample_sys_def run_init_def)
  have e: "en_spec (sample_env 200) = sample_spec" "en_ops (sample_env 200) = mem_ops" "en_dest (sample_env 200) = ''restapi''"
    by (simp_all add: sample_env_def)
  have d: "de_type (sp_dest sample_spec) = ''restapi''" "sp_required sample_spec = []"
    by (simp_all add: sample_spec_def sample_dest_def)
  have v: "validate_sync sample_spec = Inr ()" by code_simp
  have n: "\<forall>k es. st_get mem_ops (sp_name sample_spec) ''restapi'' k new_mem_store = Inr es \<longrightarrow> normal_state es"
    by (simp add: mem_defs new_mem_store_def normal_state_def)
  have x: "pv_ops ?x = mem_ops" "pv_open ?x = None"
    "pv_source ?x (sync_src_to_conn (sp_source sample_spec)) = Inr ([sample_row], None)"
    by (simp_all add: preview_of_def e)
  show ?thesis
    using diff_predicts_run [OF x(1,2) v x(3) e(2,1), of sample_state] sample_decides [of no_safety]
    unfolding st e d ungated using n by auto
qed

end
