(* ===== verification/Spec2Isabelle.thy ===== *)
theory Spec2Isabelle
  imports Prelude Go_Value Config Fingerprint Diff Decision Safety Expr Steps State_Store Sqlite_Store Lru Http Artifacts Delivery Engine
    Http_Request Rest_Api Slack Store_Laws Engine_Decide Engine_Deliver Engine_Missing Engine_Run Engine_Props Sample Postgres_Store Registry Go_Time Source_Sql Postgres_Source Mysql_Source Json Rest_Source Dest_Common Postgres_Dest Dest_Engine Mysql_Dest
    Api_Call Crm_Dest Batch_Dest Hubspot Salesforce
    Snowflake_Source Bigquery_Source Snowflake_Dest
    Replay Preview
begin

text \<open>
  Vortara: a reverse-ETL engine. A run extracts rows from a source, decides for each row by
  rules over what changed since the last run, delivers the chosen rows to a destination, and
  remembers in a state store what it did. This development models the program's own logic, from
  the configuration to the run, and states what makes it correct.

  How the parts interact. \<open>internal/engine/run.go\<close> (\<open>Engine.run_once\<close>) takes the lock of the
  sync and opens a run and a batch in the state store. Its first pass (\<open>phase1\<close>) maps and
  fingerprints every row, reads the entity's state, diffs it with the row and asks the decision
  engine for a plan; its safety gates (\<open>safety_gate\<close>) may stop the run; its second pass
  (\<open>phase2\<close>) hands each pending row to the destination under an idempotency key and saves the
  outcome; a third pass (\<open>missing_pages\<close>) treats the entities the source did not give; then the
  batch is committed (\<open>close_run\<close>) and the lock released (\<open>finish_deferred\<close>).

  Theories and code.
  \<^item> \<open>Prelude\<close>, \<open>Go_Value\<close>, \<open>Sha256\<close>: the Go the source uses. Maps are association lists
    without duplicate keys, whose order stands for the iteration order; strings are byte lists;
    \<open>interface{}\<close> values are the datatype \<open>gval\<close>; \<open>float64\<close> is a rational rounded to 53 bits, a NaN or
    an infinity; \<open>%v\<close> and \<open>json.Marshal\<close> are written out; a context is an optional number of
    polls after which it is done; errors are values.
  \<^item> \<open>Config\<close>, \<open>Conn_Config\<close>: \<open>pkg/config/sync\<close> and \<open>pkg/config\<close>: the YAML model, environment
    expansion, defaults, validation, and the conversion to connector configurations. The YAML
    decoder is a parameter.
  \<^item> \<open>Fingerprint\<close>, \<open>Diff\<close>, \<open>Decision\<close>, \<open>Safety\<close>: the packages of those names: canonical
    encoding and hash, payload diff, rule evaluation and trace, caps, ratios and approvals.
  \<^item> \<open>Expr\<close>, \<open>Steps\<close>: \<open>internal/steps\<close>: the condition language (lexer, parser, evaluator) and the
    transform steps.
  \<^item> \<open>State_Store\<close>, \<open>Sqlite_Store\<close>, \<open>Postgres_Store\<close>, \<open>Store_Laws\<close>: \<open>internal/state\<close>. The interface
    is a record of operations (\<open>store_ops\<close>); its contract is the locale \<open>state_store\<close>, a refinement of
    an abstract store of entities, firings, deliveries, a batch and locks. The memory, the SQLite
    and the PostgreSQL store interpret it (\<open>mem\<close>, \<open>sqlite\<close>, \<open>postgres\<close>); \<open>Store_Laws\<close> compares them
    in the locale \<open>store_pair\<close>. \<open>Registry\<close>: the registries and the choice of the state store.
  \<^item> \<open>Json\<close>: \<open>encoding/json\<close> as the program decodes with it, and that it reads back what
    \<open>json.Marshal\<close> writes. \<open>Go_Time\<close>: \<open>time.Parse\<close> for the layouts of the sources, and the calendar.
  \<^item> \<open>Source_Sql\<close>, \<open>Postgres_Source\<close>, \<open>Mysql_Source\<close>, \<open>Rest_Source\<close>: \<open>internal/connector/source\<close>. An
    extraction is a state (\<open>ext\<close>) of context, outside world and rows sent; the server or client is a
    record of parameters. The statements are values (PostgreSQL) or texts with arguments (MySQL),
    and what a server answers to them is a named hypothesis (\<open>serves_pages\<close>, \<open>serves_ranges\<close>,
    \<open>serves_window\<close>) that concrete servers satisfy.
  \<^item> \<open>Lru\<close>, \<open>Http\<close>, \<open>Http_Request\<close>: \<open>internal/cache\<close> and \<open>internal/connector/http\<close>: the cache, the
    retry loop with its 64-bit backoff, the circuit breaker, the rate limiter, the token cache.
  \<^item> \<open>Artifacts\<close>, \<open>Delivery\<close>: run artifacts; rows, load results and the contract of a destination,
    the locale \<open>destination\<close> (it extends \<open>state_store\<close>): a delivered row is not sent, a loaded row is
    marked, loading leaves entities and firings alone, and every row is counted once.
  \<^item> \<open>Rest_Api\<close>, \<open>Slack\<close>: two destinations, each an interpretation of \<open>destination\<close> over both
    stores, and the printing destination of the dry-run command. The network, the clock and the
    token server are the fields of \<open>http_env\<close>.
  \<^item> \<open>Engine\<close>: \<open>internal/engine\<close>, over a record of store operations and a destination.
    \<open>Engine_Decide\<close>, \<open>Engine_Deliver\<close>, \<open>Engine_Missing\<close>, \<open>Engine_Run\<close> hold what is true of each
    pass (frames, accounting, caps, marks, termination) and \<open>Engine_Props\<close> the properties of the
    run. \<open>Sample\<close> holds the concrete inputs the properties are applied to.

  What the lemmas show. Each component has its functional behaviour on every branch; state
  machines (breaker, limiter, cache) have invariants over all reachable states; the two stores
  refine one abstract store; the destinations keep one contract; and the properties of the run
  follow from the contracts through the interpretations.

  Bounds and fuel. The expression parser gets fuel linear in the text, and the proof shows that
  it suffices. The pages of the missing-entity pass take one unit each; over the memory store
  enough fuel exists and more is as good. The JSON parser needs two units per byte. The pages of a
  source take one unit each; the properties say how much suffices and when none does. All other loops are structural or have measures.
  Backoffs are computed in 64-bit words. A run is sequential, as the code is; the mutexes of the
  cache, the limiter and the breaker make each operation atomic and are not modelled further.

  Not modelled. The sources and the destinations of the other vendors, metrics and logging, the
  commands beyond the dry-run destination, and the HTTP API: SQL and vendor APIs, wiring, input
  and output around what is modelled here. The run takes its extracted rows as a parameter.
  Strings in payloads are taken to be valid UTF-8, which \<open>encoding/json\<close> would otherwise replace.
\<close>

end
